(* ===== verification/Prelude.thy ===== *)
theory Prelude
  imports Complex_Main "HOL-Library.Multiset" "HOL-Library.AList" "HOL-Library.Product_Lexorder"
    "HOL-Library.List_Lexorder" "HOL-Library.Char_ord"
begin

text \<open>
  Shared vocabulary of the development: Python exceptions as values of the sum type
  \<open>pyerr + 'a\<close>, sequencing of fallible steps (\<open>bindR\<close>), loops over a list that stop at the
  first exception (\<open>foldR\<close>, \<open>mapR\<close>), insertion ordered dicts as association lists,
  \<open>itertools.batched\<close> and the inclusive range \<open>sequence\<close> of \<open>src/utils/range.py\<close>.
\<close>

section \<open>Collections of facts\<close>

named_theorems res_simps \<open>rewriting of results of fallible steps\<close>
named_theorems inv_intros \<open>preservation of component invariants\<close>

section \<open>Exceptions and results\<close>

text \<open>
  The built-in exceptions the code raises or triggers, then the classes it declares.
  \<open>NotOkResponse\<close> carries the HTTP status. \<open>IncompleteEpochRange\<close> carries the missing epochs.
\<close>

datatype pyerr =
    ValueError | KeyError | IndexError | ZeroDivisionError | OverflowError | TypeError
  | RuntimeError | AssertionError | SystemExit | AttributeError
  | NotOkResponse int | NoSlotsAvailable | SlotNotFinalized | InconsistentData
  | InconsistentEvents | WrongExitPeriod | NodeOperatorAlreadyGroupedError
  | NodeOperatorExpectedToBeInCMv1Error | WeightsNotUpdatedError
  | InvalidCuratedModuleConfigError | InvalidState | IncompatibleOracleVersion
  | ContractVersionMismatch | IsNotMemberException | SMPerformanceOracleError
  | CountOfKeysDiffersException | KAPIInconsistentData | IPFSError | MaxRetryError
  | NoMoreProvidersError | ProviderConsistencyError | SlotOutOfRootsRange
  | IncompleteEpochRange "int list" | RpcError
  | ContractCustomError string | KeysOutdatedException | TimeoutError | NoActiveProviderError
  | InvalidOperation | RequestsConnectionError | Web3Exception | ContractLogicError | TimeExhausted
  | FetchError | UploadError | CIDValidationError | PinError
  | NoHostsProvided | InconsistentProviders | NotHealthyProvider | IncompatibleException
  | NeitherSlotDurationFieldPresent | UnsupportedSlotDuration | InconsistentSlotDuration
  | DecodeToDataclassException | NotConfiguredError | DelegateMismatchError

type_synonym 'a res = "pyerr + 'a"

text \<open>The subclasses of \<open>IPFSError\<close>, of \<open>ValueError\<close> and of \<open>ContractLogicError\<close>.\<close>

definition is_ipfs_error :: "pyerr \<Rightarrow> bool" where
  "is_ipfs_error e \<longleftrightarrow> e \<in> {IPFSError, FetchError, UploadError, CIDValidationError, PinError, MaxRetryError,
     NoMoreProvidersError, ProviderConsistencyError}"

fun is_value_error :: "pyerr \<Rightarrow> bool" where
  "is_value_error ValueError = True"
| "is_value_error InvalidState = True"
| "is_value_error (IncompleteEpochRange _) = True"
| "is_value_error _ = False"

fun is_logic_error :: "pyerr \<Rightarrow> bool" where
  "is_logic_error ContractLogicError = True"
| "is_logic_error (ContractCustomError _) = True"
| "is_logic_error _ = False"

fun bindR :: "'a res \<Rightarrow> ('a \<Rightarrow> 'b res) \<Rightarrow> 'b res" where
  "bindR (Inl e) f = Inl e"
| "bindR (Inr a) f = f a"

definition guardR :: "bool \<Rightarrow> pyerr \<Rightarrow> unit res" where
  "guardR b e = (if b then Inr () else Inl e)"

definition is_ok :: "'a res \<Rightarrow> bool" where
  "is_ok r = (case r of Inl _ \<Rightarrow> False | Inr _ \<Rightarrow> True)"

lemma bindR_cong [fundef_cong]:
  "m = m' \<Longrightarrow> (\<And>a. m' = Inr a \<Longrightarrow> f a = g a) \<Longrightarrow> bindR m f = bindR m' g"
  by (cases m') auto

text \<open>Evaluation sees a case distinction, so a continuation is only entered once its argument is known.\<close>

lemma bindR_case [code_unfold]: "bindR m f = (case m of Inl e \<Rightarrow> Inl e | Inr a \<Rightarrow> f a)"
  by (cases m) simp_all

lemma bindR_eq_Inr [res_simps]:
  "bindR m f = Inr b \<longleftrightarrow> (\<exists>a. m = Inr a \<and> f a = Inr b)"
  by (cases m) auto

lemma bindR_eq_Inl [res_simps]:
  "bindR m f = Inl e \<longleftrightarrow> m = Inl e \<or> (\<exists>a. m = Inr a \<and> f a = Inl e)"
  by (cases m) auto

lemma bindR_assoc: "bindR (bindR m f) g = bindR m (\<lambda>a. bindR (f a) g)"
  by (cases m) auto

lemma guardR_eq [res_simps]:
  "guardR b e = Inr u \<longleftrightarrow> b"
  "guardR b e = Inl e' \<longleftrightarrow> \<not> b \<and> e' = e"
  by (auto simp: guardR_def)

lemma guardR_simps [simp]: "guardR True e = Inr ()" "guardR False e = Inl e"
  by (simp_all add: guardR_def)

lemma is_ok_simps [simp]: "is_ok (Inl e) = False" "is_ok (Inr a) = True"
  by (simp_all add: is_ok_def)

lemma is_ok_iff: "is_ok r \<longleftrightarrow> (\<exists>a. r = Inr a)"
  by (cases r) auto

lemma not_is_ok_iff: "\<not> is_ok r \<longleftrightarrow> (\<exists>e. r = Inl e)"
  by (cases r) auto

section \<open>Results that may not return\<close>

text \<open>A loop without a bound of its own yields an option; \<open>None\<close> is a call that does not return.\<close>

definition bindO :: "'a res option \<Rightarrow> ('a \<Rightarrow> 'b res option) \<Rightarrow> 'b res option" where
  "bindO m f = (case m of None \<Rightarrow> None | Some (Inl e) \<Rightarrow> Some (Inl e) | Some (Inr a) \<Rightarrow> f a)"

lemma bindO_eq [res_simps]: "bindO m f = Some (Inr b) \<longleftrightarrow> (\<exists>a. m = Some (Inr a) \<and> f a = Some (Inr b))"
  by (auto simp: bindO_def split: option.splits sum.splits)

lemma bindO_simps [simp]: "bindO (Some (Inr a)) f = f a" "bindO (Some (Inl e)) f = Some (Inl e)"
  by (simp_all add: bindO_def)

section \<open>Loops over lists with early exit\<close>

fun foldR :: "('a \<Rightarrow> 's \<Rightarrow> 's res) \<Rightarrow> 'a list \<Rightarrow> 's \<Rightarrow> 's res" where
  "foldR f [] s = Inr s"
| "foldR f (x # xs) s = bindR (f x s) (foldR f xs)"

fun mapR :: "('a \<Rightarrow> 'b res) \<Rightarrow> 'a list \<Rightarrow> 'b list res" where
  "mapR f [] = Inr []"
| "mapR f (x # xs) = bindR (f x) (\<lambda>y. bindR (mapR f xs) (\<lambda>ys. Inr (y # ys)))"

lemma foldR_cong [fundef_cong]:
  "xs = ys \<Longrightarrow> s = t \<Longrightarrow> (\<And>x s. x \<in> set ys \<Longrightarrow> f x s = g x s) \<Longrightarrow> foldR f xs s = foldR g ys t"
proof (induction ys arbitrary: xs s t)
  case Nil
  then show ?case by simp
next
  case (Cons y ys)
  then show ?case by (auto intro: bindR_cong)
qed

lemma foldR_append: "foldR f (xs @ ys) s = bindR (foldR f xs s) (foldR f ys)"
proof (induction xs arbitrary: s)
  case Nil
  then show ?case by simp
next
  case (Cons x xs)
  then show ?case by (cases "f x s") auto
qed

lemma foldR_invariant:
  assumes "foldR f xs s = Inr s'" and "P s"
    and "\<And>x s s'. x \<in> set xs \<Longrightarrow> P s \<Longrightarrow> f x s = Inr s' \<Longrightarrow> P s'"
  shows "P s'"
  using assms
proof (induction xs arbitrary: s)
  case Nil
  then show ?case by simp
next
  case (Cons x xs)
  from Cons.prems(1) obtain t where t: "f x s = Inr t" "foldR f xs t = Inr s'"
    by (auto simp: res_simps)
  from Cons.prems(3)[of x s t] Cons.prems(2) t(1) have "P t" by simp
  then show ?case
    by (rule Cons.IH[OF t(2)]) (auto intro: Cons.prems(3))
qed

text \<open>The invariant may speak of the part of the list already processed.\<close>

lemma foldR_prefix_invariant:
  assumes "foldR f xs s = Inr s'" and "P [] s"
    and "\<And>ys x zs s s'. xs = ys @ x # zs \<Longrightarrow> P ys s \<Longrightarrow> f x s = Inr s' \<Longrightarrow> P (ys @ [x]) s'"
  shows "P xs s'"
  using assms
proof (induction xs arbitrary: s' rule: rev_induct)
  case Nil
  then show ?case by simp
next
  case (snoc x xs)
  from snoc.prems(1) obtain t where t: "foldR f xs s = Inr t" "f x t = Inr s'"
    by (auto simp: foldR_append res_simps)
  have "P xs t"
    by (rule snoc.IH[OF t(1) snoc.prems(2)]) (auto intro: snoc.prems(3))
  with snoc.prems(3)[of xs x "[]" t s'] t(2) show ?case by simp
qed

lemma foldR_total:
  assumes "P s" and "\<And>x s. x \<in> set xs \<Longrightarrow> P s \<Longrightarrow> \<exists>s'. f x s = Inr s' \<and> P s'"
  shows "\<exists>s'. foldR f xs s = Inr s' \<and> P s'"
  using assms
proof (induction xs arbitrary: s)
  case Nil
  then show ?case by simp
next
  case (Cons x xs)
  from Cons.prems(2)[of x s] Cons.prems(1) obtain t where "f x s = Inr t" "P t" by auto
  with Cons.IH[of t] Cons.prems(2) show ?case by simp
qed

lemma foldR_pure: "foldR (\<lambda>x s. Inr (f x s)) xs s = Inr (fold f xs s)"
  by (induction xs arbitrary: s) auto

lemma mapR_Inr_iff: "mapR f xs = Inr ys \<longleftrightarrow> list_all2 (\<lambda>x y. f x = Inr y) xs ys"
proof (induction xs arbitrary: ys)
  case Nil
  then show ?case by auto
next
  case (Cons x xs)
  show ?case
    by (cases ys) (auto simp: res_simps Cons.IH)
qed

lemma mapR_length: "mapR f xs = Inr ys \<Longrightarrow> length ys = length xs"
  by (auto simp: mapR_Inr_iff dest: list_all2_lengthD)

lemma mapR_pure: "mapR (\<lambda>x. Inr (f x)) xs = Inr (map f xs)"
  by (induction xs) auto

lemma mapR_all_ok: "(\<And>x. x \<in> set xs \<Longrightarrow> f x = Inr (g x)) \<Longrightarrow> mapR f xs = Inr (map g xs)"
  by (induction xs) auto

section \<open>Python operations on integers, lists and dicts\<close>

definition floordivR :: "int \<Rightarrow> int \<Rightarrow> int res" where
  "floordivR a b = (if b = 0 then Inl ZeroDivisionError else Inr (a div b))"

definition al_get :: "'v \<Rightarrow> ('k \<times> 'v) list \<Rightarrow> 'k \<Rightarrow> 'v" where
  \<comment> \<open>\<open>d.get(k, default)\<close>\<close>
  "al_get d xs k = (case map_of xs k of None \<Rightarrow> d | Some v \<Rightarrow> v)"

definition lookupR :: "('k \<times> 'v) list \<Rightarrow> 'k \<Rightarrow> 'v res" where
  \<comment> \<open>\<open>d[k]\<close>\<close>
  "lookupR xs k = (case map_of xs k of None \<Rightarrow> Inl KeyError | Some v \<Rightarrow> Inr v)"

definition modifyR :: "'k \<Rightarrow> ('v \<Rightarrow> 'v) \<Rightarrow> ('k \<times> 'v) list \<Rightarrow> ('k \<times> 'v) list res" where
  \<comment> \<open>\<open>d[k].field op= x\<close>: an update of an entry that must exist\<close>
  "modifyR k f xs = bindR (lookupR xs k) (\<lambda>v. Inr (AList.update k (f v) xs))"

fun filterR :: "('a \<Rightarrow> bool res) \<Rightarrow> 'a list \<Rightarrow> 'a list res" where
  "filterR p [] = Inr []"
| "filterR p (x # xs) =
     bindR (p x) (\<lambda>b. bindR (filterR p xs) (\<lambda>ys. Inr (if b then x # ys else ys)))"

definition headR :: "'a list \<Rightarrow> 'a res" where
  \<comment> \<open>\<open>xs[0]\<close>\<close>
  "headR xs = (case xs of [] \<Rightarrow> Inl IndexError | x # _ \<Rightarrow> Inr x)"

definition nthR :: "'a list \<Rightarrow> int \<Rightarrow> 'a res" where
  \<comment> \<open>\<open>xs[i]\<close>, with Python's negative indices\<close>
  "nthR xs i =
     (let k = (if 0 \<le> i then i else i + int (length xs))
      in if k < 0 \<or> int (length xs) \<le> k then Inl IndexError else Inr (xs ! nat k))"

definition sort_desc :: "('a \<Rightarrow> 'k::linorder) \<Rightarrow> 'a list \<Rightarrow> 'a list" where
  \<comment> \<open>\<open>sorted(xs, key=key, reverse=True)\<close>: descending, equal keys in their order\<close>
  "sort_desc key xs = rev (sort_key key (rev xs))"

definition sequence :: "int \<Rightarrow> int \<Rightarrow> int list res" where
  "sequence start stop = (if start > stop then Inl ValueError else Inr [start..stop])"

function batched :: "nat \<Rightarrow> 'a list \<Rightarrow> 'a list list" where
  "batched n xs = (if n = 0 \<or> xs = [] then [] else take n xs # batched n (drop n xs))"
  by pat_completeness auto
termination
  by (relation "measure (\<lambda>(n, xs). length xs)") auto

declare batched.simps [simp del]

lemma batched_Nil [simp]: "batched n [] = []"
  by (simp add: batched.simps)

lemma concat_batched: "0 < n \<Longrightarrow> concat (batched n xs) = xs"
proof (induction n xs rule: batched.induct)
  case (1 n xs)
  then show ?case by (cases "xs = []") (simp_all add: batched.simps[of n xs])
qed

lemma batched_lengths: "b \<in> set (batched n xs) \<Longrightarrow> 0 < length b \<and> length b \<le> n"
proof (induction n xs rule: batched.induct)
  case (1 n xs)
  then show ?case
    by (cases "n = 0 \<or> xs = []") (auto simp: batched.simps[of n xs])
qed

lemma batched_subset: "b \<in> set (batched n xs) \<Longrightarrow> set b \<subseteq> set xs"
proof (induction n xs rule: batched.induct)
  case (1 n xs)
  then show ?case
    by (cases "n = 0 \<or> xs = []")
      (auto simp: batched.simps[of n xs] dest: in_set_takeD in_set_dropD)
qed

lemma concat_map_concat: "concat (map f (concat xss)) = concat (map (\<lambda>xs. concat (map f xs)) xss)"
  by (induction xss) auto

lemma map_of_update_iff: "map_of (AList.update k v xs) j = (if j = k then Some v else map_of xs j)"
  by (simp add: update_conv')

lemma al_get_update [simp]:
  "al_get d (AList.update k v xs) j = (if j = k then v else al_get d xs j)"
  by (simp add: al_get_def map_of_update_iff)

lemma al_get_Nil [simp]: "al_get d [] k = d"
  by (simp add: al_get_def)

lemma update_fresh: "k \<notin> set (map fst xs) \<Longrightarrow> AList.update k v xs = xs @ [(k, v)]"
  by (induction xs) auto

lemma fold_update_append:
  "distinct (map k xs) \<Longrightarrow> set (map k xs) \<inter> set (map fst m) = {} \<Longrightarrow>
    fold (\<lambda>x m. AList.update (k x) (f x) m) xs m = m @ map (\<lambda>x. (k x, f x)) xs"
proof (induction xs arbitrary: m)
  case (Cons x xs)
  then have "fold (\<lambda>x m. AList.update (k x) (f x) m) xs (m @ [(k x, f x)]) = (m @ [(k x, f x)]) @ map (\<lambda>x. (k x, f x)) xs"
    by (intro Cons.IH) auto
  with Cons.prems show ?case by (simp add: update_fresh)
qed simp

lemma fold_update_table:
  "distinct (map fst xs) \<Longrightarrow> fold (\<lambda>(a, v) m. AList.update a (f a v) m) xs [] = map (\<lambda>(a, v). (a, f a v)) xs"
  using fold_update_append[of fst xs "[]" "\<lambda>(a, v). f a v"] by (simp add: case_prod_beta')

lemma map_of_table: "map_of (map (\<lambda>(a, v). (a, f a v)) xs) a = map_option (f a) (map_of xs a)"
  by (induction xs) auto

lemma map_of_filtered_graph:
  "map_of (map (\<lambda>pk. (pk, f pk)) (filter P pks)) pk = (if pk \<in> set pks \<and> P pk then Some (f pk) else None)"
  by (induction pks) auto

lemma lookupR_eq_Inr [res_simps]: "lookupR xs k = Inr v \<longleftrightarrow> map_of xs k = Some v"
  by (simp add: lookupR_def split: option.splits)

lemma modifyR_eq_Inr [res_simps]:
  "modifyR k f xs = Inr ys \<longleftrightarrow> (\<exists>v. map_of xs k = Some v \<and> ys = AList.update k (f v) xs)"
  by (auto simp: modifyR_def res_simps)

lemma filterR_sublist: "filterR p xs = Inr ys \<Longrightarrow> set ys \<subseteq> set xs \<and> (\<forall>x \<in> set ys. p x = Inr True)"
  by (induction xs arbitrary: ys) (auto simp: res_simps split: if_splits)

lemma filterR_distinct: "filterR p xs = Inr ys \<Longrightarrow> distinct xs \<Longrightarrow> distinct ys"
proof (induction xs arbitrary: ys)
  case (Cons x xs)
  then show ?case
    using filterR_sublist[of p xs] by (fastforce simp: res_simps split: if_splits)
qed simp

lemma set_update_subset: "set (AList.update k v xs) \<subseteq> insert (k, v) (set xs)"
  by (induction xs) auto

lemma map_of_filter_keys: "map_of (filter (\<lambda>(x, _). P x) xs) x = (if P x then map_of xs x else None)"
  by (induction xs) auto

lemma map_of_mset: "mset xs = mset ys \<Longrightarrow> distinct (map fst xs) \<Longrightarrow> map_of xs = map_of ys"
  by (metis map_of_inject_set mset_eq_imp_distinct_iff mset_eq_setD mset_map)

lemma update_keys_same: "map_of xs k \<noteq> None \<Longrightarrow> map fst (AList.update k v xs) = map fst xs"
  by (induction xs) (auto split: if_splits)

lemma mset_sort_desc [simp]: "mset (sort_desc key xs) = mset xs" "set (sort_desc key xs) = set xs"
  by (simp_all add: sort_desc_def)

lemma sorted_sort_desc: "sorted_wrt (\<lambda>x y. key y \<le> key x) (sort_desc key xs)"
proof -
  have "sorted (map key (sort_key key (rev xs)))" by simp
  then show ?thesis unfolding sort_desc_def sorted_wrt_rev sorted_map .
qed

lemma sequence_eq_Inr [res_simps]: "sequence a b = Inr xs \<longleftrightarrow> a \<le> b \<and> xs = [a..b]"
  by (auto simp: sequence_def)

lemma headR_eq_Inr [res_simps]: "headR xs = Inr x \<longleftrightarrow> (\<exists>ys. xs = x # ys)"
  by (cases xs) (auto simp: headR_def)

lemma floordivR_eq_Inr [res_simps]: "floordivR a b = Inr q \<longleftrightarrow> b \<noteq> 0 \<and> q = a div b"
  by (auto simp: floordivR_def)

section \<open>Sums over lists\<close>

lemma sum_list_le_const:
  fixes f :: "'a \<Rightarrow> int"
  shows "(\<And>x. x \<in> set xs \<Longrightarrow> f x \<le> g x) \<Longrightarrow> (\<Sum>x\<leftarrow>xs. f x) \<le> (\<Sum>x\<leftarrow>xs. g x)"
  by (rule sum_list_mono)

lemma sum_list_filter_split:
  fixes f :: "'a \<Rightarrow> int"
  shows "(\<Sum>x\<leftarrow>xs. f x) = (\<Sum>x\<leftarrow>filter P xs. f x) + (\<Sum>x\<leftarrow>filter (\<lambda>x. \<not> P x) xs. f x)"
  by (induction xs) auto

lemma sum_list_nonneg_int:
  fixes f :: "'a \<Rightarrow> int"
  shows "(\<And>x. x \<in> set xs \<Longrightarrow> 0 \<le> f x) \<Longrightarrow> 0 \<le> (\<Sum>x\<leftarrow>xs. f x)"
  by (induction xs) auto

text \<open>Floor division distributes from below over a sum: rounding each share down loses, never gains.\<close>

lemma sum_list_div_le:
  fixes f :: "'a \<Rightarrow> int"
  assumes "0 < t"
  shows "(\<Sum>x\<leftarrow>xs. f x div t) \<le> (\<Sum>x\<leftarrow>xs. f x) div t"
proof (induction xs)
  case Nil
  then show ?case by simp
next
  case (Cons x xs)
  have "f x div t + (\<Sum>x\<leftarrow>xs. f x) div t \<le> (f x + (\<Sum>x\<leftarrow>xs. f x)) div t"
    using assms by (simp add: div_add1_eq[of "f x"] pos_imp_zdiv_nonneg_iff)
  with Cons.IH show ?case by simp
qed

end
