(* ===== verification/Rounding.thy ===== *)
theory Rounding
  imports Prelude
begin

text \<open>
  Python's \<open>float\<close> (IEEE 754 binary64, round half to even) and \<open>decimal.Decimal\<close> arithmetic as
  exact rational arithmetic followed by rounding to a fixed number of significant digits:
  \<open>round_sig b p x\<close> keeps \<open>p\<close> digits in base \<open>b\<close>. A float operation is \<open>fl\<close> of the exact result
  (53 binary digits), a Decimal operation is \<open>dec\<close> of the exact result (27 decimal digits, the
  precision \<open>src/main.py\<close> sets). Exponent limits are not modelled: the magnitudes of the code's
  values are far from them. The locale \<open>sig_rounding\<close> states what the clients rely on:
  rounding is monotone and exact on integers of at most \<open>N\<close>; \<open>fl\<close> and \<open>dec\<close> are its instances.
\<close>

section \<open>Digits and exponents\<close>

function ndigits :: "nat \<Rightarrow> nat \<Rightarrow> nat" where
  "ndigits b n = (if b < 2 \<or> n < b then 1 else Suc (ndigits b (n div b)))"
  by pat_completeness auto
termination
  by (relation "measure snd") (auto intro!: div_less_dividend)

declare ndigits.simps [simp del]

lemma ndigits_upper: "2 \<le> b \<Longrightarrow> n < b ^ ndigits b n"
proof (induction b n rule: ndigits.induct)
  case (1 b n)
  show ?case
  proof (cases "n < b")
    case True
    then show ?thesis using "1.prems" by (simp add: ndigits.simps[of b n])
  next
    case False
    with 1 have "n div b < b ^ ndigits b (n div b)" by simp
    then have "n div b + 1 \<le> b ^ ndigits b (n div b)" by simp
    then have "b * (n div b + 1) \<le> b * b ^ ndigits b (n div b)" by (rule mult_le_mono2)
    moreover have "n < b * (n div b + 1)"
      using "1.prems" dividend_less_times_div[of b n] by simp
    ultimately show ?thesis using False "1.prems" by (simp add: ndigits.simps[of b n])
  qed
qed

lemma ndigits_lower: "2 \<le> b \<Longrightarrow> 0 < n \<Longrightarrow> b ^ (ndigits b n - 1) \<le> n"
proof (induction b n rule: ndigits.induct)
  case (1 b n)
  show ?case
  proof (cases "n < b")
    case True
    then show ?thesis using "1.prems" by (simp add: ndigits.simps[of b n])
  next
    case False
    then have "0 < n div b" using "1.prems" by (simp add: div_greater_zero_iff)
    with False 1 have "b ^ (ndigits b (n div b) - 1) \<le> n div b" by simp
    then have "b * b ^ (ndigits b (n div b) - 1) \<le> b * (n div b)" by (rule mult_le_mono2)
    also have "\<dots> \<le> n" by simp
    also have "b * b ^ (ndigits b (n div b) - 1) = b ^ ndigits b (n div b)"
      using ndigits.simps[of b "n div b"] by (simp flip: power_Suc)
    finally show ?thesis using False "1.prems" by (simp add: ndigits.simps[of b n])
  qed
qed

lemma ndigits_pos [simp]: "0 < ndigits b n"
  by (simp add: ndigits.simps[of b n])

definition bpow :: "nat \<Rightarrow> int \<Rightarrow> rat" where
  "bpow b k = (if 0 \<le> k then of_nat b ^ nat k else inverse (of_nat b ^ nat (- k)))"

text \<open>Evaluation squares instead of multiplying by the base once per digit.\<close>

fun int_pow :: "int \<Rightarrow> int \<Rightarrow> int" where
  "int_pow b k = (if k \<le> 0 then 1
     else let h = int_pow (b * b) (k div 2) in if k mod 2 = 0 then h else b * h)"

declare int_pow.simps [simp del]

lemma int_pow_power: "0 \<le> k \<Longrightarrow> int_pow b k = b ^ nat k"
proof (induction b k rule: int_pow.induct)
  case (1 b k)
  show ?case
  proof (cases "k = 0")
    case True
    then show ?thesis by (simp add: int_pow.simps)
  next
    case False
    with 1 have "int_pow (b * b) (k div 2) = (b * b) ^ nat (k div 2)" by simp
    moreover have "(b * b) ^ nat (k div 2) = b ^ (2 * nat (k div 2))" by (simp add: power_mult power2_eq_square)
    moreover have "nat k = 2 * nat (k div 2) + (if k mod 2 = 0 then 0 else 1)"
    proof -
      have e: "k = 2 * (k div 2) + (if k mod 2 = 0 then 0 else 1)" by presburger
      have i: "int (nat k) = k" "int (nat (k div 2)) = k div 2" using 1(2) by simp_all
      have "int (nat k) = int (2 * nat (k div 2) + (if k mod 2 = 0 then 0 else 1))"
        using e i by (simp split: if_splits)
      then show ?thesis by (simp only: of_nat_eq_iff)
    qed
    ultimately show ?thesis using False 1 by (simp add: int_pow.simps[of b k] Let_def)
  qed
qed

lemma bpow_code [code]:
  "bpow b k = (if 0 \<le> k then of_int (int_pow (int b) k) else inverse (of_int (int_pow (int b) (- k))))"
  by (simp add: bpow_def int_pow_power)

lemma bpow_eq_power_int: "bpow b k = (of_nat b) powi k"
  by (simp add: bpow_def power_int_def power_inverse)

lemma bpow_pos [simp]: "2 \<le> b \<Longrightarrow> 0 < bpow b k"
  by (simp add: bpow_def)

lemma bpow_add: "2 \<le> b \<Longrightarrow> bpow b (j + k) = bpow b j * bpow b k"
  by (simp add: bpow_eq_power_int power_int_add)

lemma bpow_mono: "2 \<le> b \<Longrightarrow> j \<le> k \<Longrightarrow> bpow b j \<le> bpow b k"
  by (simp add: bpow_eq_power_int power_int_increasing)

lemma bpow_strict_mono: "2 \<le> b \<Longrightarrow> j < k \<Longrightarrow> bpow b j < bpow b k"
  by (simp add: bpow_eq_power_int power_int_strict_increasing)

lemma bpow_nat [simp]: "bpow b (int k) = of_nat (b ^ k)"
  by (simp add: bpow_def)

text \<open>The exponent of the leading digit of a positive rational.\<close>

definition floor_log :: "nat \<Rightarrow> rat \<Rightarrow> int" where
  "floor_log b x =
     (let (p, q) = quotient_of x;
          k = int (ndigits b (nat p)) - int (ndigits b (nat q))
      in if bpow b k \<le> x then k else k - 1)"

text \<open>For evaluation, the digits are counted on integers instead of natural numbers.\<close>

function int_digits :: "int \<Rightarrow> int \<Rightarrow> int" where
  "int_digits b n = (if b < 2 \<or> n < b then 1 else 1 + int_digits b (n div b))"
  by pat_completeness auto
termination
  by (relation "measure (\<lambda>(_, n). nat n)") (auto simp: nat_less_iff intro!: int_div_less_self)

declare int_digits.simps [simp del]

lemma int_digits_ndigits: "int_digits (int b) n = int (ndigits b (nat n))"
proof (induction "int b" n rule: int_digits.induct)
  case (1 n)
  show ?case
  proof (cases "b < 2 \<or> n < int b")
    case True
    then have "b < 2 \<or> nat n < b" by linarith
    with True show ?thesis by (auto simp: int_digits.simps[of "int b" n] ndigits.simps[of b "nat n"])
  next
    case False
    then have "\<not> (b < 2 \<or> nat n < b)" by linarith
    with False 1 show ?thesis
      by (simp add: int_digits.simps[of "int b" n] ndigits.simps[of b "nat n"] nat_div_distrib)
  qed
qed

lemma floor_log_code [code]:
  "floor_log b x =
     (let (p, q) = quotient_of x;
          k = int_digits (int b) p - int_digits (int b) q
      in if bpow b k \<le> x then k else k - 1)"
  by (simp add: floor_log_def int_digits_ndigits)

lemma floor_log_bounds:
  assumes b: "2 \<le> b" and x: "0 < x"
  shows "bpow b (floor_log b x) \<le> x" and "x < bpow b (floor_log b x + 1)"
proof -
  obtain p q where pq: "quotient_of x = (p, q)" by (cases "quotient_of x")
  have q: "0 < q" using pq by (rule quotient_of_denom_pos)
  have xpq: "x = of_int p / of_int q" using pq by (rule quotient_of_div)
  with x q have p: "0 < p" by (simp add: zero_less_divide_iff)
  let ?m = "ndigits b (nat p)" and ?n = "ndigits b (nat q)"
  define k where "k = int ?m - int ?n"
  have "nat p < b ^ ?m" and "b ^ (?m - 1) \<le> nat p"
    and "nat q < b ^ ?n" and "b ^ (?n - 1) \<le> nat q"
    using ndigits_upper[OF b, of "nat p"] ndigits_lower[OF b, of "nat p"]
      ndigits_upper[OF b, of "nat q"] ndigits_lower[OF b, of "nat q"] p q by simp_all
  then have P: "rat_of_int p < bpow b (int ?m)" "bpow b (int (?m - 1)) \<le> rat_of_int p"
    and Q: "rat_of_int q < bpow b (int ?n)" "bpow b (int (?n - 1)) \<le> rat_of_int q"
    using p q
    by (simp_all only: bpow_nat) (metis of_nat_less_iff of_nat_nat less_imp_le of_int_of_nat_eq
        of_nat_le_iff)+
  have low: "bpow b (k - 1) \<le> x"
  proof -
    have "bpow b (k - 1) * rat_of_int q \<le> bpow b (k - 1) * bpow b (int ?n)"
      using Q(1) b by (intro mult_left_mono) (auto intro: less_imp_le)
    also have "\<dots> = bpow b (int (?m - 1))"
      using b by (simp add: k_def flip: bpow_add bpow_nat)
        (simp add: of_nat_diff Suc_leI flip: bpow_nat)
    also have "\<dots> \<le> rat_of_int p" by (rule P(2))
    finally show ?thesis using q by (simp add: xpq pos_le_divide_eq)
  qed
  have high: "x < bpow b (k + 1)"
  proof -
    have "rat_of_int p < bpow b (int ?m)" by (rule P(1))
    also have "\<dots> = bpow b (k + 1) * bpow b (int (?n - 1))"
      using b by (simp add: k_def of_nat_diff Suc_leI flip: bpow_add)
    also have "\<dots> \<le> bpow b (k + 1) * rat_of_int q"
      using Q(2) b by (intro mult_left_mono) (auto intro: less_imp_le)
    finally show ?thesis using q by (simp add: xpq pos_divide_less_eq)
  qed
  have fl: "floor_log b x = (if bpow b k \<le> x then k else k - 1)"
    by (simp add: floor_log_def pq k_def Let_def)
  show "bpow b (floor_log b x) \<le> x" using low by (simp add: fl)
  show "x < bpow b (floor_log b x + 1)" using high by (simp add: fl)
qed

section \<open>Round half to even\<close>

definition round_half_even :: "rat \<Rightarrow> int" where
  "round_half_even x =
     (let f = \<lfloor>x\<rfloor>; d = x - of_int f
      in if d < 1/2 then f else if 1/2 < d then f + 1 else if even f then f else f + 1)"

lemma round_half_even_of_int [simp]: "round_half_even (of_int n) = n"
  by (simp add: round_half_even_def)

lemma round_half_even_between: "\<lfloor>x\<rfloor> \<le> round_half_even x" "round_half_even x \<le> \<lfloor>x\<rfloor> + 1"
  by (simp_all add: round_half_even_def Let_def)

lemma round_half_even_mono:
  assumes "x \<le> y"
  shows "round_half_even x \<le> round_half_even y"
proof (cases "\<lfloor>x\<rfloor> = \<lfloor>y\<rfloor>")
  case True
  with assms show ?thesis by (auto simp: round_half_even_def Let_def)
next
  case False
  moreover have "\<lfloor>x\<rfloor> \<le> \<lfloor>y\<rfloor>" using assms by (rule floor_mono)
  ultimately show ?thesis using round_half_even_between[of x] round_half_even_between[of y] by linarith
qed

lemma round_half_even_error: "\<bar>of_int (round_half_even x) - x\<bar> \<le> 1/2"
proof -
  have "of_int \<lfloor>x\<rfloor> \<le> x" "x < of_int \<lfloor>x\<rfloor> + 1" using floor_correct[of x] by simp_all
  then show ?thesis by (auto simp: round_half_even_def Let_def abs_le_iff)
qed

lemma round_half_even_ge_int: "of_int n \<le> x \<Longrightarrow> n \<le> round_half_even x"
  using round_half_even_mono[of "of_int n" x] by simp

lemma round_half_even_le_int: "x \<le> of_int n \<Longrightarrow> round_half_even x \<le> n"
  using round_half_even_mono[of x "of_int n"] by simp

section \<open>Rounding to significant digits\<close>

definition round_pos :: "nat \<Rightarrow> nat \<Rightarrow> rat \<Rightarrow> rat" where
  "round_pos b p x =
     (let e = floor_log b x - int p + 1
      in of_int (round_half_even (x / bpow b e)) * bpow b e)"

definition round_sig :: "nat \<Rightarrow> nat \<Rightarrow> rat \<Rightarrow> rat" where
  "round_sig b p x =
     (if x = 0 then 0 else if 0 < x then round_pos b p x else - round_pos b p (- x))"

lemma round_sig_0 [simp]: "round_sig b p 0 = 0"
  by (simp add: round_sig_def)

lemma round_sig_minus: "round_sig b p (- x) = - round_sig b p x"
  by (simp add: round_sig_def)

text \<open>The result keeps the decade of the argument: it lies between its two powers of the base.\<close>

lemma round_pos_decade:
  assumes b: "2 \<le> b" and p: "0 < p" and x: "0 < x"
  shows "bpow b (floor_log b x) \<le> round_pos b p x"
    and "round_pos b p x \<le> bpow b (floor_log b x + 1)"
proof -
  define e where "e = floor_log b x - int p + 1"
  have lo: "bpow b (floor_log b x) = rat_of_int (int (b ^ (p - 1))) * bpow b e"
  proof -
    have "floor_log b x = int (p - 1) + e" using p by (simp add: e_def of_nat_diff Suc_leI)
    then have "bpow b (floor_log b x) = bpow b (int (p - 1)) * bpow b e"
      by (simp only: bpow_add[OF b])
    then show ?thesis by (simp only: bpow_nat of_int_of_nat_eq)
  qed
  have hi: "bpow b (floor_log b x + 1) = rat_of_int (int (b ^ p)) * bpow b e"
  proof -
    have "floor_log b x + 1 = int p + e" by (simp add: e_def)
    then have "bpow b (floor_log b x + 1) = bpow b (int p) * bpow b e"
      by (simp only: bpow_add[OF b])
    then show ?thesis by (simp only: bpow_nat of_int_of_nat_eq)
  qed
  have pos: "0 < bpow b e" using b by simp
  have "rat_of_int (int (b ^ (p - 1))) \<le> x / bpow b e"
    using floor_log_bounds(1)[OF b x] pos by (simp only: lo pos_le_divide_eq)
  then have "int (b ^ (p - 1)) \<le> round_half_even (x / bpow b e)" by (rule round_half_even_ge_int)
  then show "bpow b (floor_log b x) \<le> round_pos b p x"
    unfolding lo round_pos_def Let_def e_def[symmetric] using pos
    by (intro mult_right_mono) (simp_all only: of_int_le_iff less_imp_le)
  have "x / bpow b e \<le> rat_of_int (int (b ^ p))"
    using floor_log_bounds(2)[OF b x] pos by (simp only: hi pos_divide_le_eq less_imp_le)
  then have "round_half_even (x / bpow b e) \<le> int (b ^ p)" by (rule round_half_even_le_int)
  then show "round_pos b p x \<le> bpow b (floor_log b x + 1)"
    unfolding hi round_pos_def Let_def e_def[symmetric] using pos
    by (intro mult_right_mono) (simp_all only: of_int_le_iff less_imp_le)
qed

lemma round_pos_positive: "2 \<le> b \<Longrightarrow> 0 < p \<Longrightarrow> 0 < x \<Longrightarrow> 0 < round_pos b p x"
  using round_pos_decade(1)[of b p x] bpow_pos[of b "floor_log b x"] by linarith

lemma floor_log_mono:
  assumes b: "2 \<le> b" and "0 < x" "x \<le> y"
  shows "floor_log b x \<le> floor_log b y"
proof (rule ccontr)
  assume "\<not> ?thesis"
  then have "bpow b (floor_log b y + 1) \<le> bpow b (floor_log b x)" by (intro bpow_mono[OF b]) simp
  with floor_log_bounds[OF b, of x] floor_log_bounds[OF b, of y] assms show False by linarith
qed

lemma round_pos_mono:
  assumes b: "2 \<le> b" and p: "0 < p" and x: "0 < x" and xy: "x \<le> y"
  shows "round_pos b p x \<le> round_pos b p y"
proof (cases "floor_log b x = floor_log b y")
  case True
  define e where "e = floor_log b y - int p + 1"
  have "x / bpow b e \<le> y / bpow b e" using xy b by (simp add: divide_right_mono less_imp_le)
  then have "round_half_even (x / bpow b e) \<le> round_half_even (y / bpow b e)"
    by (rule round_half_even_mono)
  then show ?thesis using True b
    by (simp add: round_pos_def Let_def e_def[symmetric] mult_right_mono less_imp_le)
next
  case False
  with floor_log_mono[OF b x xy] have "floor_log b x + 1 \<le> floor_log b y" by simp
  then have "bpow b (floor_log b x + 1) \<le> bpow b (floor_log b y)" by (rule bpow_mono[OF b])
  with round_pos_decade(2)[OF b p x] round_pos_decade(1)[OF b p, of y] x xy
  show ?thesis by linarith
qed

lemma round_sig_mono:
  assumes b: "2 \<le> b" and p: "0 < p" and xy: "x \<le> y"
  shows "round_sig b p x \<le> round_sig b p y"
  using xy round_pos_mono[OF b p, of x y] round_pos_mono[OF b p, of "- y" "- x"]
    round_pos_positive[OF b p, of y] round_pos_positive[OF b p, of "- x"]
  by (auto simp: round_sig_def)

text \<open>A number with at most \<open>p\<close> digits is not changed: integers up to \<open>b ^ p\<close> are exact.\<close>

lemma round_pos_int:
  assumes b: "2 \<le> b" and p: "0 < p" and n: "0 < n" "n \<le> int (b ^ p)"
  shows "round_pos b p (of_int n) = of_int n"
proof (cases "n = int (b ^ p)")
  case True
  define e where "e = floor_log b (of_int n) - int p + 1"
  have n': "rat_of_int n = bpow b (int p)" using True by simp
  have "floor_log b (of_int n) = int p"
  proof (rule ccontr)
    assume neq: "floor_log b (of_int n) \<noteq> int p"
    have bnds: "bpow b (floor_log b (of_int n)) \<le> bpow b (int p)"
      "bpow b (int p) < bpow b (floor_log b (of_int n) + 1)"
      using floor_log_bounds[OF b, of "of_int n"] n(1) unfolding n' by (metis n' of_int_0_less_iff)+
    from neq consider "int p < floor_log b (of_int n)" | "floor_log b (of_int n) + 1 \<le> int p"
      by linarith
    then show False
      using bnds bpow_strict_mono[OF b, of "int p" "floor_log b (of_int n)"]
        bpow_mono[OF b, of "floor_log b (of_int n) + 1" "int p"] by cases linarith+
  qed
  then have e: "e = 1" by (simp add: e_def)
  have "rat_of_int n / bpow b 1 = of_int (int (b ^ (p - 1)))"
    using True b p by (simp add: bpow_def power_eq_if)
  then have "round_half_even (rat_of_int n / bpow b 1) = int (b ^ (p - 1))"
    by (simp only: round_half_even_of_int)
  then show ?thesis
    using True b p e unfolding round_pos_def Let_def e_def[symmetric]
    by (simp add: bpow_def power_eq_if)
next
  case False
  define e where "e = floor_log b (of_int n) - int p + 1"
  have "e \<le> 0"
  proof (rule ccontr)
    assume "\<not> e \<le> 0"
    then have "bpow b (int p) \<le> bpow b (floor_log b (of_int n))"
      by (intro bpow_mono[OF b]) (simp add: e_def)
    also have "\<dots> \<le> rat_of_int n" using floor_log_bounds(1)[OF b] n(1) by simp
    finally have "rat_of_int (int (b ^ p)) \<le> rat_of_int n" by simp
    then have "int (b ^ p) \<le> n" by (simp only: of_int_le_iff)
    with n False show False by simp
  qed
  then have be: "rat_of_int n / bpow b e = of_int (n * int (b ^ nat (- e)))"
    by (cases "e = 0") (simp_all add: bpow_def field_simps)
  have "round_pos b p (of_int n) = of_int (n * int (b ^ nat (- e))) * bpow b e"
    unfolding round_pos_def Let_def e_def[symmetric] be by (simp only: round_half_even_of_int)
  also have "\<dots> = rat_of_int n / bpow b e * bpow b e" by (simp only: be)
  finally show ?thesis using bpow_pos[OF b, of e] by simp
qed

lemma round_sig_int:
  assumes "2 \<le> b" "0 < p" "\<bar>n\<bar> \<le> int (b ^ p)"
  shows "round_sig b p (of_int n) = of_int n"
  using round_pos_int[of b p n] round_pos_int[of b p "- n"] assms
  by (cases n "0 :: int" rule: linorder_cases) (simp_all add: round_sig_def)

lemma round_sig_error:
  assumes b: "2 \<le> b" and p: "0 < p"
  shows "\<bar>round_sig b p x - x\<bar> \<le> bpow b (1 - int p) / 2 * \<bar>x\<bar>"
proof -
  have pos: "\<bar>round_pos b p y - y\<bar> \<le> bpow b (1 - int p) / 2 * y" if y: "0 < y" for y
  proof -
    define e where "e = floor_log b y - int p + 1"
    define m where "m = round_half_even (y / bpow b e)"
    have be: "0 < bpow b e" using b by simp
    have "round_pos b p y - y = (of_int m - y / bpow b e) * bpow b e"
      using be by (simp add: round_pos_def Let_def e_def[symmetric] m_def[symmetric] left_diff_distrib)
    then have "\<bar>round_pos b p y - y\<bar> = \<bar>of_int m - y / bpow b e\<bar> * bpow b e"
      using be by (simp add: abs_mult)
    also have "\<dots> \<le> 1 / 2 * bpow b e"
      using be round_half_even_error[of "y / bpow b e"] unfolding m_def
      by (intro mult_right_mono) auto
    also have "bpow b e = bpow b (1 - int p) * bpow b (floor_log b y)"
      by (simp add: e_def flip: bpow_add[OF b]) (simp add: algebra_simps)
    also have "1 / 2 * (bpow b (1 - int p) * bpow b (floor_log b y)) \<le> 1 / 2 * (bpow b (1 - int p) * y)"
      using floor_log_bounds(1)[OF b y] bpow_pos[OF b, of "1 - int p"] by simp
    finally show ?thesis by (simp add: mult.assoc)
  qed
  show ?thesis
  proof (cases x "0 :: rat" rule: linorder_cases)
    case less
    then have "\<bar>round_pos b p (- x) - (- x)\<bar> \<le> bpow b (1 - int p) / 2 * (- x)" by (intro pos) simp
    moreover have "\<bar>round_sig b p x - x\<bar> = \<bar>round_pos b p (- x) - (- x)\<bar>"
      using less by (simp add: round_sig_def)
    ultimately show ?thesis using less by simp
  next
    case greater
    then show ?thesis using pos[of x] by (simp add: round_sig_def)
  qed simp
qed

section \<open>What the clients of a rounding rely on\<close>

locale sig_rounding =
  fixes rnd :: "rat \<Rightarrow> rat" and N :: int and eps :: rat
  assumes rnd_mono: "x \<le> y \<Longrightarrow> rnd x \<le> rnd y"
    and rnd_int: "\<bar>n\<bar> \<le> N \<Longrightarrow> rnd (of_int n) = of_int n"
    and rnd_minus: "rnd (- x) = - rnd x"
    and rnd_error: "\<bar>rnd x - x\<bar> \<le> eps * \<bar>x\<bar>"
    and N_pos: "1 \<le> N"
begin

lemma rnd_zero: "rnd 0 = 0"
  using rnd_int[of 0] N_pos by simp

lemma rnd_one: "rnd 1 = 1"
  using rnd_int[of 1] N_pos by simp

lemma rnd_nonneg: "0 \<le> x \<Longrightarrow> 0 \<le> rnd x"
  using rnd_mono[of 0 x] by (simp add: rnd_zero)

lemma rnd_nonpos: "x \<le> 0 \<Longrightarrow> rnd x \<le> 0"
  using rnd_mono[of x 0] by (simp add: rnd_zero)

lemma rnd_le_int: "x \<le> of_int n \<Longrightarrow> \<bar>n\<bar> \<le> N \<Longrightarrow> rnd x \<le> of_int n"
  using rnd_mono[of x "of_int n"] by (simp add: rnd_int)

lemma rnd_ge_int: "of_int n \<le> x \<Longrightarrow> \<bar>n\<bar> \<le> N \<Longrightarrow> of_int n \<le> rnd x"
  using rnd_mono[of "of_int n" x] by (simp add: rnd_int)

lemma rnd_le_one: "x \<le> 1 \<Longrightarrow> rnd x \<le> 1"
  using rnd_mono[of x 1] by (simp add: rnd_one)

lemma ceiling_rnd_le: "x \<le> of_int n \<Longrightarrow> \<bar>n\<bar> \<le> N \<Longrightarrow> \<lceil>rnd x\<rceil> \<le> n"
  using rnd_le_int[of x n] by (simp add: ceiling_le_iff)

lemma ceiling_rnd_ge: "of_int n \<le> x \<Longrightarrow> \<bar>n\<bar> \<le> N \<Longrightarrow> n \<le> \<lceil>rnd x\<rceil>"
  using rnd_ge_int[of n x] by linarith

text \<open>Scaling an integer by a factor of at most one never exceeds the integer.\<close>

lemma rnd_scale_le:
  assumes "0 \<le> a" "a \<le> 1" "0 \<le> n" "n \<le> N"
  shows "rnd (a * of_int n) \<le> of_int n" and "0 \<le> rnd (a * of_int n)"
proof -
  have "a * of_int n \<le> 1 * of_int n" using assms by (intro mult_right_mono) simp_all
  then show "rnd (a * of_int n) \<le> of_int n" using assms by (intro rnd_le_int) simp_all
  show "0 \<le> rnd (a * of_int n)" using assms by (intro rnd_nonneg) simp
qed

lemma rnd_upper: "0 \<le> x \<Longrightarrow> rnd x \<le> (1 + eps) * x"
  using rnd_error[of x] by (simp add: abs_le_iff distrib_right)

lemma rnd_lower: "0 \<le> x \<Longrightarrow> (1 - eps) * x \<le> rnd x"
  using rnd_error[of x] by (simp add: abs_le_iff left_diff_distrib)

end

section \<open>Python floats and Decimals\<close>

definition fl :: "rat \<Rightarrow> rat" where
  "fl x = round_sig 2 53 x"

definition dec :: "rat \<Rightarrow> rat" where
  "dec x = round_sig 10 27 x"

interpretation float53: sig_rounding fl "2 ^ 53" "bpow 2 (1 - int 53) / 2"
proof unfold_locales
  show "\<bar>n\<bar> \<le> 2 ^ 53 \<Longrightarrow> fl (of_int n) = of_int n" for n :: int
    unfolding fl_def by (rule round_sig_int) simp_all
  show "\<bar>fl x - x\<bar> \<le> bpow 2 (1 - int 53) / 2 * \<bar>x\<bar>" for x
    unfolding fl_def by (rule round_sig_error) simp_all
qed (simp_all add: fl_def round_sig_mono round_sig_minus)

interpretation decimal27: sig_rounding dec "10 ^ 27" "bpow 10 (1 - int 27) / 2"
proof unfold_locales
  show "\<bar>n\<bar> \<le> 10 ^ 27 \<Longrightarrow> dec (of_int n) = of_int n" for n :: int
    unfolding dec_def by (rule round_sig_int) simp_all
  show "\<bar>dec x - x\<bar> \<le> bpow 10 (1 - int 27) / 2 * \<bar>x\<bar>" for x
    unfolding dec_def by (rule round_sig_error) simp_all
qed (simp_all add: dec_def round_sig_mono round_sig_minus)

text \<open>\<open>a / b\<close> on ints is the correctly rounded quotient; an int operand of a float operation is converted first.\<close>

definition float_of_int :: "int \<Rightarrow> rat" where
  "float_of_int n = fl (of_int n)"

definition truediv :: "int \<Rightarrow> int \<Rightarrow> rat" where
  "truediv a b = fl (of_int a / of_int b)"

definition truedivR :: "int \<Rightarrow> int \<Rightarrow> rat res" where
  "truedivR a b = (if b = 0 then Inl ZeroDivisionError else Inr (truediv a b))"

definition py_int :: "rat \<Rightarrow> int" where
  \<comment> \<open>\<open>int(x)\<close>: truncation\<close>
  "py_int x = (if 0 \<le> x then \<lfloor>x\<rfloor> else \<lceil>x\<rceil>)"

lemma py_int_code [code]:
  "py_int x = (case quotient_of x of (a, b) \<Rightarrow> if 0 \<le> a then a div b else - ((- a) div b))"
proof -
  obtain a b where q: "quotient_of x = (a, b)" by fastforce
  then have x: "x = of_int a / of_int b" "0 < b" by (simp_all add: quotient_of_div quotient_of_denom_pos)
  then have "0 \<le> x \<longleftrightarrow> 0 \<le> a" by (simp add: zero_le_divide_iff)
  moreover have "\<lfloor>x\<rfloor> = a div b" "\<lceil>x\<rceil> = - ((- a) div b)"
    using x floor_divide_of_int_eq[where 'a=rat, of a b] floor_divide_of_int_eq[where 'a=rat, of "- a" b]
    by (simp_all add: ceiling_def)
  ultimately show ?thesis by (simp add: py_int_def q)
qed

definition round_up :: "rat \<Rightarrow> int" where
  \<comment> \<open>\<open>to_integral_value(ROUND_UP)\<close>: away from zero\<close>
  "round_up x = (if 0 \<le> x then \<lceil>x\<rceil> else \<lfloor>x\<rfloor>)"

lemma float_of_int_exact: "\<bar>n\<bar> \<le> 2 ^ 53 \<Longrightarrow> float_of_int n = of_int n"
  by (simp add: float_of_int_def float53.rnd_int)

lemma truediv_nonneg: "0 \<le> a \<Longrightarrow> 0 \<le> b \<Longrightarrow> 0 \<le> truediv a b"
  by (simp add: truediv_def float53.rnd_nonneg)

lemma truediv_le_one: "a \<le> b \<Longrightarrow> 0 < b \<Longrightarrow> truediv a b \<le> 1"
  unfolding truediv_def by (rule float53.rnd_le_one) simp

text \<open>Scaling by a power of the base is exact.\<close>

lemma floor_log_unique:
  assumes "2 \<le> b" "0 < x" "bpow b k \<le> x" "x < bpow b (k + 1)"
  shows "floor_log b x = k"
proof (rule antisym)
  note f = floor_log_bounds[OF assms(1,2)]
  show "floor_log b x \<le> k"
    using f(1) assms(4) bpow_mono[OF assms(1), of "k + 1" "floor_log b x"] by linarith
  show "k \<le> floor_log b x"
    using f(2) assms(3) bpow_mono[OF assms(1), of "floor_log b x + 1" k] by linarith
qed

lemma round_pos_scale:
  assumes "2 \<le> b" "0 < x"
  shows "round_pos b p (x * bpow b k) = round_pos b p x * bpow b k"
proof -
  note f = floor_log_bounds[OF assms]
  have pos: "0 < bpow b k" using assms(1) by simp
  have "floor_log b (x * bpow b k) = floor_log b x + k"
  proof (rule floor_log_unique[OF assms(1)])
    show "0 < x * bpow b k" using assms(2) pos by simp
    show "bpow b (floor_log b x + k) \<le> x * bpow b k"
      using f(1) pos assms(1) by (simp add: bpow_add)
    have "x * bpow b k < bpow b (floor_log b x + 1) * bpow b k" using f(2) pos by simp
    also have "\<dots> = bpow b (floor_log b x + k + 1)"
      using assms(1) by (simp flip: bpow_add add: ac_simps)
    finally show "x * bpow b k < bpow b (floor_log b x + k + 1)" .
  qed
  then have e: "floor_log b (x * bpow b k) - int p + 1 = (floor_log b x - int p + 1) + k" by simp
  have "x * bpow b k / bpow b ((floor_log b x - int p + 1) + k) = x / bpow b (floor_log b x - int p + 1)"
    using pos assms(1) by (simp add: bpow_add[of b "floor_log b x - int p + 1" k] less_imp_neq[THEN not_sym])
  then show ?thesis
    unfolding round_pos_def Let_def e using assms(1) by (simp add: bpow_add[of b "floor_log b x - int p + 1" k])
qed

lemma fl_scale: "fl (x * bpow 2 k) = fl x * bpow 2 k"
proof -
  have pos: "0 < bpow 2 k" by simp
  consider "x = 0" | "0 < x" | "x < 0" by linarith
  then show ?thesis
  proof cases
    case 1
    then show ?thesis by (simp add: fl_def round_sig_def)
  next
    case 2
    then show ?thesis using pos by (simp add: fl_def round_sig_def round_pos_scale mult_less_0_iff)
  next
    case 3
    have "round_pos 2 53 (- x * bpow 2 k) = round_pos 2 53 (- x) * bpow 2 k"
      using 3 by (intro round_pos_scale) simp_all
    moreover have "x * bpow 2 k < 0" using 3 pos by (rule mult_neg_pos)
    ultimately show ?thesis using 3 by (simp add: fl_def round_sig_def)
  qed
qed

lemma fl_dyadic: "\<bar>n\<bar> \<le> 2 ^ 53 \<Longrightarrow> fl (of_int n / 2 ^ k) = of_int n / 2 ^ k"
  using fl_scale[of "of_int n" "- int k"] float53.rnd_int[of n]
  by (simp add: bpow_def divide_inverse split: if_splits)

text \<open>Numbers with at most 27 digits survive a division by a power of ten.\<close>

lemma dec_decimal: "\<bar>n\<bar> \<le> 10 ^ 27 \<Longrightarrow> dec (of_int n / 10 ^ k) = of_int n / 10 ^ k"
proof -
  assume n: "\<bar>n\<bar> \<le> 10 ^ 27"
  have pos: "round_pos 10 27 (of_int m / 10 ^ k) = round_pos 10 27 (of_int m) / 10 ^ k" if "0 < m" for m :: int
    using round_pos_scale[of 10 "of_int m" 27 "- int k"] that by (simp add: bpow_def divide_inverse split: if_splits)
  have "round_pos 10 27 (of_int \<bar>n\<bar>) = of_int \<bar>n\<bar>" if "n \<noteq> 0" using that n by (intro round_pos_int) simp_all
  then show ?thesis
    using pos[of "\<bar>n\<bar>"] by (cases n "0 :: int" rule: linorder_cases) (simp_all add: dec_def round_sig_def zero_less_divide_iff)
qed

lemma div_10000_round_up:
  fixes n :: int
  shows "n \<le> 10000 * ((n + 9999) div 10000)" and "10000 * ((n + 9999) div 10000) \<le> n + 9999"
proof -
  obtain q m where q: "q = (n + 9999) div 10000" and m: "m = (n + 9999) mod 10000" by blast
  have "n + 9999 = 10000 * q + m" "0 \<le> m" "m < 10000" unfolding q m by simp_all
  then show "n \<le> 10000 * ((n + 9999) div 10000)" "10000 * ((n + 9999) div 10000) \<le> n + 9999"
    unfolding q[symmetric] by simp_all
qed

lemma ceiling_div: "\<lceil>of_int n / (10 ^ 4 :: rat)\<rceil> = (n + 9999) div 10000" for n :: int
proof (rule ceiling_unique)
  let ?q = "(n + 9999) div 10000"
  have "10000 * (?q - 1) < n" "n \<le> 10000 * ?q" using div_10000_round_up[of n] by (simp_all add: right_diff_distrib)
  then have "of_int (10000 * (?q - 1)) < (of_int n :: rat)" "(of_int n :: rat) \<le> of_int (10000 * ?q)"
    by (simp_all only: of_int_less_iff of_int_le_iff)
  then show "of_int ?q - 1 < of_int n / (10 ^ 4 :: rat)" "of_int n / (10 ^ 4 :: rat) \<le> of_int ?q"
    by (simp_all add: field_simps)
qed

section \<open>Python numbers\<close>

text \<open>
  A value that is an int until it first meets a float. Int arithmetic is exact; as soon as one operand
  is a float the other is converted and the result rounded; \<open>/\<close> always gives a float. Comparisons are
  exact on the values.
\<close>

datatype pynum = PInt int | PFloat rat

fun nval :: "pynum \<Rightarrow> rat" where
  "nval (PInt n) = of_int n"
| "nval (PFloat x) = x"

fun to_float :: "pynum \<Rightarrow> rat" where
  "to_float (PInt n) = float_of_int n"
| "to_float (PFloat x) = x"

fun nadd :: "pynum \<Rightarrow> pynum \<Rightarrow> pynum" where
  "nadd (PInt a) (PInt b) = PInt (a + b)"
| "nadd a b = PFloat (fl (to_float a + to_float b))"

fun nsub :: "pynum \<Rightarrow> pynum \<Rightarrow> pynum" where
  "nsub (PInt a) (PInt b) = PInt (a - b)"
| "nsub a b = PFloat (fl (to_float a - to_float b))"

fun nmul :: "pynum \<Rightarrow> pynum \<Rightarrow> pynum" where
  "nmul (PInt a) (PInt b) = PInt (a * b)"
| "nmul a b = PFloat (fl (to_float a * to_float b))"

definition ndivR :: "pynum \<Rightarrow> pynum \<Rightarrow> pynum res" where
  "ndivR a b =
     (if nval b = 0 then Inl ZeroDivisionError
      else case (a, b) of
        (PInt m, PInt n) \<Rightarrow> Inr (PFloat (truediv m n))
      | _ \<Rightarrow> Inr (PFloat (fl (to_float a / to_float b))))"

lemma nval_PInt_ops [simp]:
  "nval (nadd (PInt a) (PInt b)) = of_int (a + b)" "nval (nsub (PInt a) (PInt b)) = of_int (a - b)"
  by simp_all

end
