(* ===== verification/Chain.thy ===== *)
theory Chain
  imports Rounding
begin

text \<open>
  The data every component shares: \<open>src/constants.py\<close>, the block stamps of \<open>src/types.py\<close>, the
  configurations of \<open>src/modules/common/types.py\<close>, the consensus layer records of
  \<open>src/providers/consensus/types.py\<close>, and the predicates and balance computations of
  \<open>src/utils/validator_state.py\<close>, \<open>src/utils/validator_balance.py\<close> and \<open>src/utils/units.py\<close>.
  Python integers (slots, epochs, Gwei, Wei) are \<open>int\<close>, hex strings are \<open>string\<close>.
\<close>

type_synonym slot = int
type_synonym epoch = int
type_synonym frame = int
type_synonym gwei = int
type_synonym wei = int
type_synonym hexstr = string
type_synonym module_id = int
type_synonym operator_id = int
type_synonym gid = "int \<times> int" \<comment> \<open>NodeOperatorGlobalIndex\<close>

section \<open>Constants\<close>

definition FAR_FUTURE_EPOCH :: int where "FAR_FUTURE_EPOCH = 2 ^ 64 - 1"
definition MIN_VALIDATOR_WITHDRAWABILITY_DELAY :: int where "MIN_VALIDATOR_WITHDRAWABILITY_DELAY = 2 ^ 8"
definition MAX_SEED_LOOKAHEAD :: int where "MAX_SEED_LOOKAHEAD = 4"
definition EPOCHS_PER_SLASHINGS_VECTOR :: int where "EPOCHS_PER_SLASHINGS_VECTOR = 2 ^ 13"
definition PROPORTIONAL_SLASHING_MULTIPLIER_BELLATRIX :: int where
  "PROPORTIONAL_SLASHING_MULTIPLIER_BELLATRIX = 3"
definition EFFECTIVE_BALANCE_INCREMENT :: gwei where "EFFECTIVE_BALANCE_INCREMENT = 2 ^ 0 * 10 ^ 9"
definition MAX_EFFECTIVE_BALANCE :: gwei where "MAX_EFFECTIVE_BALANCE = 32 * 10 ^ 9"
definition MIN_DEPOSIT_AMOUNT :: gwei where "MIN_DEPOSIT_AMOUNT = 2 ^ 0 * 10 ^ 9"
definition MAX_EFFECTIVE_BALANCE_ELECTRA :: gwei where "MAX_EFFECTIVE_BALANCE_ELECTRA = 2 ^ 11 * 10 ^ 9"
definition MIN_ACTIVATION_BALANCE :: gwei where "MIN_ACTIVATION_BALANCE = 2 ^ 5 * 10 ^ 9"
definition MAX_WITHDRAWALS_PER_PAYLOAD :: int where "MAX_WITHDRAWALS_PER_PAYLOAD = 2 ^ 4"
definition ETH1_ADDRESS_WITHDRAWAL_PREFIX :: hexstr where "ETH1_ADDRESS_WITHDRAWAL_PREFIX = ''0x01''"
definition COMPOUNDING_WITHDRAWAL_PREFIX :: hexstr where "COMPOUNDING_WITHDRAWAL_PREFIX = ''0x02''"
definition CHURN_LIMIT_QUOTIENT :: int where "CHURN_LIMIT_QUOTIENT = 2 ^ 16"
definition MIN_PER_EPOCH_CHURN_LIMIT_ELECTRA :: gwei where
  "MIN_PER_EPOCH_CHURN_LIMIT_ELECTRA = 2 ^ 7 * 10 ^ 9"
definition MAX_PER_EPOCH_ACTIVATION_EXIT_CHURN_LIMIT :: gwei where
  "MAX_PER_EPOCH_ACTIVATION_EXIT_CHURN_LIMIT = 2 ^ 8 * 10 ^ 9"
definition SLOTS_PER_HISTORICAL_ROOT :: int where "SLOTS_PER_HISTORICAL_ROOT = 2 ^ 13"
definition SYNC_COMMITTEE_SIZE :: int where "SYNC_COMMITTEE_SIZE = 512"
definition EPOCHS_PER_SYNC_COMMITTEE_PERIOD :: int where "EPOCHS_PER_SYNC_COMMITTEE_PERIOD = 256"
definition MAX_PENDING_PARTIALS_PER_WITHDRAWALS_SWEEP :: int where
  "MAX_PENDING_PARTIALS_PER_WITHDRAWALS_SWEEP = 2 ^ 3"
definition LIDO_DEPOSIT_AMOUNT :: gwei where "LIDO_DEPOSIT_AMOUNT = MIN_ACTIVATION_BALANCE"
definition SHARE_RATE_PRECISION_E27 :: int where "SHARE_RATE_PRECISION_E27 = 10 ^ 27"
definition TOTAL_BASIS_POINTS :: int where "TOTAL_BASIS_POINTS = 10000"
definition ATTESTATIONS_WEIGHT :: int where "ATTESTATIONS_WEIGHT = 54"
definition BLOCKS_WEIGHT :: int where "BLOCKS_WEIGHT = 8"
definition SYNC_WEIGHT :: int where "SYNC_WEIGHT = 2"
definition GWEI_TO_WEI :: int where "GWEI_TO_WEI = 10 ^ 9"
definition UINT64_MAX :: int where "UINT64_MAX = 2 ^ 64 - 1"
definition SECONDS_IN_YEAR :: int where "SECONDS_IN_YEAR = 31557600"

lemmas constants_defs =
  FAR_FUTURE_EPOCH_def MIN_VALIDATOR_WITHDRAWABILITY_DELAY_def MAX_SEED_LOOKAHEAD_def
  EPOCHS_PER_SLASHINGS_VECTOR_def PROPORTIONAL_SLASHING_MULTIPLIER_BELLATRIX_def
  EFFECTIVE_BALANCE_INCREMENT_def MAX_EFFECTIVE_BALANCE_def MIN_DEPOSIT_AMOUNT_def
  MAX_EFFECTIVE_BALANCE_ELECTRA_def MIN_ACTIVATION_BALANCE_def MAX_WITHDRAWALS_PER_PAYLOAD_def
  ETH1_ADDRESS_WITHDRAWAL_PREFIX_def COMPOUNDING_WITHDRAWAL_PREFIX_def CHURN_LIMIT_QUOTIENT_def
  MIN_PER_EPOCH_CHURN_LIMIT_ELECTRA_def MAX_PER_EPOCH_ACTIVATION_EXIT_CHURN_LIMIT_def
  SLOTS_PER_HISTORICAL_ROOT_def SYNC_COMMITTEE_SIZE_def EPOCHS_PER_SYNC_COMMITTEE_PERIOD_def
  MAX_PENDING_PARTIALS_PER_WITHDRAWALS_SWEEP_def LIDO_DEPOSIT_AMOUNT_def
  SHARE_RATE_PRECISION_E27_def TOTAL_BASIS_POINTS_def ATTESTATIONS_WEIGHT_def BLOCKS_WEIGHT_def
  SYNC_WEIGHT_def GWEI_TO_WEI_def UINT64_MAX_def SECONDS_IN_YEAR_def

section \<open>Records\<close>

record chain_config =
  slots_per_epoch :: int
  seconds_per_slot :: int
  genesis_time :: int

record frame_config =
  initial_epoch :: int
  epochs_per_frame :: int
  fast_lane_length_slots :: int

record blockstamp =
  bs_state_root :: hexstr
  bs_slot_number :: slot
  bs_block_hash :: hexstr
  bs_block_number :: int
  bs_block_timestamp :: int

record ref_blockstamp = blockstamp +
  bs_ref_slot :: slot
  bs_ref_epoch :: epoch

record validator_state =
  vs_pubkey :: hexstr
  vs_withdrawal_credentials :: hexstr
  vs_effective_balance :: gwei
  vs_slashed :: bool
  vs_activation_eligibility_epoch :: epoch
  vs_activation_epoch :: epoch
  vs_exit_epoch :: epoch
  vs_withdrawable_epoch :: epoch

record validator =
  v_index :: int
  v_balance :: gwei
  v_validator :: validator_state

record pending_deposit =
  pd_pubkey :: hexstr
  pd_withdrawal_credentials :: hexstr
  pd_amount :: gwei
  pd_signature :: hexstr
  pd_slot :: slot

record consolidation_request =
  cr_source_index :: int
  cr_target_index :: int
  cr_amount :: gwei

record lido_key =
  lk_index :: int
  lk_key :: hexstr
  lk_operator_index :: operator_id
  lk_module_address :: hexstr

text \<open>
  A \<open>LidoValidator\<close>, and one whose relations (top-ups, consolidations) have been initialised:
  reading an uninitialised relation raises in the code, so the second is a type of its own.
\<close>

record lido_validator = validator +
  lido_id :: lido_key

record linked_validator = lido_validator +
  pending_topups :: "pending_deposit list"
  consolidating_as_source :: "consolidation_request option"
  consolidating_as_target :: "consolidation_request list"

section \<open>Units\<close>

definition wei_to_gwei :: "wei \<Rightarrow> gwei" where
  "wei_to_gwei amount = amount div GWEI_TO_WEI"

definition gwei_to_wei :: "gwei \<Rightarrow> wei" where
  "gwei_to_wei amount = amount * GWEI_TO_WEI"

lemma wei_to_gwei_to_wei [simp]: "wei_to_gwei (gwei_to_wei g) = g"
  by (simp add: wei_to_gwei_def gwei_to_wei_def constants_defs)

lemma gwei_to_wei_mono: "g \<le> h \<Longrightarrow> gwei_to_wei g \<le> gwei_to_wei h"
  by (simp add: gwei_to_wei_def constants_defs)

section \<open>Validator predicates\<close>

definition is_active_validator :: "'a validator_scheme \<Rightarrow> epoch \<Rightarrow> bool" where
  "is_active_validator v e \<longleftrightarrow>
     vs_activation_epoch (v_validator v) \<le> e \<and> e < vs_exit_epoch (v_validator v)"

definition is_exited_validator :: "'a validator_scheme \<Rightarrow> epoch \<Rightarrow> bool" where
  "is_exited_validator v e \<longleftrightarrow> vs_exit_epoch (v_validator v) \<le> e"

definition is_on_exit :: "'a validator_scheme \<Rightarrow> bool" where
  "is_on_exit v \<longleftrightarrow> vs_exit_epoch (v_validator v) \<noteq> FAR_FUTURE_EPOCH"

definition has_far_future_activation_eligibility_epoch :: "validator_state \<Rightarrow> bool" where
  "has_far_future_activation_eligibility_epoch v \<longleftrightarrow>
     vs_activation_eligibility_epoch v = FAR_FUTURE_EPOCH"

definition has_compounding_withdrawal_credential :: "validator_state \<Rightarrow> bool" where
  "has_compounding_withdrawal_credential v \<longleftrightarrow>
     take 4 (vs_withdrawal_credentials v) = COMPOUNDING_WITHDRAWAL_PREFIX"

definition has_eth1_withdrawal_credential :: "validator_state \<Rightarrow> bool" where
  "has_eth1_withdrawal_credential v \<longleftrightarrow>
     take 4 (vs_withdrawal_credentials v) = ETH1_ADDRESS_WITHDRAWAL_PREFIX"

definition has_execution_withdrawal_credential :: "validator_state \<Rightarrow> bool" where
  "has_execution_withdrawal_credential v \<longleftrightarrow>
     has_compounding_withdrawal_credential v \<or> has_eth1_withdrawal_credential v"

definition get_max_effective_balance :: "validator_state \<Rightarrow> gwei" where
  "get_max_effective_balance v =
     (if has_compounding_withdrawal_credential v then MAX_EFFECTIVE_BALANCE_ELECTRA
      else MIN_ACTIVATION_BALANCE)"

definition is_partially_withdrawable_validator :: "validator_state \<Rightarrow> gwei \<Rightarrow> bool" where
  "is_partially_withdrawable_validator v balance =
     (let max_effective_balance = get_max_effective_balance v;
          has_max_effective_balance = (vs_effective_balance v = max_effective_balance);
          has_excess_balance = (balance > max_effective_balance)
      in has_execution_withdrawal_credential v \<and> has_max_effective_balance \<and> has_excess_balance)"

definition is_fully_withdrawable_validator :: "validator_state \<Rightarrow> gwei \<Rightarrow> epoch \<Rightarrow> bool" where
  "is_fully_withdrawable_validator v balance e \<longleftrightarrow>
     has_execution_withdrawal_credential v \<and> vs_withdrawable_epoch v \<le> e \<and> balance > 0"

definition calculate_active_effective_balance_sum :: "'a validator_scheme list \<Rightarrow> epoch \<Rightarrow> gwei" where
  "calculate_active_effective_balance_sum validators ref_epoch =
     fold (\<lambda>v s. if is_active_validator v ref_epoch
                 then s + vs_effective_balance (v_validator v) else s) validators 0"

definition calculate_total_active_effective_balance :: "'a validator_scheme list \<Rightarrow> epoch \<Rightarrow> gwei" where
  "calculate_total_active_effective_balance validators ref_epoch =
     max EFFECTIVE_BALANCE_INCREMENT (calculate_active_effective_balance_sum validators ref_epoch)"

definition compute_activation_exit_epoch :: "epoch \<Rightarrow> epoch" where
  "compute_activation_exit_epoch ref_epoch = ref_epoch + 1 + MAX_SEED_LOOKAHEAD"

definition get_balance_churn_limit :: "gwei \<Rightarrow> gwei" where
  "get_balance_churn_limit total_active_balance =
     (let churn = max MIN_PER_EPOCH_CHURN_LIMIT_ELECTRA (total_active_balance div CHURN_LIMIT_QUOTIENT)
      in churn - churn mod EFFECTIVE_BALANCE_INCREMENT)"

definition get_activation_exit_churn_limit :: "gwei \<Rightarrow> gwei" where
  "get_activation_exit_churn_limit total_active_balance =
     min MAX_PER_EPOCH_ACTIVATION_EXIT_CHURN_LIMIT (get_balance_churn_limit total_active_balance)"

lemma active_sum_eq:
  "calculate_active_effective_balance_sum vs e =
     (\<Sum>v\<leftarrow>filter (\<lambda>v. is_active_validator v e) vs. vs_effective_balance (v_validator v))"
proof -
  have "fold (\<lambda>v s. if is_active_validator v e then s + vs_effective_balance (v_validator v) else s) vs a
      = a + (\<Sum>v\<leftarrow>filter (\<lambda>v. is_active_validator v e) vs. vs_effective_balance (v_validator v))" for a
    by (induction vs arbitrary: a) auto
  then show ?thesis by (simp add: calculate_active_effective_balance_sum_def)
qed

lemma total_active_ge_increment:
  "EFFECTIVE_BALANCE_INCREMENT \<le> calculate_total_active_effective_balance vs e"
  by (simp add: calculate_total_active_effective_balance_def)

lemma get_max_effective_balance_pos: "0 < get_max_effective_balance v"
  by (simp add: get_max_effective_balance_def constants_defs)

lemma churn_limit_bounds:
  "MIN_PER_EPOCH_CHURN_LIMIT_ELECTRA \<le> get_activation_exit_churn_limit t"
  "get_activation_exit_churn_limit t \<le> MAX_PER_EPOCH_ACTIVATION_EXIT_CHURN_LIMIT"
proof -
  let ?churn = "max MIN_PER_EPOCH_CHURN_LIMIT_ELECTRA (t div CHURN_LIMIT_QUOTIENT)"
  have "MIN_PER_EPOCH_CHURN_LIMIT_ELECTRA \<le> ?churn - ?churn mod EFFECTIVE_BALANCE_INCREMENT"
  proof -
    have "128 * 10 ^ 9 \<le> ?churn" by (simp add: constants_defs)
    then have "128 \<le> ?churn div 10 ^ 9" by simp
    moreover have "?churn - ?churn mod 10 ^ 9 = 10 ^ 9 * (?churn div 10 ^ 9)"
      by (rule minus_mod_eq_mult_div)
    ultimately show ?thesis by (simp add: constants_defs)
  qed
  then show "MIN_PER_EPOCH_CHURN_LIMIT_ELECTRA \<le> get_activation_exit_churn_limit t"
    by (simp add: get_activation_exit_churn_limit_def get_balance_churn_limit_def Let_def)
      (simp add: constants_defs)
qed (simp add: get_activation_exit_churn_limit_def)

lemma churn_limit_pos: "0 < get_activation_exit_churn_limit t"
  using churn_limit_bounds(1)[of t] by (simp add: constants_defs)

section \<open>Predicted balances\<close>

definition get_predictable_full_inbound_balance :: "'a linked_validator_scheme \<Rightarrow> gwei" where
  "get_predictable_full_inbound_balance v =
     fold (\<lambda>c t. t + cr_amount c) (consolidating_as_target v)
       (fold (\<lambda>d t. t + pd_amount d) (pending_topups v) (v_balance v))"

definition get_predictable_inbound_balance :: "'a linked_validator_scheme \<Rightarrow> gwei" where
  "get_predictable_inbound_balance v =
     min (get_predictable_full_inbound_balance v) (get_max_effective_balance (v_validator v))"

definition get_predictable_inbound_sweep :: "'a linked_validator_scheme \<Rightarrow> gwei" where
  "get_predictable_inbound_sweep v =
     (let predictable_full_balance = get_predictable_full_inbound_balance v;
          max_effective_balance = get_max_effective_balance (v_validator v);
          effective_balance = min predictable_full_balance max_effective_balance
      in predictable_full_balance - effective_balance)"

lemma inbound_balance_le_max:
  "get_predictable_inbound_balance v \<le> get_max_effective_balance (v_validator v)"
  by (simp add: get_predictable_inbound_balance_def)

lemma inbound_balance_plus_sweep:
  "get_predictable_inbound_balance v + get_predictable_inbound_sweep v =
     get_predictable_full_inbound_balance v"
  by (simp add: get_predictable_inbound_balance_def get_predictable_inbound_sweep_def Let_def)

lemma inbound_sweep_nonneg: "0 \<le> get_predictable_inbound_sweep v"
  by (simp add: get_predictable_inbound_sweep_def Let_def)

end
