(* ===== verification/Converter.thy ===== *)
theory Converter
  imports Chain
begin

text \<open>
  \<open>src/utils/web3converter.py\<close>: conversions between slots, epochs, frames and timestamps. The code
  divides by configuration values; \<open>wf_chain\<close> and \<open>wf_frame\<close> say that they are positive, as the
  HashConsensus contract guarantees (otherwise Python raises ZeroDivisionError).
  The locale \<open>period_clock\<close> is the contract all three partitions of time share (epochs of slots,
  frames of epochs, frames of slots): the index of a point and the first point of an index form a
  Galois connection. It is interpreted on each of the three pairs of functions.
\<close>

section \<open>Conversions\<close>

definition wf_chain :: "chain_config \<Rightarrow> bool" where
  "wf_chain c \<longleftrightarrow> 0 < slots_per_epoch c \<and> 0 < seconds_per_slot c"

definition wf_frame :: "frame_config \<Rightarrow> bool" where
  "wf_frame f \<longleftrightarrow> 0 < epochs_per_frame f"

definition epoch_from_slot :: "slot \<Rightarrow> int \<Rightarrow> epoch" where
  "epoch_from_slot s n = s div n"

definition get_epoch_first_slot :: "chain_config \<Rightarrow> epoch \<Rightarrow> slot" where
  "get_epoch_first_slot c e = e * slots_per_epoch c"

definition get_epoch_last_slot :: "chain_config \<Rightarrow> epoch \<Rightarrow> slot" where
  "get_epoch_last_slot c e = (e + 1) * slots_per_epoch c - 1"

definition get_epoch_by_slot :: "chain_config \<Rightarrow> slot \<Rightarrow> epoch" where
  "get_epoch_by_slot c s = s div slots_per_epoch c"

definition get_slot_by_timestamp :: "chain_config \<Rightarrow> int \<Rightarrow> slot" where
  "get_slot_by_timestamp c timestamp = (timestamp - genesis_time c) div seconds_per_slot c"

definition slots_per_frame :: "chain_config \<Rightarrow> frame_config \<Rightarrow> int" where
  "slots_per_frame c f = epochs_per_frame f * slots_per_epoch c"

definition get_frame_first_slot :: "chain_config \<Rightarrow> frame_config \<Rightarrow> frame \<Rightarrow> slot" where
  "get_frame_first_slot c f n = (initial_epoch f + n * epochs_per_frame f) * slots_per_epoch c"

definition get_frame_last_slot :: "chain_config \<Rightarrow> frame_config \<Rightarrow> frame \<Rightarrow> slot" where
  "get_frame_last_slot c f n = get_frame_first_slot c f (n + 1) - 1"

definition get_epoch_by_timestamp :: "chain_config \<Rightarrow> int \<Rightarrow> epoch" where
  "get_epoch_by_timestamp c timestamp = get_epoch_by_slot c (get_slot_by_timestamp c timestamp)"

definition get_frame_by_epoch :: "frame_config \<Rightarrow> epoch \<Rightarrow> frame" where
  "get_frame_by_epoch f e = (e - initial_epoch f) div epochs_per_frame f"

definition get_frame_by_slot :: "chain_config \<Rightarrow> frame_config \<Rightarrow> slot \<Rightarrow> frame" where
  "get_frame_by_slot c f s = get_frame_by_epoch f (get_epoch_by_slot c s)"

section \<open>Partitions of time\<close>

locale period_clock =
  fixes valid :: "'c \<Rightarrow> bool" and first :: "'c \<Rightarrow> int \<Rightarrow> int" and idx :: "'c \<Rightarrow> int \<Rightarrow> int"
  assumes galois: "valid c \<Longrightarrow> k \<le> idx c s \<longleftrightarrow> first c k \<le> s"
    and first_inj: "valid c \<Longrightarrow> first c j \<le> first c k \<Longrightarrow> j \<le> k"
begin

lemma first_idx_le: "valid c \<Longrightarrow> first c (idx c s) \<le> s"
  using galois[of c "idx c s" s] by simp

lemma lt_next_first: "valid c \<Longrightarrow> s < first c (idx c s + 1)"
  using galois[of c "idx c s + 1" s] by linarith

lemma idx_first: "valid c \<Longrightarrow> idx c (first c k) = k"
  using galois[of c k "first c k"] first_idx_le[of c "first c k"] first_inj[of c "idx c (first c k)" k]
  by linarith

lemma idx_mono: "valid c \<Longrightarrow> s \<le> t \<Longrightarrow> idx c s \<le> idx c t"
  using galois[of c "idx c s" t] first_idx_le[of c s] by linarith

lemma idx_unique: "valid c \<Longrightarrow> idx c s = k \<longleftrightarrow> first c k \<le> s \<and> s < first c (k + 1)"
  using galois[of c k s] galois[of c "k + 1" s] by linarith

lemma idx_last: "valid c \<Longrightarrow> idx c (first c (k + 1) - 1) = k"
  using idx_unique[of c "first c (k + 1) - 1" k] first_inj[of c "k + 1" k] by linarith

lemma first_mono: "valid c \<Longrightarrow> j \<le> k \<Longrightarrow> first c j \<le> first c k"
  using galois[of c j "first c k"] idx_first[of c k] by simp

end

text \<open>Division by a positive period is the Galois connection itself.\<close>

lemma div_galois: "0 < (n::int) \<Longrightarrow> k \<le> s div n \<longleftrightarrow> k * n \<le> s"
proof
  assume n: "0 < n" and "k \<le> s div n"
  then have "k * n \<le> s div n * n" by (intro mult_right_mono) simp_all
  also have "\<dots> \<le> s" using n by (simp add: minus_mod_eq_div_mult[symmetric])
  finally show "k * n \<le> s" .
next
  assume n: "0 < n" and "k * n \<le> s"
  then have "k * n div n \<le> s div n" by (intro zdiv_mono1)
  with n show "k \<le> s div n" by simp
qed

interpretation epochs: period_clock wf_chain get_epoch_first_slot get_epoch_by_slot
  by unfold_locales
    (auto simp: wf_chain_def get_epoch_by_slot_def get_epoch_first_slot_def div_galois)

interpretation frame_epochs: period_clock wf_frame
  "\<lambda>f n. initial_epoch f + n * epochs_per_frame f" get_frame_by_epoch
  by unfold_locales (auto simp: wf_frame_def get_frame_by_epoch_def div_galois)

interpretation frames: period_clock "\<lambda>(c, f). wf_chain c \<and> wf_frame f"
  "\<lambda>(c, f). get_frame_first_slot c f" "\<lambda>(c, f). get_frame_by_slot c f"
proof unfold_locales
  show "(case cf of (c, f) \<Rightarrow> wf_chain c \<and> wf_frame f) \<Longrightarrow>
      (k \<le> (case cf of (c, f) \<Rightarrow> get_frame_by_slot c f) s) =
      ((case cf of (c, f) \<Rightarrow> get_frame_first_slot c f) k \<le> s)" for cf k s
    using frame_epochs.galois[of "snd cf" k "get_epoch_by_slot (fst cf) s"]
      epochs.galois[of "fst cf" "initial_epoch (snd cf) + k * epochs_per_frame (snd cf)" s]
    by (auto simp: get_frame_by_slot_def get_frame_first_slot_def get_epoch_first_slot_def
        split: prod.splits)
  show "(case cf of (c, f) \<Rightarrow> wf_chain c \<and> wf_frame f) \<Longrightarrow>
      (case cf of (c, f) \<Rightarrow> get_frame_first_slot c f) j \<le> (case cf of (c, f) \<Rightarrow> get_frame_first_slot c f) k \<Longrightarrow>
      j \<le> k" for cf j k
    by (auto simp: get_frame_first_slot_def wf_chain_def wf_frame_def split: prod.splits)
qed

lemma get_epoch_last_slot_eq: "get_epoch_last_slot c e = get_epoch_first_slot c (e + 1) - 1"
  by (simp add: get_epoch_last_slot_def get_epoch_first_slot_def)

lemma epoch_of_last_slot: "wf_chain c \<Longrightarrow> get_epoch_by_slot c (get_epoch_last_slot c e) = e"
  unfolding get_epoch_last_slot_eq by (rule epochs.idx_last)

lemma frame_of_slot_iff:
  assumes "wf_chain c" "wf_frame f"
  shows "get_frame_by_slot c f s = n \<longleftrightarrow> get_frame_first_slot c f n \<le> s \<and> s \<le> get_frame_last_slot c f n"
  using frames.idx_unique[of "(c, f)" s n] assms by (auto simp: get_frame_last_slot_def)

lemma frame_first_epoch_slot:
  "wf_chain c \<Longrightarrow>
     get_epoch_by_slot c (get_frame_first_slot c f n) = initial_epoch f + n * epochs_per_frame f"
  by (simp add: get_epoch_by_slot_def get_frame_first_slot_def wf_chain_def)

text \<open>
  The frames partition the slots: the frame computed for a slot is the only frame whose first
  and last slots enclose it, a frame has epochs_per_frame * slots_per_epoch slots, and the next
  frame starts right after its last slot.
\<close>

theorem frames_partition_slots:
  assumes "wf_chain c" and "wf_frame f"
  shows "get_frame_first_slot c f (get_frame_by_slot c f s) \<le> s
    \<and> s \<le> get_frame_last_slot c f (get_frame_by_slot c f s)
    \<and> (\<forall>n. get_frame_first_slot c f n \<le> s \<and> s \<le> get_frame_last_slot c f n \<longrightarrow> n = get_frame_by_slot c f s)
    \<and> get_frame_last_slot c f n - get_frame_first_slot c f n + 1 = slots_per_frame c f
    \<and> get_frame_first_slot c f (n + 1) = get_frame_last_slot c f n + 1"
proof -
  have "get_frame_first_slot c f (get_frame_by_slot c f s) \<le> s"
    "s \<le> get_frame_last_slot c f (get_frame_by_slot c f s)"
    using frame_of_slot_iff[OF assms] by blast+
  moreover have "\<forall>n. get_frame_first_slot c f n \<le> s \<and> s \<le> get_frame_last_slot c f n \<longrightarrow>
      n = get_frame_by_slot c f s"
    using frame_of_slot_iff[OF assms] by metis
  ultimately show ?thesis
    by (simp add: get_frame_last_slot_def get_frame_first_slot_def slots_per_frame_def algebra_simps)
qed

definition mainnet_chain :: chain_config where
  "mainnet_chain = \<lparr>slots_per_epoch = 32, seconds_per_slot = 12, genesis_time = 1606824023\<rparr>"

definition mainnet_frame :: frame_config where
  "mainnet_frame = \<lparr>initial_epoch = 201600, epochs_per_frame = 225, fast_lane_length_slots = 10\<rparr>"

lemma wf_mainnet [simp]: "wf_chain mainnet_chain" "wf_frame mainnet_frame"
  by (simp_all add: wf_chain_def wf_frame_def mainnet_chain_def mainnet_frame_def)

theorem frames_partition_slots_witness:
  "get_frame_by_slot mainnet_chain mainnet_frame 6458400 = 1
    \<and> get_frame_first_slot mainnet_chain mainnet_frame 1 \<le> 6458400
    \<and> 6458400 \<le> get_frame_last_slot mainnet_chain mainnet_frame 1
    \<and> get_frame_first_slot mainnet_chain mainnet_frame 2 = get_frame_last_slot mainnet_chain mainnet_frame 1 + 1"
proof -
  have f: "get_frame_by_slot mainnet_chain mainnet_frame 6458400 = 1" by code_simp
  show ?thesis using frames_partition_slots[OF wf_mainnet, of 6458400 1] f by simp
qed

end
