(* ===== verification/Slots.thy ===== *)
theory Slots
  imports Converter
begin

text \<open>
  \<open>src/utils/slot.py\<close> and \<open>src/utils/blockstamp.py\<close>: finding the block a (possibly missed) slot
  resolves to. The consensus client is a record of its three queries, and so is the answer of
  \<open>eth_utils.add_0x_prefix\<close>; a missed slot is the HTTP status 404. \<open>honest_node\<close> states the
  documented behaviour of a beacon node over a chain \<open>B\<close> of blocks by slot: a header per occupied
  slot, and the parent root of a block resolves to the closest earlier block.
\<close>

record header =
  h_root :: hexstr
  h_canonical :: bool
  h_finalized :: "bool option"
  h_slot :: slot
  h_parent_root :: hexstr

record block_details =
  d_slot :: slot
  d_state_root :: hexstr
  d_block_number :: int
  d_block_hash :: hexstr
  d_timestamp :: int

record cl_client =
  get_block_header_at :: "slot \<Rightarrow> header res"
  get_block_header_by :: "hexstr \<Rightarrow> header res"
  get_block_details :: "hexstr \<Rightarrow> block_details res"
  add_0x_prefix :: "hexstr \<Rightarrow> hexstr"

definition NOT_FOUND :: int where "NOT_FOUND = 404"

definition check_block_header :: "header \<Rightarrow> unit res" where
  "check_block_header h =
     (if h_finalized h = Some False then Inl SlotNotFinalized
      else if \<not> h_canonical h then Inl SlotNotFinalized
      else Inr ())"

text \<open>The loop over the slots: the flag records that a missed slot was seen.\<close>

fun scan_headers :: "cl_client \<Rightarrow> slot list \<Rightarrow> bool \<Rightarrow> (bool \<times> header option) res" where
  "scan_headers cl [] missing = Inr (missing, None)"
| "scan_headers cl (i # is) missing =
     (case get_block_header_at cl i of
        Inr h \<Rightarrow> Inr (missing, Some h)
      | Inl (NotOkResponse status) \<Rightarrow>
          (if status \<noteq> NOT_FOUND then Inl (NotOkResponse status) else scan_headers cl is True)
      | Inl e \<Rightarrow> Inl e)"

definition get_non_missed_slot_header :: "cl_client \<Rightarrow> slot \<Rightarrow> slot \<Rightarrow> (bool \<times> header) res" where
  "get_non_missed_slot_header cl s last_finalized =
     (if s > last_finalized then Inl ValueError
      else bindR (scan_headers cl [s..last_finalized] False) (\<lambda>(missing, existing).
        case existing of
          None \<Rightarrow> Inl NoSlotsAvailable
        | Some h \<Rightarrow> bindR (check_block_header h) (\<lambda>_. Inr (missing, h))))"

definition get_prev_non_missed_slot :: "cl_client \<Rightarrow> slot \<Rightarrow> slot \<Rightarrow> block_details res" where
  "get_prev_non_missed_slot cl s last_finalized =
     bindR (get_non_missed_slot_header cl s last_finalized) (\<lambda>(missing, existing).
       if \<not> missing then get_block_details cl (h_root existing)
       else bindR (get_block_header_by cl (h_parent_root existing)) (\<lambda>parent.
         if h_slot parent \<ge> s \<or> h_slot existing - h_slot parent < 1 then Inl InconsistentData
         else bindR (check_block_header parent) (\<lambda>_. get_block_details cl (h_root parent))))"

definition build_blockstamp :: "cl_client \<Rightarrow> block_details \<Rightarrow> blockstamp" where
  "build_blockstamp cl d =
     \<lparr>bs_state_root = d_state_root d, bs_slot_number = d_slot d,
      bs_block_hash = add_0x_prefix cl (d_block_hash d), bs_block_number = d_block_number d,
      bs_block_timestamp = d_timestamp d\<rparr>"

definition build_reference_blockstamp :: "cl_client \<Rightarrow> block_details \<Rightarrow> slot \<Rightarrow> epoch \<Rightarrow> ref_blockstamp" where
  "build_reference_blockstamp cl d ref_slot ref_epoch =
     blockstamp.extend (build_blockstamp cl d) \<lparr>bs_ref_slot = ref_slot, bs_ref_epoch = ref_epoch\<rparr>"

definition get_blockstamp :: "cl_client \<Rightarrow> slot \<Rightarrow> slot \<Rightarrow> blockstamp res" where
  "get_blockstamp cl s last_finalized =
     bindR (get_prev_non_missed_slot cl s last_finalized) (\<lambda>d. Inr (build_blockstamp cl d))"

definition get_reference_blockstamp :: "cl_client \<Rightarrow> slot \<Rightarrow> slot \<Rightarrow> epoch \<Rightarrow> ref_blockstamp res" where
  "get_reference_blockstamp cl ref_slot last_finalized ref_epoch =
     bindR (get_prev_non_missed_slot cl ref_slot last_finalized)
       (\<lambda>d. Inr (build_reference_blockstamp cl d ref_slot ref_epoch))"

section \<open>What a lookup guarantees for any node\<close>

definition trusted :: "header \<Rightarrow> bool" where
  "trusted h \<longleftrightarrow> h_finalized h \<noteq> Some False \<and> h_canonical h"

lemma check_block_header_iff [res_simps]: "check_block_header h = Inr u \<longleftrightarrow> trusted h"
  by (auto simp: check_block_header_def trusted_def)

lemma scan_headers_flag: "scan_headers cl is True = Inr (m, r) \<Longrightarrow> m"
  by (induction "is") (auto split: sum.splits pyerr.splits if_splits)

lemma scan_headers_not_missing:
  "scan_headers cl (i # is) False = Inr (False, Some h) \<Longrightarrow> get_block_header_at cl i = Inr h"
  by (auto split: sum.splits pyerr.splits if_splits dest: scan_headers_flag)

text \<open>
  Whatever the node answers, a successful lookup for a slot returns the details of a header
  that passed the finality and canonicity checks, and that header is the one the node gave for
  the slot itself or one of a strictly earlier slot: a report is never built on a later block.
\<close>

theorem prev_non_missed_slot_safe:
  assumes "get_prev_non_missed_slot cl s last_finalized = Inr d"
  shows "s \<le> last_finalized \<and>
    (\<exists>h. trusted h \<and> get_block_details cl (h_root h) = Inr d
       \<and> (get_block_header_at cl s = Inr h \<or> h_slot h < s))"
proof -
  from assms obtain m h where mh: "get_non_missed_slot_header cl s last_finalized = Inr (m, h)"
    and rest: "(if \<not> m then get_block_details cl (h_root h)
       else bindR (get_block_header_by cl (h_parent_root h)) (\<lambda>parent.
         if h_slot parent \<ge> s \<or> h_slot h - h_slot parent < 1 then Inl InconsistentData
         else bindR (check_block_header parent) (\<lambda>_. get_block_details cl (h_root parent)))) = Inr d"
    by (auto simp: get_prev_non_missed_slot_def res_simps)
  from mh have le: "s \<le> last_finalized" and t: "trusted h"
    and sc: "scan_headers cl [s..last_finalized] False = Inr (m, Some h)"
    by (auto simp: get_non_missed_slot_header_def res_simps split: if_splits option.splits)
  show ?thesis
  proof (cases m)
    case True
    with rest le show ?thesis by (auto simp: res_simps split: if_splits)
  next
    case False
    have "[s..last_finalized] = s # [s+1..last_finalized]" using le by (rule upto_rec1)
    with sc False have "get_block_header_at cl s = Inr h"
      using scan_headers_not_missing[of cl s "[s+1..last_finalized]" h] by simp
    with rest False le t show ?thesis by auto
  qed
qed

section \<open>Lookups on an honest node\<close>

definition closest_block :: "(slot \<Rightarrow> header option) \<Rightarrow> slot \<Rightarrow> slot \<Rightarrow> bool" where
  "closest_block B s p \<longleftrightarrow> p \<le> s \<and> B p \<noteq> None \<and> (\<forall>q. p < q \<and> q \<le> s \<longrightarrow> B q = None)"

definition honest_node :: "cl_client \<Rightarrow> (slot \<Rightarrow> header option) \<Rightarrow> (slot \<Rightarrow> block_details) \<Rightarrow> bool" where
  "honest_node cl B D \<longleftrightarrow>
     (\<forall>s. get_block_header_at cl s = (case B s of None \<Rightarrow> Inl (NotOkResponse NOT_FOUND) | Some h \<Rightarrow> Inr h)) \<and>
     (\<forall>s h. B s = Some h \<longrightarrow> h_slot h = s \<and> trusted h \<and> get_block_details cl (h_root h) = Inr (D s) \<and>
       (\<forall>p. closest_block B (s - 1) p \<longrightarrow> get_block_header_by cl (h_parent_root h) = Inr (the (B p))))"

lemma scan_headers_honest:
  assumes hon: "honest_node cl B D" and le: "s \<le> l" and B: "B l \<noteq> None"
  shows "\<exists>q h. s \<le> q \<and> q \<le> l \<and> B q = Some h \<and> (\<forall>r. s \<le> r \<and> r < q \<longrightarrow> B r = None)
    \<and> scan_headers cl [s..l] m = Inr (m \<or> s < q, Some h)"
  using le
proof (induction "nat (l - s)" arbitrary: s m)
  case 0
  then have "s = l" by simp
  moreover obtain h where "B l = Some h" using B by auto
  ultimately show ?case
    using hon by (intro exI[of _ l] exI[of _ h]) (auto simp: honest_node_def)
next
  case (Suc k)
  have up: "[s..l] = s # [s+1..l]" using Suc.prems by (rule upto_rec1)
  show ?case
  proof (cases "B s")
    case (Some h)
    with hon Suc.prems show ?thesis by (intro exI[of _ s]) (auto simp: honest_node_def up)
  next
    case None
    with B have "s \<noteq> l" by auto
    with Suc.prems have "s + 1 \<le> l" by simp
    moreover have "k = nat (l - (s + 1))" using Suc.hyps(2) by simp
    ultimately obtain q h where q: "s + 1 \<le> q" "q \<le> l" "B q = Some h"
      "\<forall>r. s + 1 \<le> r \<and> r < q \<longrightarrow> B r = None" "scan_headers cl [s+1..l] True = Inr (True, Some h)"
      using Suc.hyps(1)[of "s + 1" True] by auto
    have "\<forall>r. s \<le> r \<and> r < q \<longrightarrow> B r = None"
      using q(4) None by (metis add1_zle_eq order_le_less)
    moreover have "scan_headers cl [s..l] m = Inr (True, Some h)"
      using None hon q(5) by (auto simp: honest_node_def up)
    ultimately show ?thesis using q by (intro exI[of _ q]) auto
  qed
qed

lemma prev_non_missed_slot_honest:
  assumes hon: "honest_node cl B D" and le: "s \<le> last_finalized" and fin: "B last_finalized \<noteq> None"
    and close: "closest_block B s p"
  shows "get_prev_non_missed_slot cl s last_finalized = Inr (D p)"
proof -
  obtain q h where q: "s \<le> q" "B q = Some h" "\<forall>r. s \<le> r \<and> r < q \<longrightarrow> B r = None"
    "scan_headers cl [s..last_finalized] False = Inr (s < q, Some h)"
    using scan_headers_honest[OF hon le fin, of False] by auto
  have h: "h_slot h = q" "trusted h" "get_block_details cl (h_root h) = Inr (D q)"
    using hon q(2) by (auto simp: honest_node_def)
  have head: "get_non_missed_slot_header cl s last_finalized = Inr (s < q, h)"
    using le q(4) h(2) by (auto simp: get_non_missed_slot_header_def res_simps)
  show ?thesis
  proof (cases "s < q")
    case False
    then have "q = s" using q(1) by simp
    moreover have "p = s"
      using close q(2) \<open>q = s\<close> by (auto simp: closest_block_def order_le_less)
    ultimately show ?thesis using head h by (simp add: get_prev_non_missed_slot_def)
  next
    case True
    obtain g where g: "B p = Some g" using close by (auto simp: closest_block_def)
    have "B s = None" using q(3) True by auto
    with g close have ps: "p < s" by (auto simp: closest_block_def order_le_less)
    have "B r = None" if "p < r" "r \<le> q - 1" for r
      using that close q(3) by (cases "r \<le> s") (auto simp: closest_block_def)
    then have "closest_block B (q - 1) p" using g ps True by (auto simp: closest_block_def)
    with hon q(2) g have "get_block_header_by cl (h_parent_root h) = Inr g"
      by (auto simp: honest_node_def)
    moreover have "h_slot g = p" "trusted g" "get_block_details cl (h_root g) = Inr (D p)"
      using hon g by (auto simp: honest_node_def)
    moreover have "check_block_header g = Inr ()" using \<open>trusted g\<close> by (simp add: res_simps)
    ultimately show ?thesis using head True ps h(1) by (simp add: get_prev_non_missed_slot_def)
  qed
qed

text \<open>
  On an honest node, with a finalized block at or after the slot, the lookup of a slot returns
  the details of the closest block at or before it: the slot's own block if there is one, the last
  block before the gap of missed slots otherwise.
\<close>

theorem prev_non_missed_slot_correct:
  assumes hon: "honest_node cl B D" and le: "s \<le> last_finalized" and fin: "B last_finalized \<noteq> None"
    and close: "closest_block B s p"
  shows "get_prev_non_missed_slot cl s last_finalized = Inr (D p)"
  by (rule prev_non_missed_slot_honest[OF assms])

text \<open>The chain drawn in the comment of the function: blocks at 17, 18, 23 and 24, slot 19 is asked for.\<close>

definition demo_header :: "slot \<Rightarrow> slot \<Rightarrow> header" where
  "demo_header s parent =
     \<lparr>h_root = replicate (nat s) CHR ''r'', h_canonical = True, h_finalized = Some True,
      h_slot = s, h_parent_root = replicate (nat parent) CHR ''r''\<rparr>"

definition demo_chain :: "slot \<Rightarrow> header option" where
  "demo_chain s =
     (if s = 17 then Some (demo_header 17 0) else if s = 18 then Some (demo_header 18 17)
      else if s = 23 then Some (demo_header 23 18) else if s = 24 then Some (demo_header 24 23)
      else None)"

definition demo_details :: "slot \<Rightarrow> block_details" where
  "demo_details s =
     \<lparr>d_slot = s, d_state_root = ''s'', d_block_number = s - 5, d_block_hash = ''b'', d_timestamp = 12 * s\<rparr>"

definition demo_node :: cl_client where
  "demo_node =
     \<lparr>get_block_header_at = (\<lambda>s. case demo_chain s of None \<Rightarrow> Inl (NotOkResponse NOT_FOUND) | Some h \<Rightarrow> Inr h),
      get_block_header_by = (\<lambda>root. case demo_chain (int (length root)) of None \<Rightarrow> Inl (NotOkResponse NOT_FOUND) | Some h \<Rightarrow> Inr h),
      get_block_details = (\<lambda>root. Inr (demo_details (int (length root)))),
      add_0x_prefix = (\<lambda>x. ''0x'' @ x)\<rparr>"

lemma demo_closest:
  "closest_block demo_chain 17 p \<Longrightarrow> p = 17"
  "closest_block demo_chain 22 p \<Longrightarrow> p = 18"
  "closest_block demo_chain 23 p \<Longrightarrow> p = 23"
  "\<not> closest_block demo_chain 16 p"
proof -
  have dom: "demo_chain p \<noteq> None \<Longrightarrow> p = 17 \<or> p = 18 \<or> p = 23 \<or> p = 24"
    by (auto simp: demo_chain_def split: if_splits)
  show "closest_block demo_chain 17 p \<Longrightarrow> p = 17" "\<not> closest_block demo_chain 16 p"
    using dom by (auto simp: closest_block_def)
  show "closest_block demo_chain 22 p \<Longrightarrow> p = 18"
    using dom by (auto simp: closest_block_def demo_chain_def dest!: spec[of _ 18])
  show "closest_block demo_chain 23 p \<Longrightarrow> p = 23"
    using dom by (auto simp: closest_block_def demo_chain_def dest!: spec[of _ 23])
qed

lemma demo_honest: "honest_node demo_node demo_chain demo_details"
proof -
  have "\<forall>s h. demo_chain s = Some h \<longrightarrow> h_slot h = s \<and> trusted h
      \<and> get_block_details demo_node (h_root h) = Inr (demo_details s)"
    by (auto simp: demo_chain_def demo_header_def trusted_def demo_node_def split: if_splits)
  moreover have "get_block_header_by demo_node (h_parent_root h) = Inr (the (demo_chain p))"
    if "demo_chain s = Some h" "closest_block demo_chain (s - 1) p" for s h p
    using that demo_closest[of p]
    by (auto simp: demo_chain_def demo_header_def demo_node_def split: if_splits)
  ultimately show ?thesis by (simp add: honest_node_def) (simp add: demo_node_def)
qed

theorem prev_non_missed_slot_correct_witness:
  "get_prev_non_missed_slot demo_node 19 24 = Inr (demo_details 18)"
proof -
  have "closest_block demo_chain 19 18" by (auto simp: closest_block_def demo_chain_def)
  then show ?thesis
    by (intro prev_non_missed_slot_correct[OF demo_honest]) (simp_all add: demo_chain_def)
qed

theorem prev_non_missed_slot_safe_witness:
  "\<exists>h. trusted h \<and> get_block_details demo_node (h_root h) = Inr (demo_details 18)
     \<and> (get_block_header_at demo_node 19 = Inr h \<or> h_slot h < 19)"
proof -
  have "get_prev_non_missed_slot demo_node 19 24 = Inr (demo_details 18)" by code_simp
  from prev_non_missed_slot_safe[OF this] show ?thesis by blast
qed

end
