(* ===== verification/Events.thy ===== *)
theory Events
  imports Chain
begin

text \<open>
  \<open>src/utils/events.py\<close> and \<open>src/utils/block.py\<close>: event logs fetched in chunks, the search window
  that tolerates missed slots, and the timestamps of many blocks with few requests. The node is a
  parameter: \<open>get_logs\<close> (a contract event's \<open>get_logs\<close>), \<open>get_block\<close> (the timestamp of a block),
  \<open>batch\<close> (a batched request). \<open>EVENTS_SEARCH_STEP\<close> and \<open>BLOCK_BATCH_SIZE_LIMIT\<close> are environment
  variables and so parameters too. The chunk loop has no bound of its own: it is a
  \<open>partial_function\<close>, whose value \<open>None\<close> is a loop that does not end.
\<close>

record event =
  ev_block :: int
  ev_args :: "(string \<times> int) list"

type_synonym 'z logs_query = "int \<Rightarrow> int \<Rightarrow> 'z event_scheme list res"
type_synonym get_logs = "unit logs_query"

section \<open>Fetching logs in chunks\<close>

partial_function (option) events_loop :: "int \<Rightarrow> 'z logs_query \<Rightarrow> int \<Rightarrow> int \<Rightarrow> 'z event_scheme list res option" where
  "events_loop step get_logs l_block r_block =
     (let to_block = min r_block (l_block + step) in
      case get_logs l_block to_block of
        Inl e \<Rightarrow> Some (Inl e)
      | Inr es \<Rightarrow>
          (if \<exists>e \<in> set es. \<not> (l_block \<le> ev_block e \<and> ev_block e \<le> to_block)
           then Some (Inl InconsistentEvents)
           else if to_block = r_block then Some (Inr es)
           else Option.bind (events_loop step get_logs (to_block + 1) r_block)
                  (\<lambda>rest. Some (bindR rest (\<lambda>more. Inr (es @ more))))))"

declare events_loop.simps [code]

definition get_events_in_range :: "int \<Rightarrow> 'z logs_query \<Rightarrow> int \<Rightarrow> int \<Rightarrow> 'z event_scheme list res option" where
  "get_events_in_range step get_logs l_block r_block =
     (if l_block > r_block then Some (Inl ValueError)
      else events_loop step get_logs l_block r_block)"

text \<open>The list comprehension that keeps the events after the timestamp border.\<close>

fun events_after :: "string \<Rightarrow> int \<Rightarrow> event list \<Rightarrow> event list res" where
  "events_after field from_timestamp [] = Inr []"
| "events_after field from_timestamp (e # es) =
     bindR (lookupR (ev_args e) field) (\<lambda>t.
       bindR (events_after field from_timestamp es) (\<lambda>rest.
         Inr (if t > from_timestamp then e # rest else rest)))"

definition get_events_in_past ::
    "int \<Rightarrow> get_logs \<Rightarrow> ref_blockstamp \<Rightarrow> int \<Rightarrow> int \<Rightarrow> string \<Rightarrow> event list res option" where
  "get_events_in_past step get_logs to_blockstamp for_slots slot_seconds timestamp_field_name =
     (let ref_slot_shift = bs_ref_slot to_blockstamp - bs_slot_number to_blockstamp;
          for_slots_without_missed_blocks = for_slots - ref_slot_shift
      in if for_slots_without_missed_blocks \<le> 0 then Some (Inr [])
         else
           let from_block = max 0 (bs_block_number to_blockstamp - for_slots_without_missed_blocks);
               from_timestamp = bs_block_timestamp to_blockstamp
                 - for_slots_without_missed_blocks * slot_seconds
           in Option.bind (get_events_in_range step get_logs from_block (bs_block_number to_blockstamp))
                (\<lambda>r. Some (bindR r (events_after timestamp_field_name from_timestamp))))"

section \<open>Lemmas\<close>

definition logs_between :: "'z event_scheme list \<Rightarrow> int \<Rightarrow> int \<Rightarrow> 'z event_scheme list" where
  "logs_between evs l r = filter (\<lambda>e. l \<le> ev_block e \<and> ev_block e \<le> r) evs"

lemma logs_between_split:
  assumes "sorted (map ev_block evs)" and "l \<le> m" and "m \<le> r"
  shows "logs_between evs l m @ logs_between evs (m + 1) r = logs_between evs l r"
  using assms(1)
proof (induction evs)
  case Nil
  then show ?case by (simp add: logs_between_def)
next
  case (Cons e evs)
  then have IH: "logs_between evs l m @ logs_between evs (m + 1) r = logs_between evs l r" by simp
  show ?case
  proof (cases "ev_block e \<le> m")
    case True
    then show ?thesis using IH assms(2,3) by (auto simp: logs_between_def)
  next
    case False
    with Cons.prems have "logs_between evs l m = []"
      by (auto simp: logs_between_def filter_empty_conv)
    then show ?thesis using IH False assms(2,3) by (auto simp: logs_between_def)
  qed
qed

lemma events_loop_honest:
  assumes step: "0 \<le> step" and sorted: "sorted (map ev_block evs)"
    and honest: "\<And>a b. get_logs a b = Inr (logs_between evs a b)"
  shows "l \<le> r \<Longrightarrow> events_loop step get_logs l r = Some (Inr (logs_between evs l r))"
proof (induction "nat (r - l)" arbitrary: l rule: less_induct)
  case less
  let ?to = "min r (l + step)"
  have ok: "\<not> (\<exists>e \<in> set (logs_between evs l ?to). \<not> (l \<le> ev_block e \<and> ev_block e \<le> ?to))"
    by (auto simp: logs_between_def)
  show ?case
  proof (cases "?to = r")
    case True
    with ok show ?thesis by (subst events_loop.simps) (simp add: honest Let_def)
  next
    case False
    then have to: "?to = l + step" "l \<le> ?to" "?to + 1 \<le> r" using step by (auto simp: min_def)
    then have "events_loop step get_logs (?to + 1) r = Some (Inr (logs_between evs (?to + 1) r))"
      by (intro less(1)) auto
    with ok False show ?thesis
      by (subst events_loop.simps)
        (simp add: honest Let_def logs_between_split[OF sorted, of l "l + step" r] step to(3)[unfolded to(1)] order.strict_implies_order)
  qed
qed

lemma events_loop_in_range:
  assumes "events_loop step get_logs l r = Some res"
  shows "\<forall>es. res = Inr es \<longrightarrow> l \<le> r \<longrightarrow> 0 \<le> step \<longrightarrow> (\<forall>e \<in> set es. l \<le> ev_block e \<and> ev_block e \<le> r)"
proof (rule events_loop.raw_induct[of "\<lambda>step get_logs l r res.
    \<forall>es. res = Inr es \<longrightarrow> l \<le> r \<longrightarrow> 0 \<le> step \<longrightarrow> (\<forall>e \<in> set es. l \<le> ev_block e \<and> ev_block e \<le> r)", OF _ assms])
  fix loop :: "int \<Rightarrow> 'z logs_query \<Rightarrow> int \<Rightarrow> int \<Rightarrow> 'z event_scheme list res option"
    and step :: int and get_logs :: "'z logs_query" and l r :: int and res :: "'z event_scheme list res"
  assume IH: "\<And>step get_logs l r res. loop step get_logs l r = Some res \<Longrightarrow>
      \<forall>es. res = Inr es \<longrightarrow> l \<le> r \<longrightarrow> 0 \<le> step \<longrightarrow> (\<forall>e \<in> set es. l \<le> ev_block e \<and> ev_block e \<le> r)"
    and eq: "(let to_block = min r (l + step) in
      case get_logs l to_block of Inl e \<Rightarrow> Some (Inl e)
      | Inr es \<Rightarrow>
          if \<exists>e \<in> set es. \<not> (l \<le> ev_block e \<and> ev_block e \<le> to_block) then Some (Inl InconsistentEvents)
          else if to_block = r then Some (Inr es)
          else Option.bind (loop step get_logs (to_block + 1) r)
                 (\<lambda>rest. Some (bindR rest (\<lambda>more. Inr (es @ more))))) = Some res"
  show "\<forall>es. res = Inr es \<longrightarrow> l \<le> r \<longrightarrow> 0 \<le> step \<longrightarrow> (\<forall>e \<in> set es. l \<le> ev_block e \<and> ev_block e \<le> r)"
  proof (intro allI impI ballI)
    fix es e
    assume res: "res = Inr es" and lr: "l \<le> r" "0 \<le> step" and e: "e \<in> set es"
    let ?to = "min r (l + step)"
    from eq res obtain chunk where chunk: "get_logs l ?to = Inr chunk"
      "\<forall>e \<in> set chunk. l \<le> ev_block e \<and> ev_block e \<le> ?to"
      by (auto simp: Let_def split: sum.splits if_splits)
    show "l \<le> ev_block e \<and> ev_block e \<le> r"
    proof (cases "?to = r")
      case True
      with eq res chunk e show ?thesis by (auto simp: Let_def)
    next
      case False
      with eq res chunk obtain more where more: "loop step get_logs (?to + 1) r = Some (Inr more)"
        "es = chunk @ more"
        by (auto simp: Let_def res_simps bind_eq_Some_conv split: if_splits)
      have "?to + 1 \<le> r" "l \<le> ?to" using False lr by (auto simp: min_def)
      with IH[OF more(1)] lr have "\<forall>e \<in> set more. l \<le> ev_block e \<and> ev_block e \<le> r" by auto
      with chunk(2) more(2) e show ?thesis by auto
    qed
  qed
qed

text \<open>
  C10. Fetching a range in chunks is the same as fetching it at once: with a node that answers each
  chunk with the logs of its blocks, and a step that is not negative, the loop ends and yields every
  log of the closed range, once and in the order of the chain, whatever the step.
\<close>

theorem events_in_range_complete:
  assumes "0 \<le> step" and "sorted (map ev_block evs)"
    and "\<And>a b. get_logs a b = Inr (logs_between evs a b)"
  shows "get_events_in_range step get_logs l r =
    (if l > r then Some (Inl ValueError) else Some (Inr (logs_between evs l r)))"
  using events_loop_honest[OF assms, of l r] by (simp add: get_events_in_range_def)

definition demo_log :: "event list" where
  "demo_log = map (\<lambda>(b, t). \<lparr>ev_block = b, ev_args = [(''timestamp'', t)]\<rparr>)
     [(7, 120), (9, 144), (10, 168), (12, 204), (13, 216), (14, 276)]"

theorem events_in_range_complete_witness:
  "get_events_in_range 2 (\<lambda>a b. Inr (logs_between demo_log a b)) 8 13
     = Some (Inr (logs_between demo_log 8 13))"
proof -
  have "sorted (map ev_block demo_log)" by code_simp
  from events_in_range_complete[OF _ this, of 2 "\<lambda>a b. Inr (logs_between demo_log a b)" 8 13]
  show ?thesis by simp
qed

text \<open>
  Whatever the node answers, an event the range query yields lies in the requested range: a log
  outside its chunk makes the whole query fail.
\<close>

theorem events_in_range_sound:
  assumes "get_events_in_range step get_logs l r = Some (Inr es)" and "0 \<le> step" and "e \<in> set es"
  shows "l \<le> ev_block e \<and> ev_block e \<le> r"
proof -
  from assms(1) have "l \<le> r" "events_loop step get_logs l r = Some (Inr es)"
    by (auto simp: get_events_in_range_def split: if_splits)
  with events_loop_in_range[OF this(2)] assms(2,3) show ?thesis by auto
qed

theorem events_in_range_sound_witness:
  "7 \<le> ev_block (demo_log ! 0) \<and> ev_block (demo_log ! 0) \<le> 13"
proof -
  have "sorted (map ev_block demo_log)" by code_simp
  then have "events_loop 2 (\<lambda>a b. Inr (logs_between demo_log a b)) 7 13 = Some (Inr (logs_between demo_log 7 13))"
    by (intro events_loop_honest) simp_all
  then have r: "get_events_in_range 2 (\<lambda>a b. Inr (logs_between demo_log a b)) 7 13
      = Some (Inr (logs_between demo_log 7 13))"
    by (simp add: get_events_in_range_def)
  have m: "demo_log ! 0 \<in> set (logs_between demo_log 7 13)" by code_simp
  show ?thesis by (rule events_in_range_sound[OF r _ m]) simp
qed

text \<open>
  The configuration check only refuses a step of zero. With the step -1 and a node without
  logs, the loop over any non-empty range never ends.
\<close>

theorem negative_step_never_returns:
  "get_events_in_range (- 1) (\<lambda>a b. Inr []) l (l + int n) = None"
proof -
  have "\<And>step get_logs l r y. events_loop step get_logs l r = Some y \<Longrightarrow>
      step = - 1 \<and> get_logs = (\<lambda>a b. Inr []) \<and> l \<le> r \<longrightarrow> False"
  proof (rule events_loop.raw_induct[of "\<lambda>step get_logs l r y.
      step = - 1 \<and> get_logs = (\<lambda>a b. Inr []) \<and> l \<le> r \<longrightarrow> False"])
    fix loop :: "int \<Rightarrow> 'z logs_query \<Rightarrow> int \<Rightarrow> int \<Rightarrow> 'z event_scheme list res option" and step :: int and get_logs :: "'z logs_query" and l r :: int and y
    assume IH: "\<And>step get_logs l r y. loop step get_logs l r = Some y \<Longrightarrow>
        step = - 1 \<and> get_logs = (\<lambda>a b. Inr []) \<and> l \<le> r \<longrightarrow> False"
      and eq: "(let to_block = min r (l + step) in
        case get_logs l to_block of Inl e \<Rightarrow> Some (Inl e)
        | Inr es \<Rightarrow>
            if \<exists>e \<in> set es. \<not> (l \<le> ev_block e \<and> ev_block e \<le> to_block) then Some (Inl InconsistentEvents)
            else if to_block = r then Some (Inr es)
            else Option.bind (loop step get_logs (to_block + 1) r)
                   (\<lambda>rest. Some (bindR rest (\<lambda>more. Inr (es @ more))))) = Some y"
    show "step = - 1 \<and> get_logs = (\<lambda>a b. Inr []) \<and> l \<le> r \<longrightarrow> False"
    proof
      assume a: "step = - 1 \<and> get_logs = (\<lambda>a b. Inr []) \<and> l \<le> r"
      then have "min r (l + step) = l - 1" by (simp add: min_def)
      with eq a obtain z where "loop step get_logs l r = Some z"
        by (auto simp: Let_def bind_eq_Some_conv)
      with IH a show False by blast
    qed
  qed
  then have "\<And>y. events_loop (- 1) (\<lambda>a b. Inr []) l (l + int n) \<noteq> Some y" by fastforce
  then show ?thesis by (auto simp: get_events_in_range_def)
qed

section \<open>The window of events before a reference slot\<close>

text \<open>On the chain, consecutive blocks are at least one slot apart.\<close>

definition spaced_blocks :: "int \<Rightarrow> (int \<Rightarrow> int) \<Rightarrow> bool" where
  "spaced_blocks slot_seconds T \<longleftrightarrow> (\<forall>b. T b + slot_seconds \<le> T (b + 1))"

lemma spaced_blocks_le:
  assumes "spaced_blocks slot_seconds T" and "a \<le> b"
  shows "T a + (b - a) * slot_seconds \<le> T b"
proof -
  have "T a + int k * slot_seconds \<le> T (a + int k)" for k
  proof (induction k)
    case (Suc k)
    moreover have "T (a + int k) + slot_seconds \<le> T (a + int k + 1)"
      using assms(1) by (simp add: spaced_blocks_def)
    ultimately show ?case by (simp add: algebra_simps)
  qed simp
  from this[of "nat (b - a)"] assms(2) show ?thesis by simp
qed

definition stamped :: "string \<Rightarrow> (int \<Rightarrow> int) \<Rightarrow> event list \<Rightarrow> bool" where
  "stamped field T es \<longleftrightarrow> (\<forall>e \<in> set es. map_of (ev_args e) field = Some (T (ev_block e)))"

lemma events_after_stamped:
  "stamped field T es \<Longrightarrow> events_after field border es = Inr (filter (\<lambda>e. T (ev_block e) > border) es)"
proof (induction es)
  case Nil
  then show ?case by simp
next
  case (Cons e es)
  then have "stamped field T es" by (simp add: stamped_def)
  with Cons show ?case by (simp add: stamped_def lookupR_def)
qed

text \<open>
  The window query tolerates missed slots: on a chain whose blocks are at least a slot apart,
  with events that carry their block's timestamp, it returns exactly the events up to the reference
  block that are later than the reference slot's time minus \<open>for_slots\<close> slots. The bound it puts on
  block numbers cuts off no such event, whichever slots were missed.
\<close>

theorem events_in_past_window:
  assumes "0 \<le> step" and "sorted (map ev_block evs)"
    and "\<And>a b. get_logs a b = Inr (logs_between evs a b)"
    and chain: "spaced_blocks slot_seconds T" "0 < slot_seconds"
    and stamps: "stamped field T evs" "\<And>e. e \<in> set evs \<Longrightarrow> 0 \<le> ev_block e"
    and block: "T (bs_block_number bs) = bs_block_timestamp bs" "0 \<le> bs_block_number bs"
    and border: "border = bs_block_timestamp bs + (bs_ref_slot bs - bs_slot_number bs - for_slots) * slot_seconds"
  shows "get_events_in_past step get_logs bs for_slots slot_seconds field =
    Some (Inr (filter (\<lambda>e. ev_block e \<le> bs_block_number bs \<and> T (ev_block e) > border) evs))"
proof -
  let ?k = "for_slots - (bs_ref_slot bs - bs_slot_number bs)" and ?n = "bs_block_number bs"
  let ?l = "max 0 (?n - ?k)"
  have border': "border = bs_block_timestamp bs - ?k * slot_seconds"
    unfolding border by (simp add: algebra_simps)
  have near: "?n - ?k < b" if "b \<le> ?n" "T b > border" for b
  proof (rule ccontr)
    assume "\<not> ?n - ?k < b"
    then have "?k * slot_seconds \<le> (?n - b) * slot_seconds"
      using chain(2) by (intro mult_right_mono) simp_all
    with spaced_blocks_le[OF chain(1) that(1)] that(2) block(1) border' show False by linarith
  qed
  show ?thesis
  proof (cases "?k \<le> 0")
    case True
    with near have "filter (\<lambda>e. ev_block e \<le> ?n \<and> T (ev_block e) > border) evs = []"
      by (fastforce simp: filter_empty_conv)
    with True show ?thesis by (simp add: get_events_in_past_def Let_def)
  next
    case False
    have range: "get_events_in_range step get_logs ?l ?n = Some (Inr (logs_between evs ?l ?n))"
      using False block(2) by (simp add: get_events_in_range_def events_loop_honest[OF assms(1-3)])
    have "stamped field T (logs_between evs ?l ?n)"
      using stamps(1) by (auto simp: stamped_def logs_between_def)
    then have "get_events_in_past step get_logs bs for_slots slot_seconds field =
        Some (Inr (filter (\<lambda>e. T (ev_block e) > border) (logs_between evs ?l ?n)))"
      using False range border' by (simp add: get_events_in_past_def Let_def events_after_stamped)
    also have "filter (\<lambda>e. T (ev_block e) > border) (logs_between evs ?l ?n) =
        filter (\<lambda>e. ev_block e \<le> ?n \<and> T (ev_block e) > border) evs"
      unfolding logs_between_def filter_filter
    proof (rule filter_cong)
      fix e assume "e \<in> set evs"
      with stamps(2)[of e] near[of "ev_block e"]
      show "((?l \<le> ev_block e \<and> ev_block e \<le> ?n) \<and> T (ev_block e) > border) =
          (ev_block e \<le> ?n \<and> T (ev_block e) > border)" by auto
    qed simp
    finally show ?thesis .
  qed
qed

text \<open>The chain drawn in the comment of the function: slots of 12 seconds, reference slot 22.\<close>

definition demo_times :: "int \<Rightarrow> int" where
  "demo_times b =
     (if b \<le> 2 then 12 * b else if b \<le> 6 then 12 * (b + 1) else if b \<le> 9 then 12 * (b + 3)
      else if b \<le> 11 then 12 * (b + 4) else if b \<le> 13 then 12 * (b + 5) else 12 * (b + 9))"

definition demo_blockstamp :: ref_blockstamp where
  "demo_blockstamp =
     \<lparr>bs_state_root = ''r'', bs_slot_number = 18, bs_block_hash = ''h'', bs_block_number = 13,
      bs_block_timestamp = 216, bs_ref_slot = 22, bs_ref_epoch = 0\<rparr>"

theorem events_in_past_window_witness:
  "get_events_in_past 3 (\<lambda>a b. Inr (logs_between demo_log a b)) demo_blockstamp 10 12 ''timestamp''
     = Some (Inr (map (\<lambda>(b, t). \<lparr>ev_block = b, ev_args = [(''timestamp'', t)]\<rparr>) [(10, 168), (12, 204), (13, 216)]))"
proof -
  have "sorted (map ev_block demo_log)" by code_simp
  moreover have "spaced_blocks 12 demo_times" by (auto simp: spaced_blocks_def demo_times_def)
  moreover have "stamped ''timestamp'' demo_times demo_log" by code_simp
  moreover have "\<And>e. e \<in> set demo_log \<Longrightarrow> 0 \<le> ev_block e" by (auto simp: demo_log_def)
  moreover have "demo_times (bs_block_number demo_blockstamp) = bs_block_timestamp demo_blockstamp" by code_simp
  moreover have "filter (\<lambda>e. ev_block e \<le> bs_block_number demo_blockstamp \<and> demo_times (ev_block e) > 144) demo_log
      = map (\<lambda>(b, t). \<lparr>ev_block = b, ev_args = [(''timestamp'', t)]\<rparr>) [(10, 168), (12, 204), (13, 216)]"
    by code_simp
  ultimately show ?thesis
    using events_in_past_window[of 3 demo_log "\<lambda>a b. Inr (logs_between demo_log a b)" 12 demo_times
        "''timestamp''" demo_blockstamp 144 10]
    by (simp add: demo_blockstamp_def)
qed

end
