(* ===== verification/Block_Times.thy ===== *)
theory Block_Times
  imports Events
begin

text \<open>
  \<open>src/utils/block.py\<close>: the timestamps of a set of blocks, from as few requests as possible. The
  binary search over the block list is a \<open>function\<close> that terminates on the list's length: with more
  than two blocks both halves are shorter, whatever the batch limit.
\<close>

definition should_batch :: "int \<Rightarrow> nat \<Rightarrow> bool" where
  "should_batch limit n \<longleftrightarrow> limit > 1 \<and> n > 1"

text \<open>One request per block, in order.\<close>

definition sequential_ts :: "(int \<Rightarrow> int res) \<Rightarrow> int list \<Rightarrow> (int \<times> int) list res" where
  "sequential_ts get_ts blocks = bindR (mapR get_ts blocks) (\<lambda>ts. Inr (zip blocks ts))"

definition batch_get_ts ::
    "int \<Rightarrow> (int \<Rightarrow> int res) \<Rightarrow> (int list \<Rightarrow> int list res) \<Rightarrow> int list \<Rightarrow> (int \<times> int) list res" where
  "batch_get_ts limit get_ts batch blocks =
     (if blocks = [] then Inr []
      else if \<not> should_batch limit (length blocks) then sequential_ts get_ts blocks
      else case batch blocks of
        Inr results \<Rightarrow>
          (if length results = length blocks then Inr (zip blocks results)
           else sequential_ts get_ts blocks)
      | Inl _ \<Rightarrow> sequential_ts get_ts blocks)"

function calculate_timestamps ::
    "int \<Rightarrow> (int \<Rightarrow> int res) \<Rightarrow> (int list \<Rightarrow> int list res) \<Rightarrow> int \<Rightarrow> int list \<Rightarrow> int \<Rightarrow> int \<Rightarrow> int list res" where
  "calculate_timestamps limit get_ts batch slot_seconds blocks first_ts last_ts =
     (if length blocks \<le> 2 then Inr (if length blocks = 1 then [first_ts] else [first_ts, last_ts])
      else if first_ts + (last blocks - hd blocks) * slot_seconds = last_ts
      then Inr (map (\<lambda>b. first_ts + (b - hd blocks) * slot_seconds) blocks)
      else
        let intermediates = butlast (tl blocks) in
        if int (length intermediates) \<le> limit
        then bindR (batch_get_ts limit get_ts batch intermediates) (\<lambda>fetched.
               bindR (mapR (lookupR fetched) intermediates) (\<lambda>ts.
                 Inr (first_ts # ts @ [last_ts])))
        else
          let mid = length blocks div 2 in
          bindR (get_ts (blocks ! mid)) (\<lambda>mid_ts.
            bindR (calculate_timestamps limit get_ts batch slot_seconds (take (mid + 1) blocks) first_ts mid_ts) (\<lambda>left.
              bindR (calculate_timestamps limit get_ts batch slot_seconds (drop mid blocks) mid_ts last_ts) (\<lambda>right.
                Inr (left @ tl right)))))"
  by pat_completeness auto
termination
  by (relation "measure (\<lambda>(_, _, _, _, blocks, _, _). length blocks)") auto

declare calculate_timestamps.simps [simp del]

definition get_block_timestamps ::
    "int \<Rightarrow> (int \<Rightarrow> int res) \<Rightarrow> (int list \<Rightarrow> int list res) \<Rightarrow> int \<Rightarrow> int set \<Rightarrow> (int \<times> int) list res" where
  "get_block_timestamps limit get_ts batch slot_seconds block_numbers =
     (let blocks = sorted_list_of_set block_numbers in
      if blocks = [] then Inr []
      else if length blocks = 1 then bindR (get_ts (hd blocks)) (\<lambda>t. Inr [(hd blocks, t)])
      else
        bindR (batch_get_ts limit get_ts batch [hd blocks, last blocks]) (\<lambda>endpoints.
          bindR (lookupR endpoints (hd blocks)) (\<lambda>first_ts.
            bindR (lookupR endpoints (last blocks)) (\<lambda>last_ts.
              bindR (calculate_timestamps limit get_ts batch slot_seconds blocks first_ts last_ts) (\<lambda>timestamps.
                if length timestamps = length blocks then Inr (zip blocks timestamps)
                else Inl ValueError)))))"

section \<open>Lemmas\<close>

text \<open>A node that knows the timestamps \<open>T\<close>: a batch may fail, but does not lie.\<close>

definition honest_blocks ::
    "(int \<Rightarrow> int) \<Rightarrow> (int \<Rightarrow> int res) \<Rightarrow> (int list \<Rightarrow> int list res) \<Rightarrow> bool" where
  "honest_blocks T get_ts batch \<longleftrightarrow>
     (\<forall>b. get_ts b = Inr (T b)) \<and> (\<forall>bs ts. batch bs = Inr ts \<longrightarrow> ts = map T bs)"

lemma zip_graph: "zip bs (map T bs) = map (\<lambda>b. (b, T b)) bs"
  by (induction bs) auto

lemma sequential_ts_honest:
  "honest_blocks T get_ts batch \<Longrightarrow> sequential_ts get_ts bs = Inr (map (\<lambda>b. (b, T b)) bs)"
  using mapR_all_ok[of bs get_ts T]
  by (auto simp: sequential_ts_def honest_blocks_def zip_graph)

lemma batch_get_ts_honest:
  "honest_blocks T get_ts batch \<Longrightarrow> batch_get_ts limit get_ts batch bs = Inr (map (\<lambda>b. (b, T b)) bs)"
  using sequential_ts_honest[of T get_ts batch bs] zip_graph[of bs T]
  by (cases "batch bs") (auto simp: batch_get_ts_def honest_blocks_def)

lemma lookup_graph: "b \<in> set bs \<Longrightarrow> lookupR (map (\<lambda>b. (b, T b)) bs) b = Inr (T b)"
  by (simp add: lookupR_def map_of_map_restrict)

lemma no_missed_between:
  assumes "spaced_blocks sps T" "a \<le> b" "b \<le> c" "T a + (c - a) * sps = T c"
  shows "T a + (b - a) * sps = T b"
  using spaced_blocks_le[OF assms(1,2)] spaced_blocks_le[OF assms(1,3)] assms(4)
  by (simp add: algebra_simps)

lemma sorted_between_ends:
  assumes "sorted (bs :: int list)" "b \<in> set bs"
  shows "hd bs \<le> b \<and> b \<le> last bs"
  using assms
proof (induction bs)
  case Nil
  then show ?case by simp
next
  case (Cons x xs)
  then show ?case by (cases xs) auto
qed

lemma middle_list:
  assumes "2 < length bs"
  shows "bs = hd bs # butlast (tl bs) @ [last bs]"
  using assms by (cases bs) (auto simp: last_tl)

lemma calculate_timestamps_honest:
  assumes "honest_blocks T get_ts batch" and "spaced_blocks sps T"
  shows "bs \<noteq> [] \<Longrightarrow> sorted bs \<Longrightarrow>
    calculate_timestamps limit get_ts batch sps bs (T (hd bs)) (T (last bs)) = Inr (map T bs)"
proof (induction "length bs" arbitrary: bs rule: less_induct)
  case less
  note bs = less.prems
  note get = assms(1)[unfolded honest_blocks_def, THEN conjunct1, rule_format]
  consider "length bs \<le> 2" | (arith) "2 < length bs" "T (hd bs) + (last bs - hd bs) * sps = T (last bs)"
    | (fetch) "2 < length bs" "T (hd bs) + (last bs - hd bs) * sps \<noteq> T (last bs)"
        "int (length (butlast (tl bs))) \<le> limit"
    | (split) "2 < length bs" "T (hd bs) + (last bs - hd bs) * sps \<noteq> T (last bs)"
        "\<not> int (length (butlast (tl bs))) \<le> limit"
    by linarith
  then show ?case
  proof cases
    case 1
    then consider x where "bs = [x]" | x y where "bs = [x, y]"
      using bs(1) by (cases bs; cases "tl bs") auto
    then show ?thesis by cases (simp_all add: calculate_timestamps.simps)
  next
    case arith
    have "T (hd bs) + (b - hd bs) * sps = T b" if "b \<in> set bs" for b
      using no_missed_between[OF assms(2)] sorted_between_ends[OF bs(2) that] arith(2) by blast
    with arith show ?thesis by (simp add: calculate_timestamps.simps)
  next
    case fetch
    have "mapR (lookupR (map (\<lambda>b. (b, T b)) (butlast (tl bs)))) (butlast (tl bs)) = Inr (map T (butlast (tl bs)))"
      by (intro mapR_all_ok lookup_graph)
    moreover have "map T bs = T (hd bs) # map T (butlast (tl bs)) @ [T (last bs)]"
      using arg_cong[OF middle_list[OF fetch(1)], of "map T"] by simp
    ultimately show ?thesis
      using fetch by (simp add: calculate_timestamps.simps batch_get_ts_honest[OF assms(1)] Let_def)
  next
    case split
    let ?mid = "length bs div 2"
    have mid: "?mid < length bs" "0 < ?mid" "?mid + 1 < length bs" using split(1) by auto
    have take: "hd (take (?mid + 1) bs) = hd bs" "last (take (?mid + 1) bs) = bs ! ?mid"
      using mid bs(1) by (simp_all add: take_Suc_conv_app_nth hd_append hd_conv_nth)
    have drop: "hd (drop ?mid bs) = bs ! ?mid" "last (drop ?mid bs) = last bs"
      using mid by (simp_all add: hd_drop_conv_nth last_drop)
    have sorted: "sorted (take (?mid + 1) bs)" "sorted (drop ?mid bs)"
      using bs(2) by (simp_all add: sorted_wrt_take sorted_wrt_drop)
    have left: "calculate_timestamps limit get_ts batch sps (take (?mid + 1) bs) (T (hd bs)) (T (bs ! ?mid))
        = Inr (map T (take (?mid + 1) bs))"
      using less.hyps[of "take (?mid + 1) bs"] mid sorted(1) take bs(1) by simp
    have right: "calculate_timestamps limit get_ts batch sps (drop ?mid bs) (T (bs ! ?mid)) (T (last bs))
        = Inr (map T (drop ?mid bs))"
      using less.hyps[of "drop ?mid bs"] mid sorted(2) drop by simp
    have "map T (take (?mid + 1) bs) @ tl (map T (drop ?mid bs)) = map T bs"
      by (metis append_take_drop_id drop_Suc drop_map map_append Suc_eq_plus1 take_map tl_drop)
    with left right split show ?thesis
      by (subst calculate_timestamps.simps) (simp add: Let_def get)
  qed
qed

text \<open>
  C12. The shortcuts are sound: on a chain whose blocks are at least a slot apart, with a node whose
  batches may fail but do not lie, the function maps every requested block to its own timestamp,
  however many slots were missed and whatever the batch limit.
\<close>

theorem block_timestamps_correct:
  assumes "honest_blocks T get_ts batch" and "spaced_blocks sps T" and "finite blocks"
  shows "get_block_timestamps limit get_ts batch sps blocks =
    Inr (map (\<lambda>b. (b, T b)) (sorted_list_of_set blocks))"
proof -
  let ?bs = "sorted_list_of_set blocks"
  note get = assms(1)[unfolded honest_blocks_def, THEN conjunct1, rule_format]
  consider "?bs = []" | x where "?bs = [x]" | (many) "1 < length ?bs"
    by (cases ?bs; cases "tl ?bs") auto
  then show ?thesis
  proof cases
    case many
    have "?bs \<noteq> []"
    proof
      assume "?bs = []"
      with many show False by (metis length_0_conv not_less_zero list.size(3))
    qed
    with many show ?thesis
      supply length_sorted_list_of_set [simp del]
      using calculate_timestamps_honest[OF assms(1,2), of ?bs]
        lookup_graph[of "hd ?bs" "[hd ?bs, last ?bs]" T] lookup_graph[of "last ?bs" "[hd ?bs, last ?bs]" T]
      by (simp add: get_block_timestamps_def Let_def batch_get_ts_honest[OF assms(1)] zip_graph)
  qed (simp_all add: get_block_timestamps_def Let_def get)
qed

theorem block_timestamps_correct_witness:
  "get_block_timestamps 1 (\<lambda>b. Inr (demo_times b)) (\<lambda>bs. Inl RpcError) 12 {1, 4, 5, 6, 13} =
     Inr [(1, 12), (4, 60), (5, 72), (6, 84), (13, 216)]"
proof -
  have "honest_blocks demo_times (\<lambda>b. Inr (demo_times b)) (\<lambda>bs. Inl RpcError)"
    by (simp add: honest_blocks_def)
  moreover have "spaced_blocks 12 demo_times" by (auto simp: spaced_blocks_def demo_times_def)
  ultimately show ?thesis
    using block_timestamps_correct[of demo_times _ _ 12 "{1, 4, 5, 6, 13}" 1]
    by (simp add: demo_times_def)
qed

end
