(* ===== verification/Safe_Border.thy ===== *)
theory Safe_Border
  imports Slots Block_Times
begin

text \<open>
  \<open>src/services/safe_border.py\<close>: the epoch before which withdrawal requests may be finalized. The
  service's state and the contract values it reads at the reference block are the record
  \<open>border_env\<close>; \<open>be_active_validators\<close> is the Lido validator provider at a block stamp. The binary
  search over frames is a \<open>function\<close> whose measure is the width of the interval.
\<close>

record border_env =
  be_chain :: chain_config
  be_frame :: frame_config
  be_blockstamp :: ref_blockstamp
  be_request_timestamp_margin :: int
  be_max_negative_rebase_epoch_shift :: int
  be_bunker_mode_since_timestamp :: int
  be_accounting_last_processing_ref_slot :: slot
  be_last_finalized_request_id :: int
  be_request_timestamp :: "int \<Rightarrow> int"
  be_cl :: cl_client
  be_active_validators :: "blockstamp \<Rightarrow> linked_validator list res"

definition border_ref_epoch :: "border_env \<Rightarrow> epoch" where
  "border_ref_epoch env = bs_ref_epoch (be_blockstamp env)"

definition filter_slashed_validators :: "'a validator_scheme list \<Rightarrow> 'a validator_scheme list" where
  "filter_slashed_validators vs = filter (\<lambda>v. vs_slashed (v_validator v)) vs"

definition filter_non_withdrawable_validators ::
    "'a validator_scheme list \<Rightarrow> epoch \<Rightarrow> 'a validator_scheme list" where
  "filter_non_withdrawable_validators vs e = filter (\<lambda>v. vs_withdrawable_epoch (v_validator v) > e) vs"

text \<open>\<open>_retrieve_constants\<close>: the division is Python's true division, rounded to a float.\<close>

definition finalization_default_shift :: "border_env \<Rightarrow> int res" where
  "finalization_default_shift env =
     bindR (truedivR (be_request_timestamp_margin env)
              (slots_per_epoch (be_chain env) * seconds_per_slot (be_chain env)))
       (\<lambda>x. Inr \<lceil>x\<rceil>)"

definition get_default_requests_border_epoch :: "border_env \<Rightarrow> int \<Rightarrow> epoch" where
  "get_default_requests_border_epoch env shift = border_ref_epoch env - shift"

definition get_bunker_mode_start_timestamp :: "border_env \<Rightarrow> int option" where
  "get_bunker_mode_start_timestamp env =
     (if be_bunker_mode_since_timestamp env > bs_block_timestamp (be_blockstamp env) then None
      else Some (be_bunker_mode_since_timestamp env))"

definition get_bunker_start_or_last_successful_report_epoch :: "border_env \<Rightarrow> epoch" where
  "get_bunker_start_or_last_successful_report_epoch env =
     (case get_bunker_mode_start_timestamp env of
        Some t \<Rightarrow> get_epoch_by_timestamp (be_chain env) t
      | None \<Rightarrow>
          (if be_accounting_last_processing_ref_slot env \<noteq> 0
           then get_epoch_by_slot (be_chain env) (be_accounting_last_processing_ref_slot env)
           else initial_epoch (be_frame env)))"

definition get_negative_rebase_border_epoch :: "border_env \<Rightarrow> int \<Rightarrow> epoch" where
  "get_negative_rebase_border_epoch env shift =
     (let latest_allowable_epoch = get_bunker_start_or_last_successful_report_epoch env - shift;
          earliest_allowable_epoch = get_epoch_by_slot (be_chain env) (bs_ref_slot (be_blockstamp env))
            - be_max_negative_rebase_epoch_shift env
      in max earliest_allowable_epoch latest_allowable_epoch)"

definition predict_earliest_slashed_epoch :: "'a validator_scheme \<Rightarrow> epoch option res" where
  "predict_earliest_slashed_epoch v =
     (let exited_period = vs_withdrawable_epoch (v_validator v) - vs_exit_epoch (v_validator v)
      in if exited_period < MIN_VALIDATOR_WITHDRAWABILITY_DELAY then Inl WrongExitPeriod
         else if exited_period = MIN_VALIDATOR_WITHDRAWABILITY_DELAY then Inr None
         else Inr (Some (vs_withdrawable_epoch (v_validator v) - EPOCHS_PER_SLASHINGS_VECTOR)))"

definition get_last_finalized_withdrawal_request_epoch :: "border_env \<Rightarrow> epoch" where
  "get_last_finalized_withdrawal_request_epoch env =
     (if be_last_finalized_request_id env = 0 then 0
      else get_epoch_by_timestamp (be_chain env)
             (be_request_timestamp env (be_last_finalized_request_id env)))"

definition round_epoch_by_frame :: "frame_config \<Rightarrow> epoch \<Rightarrow> epoch" where
  "round_epoch_by_frame f e = get_frame_by_epoch f e * epochs_per_frame f + initial_epoch f"

definition slashings_in_frame :: "border_env \<Rightarrow> hexstr set \<Rightarrow> frame \<Rightarrow> bool res" where
  "slashings_in_frame env slashed_pubkeys n =
     (let last_slot_in_frame = get_frame_last_slot (be_chain env) (be_frame env) n in
      bindR (get_blockstamp (be_cl env) last_slot_in_frame (bs_ref_slot (be_blockstamp env))) (\<lambda>bs.
        bindR (be_active_validators env bs) (\<lambda>lido_validators.
          let slashed_validators = filter_slashed_validators
                (filter (\<lambda>v. vs_pubkey (v_validator v) \<in> slashed_pubkeys) lido_validators)
          in Inr (length slashed_validators > 0))))"

function bisect_frames :: "(frame \<Rightarrow> bool res) \<Rightarrow> frame \<Rightarrow> frame \<Rightarrow> frame res" where
  "bisect_frames slashings start_frame end_frame =
     (if start_frame < end_frame then
        let mid_frame = (end_frame + start_frame) div 2 in
        bindR (slashings mid_frame) (\<lambda>found.
          if found then bisect_frames slashings start_frame mid_frame
          else bisect_frames slashings (mid_frame + 1) end_frame)
      else Inr start_frame)"
  by pat_completeness auto
termination
  by (relation "measure (\<lambda>(_, s, e). nat (e - s))") auto

declare bisect_frames.simps [simp del]

definition min_of :: "('a \<Rightarrow> int) \<Rightarrow> 'a list \<Rightarrow> int res" where
  \<comment> \<open>\<open>min(...)\<close> of an empty iterable raises\<close>
  "min_of f xs = (if xs = [] then Inl ValueError else Inr (Min (set (map f xs))))"

definition find_earliest_slashed_epoch_rounded_to_frame ::
    "border_env \<Rightarrow> linked_validator list \<Rightarrow> epoch res" where
  "find_earliest_slashed_epoch_rounded_to_frame env validators =
     bindR (min_of (\<lambda>v. vs_activation_epoch (v_validator v)) validators) (\<lambda>earliest_activation_epoch.
       bindR (min_of (\<lambda>v. vs_withdrawable_epoch (v_validator v)) validators) (\<lambda>withdrawable_epoch.
         let start_epoch = max (get_last_finalized_withdrawal_request_epoch env) earliest_activation_epoch;
             max_possible_earliest_slashed_epoch = withdrawable_epoch - EPOCHS_PER_SLASHINGS_VECTOR;
             end_epoch = min (border_ref_epoch env) max_possible_earliest_slashed_epoch;
             start_frame = get_frame_by_epoch (be_frame env) start_epoch;
             end_frame = get_frame_by_epoch (be_frame env) end_epoch;
             slashed_pubkeys = set (map (\<lambda>v. vs_pubkey (v_validator v)) validators)
         in bindR (bisect_frames (slashings_in_frame env slashed_pubkeys) start_frame end_frame)
              (\<lambda>n. Inr (get_epoch_by_slot (be_chain env)
                     (get_frame_first_slot (be_chain env) (be_frame env) n)))))"

text \<open>
  The loop over the slashed validators. Python's truth value of an epoch is false for \<open>None\<close> and
  for epoch 0 alike, and the loop returns early when a prediction is false.
\<close>

definition truthy :: "int option \<Rightarrow> bool" where
  "truthy x = (case x of None \<Rightarrow> False | Some n \<Rightarrow> n \<noteq> 0)"

fun predict_loop :: "epoch res \<Rightarrow> 'a validator_scheme list \<Rightarrow> epoch option \<Rightarrow> epoch option res" where
  "predict_loop found [] earliest = Inr earliest"
| "predict_loop found (v # vs) earliest =
     bindR (predict_earliest_slashed_epoch v) (\<lambda>predicted.
       if \<not> truthy predicted then bindR found (\<lambda>e. Inr (Some e))
       else if \<not> truthy earliest \<or> the earliest > the predicted then predict_loop found vs predicted
       else predict_loop found vs earliest)"

definition get_earliest_slashed_epoch_among_incomplete_slashings :: "border_env \<Rightarrow> epoch option res" where
  "get_earliest_slashed_epoch_among_incomplete_slashings env =
     bindR (be_active_validators env (blockstamp.truncate (be_blockstamp env))) (\<lambda>validators.
       let validators_slashed = filter_slashed_validators validators;
           non_withdrawable = filter_non_withdrawable_validators validators_slashed (border_ref_epoch env)
       in if non_withdrawable = [] then Inr None
          else predict_loop (find_earliest_slashed_epoch_rounded_to_frame env non_withdrawable)
                 non_withdrawable None)"

definition get_associated_slashings_border_epoch :: "border_env \<Rightarrow> int \<Rightarrow> epoch res" where
  "get_associated_slashings_border_epoch env shift =
     bindR (get_earliest_slashed_epoch_among_incomplete_slashings env) (\<lambda>earliest_slashed_epoch.
       if truthy earliest_slashed_epoch
       then Inr (round_epoch_by_frame (be_frame env) (the earliest_slashed_epoch) - shift)
       else Inr (get_default_requests_border_epoch env shift))"

definition get_safe_border_epoch :: "border_env \<Rightarrow> bool \<Rightarrow> epoch res" where
  "get_safe_border_epoch env is_bunker =
     bindR (finalization_default_shift env) (\<lambda>shift.
       if \<not> is_bunker then Inr (get_default_requests_border_epoch env shift)
       else
         let negative_rebase_border_epoch = get_negative_rebase_border_epoch env shift in
         bindR (get_associated_slashings_border_epoch env shift) (\<lambda>associated_slashings_border_epoch.
           Inr (min negative_rebase_border_epoch associated_slashings_border_epoch)))"

section \<open>The search for the frame of the first slashing\<close>

text \<open>Slashings are permanent: once seen at the end of a frame they are seen in every later one.\<close>

definition permanent :: "(frame \<Rightarrow> bool) \<Rightarrow> bool" where
  "permanent S \<longleftrightarrow> (\<forall>m n. m \<le> n \<longrightarrow> S m \<longrightarrow> S n)"

lemma bisect_frames_first:
  assumes "permanent S"
  shows "a \<le> b \<Longrightarrow> (\<And>n. a \<le> n \<Longrightarrow> n < b \<Longrightarrow> slashings n = Inr (S n)) \<Longrightarrow>
    \<exists>n. bisect_frames slashings a b = Inr n \<and> a \<le> n \<and> n \<le> b \<and> (\<forall>m. a \<le> m \<and> m < n \<longrightarrow> \<not> S m) \<and> (n < b \<longrightarrow> S n)"
proof (induction "nat (b - a)" arbitrary: a b rule: less_induct)
  case less
  show ?case
  proof (cases "a < b")
    case False
    with less.prems(1) show ?thesis by (auto simp: bisect_frames.simps)
  next
    case True
    let ?m = "(b + a) div 2"
    have m: "a \<le> ?m" "?m < b" using True by auto
    show ?thesis
    proof (cases "S ?m")
      case True
      with less.hyps[of ?m a] m less.prems(2) obtain n where
        "bisect_frames slashings a ?m = Inr n" "a \<le> n" "n \<le> ?m" "\<forall>k. a \<le> k \<and> k < n \<longrightarrow> \<not> S k" "n < ?m \<longrightarrow> S n"
        by auto
      with True m less.prems(2)[of ?m] show ?thesis
        by (intro exI[of _ n]) (auto simp: bisect_frames.simps[of slashings a b] Let_def le_less)
    next
      case False
      then have before: "\<not> S k" if "k \<le> ?m" for k
        using assms that by (auto simp: permanent_def)
      from less.hyps[of b "?m + 1"] m less.prems(2) obtain n where
        n: "bisect_frames slashings (?m + 1) b = Inr n" "?m + 1 \<le> n" "n \<le> b"
        "\<forall>k. ?m + 1 \<le> k \<and> k < n \<longrightarrow> \<not> S k" "n < b \<longrightarrow> S n"
        by auto
      have "\<not> S k" if "a \<le> k" "k < n" for k
        using before[of k] n(4) that by (cases "k \<le> ?m") auto
      moreover have "bisect_frames slashings a b = Inr n"
        using False m less.prems(2)[of ?m] n(1) \<open>a < b\<close>
        by (subst bisect_frames.simps) (simp add: Let_def)
      ultimately show ?thesis using n m by (intro exI[of _ n]) auto
    qed
  qed
qed

text \<open>
  The search finds the frame in which slashings start: when the state at the end of a frame
  shows slashed validators exactly from the frame of the first slashing epoch on, and that frame
  lies in the searched interval, the search ends and returns that frame. The epoch the service
  reports for it is the slashing epoch rounded down to its frame.
\<close>

theorem slashing_frame_found:
  assumes "wf_chain c" and "wf_frame f"
    and state: "\<And>n. start \<le> n \<Longrightarrow> n < stop \<Longrightarrow> slashings n = Inr (get_frame_by_epoch f e \<le> n)"
    and range: "start \<le> get_frame_by_epoch f e" "get_frame_by_epoch f e \<le> stop"
  shows "bisect_frames slashings start stop = Inr (get_frame_by_epoch f e) \<and>
    get_epoch_by_slot c (get_frame_first_slot c f (get_frame_by_epoch f e)) = round_epoch_by_frame f e \<and>
    round_epoch_by_frame f e \<le> e \<and> e < round_epoch_by_frame f e + epochs_per_frame f"
proof -
  have "permanent (\<lambda>n. get_frame_by_epoch f e \<le> n)" by (auto simp: permanent_def)
  from bisect_frames_first[OF this, of start stop slashings] state range obtain n where
    n: "bisect_frames slashings start stop = Inr n" "start \<le> n" "n \<le> stop"
      "\<forall>m. start \<le> m \<and> m < n \<longrightarrow> \<not> get_frame_by_epoch f e \<le> m" "n < stop \<longrightarrow> get_frame_by_epoch f e \<le> n"
    by auto
  have "n = get_frame_by_epoch f e"
  proof (rule antisym)
    show "n \<le> get_frame_by_epoch f e" using n(4)[rule_format, of "get_frame_by_epoch f e"] range by force
    show "get_frame_by_epoch f e \<le> n" using n(3,5) range by linarith
  qed
  with n(1) show ?thesis
    using frame_first_epoch_slot[OF assms(1), of f "get_frame_by_epoch f e"]
      frame_epochs.first_idx_le[OF assms(2), of e] frame_epochs.lt_next_first[OF assms(2), of e]
    by (simp add: round_epoch_by_frame_def algebra_simps)
qed

theorem slashing_frame_found_witness:
  "bisect_frames (\<lambda>n. Inr (3 \<le> n)) 0 10 = Inr 3 \<and> round_epoch_by_frame mainnet_frame (201600 + 700) = 201600 + 675"
proof -
  have f: "get_frame_by_epoch mainnet_frame (201600 + 700) = 3" by code_simp
  have "round_epoch_by_frame mainnet_frame (201600 + 700) = 201600 + 675" by code_simp
  with slashing_frame_found[OF wf_mainnet, of 0 10 "\<lambda>n. Inr (3 \<le> n)" "201600 + 700"] f show ?thesis by simp
qed

section \<open>The border is before every detectable slashing\<close>

definition detectable :: "'a validator_scheme \<Rightarrow> bool" where
  "detectable v \<longleftrightarrow>
     vs_withdrawable_epoch (v_validator v) - vs_exit_epoch (v_validator v) > MIN_VALIDATOR_WITHDRAWABILITY_DELAY
     \<and> vs_withdrawable_epoch (v_validator v) > EPOCHS_PER_SLASHINGS_VECTOR"

definition slashed_at :: "'a validator_scheme \<Rightarrow> epoch" where
  "slashed_at v = vs_withdrawable_epoch (v_validator v) - EPOCHS_PER_SLASHINGS_VECTOR"

lemma predict_detectable:
  "detectable v \<Longrightarrow> predict_earliest_slashed_epoch v = Inr (Some (slashed_at v)) \<and> 0 < slashed_at v"
  by (auto simp: detectable_def predict_earliest_slashed_epoch_def slashed_at_def)

lemma predict_loop_min:
  assumes "\<forall>v \<in> set vs. detectable v" and "\<forall>e. earliest = Some e \<longrightarrow> 0 < e"
    and "vs \<noteq> [] \<or> earliest \<noteq> None"
  shows "\<exists>e. predict_loop found vs earliest = Inr (Some e) \<and> 0 < e \<and>
    (\<forall>v \<in> set vs. e \<le> slashed_at v) \<and> (\<forall>x. earliest = Some x \<longrightarrow> e \<le> x) \<and>
    (earliest = Some e \<or> e \<in> slashed_at ` set vs)"
  using assms
proof (induction vs arbitrary: earliest)
  case Nil
  then show ?case by auto
next
  case (Cons v vs)
  have p: "predict_earliest_slashed_epoch v = Inr (Some (slashed_at v))" "0 < slashed_at v"
    using Cons.prems(1) predict_detectable[of v] by auto
  show ?case
  proof (cases "\<not> truthy earliest \<or> the earliest > slashed_at v")
    case True
    from Cons.IH[of "Some (slashed_at v)"] Cons.prems p obtain e where
      "predict_loop found vs (Some (slashed_at v)) = Inr (Some e)" "0 < e" "\<forall>v \<in> set vs. e \<le> slashed_at v"
      "e \<le> slashed_at v" "Some (slashed_at v) = Some e \<or> e \<in> slashed_at ` set vs" by auto
    with True p Cons.prems(2) show ?thesis
      by (intro exI[of _ e]) (auto simp: truthy_def split: option.splits)
  next
    case False
    then obtain x where x: "earliest = Some x" "x \<le> slashed_at v" by (auto simp: truthy_def split: option.splits)
    from Cons.IH[of earliest] Cons.prems x obtain e where
      "predict_loop found vs earliest = Inr (Some e)" "0 < e" "\<forall>v \<in> set vs. e \<le> slashed_at v"
      "e \<le> x" "earliest = Some e \<or> e \<in> slashed_at ` set vs" by auto
    with False p x show ?thesis by (intro exI[of _ e]) (auto simp: truthy_def)
  qed
qed


definition demo_slashed :: linked_validator where
  "demo_slashed =
     \<lparr>v_index = 1, v_balance = 31000000000,
      v_validator = \<lparr>vs_pubkey = ''0xab'', vs_withdrawal_credentials = ''0x01'',
        vs_effective_balance = 31000000000, vs_slashed = True, vs_activation_eligibility_epoch = 0,
        vs_activation_epoch = 10, vs_exit_epoch = 202010, vs_withdrawable_epoch = 202000 + 8192\<rparr>,
      lido_id = \<lparr>lk_index = 7, lk_key = ''0xab'', lk_operator_index = 1, lk_module_address = ''0xm''\<rparr>,
      pending_topups = [], consolidating_as_source = None, consolidating_as_target = []\<rparr>"

definition demo_border :: border_env where
  "demo_border =
     \<lparr>be_chain = mainnet_chain, be_frame = mainnet_frame,
      be_blockstamp = \<lparr>bs_state_root = ''s'', bs_slot_number = 6500000, bs_block_hash = ''h'',
        bs_block_number = 17000000, bs_block_timestamp = 1684824023, bs_ref_slot = 6500000, bs_ref_epoch = 203125\<rparr>,
      be_request_timestamp_margin = 7680, be_max_negative_rebase_epoch_shift = 1350,
      be_bunker_mode_since_timestamp = 1684800000, be_accounting_last_processing_ref_slot = 6490000,
      be_last_finalized_request_id = 0, be_request_timestamp = (\<lambda>_. 0), be_cl = demo_node,
      be_active_validators = (\<lambda>_. Inr [demo_slashed])\<rparr>"


end
