(* ===== verification/Withdrawal.thy ===== *)
theory Withdrawal
  imports Safe_Border
begin

text \<open>
  \<open>src/services/withdrawal.py\<close>: which withdrawal requests a report finalizes. The withdrawal queue is the
  record \<open>queue_env\<close>, its answers at the reference block. The loop asks the contract until it declares the
  calculation finished, so it is a partial function: that it ends is a property of the contract's steps.
\<close>

record batch_state =
  remaining_eth_budget :: int
  batch_finished :: bool
  batches :: "int list"
  batches_length :: int

record queue_env =
  qe_is_paused :: "bool res"
  qe_last_finalized_request_id :: "int res"
  qe_last_request_id :: "int res"
  qe_withdrawals_reserve :: "wei res"
  qe_unfinalized_steth :: "wei res"
  qe_max_batches_length :: "int res"
  qe_calculate :: "int \<Rightarrow> int \<Rightarrow> int \<Rightarrow> batch_state \<Rightarrow> batch_state res"
  qe_max_request_count :: int

definition has_unfinalized_requests :: "queue_env \<Rightarrow> bool res" where
  "has_unfinalized_requests q =
     bindR (qe_last_finalized_request_id q) (\<lambda>last_finalized_id.
     bindR (qe_last_request_id q) (\<lambda>last_requested_id. Inr (last_finalized_id < last_requested_id)))"

definition get_available_eth :: "queue_env \<Rightarrow> wei \<Rightarrow> wei \<Rightarrow> wei res" where
  "get_available_eth q withdrawal_vault_balance el_rewards_vault_balance =
     bindR (qe_withdrawals_reserve q) (\<lambda>withdrawals_reserve.
     bindR (qe_unfinalized_steth q) (\<lambda>unfinalized_steth.
       let reserved_withdrawals_eth = min withdrawals_reserve unfinalized_steth in
       Inr (withdrawal_vault_balance + el_rewards_vault_balance + reserved_withdrawals_eth)))"

partial_function (option) batches_loop :: "(batch_state \<Rightarrow> batch_state res) \<Rightarrow> batch_state \<Rightarrow> batch_state res option" where
  "batches_loop calculate state =
     (if batch_finished state then Some (Inr state)
      else case calculate state of
        Inl e \<Rightarrow> Some (Inl e)
      | Inr state \<Rightarrow> batches_loop calculate state)"

declare batches_loop.simps [code]

definition calculate_finalization_batches :: "queue_env \<Rightarrow> int \<Rightarrow> wei \<Rightarrow> int \<Rightarrow> int list res option" where
  "calculate_finalization_batches q share_rate available_eth until_timestamp =
     bindO (Some (qe_max_batches_length q)) (\<lambda>max_length.
       let state = \<lparr>remaining_eth_budget = available_eth, batch_finished = False,
             batches = replicate (nat max_length) 0, batches_length = 0\<rparr>
       in bindO (batches_loop (qe_calculate q share_rate until_timestamp (qe_max_request_count q)) state) (\<lambda>state.
            Some (Inr (filter (\<lambda>value. value > 0) (batches state)))))"

definition withdrawable_until_timestamp :: "chain_config \<Rightarrow> epoch \<Rightarrow> int" where
  "withdrawable_until_timestamp c withdrawable_until_epoch =
     genesis_time c + withdrawable_until_epoch * slots_per_epoch c * seconds_per_slot c"

definition get_finalization_batches ::
    "queue_env \<Rightarrow> border_env \<Rightarrow> bool \<Rightarrow> int \<Rightarrow> wei \<Rightarrow> wei \<Rightarrow> int list res option" where
  "get_finalization_batches q border is_bunker_mode share_rate withdrawal_vault_balance el_rewards_vault_balance =
     bindO (Some (qe_is_paused q)) (\<lambda>on_pause.
       if on_pause then Some (Inr [])
       else bindO (Some (has_unfinalized_requests q)) (\<lambda>unfinalized.
         if \<not> unfinalized then Some (Inr [])
         else bindO (Some (get_available_eth q withdrawal_vault_balance el_rewards_vault_balance)) (\<lambda>available_eth.
           if available_eth = 0 then Some (Inr [])
           else bindO (Some (get_safe_border_epoch border is_bunker_mode)) (\<lambda>withdrawable_until_epoch.
             calculate_finalization_batches q share_rate available_eth
               (withdrawable_until_timestamp (be_chain border) withdrawable_until_epoch)))))"

section \<open>What is finalized\<close>

text \<open>
  The contract's promise: started with a budget and a time limit, every step keeps the price of the
  batches chosen so far within what the budget has lost, takes no request younger than the limit, and
  comes nearer to the end of the queue unless it finishes. \<open>price\<close> and \<open>created\<close> read the contract's queue.
\<close>

definition in_budget :: "(int list \<Rightarrow> int) \<Rightarrow> (int \<Rightarrow> int) \<Rightarrow> int \<Rightarrow> int \<Rightarrow> batch_state \<Rightarrow> bool" where
  "in_budget price created budget until s \<longleftrightarrow>
     price (filter (\<lambda>v. v > 0) (batches s)) + remaining_eth_budget s = budget \<and> 0 \<le> remaining_eth_budget s \<and>
     (\<forall>v \<in> set (batches s). v > 0 \<longrightarrow> created v \<le> until)"

definition honest_queue :: "queue_env \<Rightarrow> (int list \<Rightarrow> int) \<Rightarrow> (int \<Rightarrow> int) \<Rightarrow> (batch_state \<Rightarrow> nat) \<Rightarrow> bool" where
  "honest_queue q price created left \<longleftrightarrow> price [] = 0 \<and>
     (\<forall>rate until budget s. in_budget price created budget until s \<longrightarrow> \<not> batch_finished s \<longrightarrow>
        (\<exists>s'. qe_calculate q rate until (qe_max_request_count q) s = Inr s' \<and> in_budget price created budget until s' \<and>
           (batch_finished s' \<or> left s' < left s)))"

lemma batches_loop_returns:
  assumes "honest_queue q price created left" "in_budget price created budget until s"
  shows "\<exists>s'. batches_loop (qe_calculate q rate until (qe_max_request_count q)) s = Some (Inr s') \<and>
    in_budget price created budget until s'"
  using assms(2)
proof (induction "left s" arbitrary: s rule: less_induct)
  case less
  show ?case
  proof (cases "batch_finished s")
    case True
    then show ?thesis using less.prems by (subst batches_loop.simps) simp
  next
    case False
    then obtain s' where s': "qe_calculate q rate until (qe_max_request_count q) s = Inr s'"
        "in_budget price created budget until s'" "batch_finished s' \<or> left s' < left s"
      using assms(1) less.prems unfolding honest_queue_def by blast
    have "\<exists>t. batches_loop (qe_calculate q rate until (qe_max_request_count q)) s' = Some (Inr t) \<and>
        in_budget price created budget until t"
      using s' less.hyps[of s'] by (cases "batch_finished s'") (auto simp: batches_loop.simps[of _ s'])
    then show ?thesis using False s'(1) by (subst batches_loop.simps) simp
  qed
qed

text \<open>
  C24. With a queue that keeps its promise, choosing the requests to finalize ends, and the chosen batches cost
  no more than the vault balances and the reserved ether together and hold no request younger than the
  start of the safe border epoch; a paused queue or one without open requests finalizes nothing.\<close>

theorem finalization_within_budget:
  assumes "honest_queue q price created left"
    and "qe_is_paused q = Inr paused" "qe_last_finalized_request_id q = Inr last_finalized"
      "qe_last_request_id q = Inr last_requested" "qe_withdrawals_reserve q = Inr reserve"
      "qe_unfinalized_steth q = Inr unfinalized" "qe_max_batches_length q = Inr n"
    and "get_safe_border_epoch border bunker = Inr e"
    and "0 \<le> vault" "0 \<le> el" "0 \<le> reserve" "0 \<le> unfinalized"
  shows "\<exists>bs. get_finalization_batches q border bunker rate vault el = Some (Inr bs) \<and>
    price bs \<le> vault + el + min reserve unfinalized \<and>
    (\<forall>v \<in> set bs. created v \<le> genesis_time (be_chain border) + e * slots_per_epoch (be_chain border) * seconds_per_slot (be_chain border)) \<and>
    (paused \<or> last_requested \<le> last_finalized \<longrightarrow> bs = [])"
proof -
  let ?budget = "vault + el + min reserve unfinalized"
  let ?until = "withdrawable_until_timestamp (be_chain border) e"
  let ?s = "\<lparr>remaining_eth_budget = ?budget, batch_finished = False, batches = replicate (nat n) 0, batches_length = 0\<rparr>"
  have p0: "price [] = 0" using assms(1) unfolding honest_queue_def by blast
  have "in_budget price created ?budget ?until ?s"
    using assms(9-12) p0 by (simp add: in_budget_def filter_replicate)
  from batches_loop_returns[OF assms(1) this] obtain s' where
    s': "batches_loop (qe_calculate q rate ?until (qe_max_request_count q)) ?s = Some (Inr s')" "in_budget price created ?budget ?until s'" by blast
  show ?thesis
  proof (cases "paused \<or> last_requested \<le> last_finalized \<or> ?budget = 0")
    case True
    then have "get_finalization_batches q border bunker rate vault el = Some (Inr [])"
      using assms(2-6) by (auto simp: get_finalization_batches_def has_unfinalized_requests_def get_available_eth_def Let_def)
    then show ?thesis using p0 assms(9-12) by auto
  next
    case False
    then have "get_finalization_batches q border bunker rate vault el =
        Some (Inr (filter (\<lambda>value. value > 0) (batches s')))"
      using assms(2-8) s'(1)
      by (auto simp: get_finalization_batches_def has_unfinalized_requests_def get_available_eth_def Let_def
        calculate_finalization_batches_def)
    then show ?thesis using s'(2) False by (auto simp: in_budget_def withdrawable_until_timestamp_def)
  qed
qed

section \<open>A queue of one request\<close>

text \<open>Request 1 was made at time 100 and costs 5; the contract finds it in one step and finishes in the next.\<close>

definition demo_queue :: queue_env where
  "demo_queue = \<lparr>qe_is_paused = Inr False, qe_last_finalized_request_id = Inr 0, qe_last_request_id = Inr 1,
     qe_withdrawals_reserve = Inr 4, qe_unfinalized_steth = Inr 6, qe_max_batches_length = Inr 2,
     qe_calculate = (\<lambda>rate until n s.
       if filter (\<lambda>v. v > 0) (batches s) = [] \<and> 5 \<le> remaining_eth_budget s \<and> 100 \<le> until
       then Inr (s\<lparr>batches := [1, 0], remaining_eth_budget := remaining_eth_budget s - 5, batches_length := 1\<rparr>)
       else Inr (s\<lparr>batch_finished := True\<rparr>)),
     qe_max_request_count = 1000\<rparr>"

lemma demo_queue_honest:
  "honest_queue demo_queue (\<lambda>bs. 5 * int (length bs)) (\<lambda>_. 100)
     (\<lambda>s. if filter (\<lambda>v. v > 0) (batches s) = [] then 1 else 0)"
  by (auto simp: honest_queue_def demo_queue_def in_budget_def)

theorem finalization_within_budget_witness:
  "\<exists>bs. get_finalization_batches demo_queue demo_border False 10 2 1 = Some (Inr bs) \<and> 5 * int (length bs) \<le> 7"
proof -
  have "get_safe_border_epoch demo_border False = Inr 203105" by code_simp
  from finalization_within_budget[OF demo_queue_honest _ _ _ _ _ _ this, of False 0 1 4 6 2 2 1 10]
  show ?thesis by (auto simp: demo_queue_def)
qed

end
