(* ===== verification/Vault_Values.thy ===== *)
theory Vault_Values
  imports Block_Times Slots Rounding Converter
begin

text \<open>
  \<open>src/services/staking_vaults.py\<close>, the values of staking vaults: which validators and deposits count
  towards a vault, its total value, the reserve for its slashed validators and the leaves of the report
  tree, with the paging of \<open>src/providers/execution/contracts/lazy_oracle.py\<close>. The contract's view of
  a validator's proving stage is an answer per list of public keys. A Decimal is a rational rounded by
  \<open>dec\<close> after each operation.
\<close>

section \<open>Data\<close>

type_synonym address = string

datatype validator_stage = NONE | PREDEPOSITED | PROVEN | ACTIVATED | COMPENSATED

record validator_status =
  st_stage :: validator_stage
  st_staking_vault :: address
  st_node_operator :: address

record vault_info =
  vi_vault :: address
  vi_aggregated_balance :: wei
  vi_in_out_delta :: wei
  vi_withdrawal_credentials :: hexstr
  vi_liability_shares :: int
  vi_max_liability_shares :: int
  vi_mintable_st_eth :: int
  vi_share_limit :: int
  vi_reserve_ratio_bp :: int
  vi_forced_rebalance_threshold_bp :: int
  vi_infra_fee_bp :: int
  vi_liquidity_fee_bp :: int
  vi_reservation_fee_bp :: int
  vi_pending_disconnect :: bool

record vault_fee =
  vf_infra_fee :: int
  vf_liquidity_fee :: int
  vf_reservation_fee :: int
  vf_prev_fee :: int

definition fee_total :: "vault_fee \<Rightarrow> int" where
  "fee_total f = vf_prev_fee f + vf_infra_fee f + vf_liquidity_fee f + vf_reservation_fee f"

type_synonym vaults_map = "(address \<times> vault_info) list"
type_synonym vault_tree_node = "address \<times> wei \<times> int \<times> int \<times> int \<times> int"

section \<open>Paged contract queries\<close>

text \<open>
  \<open>batch offset limit\<close> is the contract's page. The loop ends because the offset grows by the page size;
  with a page size that is not positive it goes on as long as pages are not empty, so it may not return.
\<close>

partial_function (option) page_vaults ::
    "(int \<Rightarrow> int \<Rightarrow> vault_info list res) \<Rightarrow> int \<Rightarrow> int \<Rightarrow> int \<Rightarrow> vault_info list \<Rightarrow> vault_info list res option" where
  "page_vaults batch page_size total_count offset vaults =
     (if offset < total_count then
        (case batch offset page_size of
           Inl e \<Rightarrow> Some (Inl e)
         | Inr page \<Rightarrow>
             if page = [] then Some (Inr vaults)
             else page_vaults batch page_size total_count (offset + page_size) (vaults @ page))
      else Some (Inr vaults))"

definition get_all_vaults ::
    "int res \<Rightarrow> (int \<Rightarrow> int \<Rightarrow> vault_info list res) \<Rightarrow> int \<Rightarrow> vault_info list res option" where
  "get_all_vaults vaults_count batch page_size =
     (case vaults_count of
        Inl e \<Rightarrow> Some (Inl e)
      | Inr n \<Rightarrow> if n = 0 then Some (Inr []) else page_vaults batch page_size n 0 [])"

text \<open>
  The statuses of public keys, \<open>batch_size\<close> of them per request; \<open>range(0, n, 0)\<close> raises, and a
  negative step yields no batches. \<open>canonical\<close> is \<open>HexBytes(pk).to_0x_hex()\<close> of the \<open>hexbytes\<close> package;
  the contract answers with stage numbers.
\<close>

definition stage_of :: "int \<Rightarrow> validator_stage res" where
  "stage_of n =
     (if n = 0 then Inr NONE else if n = 1 then Inr PREDEPOSITED else if n = 2 then Inr PROVEN
      else if n = 3 then Inr ACTIVATED else if n = 4 then Inr COMPENSATED else Inl ValueError)"

record status_env =
  se_canonical :: "hexstr \<Rightarrow> hexstr res"
  se_batch_statuses :: "hexstr list \<Rightarrow> (int \<times> address \<times> address) list res"
  se_batch_size :: int

definition put_status ::
    "hexstr \<times> int \<times> address \<times> address \<Rightarrow> (hexstr \<times> validator_status) list \<Rightarrow> (hexstr \<times> validator_status) list res" where
  "put_status r out =
     (case r of (pk, stage, vault, operator) \<Rightarrow>
        bindR (stage_of stage) (\<lambda>stage.
          Inr (AList.update pk \<lparr>st_stage = stage, st_staking_vault = vault, st_node_operator = operator\<rparr> out)))"

definition status_batch ::
    "status_env \<Rightarrow> hexstr list \<Rightarrow> (hexstr \<times> validator_status) list \<Rightarrow> (hexstr \<times> validator_status) list res" where
  "status_batch env pubkeys out =
     bindR (mapR (se_canonical env) pubkeys) (\<lambda>batch.
       bindR (se_batch_statuses env batch) (\<lambda>response. foldR put_status (zip batch response) out))"

definition get_validator_statuses :: "status_env \<Rightarrow> hexstr list \<Rightarrow> (hexstr \<times> validator_status) list res" where
  "get_validator_statuses env pubkeys =
     (if se_batch_size env = 0 then Inl ValueError
      else foldR (status_batch env) (batched (nat (se_batch_size env)) pubkeys) [])"

section \<open>Total values\<close>

definition get_vaults :: "vault_info list \<Rightarrow> vaults_map" where
  "get_vaults vaults = fold (\<lambda>v m. AList.update (vi_vault v) v m) vaults []"

definition get_validators_by_vault :: "validator list \<Rightarrow> vaults_map \<Rightarrow> (address \<times> validator list) list" where
  "get_validators_by_vault validators vaults =
     (let wc_to_vault = fold (\<lambda>(_, v) m. AList.update (vi_withdrawal_credentials v) v m) vaults [] in
      fold (\<lambda>v by_vault.
          case map_of wc_to_vault (vs_withdrawal_credentials (v_validator v)) of
            None \<Rightarrow> by_vault
          | Some info \<Rightarrow> AList.update (vi_vault info) (al_get [] by_vault (vi_vault info) @ [v]) by_vault)
        validators [])"

definition get_total_pending_amount_by_pubkey :: "pending_deposit list \<Rightarrow> (hexstr \<times> gwei) list" where
  "get_total_pending_amount_by_pubkey pending_deposits =
     fold (\<lambda>d m. AList.update (pd_pubkey d) (al_get 0 m (pd_pubkey d) + pd_amount d) m) pending_deposits []"

definition get_non_eligible_pubkeys :: "validator list \<Rightarrow> hexstr list \<Rightarrow> hexstr list" where
  \<comment> \<open>a set comprehension; its members in the order of their first occurrence\<close>
  "get_non_eligible_pubkeys validators vault_wcs =
     remdups (map (\<lambda>v. vs_pubkey (v_validator v))
       (filter (\<lambda>v. has_far_future_activation_eligibility_epoch (v_validator v) \<and>
          vs_withdrawal_credentials (v_validator v) \<in> set vault_wcs) validators))"

definition get_unmatched_deposits_pubkeys ::
    "validator list \<Rightarrow> pending_deposit list \<Rightarrow> hexstr list \<Rightarrow> hexstr list" where
  "get_unmatched_deposits_pubkeys validators pending_deposits vault_wcs =
     (let all_validator_pubkeys = map (\<lambda>v. vs_pubkey (v_validator v)) validators in
      remdups (map pd_pubkey
        (filter (\<lambda>d. pd_withdrawal_credentials d \<in> set vault_wcs \<and> pd_pubkey d \<notin> set all_validator_pubkeys)
           pending_deposits)))"

definition get_pubkey_statuses_by_vault ::
    "status_env \<Rightarrow> hexstr list \<Rightarrow> (address \<times> (hexstr \<times> validator_status) list) list res" where
  "get_pubkey_statuses_by_vault env pubkeys =
     bindR (get_validator_statuses env pubkeys) (\<lambda>statuses.
       Inr (fold (\<lambda>(pubkey, status) m.
              AList.update (st_staking_vault status)
                (AList.update pubkey status (al_get [] m (st_staking_vault status))) m) statuses []))"

definition calculate_vault_total_value ::
    "wei \<Rightarrow> validator list \<Rightarrow> (hexstr \<times> gwei) list \<Rightarrow> (hexstr \<times> validator_status) list \<Rightarrow>
     (hexstr \<times> validator_status) list \<Rightarrow> wei" where
  "calculate_vault_total_value aggregated_balance vault_validators pending_by_pubkey statuses unmatched_statuses =
     (let vault_total = fold (\<lambda>v t.
            let pubkey = vs_pubkey (v_validator v);
                balance = gwei_to_wei (v_balance v + al_get 0 pending_by_pubkey pubkey)
            in if \<not> has_far_future_activation_eligibility_epoch (v_validator v) then t + balance
               else case map_of statuses pubkey of
                 None \<Rightarrow> t
               | Some status \<Rightarrow>
                   if st_stage status = PREDEPOSITED then t + gwei_to_wei MIN_DEPOSIT_AMOUNT
                   else if st_stage status = ACTIVATED then t + balance
                   else t) vault_validators aggregated_balance;
          num_predeposited = length (filter (\<lambda>(_, s). st_stage s = PREDEPOSITED) unmatched_statuses)
      in vault_total + int num_predeposited * gwei_to_wei MIN_DEPOSIT_AMOUNT)"

definition get_vaults_total_values ::
    "status_env \<Rightarrow> vaults_map \<Rightarrow> validator list \<Rightarrow> pending_deposit list \<Rightarrow>
     (address \<times> wei) list res" where
  "get_vaults_total_values env vaults validators pending_deposits =
     (let validators_by_vault = get_validators_by_vault validators vaults;
          pending_by_pubkey = get_total_pending_amount_by_pubkey pending_deposits;
          vault_wcs = map (\<lambda>(_, v). vi_withdrawal_credentials v) vaults
      in bindR (get_pubkey_statuses_by_vault env (get_non_eligible_pubkeys validators vault_wcs)) (\<lambda>statuses_by_vault.
         bindR (get_pubkey_statuses_by_vault env
             (get_unmatched_deposits_pubkeys validators pending_deposits vault_wcs)) (\<lambda>unmatched_by_vault.
           Inr (fold (\<lambda>(address, vault) totals.
                  AList.update address
                    (calculate_vault_total_value (vi_aggregated_balance vault) (al_get [] validators_by_vault address)
                       pending_by_pubkey (al_get [] statuses_by_vault address) (al_get [] unmatched_by_vault address))
                    totals) vaults []))))"

section \<open>Slashing reserve\<close>

definition calc_reserve :: "wei \<Rightarrow> int \<Rightarrow> int" where
  "calc_reserve balance reserve_ratio_bp =
     round_up (dec (dec (of_int balance * of_int reserve_ratio_bp) / of_int TOTAL_BASIS_POINTS))"

text \<open>
  The balance a validator's reserve is taken of, if any: within the shifts around its withdrawable epoch
  the balance before the slashing period, earlier the current one.
\<close>

definition reserve_balance ::
    "(slot \<Rightarrow> int \<Rightarrow> validator res) \<Rightarrow> int \<Rightarrow> int \<Rightarrow> epoch \<Rightarrow> int \<Rightarrow> validator \<Rightarrow> wei option res" where
  "reserve_balance get_validator_state left_shift right_shift ref_epoch epoch_slots v =
     (let we = vs_withdrawable_epoch (v_validator v) in
      if \<not> vs_slashed (v_validator v) then Inr None
      else if we - left_shift \<le> ref_epoch \<and> ref_epoch \<le> we + right_shift then
        bindR (get_validator_state ((we - left_shift) * epoch_slots) (v_index v))
          (\<lambda>past. Inr (Some (gwei_to_wei (v_balance past))))
      else if ref_epoch < we - left_shift then Inr (Some (gwei_to_wei (v_balance v)))
      else Inr None)"

record reserve_env =
  re_left_shift :: "hexstr \<Rightarrow> int res"
  re_right_shift :: "hexstr \<Rightarrow> int res"
  re_validator_state :: "slot \<Rightarrow> int \<Rightarrow> validator res"

definition reserve_step ::
    "reserve_env \<Rightarrow> int \<Rightarrow> int \<Rightarrow> epoch \<Rightarrow> int \<Rightarrow> vaults_map \<Rightarrow> address \<Rightarrow> validator \<Rightarrow> (address \<times> int) list \<Rightarrow>
     (address \<times> int) list res" where
  "reserve_step env left_shift right_shift ref_epoch epoch_slots vaults address v reserves =
     bindR (reserve_balance (re_validator_state env) left_shift right_shift ref_epoch epoch_slots v) (\<lambda>balance.
       case balance of
         None \<Rightarrow> Inr reserves
       | Some balance \<Rightarrow>
           bindR (lookupR vaults address) (\<lambda>vault.
             Inr (AList.update address
               (al_get 0 reserves address + calc_reserve balance (vi_reserve_ratio_bp vault)) reserves)))"

definition get_vaults_slashing_reserve ::
    "reserve_env \<Rightarrow> ref_blockstamp \<Rightarrow> vaults_map \<Rightarrow> validator list \<Rightarrow> chain_config \<Rightarrow> (address \<times> int) list res" where
  "get_vaults_slashing_reserve env bs vaults validators c =
     bindR (re_left_shift env (bs_block_hash bs)) (\<lambda>left_shift.
     bindR (re_right_shift env (bs_block_hash bs)) (\<lambda>right_shift.
       foldR (\<lambda>(address, vault_validators).
           foldR (reserve_step env left_shift right_shift (bs_ref_epoch bs) (slots_per_epoch c) vaults address)
             vault_validators)
         (get_validators_by_vault validators vaults) []))"

section \<open>Leaves of the report\<close>

definition build_tree_data ::
    "vaults_map \<Rightarrow> (address \<times> wei) list \<Rightarrow> (address \<times> vault_fee) list \<Rightarrow> (address \<times> int) list \<Rightarrow>
     vault_tree_node list res" where
  "build_tree_data vaults total_values fees slashing_reserve =
     mapR (\<lambda>(address, vault).
       case map_of total_values address of
         None \<Rightarrow> Inl ValueError
       | Some tv \<Rightarrow>
           (case map_of fees address of
              None \<Rightarrow> Inl ValueError
            | Some f \<Rightarrow> Inr (address, tv, fee_total f, vi_liability_shares vault, vi_max_liability_shares vault,
                al_get 0 slashing_reserve address))) vaults"

section \<open>Grouping by vault\<close>

text \<open>A map of vaults as \<open>get_vaults\<close> builds it, with withdrawal credentials of their own.\<close>

definition wf_vaults :: "vaults_map \<Rightarrow> bool" where
  "wf_vaults vaults \<longleftrightarrow> distinct (map fst vaults) \<and> (\<forall>(a, v) \<in> set vaults. vi_vault v = a) \<and>
     distinct (map (\<lambda>p. vi_withdrawal_credentials (snd p)) vaults)"

abbreviation wc_of :: "validator \<Rightarrow> hexstr" where
  "wc_of x \<equiv> vs_withdrawal_credentials (v_validator x)"

abbreviation pubkey_of :: "validator \<Rightarrow> hexstr" where
  "pubkey_of x \<equiv> vs_pubkey (v_validator x)"

lemma wc_map:
  "map_of (fold (\<lambda>(_, v) m. AList.update (vi_withdrawal_credentials v) v m) vaults []) =
    map_of (rev (map (\<lambda>p. (vi_withdrawal_credentials (snd p), snd p)) vaults))"
proof -
  have "map_of (fold (\<lambda>(_, v) m. AList.update (vi_withdrawal_credentials v) v m) vaults m) =
    map_of m ++ map_of (rev (map (\<lambda>p. (vi_withdrawal_credentials (snd p), snd p)) vaults))" for m
    by (induction vaults arbitrary: m) (auto simp: update_conv' map_add_def fun_eq_iff split: option.splits)
  then show ?thesis by simp
qed

lemma wc_to_vault:
  assumes "wf_vaults vaults" "map_of vaults a = Some v"
  shows "map_of (fold (\<lambda>(_, v) m. AList.update (vi_withdrawal_credentials v) v m) vaults [])
      (vi_withdrawal_credentials v) = Some v"
proof -
  let ?kv = "map (\<lambda>p. (vi_withdrawal_credentials (snd p), snd p)) vaults"
  have d: "distinct (map fst ?kv)" using assms(1) by (simp add: wf_vaults_def comp_def)
  have "(vi_withdrawal_credentials v, v) \<in> set (rev ?kv)" using map_of_SomeD[OF assms(2)] by force
  then have "map_of (rev ?kv) (vi_withdrawal_credentials v) = Some v"
    using d by (intro map_of_is_SomeI) (simp_all add: rev_map[symmetric])
  then show ?thesis by (simp only: wc_map)
qed

lemma wc_to_vault_only:
  assumes "wf_vaults vaults"
    and "map_of (fold (\<lambda>(_, v) m. AList.update (vi_withdrawal_credentials v) v m) vaults []) wc = Some v"
  shows "map_of vaults (vi_vault v) = Some v \<and> vi_withdrawal_credentials v = wc"
proof -
  have "map_of (rev (map (\<lambda>p. (vi_withdrawal_credentials (snd p), snd p)) vaults)) wc = Some v"
    using assms(2) by (simp only: wc_map)
  from map_of_SomeD[OF this] obtain a where "(a, v) \<in> set vaults" "vi_withdrawal_credentials v = wc" by auto
  with assms(1) show ?thesis by (auto simp: wf_vaults_def intro: map_of_is_SomeI)
qed

lemma validators_of_vault:
  assumes "wf_vaults vaults" "map_of vaults a = Some v"
  shows "al_get [] (get_validators_by_vault validators vaults) a = filter (\<lambda>x. wc_of x = vi_withdrawal_credentials v) validators"
proof -
  let ?m = "fold (\<lambda>(_, v) m. AList.update (vi_withdrawal_credentials v) v m) vaults []"
  have a: "vi_vault v = a" using assms map_of_SomeD[OF assms(2)] by (auto simp: wf_vaults_def)
  have hit: "map_of ?m (vi_withdrawal_credentials v) = Some v" by (rule wc_to_vault[OF assms])
  have other: "vi_vault w \<noteq> a" if "map_of ?m wc = Some w" "wc \<noteq> vi_withdrawal_credentials v" for w wc
    using wc_to_vault_only[OF assms(1) that(1)] that(2) assms(2) by auto
  have "al_get [] (fold (\<lambda>x by_vault.
          case map_of ?m (wc_of x) of None \<Rightarrow> by_vault
          | Some info \<Rightarrow> AList.update (vi_vault info) (al_get [] by_vault (vi_vault info) @ [x]) by_vault) xs m) a =
      al_get [] m a @ filter (\<lambda>x. wc_of x = vi_withdrawal_credentials v) xs" for xs m
  proof (induction xs arbitrary: m)
    case (Cons x xs)
    show ?case
    proof (cases "map_of ?m (wc_of x)")
      case None
      with hit have "wc_of x \<noteq> vi_withdrawal_credentials v" by auto
      with None show ?thesis by (simp add: Cons.IH)
    next
      case (Some w)
      with hit other[OF Some] a show ?thesis
        by (cases "wc_of x = vi_withdrawal_credentials v") (auto simp: Cons.IH)
    qed
  qed simp
  then show ?thesis by (simp add: get_validators_by_vault_def)
qed

lemma pending_amount:
  "al_get 0 (get_total_pending_amount_by_pubkey deposits) pk = (\<Sum>d\<leftarrow>filter (\<lambda>d. pd_pubkey d = pk) deposits. pd_amount d)"
proof -
  have "al_get 0 (fold (\<lambda>d m. AList.update (pd_pubkey d) (al_get 0 m (pd_pubkey d) + pd_amount d) m) ds m) pk =
      al_get 0 m pk + (\<Sum>d\<leftarrow>filter (\<lambda>d. pd_pubkey d = pk) ds. pd_amount d)" for ds :: "pending_deposit list" and m
    by (induction ds arbitrary: m) auto
  then show ?thesis by (simp add: get_total_pending_amount_by_pubkey_def)
qed

lemma get_vaults_eq:
  "distinct (map vi_vault vs) \<Longrightarrow> get_vaults vs = map (\<lambda>v. (vi_vault v, v)) vs"
  using fold_update_append[of vi_vault vs "[]" id] by (simp add: get_vaults_def)

lemma get_vaults_wf:
  "distinct (map vi_vault vs) \<Longrightarrow> distinct (map vi_withdrawal_credentials vs) \<Longrightarrow> wf_vaults (get_vaults vs)"
  by (simp add: wf_vaults_def get_vaults_eq comp_def)

section \<open>The proving contract\<close>

text \<open>
  The contract knows a status \<open>\<sigma> pk\<close> for every key and answers batches key by key; the keys \<open>K\<close> of the
  consensus layer are canonical hex strings.
\<close>

fun stage_number :: "validator_stage \<Rightarrow> int" where
  "stage_number NONE = 0" | "stage_number PREDEPOSITED = 1" | "stage_number PROVEN = 2"
| "stage_number ACTIVATED = 3" | "stage_number COMPENSATED = 4"

lemma stage_of_number [simp]: "stage_of (stage_number s) = Inr s"
  by (cases s) (simp_all add: stage_of_def)

definition status_oracle :: "status_env \<Rightarrow> (hexstr \<Rightarrow> validator_status) \<Rightarrow> hexstr set \<Rightarrow> bool" where
  "status_oracle env \<sigma> K \<longleftrightarrow> 0 < se_batch_size env \<and> (\<forall>pk \<in> K. se_canonical env pk = Inr pk) \<and>
     (\<forall>batch. se_batch_statuses env batch =
        Inr (map (\<lambda>pk. (stage_number (st_stage (\<sigma> pk)), st_staking_vault (\<sigma> pk), st_node_operator (\<sigma> pk))) batch))"

lemma append_statuses:
  assumes "distinct batch" "set batch \<inter> set (map fst out) = {}"
  shows "foldR put_status
      (zip batch (map (\<lambda>pk. (stage_number (st_stage (\<sigma> pk)), st_staking_vault (\<sigma> pk), st_node_operator (\<sigma> pk))) batch))
      out = Inr (out @ map (\<lambda>pk. (pk, \<sigma> pk)) batch)"
  using assms
proof (induction batch arbitrary: out)
  case (Cons pk batch)
  then show ?case by (simp add: put_status_def update_fresh)
qed simp

lemma status_batch_appends:
  assumes "status_oracle env \<sigma> K" "set batch \<subseteq> K" "distinct batch" "set batch \<inter> set (map fst out) = {}"
  shows "status_batch env batch out = Inr (out @ map (\<lambda>pk. (pk, \<sigma> pk)) batch)"
proof -
  have "mapR (se_canonical env) batch = Inr batch"
    using assms(1,2) mapR_all_ok[of batch "se_canonical env" id] by (auto simp: status_oracle_def)
  then show ?thesis using assms append_statuses[OF assms(3,4), of \<sigma>] by (simp add: status_batch_def status_oracle_def)
qed

lemma validator_statuses:
  assumes "status_oracle env \<sigma> K" "set pubkeys \<subseteq> K" "distinct pubkeys"
  shows "get_validator_statuses env pubkeys = Inr (map (\<lambda>pk. (pk, \<sigma> pk)) pubkeys)"
proof -
  have fold: "foldR (status_batch env) chunks out = Inr (out @ map (\<lambda>pk. (pk, \<sigma> pk)) (concat chunks))"
    if "distinct (concat chunks)" "set (concat chunks) \<subseteq> K" "set (concat chunks) \<inter> set (map fst out) = {}" for chunks out
    using that
  proof (induction chunks arbitrary: out)
    case (Cons chunk chunks)
    have "status_batch env chunk out = Inr (out @ map (\<lambda>pk. (pk, \<sigma> pk)) chunk)"
      using Cons.prems by (intro status_batch_appends[OF assms(1)]) auto
    moreover have "foldR (status_batch env) chunks (out @ map (\<lambda>pk. (pk, \<sigma> pk)) chunk) =
        Inr ((out @ map (\<lambda>pk. (pk, \<sigma> pk)) chunk) @ map (\<lambda>pk. (pk, \<sigma> pk)) (concat chunks))"
      using Cons.prems by (intro Cons.IH) auto
    ultimately show ?case by simp
  qed simp
  have size: "0 < se_batch_size env" using assms(1) by (simp add: status_oracle_def)
  then have "concat (batched (nat (se_batch_size env)) pubkeys) = pubkeys" by (intro concat_batched) simp
  with fold[of "batched (nat (se_batch_size env)) pubkeys" "[]"] size assms(2,3) show ?thesis
    by (simp add: get_validator_statuses_def)
qed

lemma statuses_of_vault:
  assumes "status_oracle env \<sigma> K" "set pubkeys \<subseteq> K" "distinct pubkeys"
  shows "\<exists>m. get_pubkey_statuses_by_vault env pubkeys = Inr m \<and>
    (\<forall>a. al_get [] m a = map (\<lambda>pk. (pk, \<sigma> pk)) (filter (\<lambda>pk. st_staking_vault (\<sigma> pk) = a) pubkeys))"
proof -
  let ?add = "\<lambda>(pubkey, status) m. AList.update (st_staking_vault status)
                (AList.update pubkey status (al_get [] m (st_staking_vault status))) m"
  have "al_get [] (fold ?add (map (\<lambda>pk. (pk, \<sigma> pk)) pks) m) a =
      al_get [] m a @ map (\<lambda>pk. (pk, \<sigma> pk)) (filter (\<lambda>pk. st_staking_vault (\<sigma> pk) = a) pks)"
    if "distinct pks" "\<forall>a. set pks \<inter> set (map fst (al_get [] m a)) = {}" for pks m a
    using that
  proof (induction pks arbitrary: m)
    case (Cons pk pks)
    let ?m = "?add (pk, \<sigma> pk) m"
    have "pk \<notin> set (map fst (al_get [] m (st_staking_vault (\<sigma> pk))))" using Cons.prems(2) by simp
    note fresh = update_fresh[OF this]
    have m: "al_get [] ?m b = (if st_staking_vault (\<sigma> pk) = b then al_get [] m b @ [(pk, \<sigma> pk)] else al_get [] m b)" for b
      using fresh by auto
    have "\<forall>a. set pks \<inter> set (map fst (al_get [] ?m a)) = {}"
    proof
      fix b
      have "set pks \<inter> set (map fst (al_get [] m b)) = {}" "pk \<notin> set pks" using Cons.prems by auto
      then show "set pks \<inter> set (map fst (al_get [] ?m b)) = {}" by (simp only: m) auto
    qed
    then have "al_get [] (fold ?add (map (\<lambda>pk. (pk, \<sigma> pk)) pks) ?m) a =
      al_get [] ?m a @ map (\<lambda>pk. (pk, \<sigma> pk)) (filter (\<lambda>pk. st_staking_vault (\<sigma> pk) = a) pks)"
      using Cons.prems(1) by (intro Cons.IH) simp_all
    then show ?case by (simp add: m fresh)
  qed simp
  with assms(3) show ?thesis
    by (simp add: get_pubkey_statuses_by_vault_def validator_statuses[OF assms])
qed

section \<open>The total value of a vault\<close>

text \<open>What one validator contributes to the vault with its withdrawal credentials: the table of the documentation.\<close>

definition contribution ::
    "(hexstr \<Rightarrow> validator_status) \<Rightarrow> address \<Rightarrow> pending_deposit list \<Rightarrow> validator \<Rightarrow> wei" where
  "contribution \<sigma> a deposits x =
     (let pending = (\<Sum>d\<leftarrow>filter (\<lambda>d. pd_pubkey d = pubkey_of x) deposits. pd_amount d);
          full = gwei_to_wei (v_balance x + pending);
          stage = (if st_staking_vault (\<sigma> (pubkey_of x)) = a then st_stage (\<sigma> (pubkey_of x)) else NONE)
      in if \<not> has_far_future_activation_eligibility_epoch (v_validator x) then full
         else case stage of PREDEPOSITED \<Rightarrow> gwei_to_wei MIN_DEPOSIT_AMOUNT | ACTIVATED \<Rightarrow> full | _ \<Rightarrow> 0)"

definition predeposited_keys ::
    "(hexstr \<Rightarrow> validator_status) \<Rightarrow> vaults_map \<Rightarrow> validator list \<Rightarrow> pending_deposit list \<Rightarrow> address \<Rightarrow> hexstr set" where
  "predeposited_keys \<sigma> vaults validators deposits a =
     pd_pubkey ` {d \<in> set deposits. pd_pubkey d \<notin> pubkey_of ` set validators \<and>
        pd_withdrawal_credentials d \<in> vi_withdrawal_credentials ` snd ` set vaults \<and>
        st_staking_vault (\<sigma> (pd_pubkey d)) = a \<and> st_stage (\<sigma> (pd_pubkey d)) = PREDEPOSITED}"

lemma vault_total_value:
  assumes "\<forall>x \<in> set xs. has_far_future_activation_eligibility_epoch (v_validator x) \<longrightarrow> pubkey_of x \<in> set pks"
  shows "calculate_vault_total_value b xs (get_total_pending_amount_by_pubkey deposits)
      (map (\<lambda>pk. (pk, \<sigma> pk)) (filter (\<lambda>pk. st_staking_vault (\<sigma> pk) = a) pks))
      (map (\<lambda>pk. (pk, \<sigma> pk)) (filter (\<lambda>pk. st_staking_vault (\<sigma> pk) = a) unmatched)) =
    b + (\<Sum>x\<leftarrow>xs. contribution \<sigma> a deposits x) +
    int (length (filter (\<lambda>pk. st_staking_vault (\<sigma> pk) = a \<and> st_stage (\<sigma> pk) = PREDEPOSITED) unmatched)) *
      gwei_to_wei MIN_DEPOSIT_AMOUNT"
proof -
  have "length (filter (\<lambda>(_, s). st_stage s = PREDEPOSITED)
        (map (\<lambda>pk. (pk, \<sigma> pk)) (filter (\<lambda>pk. st_staking_vault (\<sigma> pk) = a) unmatched))) =
      length (filter (\<lambda>pk. st_staking_vault (\<sigma> pk) = a \<and> st_stage (\<sigma> pk) = PREDEPOSITED) unmatched)"
    by (induction unmatched) auto
  moreover have "fold (\<lambda>v t.
            let pubkey = vs_pubkey (v_validator v);
                balance = gwei_to_wei (v_balance v + al_get 0 (get_total_pending_amount_by_pubkey deposits) pubkey)
            in if \<not> has_far_future_activation_eligibility_epoch (v_validator v) then t + balance
               else case map_of (map (\<lambda>pk. (pk, \<sigma> pk)) (filter (\<lambda>pk. st_staking_vault (\<sigma> pk) = a) pks)) pubkey of
                 None \<Rightarrow> t
               | Some status \<Rightarrow>
                   if st_stage status = PREDEPOSITED then t + gwei_to_wei MIN_DEPOSIT_AMOUNT
                   else if st_stage status = ACTIVATED then t + balance
                   else t) xs b = b + (\<Sum>x\<leftarrow>xs. contribution \<sigma> a deposits x)"
    using assms
    by (induction xs arbitrary: b)
      (auto simp: contribution_def Let_def pending_amount map_of_filtered_graph split: validator_stage.splits)
  ultimately show ?thesis by (simp add: calculate_vault_total_value_def Let_def)
qed

text \<open>
  C26. Every ether is counted for the right vault and once: a vault's total value is its balance on the
  execution layer, plus for each validator with its withdrawal credentials the amount the table of proving
  stages gives it (pending deposits included, stages of other vaults ignored), plus one predeposit for every
  distinct key without a validator that the contract knows as predeposited for this vault. With an answering
  contract the computation does not fail, in whatever batches the statuses are fetched.
\<close>

theorem vault_total_value_exact:
  assumes "wf_vaults vaults" "status_oracle env \<sigma> (pubkey_of ` set validators \<union> pd_pubkey ` set deposits)"
  shows "\<exists>totals. get_vaults_total_values env vaults validators deposits = Inr totals \<and>
    (\<forall>a v. map_of vaults a = Some v \<longrightarrow> map_of totals a = Some
      (vi_aggregated_balance v +
       (\<Sum>x\<leftarrow>filter (\<lambda>x. wc_of x = vi_withdrawal_credentials v) validators. contribution \<sigma> a deposits x) +
       int (card (predeposited_keys \<sigma> vaults validators deposits a)) * gwei_to_wei MIN_DEPOSIT_AMOUNT))"
proof -
  let ?wcs = "map (\<lambda>(_, v). vi_withdrawal_credentials v) vaults"
  let ?noneligible = "get_non_eligible_pubkeys validators ?wcs"
  let ?unmatched = "get_unmatched_deposits_pubkeys validators deposits ?wcs"
  have sub: "set ?noneligible \<subseteq> pubkey_of ` set validators \<union> pd_pubkey ` set deposits" "distinct ?noneligible"
    "set ?unmatched \<subseteq> pubkey_of ` set validators \<union> pd_pubkey ` set deposits" "distinct ?unmatched"
    by (auto simp: get_non_eligible_pubkeys_def get_unmatched_deposits_pubkeys_def Let_def)
  from statuses_of_vault[OF assms(2) sub(1,2)] obtain m where
    m: "get_pubkey_statuses_by_vault env ?noneligible = Inr m"
      "\<And>a. al_get [] m a = map (\<lambda>pk. (pk, \<sigma> pk)) (filter (\<lambda>pk. st_staking_vault (\<sigma> pk) = a) ?noneligible)" by blast
  from statuses_of_vault[OF assms(2) sub(3,4)] obtain n where
    n: "get_pubkey_statuses_by_vault env ?unmatched = Inr n"
      "\<And>a. al_get [] n a = map (\<lambda>pk. (pk, \<sigma> pk)) (filter (\<lambda>pk. st_staking_vault (\<sigma> pk) = a) ?unmatched)" by blast
  let ?tv = "\<lambda>a v. calculate_vault_total_value (vi_aggregated_balance v) (al_get [] (get_validators_by_vault validators vaults) a)
      (get_total_pending_amount_by_pubkey deposits) (al_get [] m a) (al_get [] n a)"
  let ?totals = "map (\<lambda>(a, v). (a, ?tv a v)) vaults"
  have r: "get_vaults_total_values env vaults validators deposits = Inr ?totals"
    using assms(1) by (simp add: get_vaults_total_values_def m(1) n(1) Let_def fold_update_table wf_vaults_def)
  have "map_of ?totals a = Some (vi_aggregated_balance v +
       (\<Sum>x\<leftarrow>filter (\<lambda>x. wc_of x = vi_withdrawal_credentials v) validators. contribution \<sigma> a deposits x) +
       int (card (predeposited_keys \<sigma> vaults validators deposits a)) * gwei_to_wei MIN_DEPOSIT_AMOUNT)"
    if "map_of vaults a = Some v" for a v
  proof -
    have wc: "vi_withdrawal_credentials v \<in> set ?wcs" using map_of_SomeD[OF that] by force
    have "map_of ?totals a = Some (?tv a v)" using that by (simp add: map_of_table)
    moreover have "filter (\<lambda>pk. st_staking_vault (\<sigma> pk) = a \<and> st_stage (\<sigma> pk) = PREDEPOSITED) ?unmatched =
        remdups (filter (\<lambda>pk. st_staking_vault (\<sigma> pk) = a \<and> st_stage (\<sigma> pk) = PREDEPOSITED) ?unmatched)"
      using sub(4) by (simp add: distinct_remdups_id)
    moreover have "set (filter (\<lambda>pk. st_staking_vault (\<sigma> pk) = a \<and> st_stage (\<sigma> pk) = PREDEPOSITED) ?unmatched) =
        predeposited_keys \<sigma> vaults validators deposits a"
      by (auto simp: predeposited_keys_def get_unmatched_deposits_pubkeys_def Let_def case_prod_beta' image_image)
    ultimately show ?thesis
      using vault_total_value[of "filter (\<lambda>x. wc_of x = vi_withdrawal_credentials v) validators" ?noneligible] wc sub(4)
      by (simp add: validators_of_vault[OF assms(1) that] m(2) n(2) get_non_eligible_pubkeys_def distinct_card[symmetric])
  qed
  with r show ?thesis by blast
qed

section \<open>The slashing reserve\<close>

lemma calc_reserve_exact:
  assumes "0 \<le> balance" "0 \<le> ratio" "balance * ratio \<le> 10 ^ 27"
  shows "calc_reserve balance ratio = (balance * ratio + TOTAL_BASIS_POINTS - 1) div TOTAL_BASIS_POINTS"
proof -
  let ?n = "balance * ratio"
  have n: "\<bar>?n\<bar> \<le> 10 ^ 27" "0 \<le> ?n" using assms by simp_all
  have eq: "dec (dec (of_int balance * of_int ratio) / of_int TOTAL_BASIS_POINTS) = of_int ?n / 10 ^ 4"
    using dec_decimal[OF n(1), of 4] decimal27.rnd_int[OF n(1)] by (simp add: TOTAL_BASIS_POINTS_def)
  then have "calc_reserve balance ratio = \<lceil>of_int ?n / (10 ^ 4 :: rat)\<rceil>"
    unfolding calc_reserve_def round_up_def eq using n(2) by (simp add: zero_le_mult_iff flip: of_int_mult)
  also have "\<dots> = (?n + 9999) div 10000" by (rule ceiling_div)
  finally show ?thesis by (simp add: TOTAL_BASIS_POINTS_def)
qed

text \<open>The balance that counts, if any, when the node knows the past states \<open>past\<close>.\<close>

definition reserved_balance :: "(slot \<Rightarrow> int \<Rightarrow> validator) \<Rightarrow> int \<Rightarrow> int \<Rightarrow> epoch \<Rightarrow> int \<Rightarrow> validator \<Rightarrow> wei" where
  "reserved_balance past left_shift right_shift ref_epoch epoch_slots x =
     (let we = vs_withdrawable_epoch (v_validator x) in
      if \<not> vs_slashed (v_validator x) \<or> (we + right_shift < ref_epoch \<and> we - left_shift \<le> ref_epoch) then 0
      else gwei_to_wei (v_balance (if we - left_shift \<le> ref_epoch
        then past ((we - left_shift) * epoch_slots) (v_index x) else x)))"

lemma reserve_balance_cases:
  shows "\<exists>b. reserve_balance (\<lambda>s i. Inr (past s i)) l r e n x = Inr b \<and>
    (case b of None \<Rightarrow> reserved_balance past l r e n x = 0 | Some w \<Rightarrow> reserved_balance past l r e n x = w)"
  by (auto simp: reserve_balance_def reserved_balance_def Let_def)

lemma reserve_steps:
  assumes "re_validator_state env = (\<lambda>s i. Inr (past s i))" "map_of vaults a = Some v"
  shows "\<exists>rs. foldR (reserve_step env l r e n vaults a) xs reserves = Inr rs \<and>
    (\<forall>b. al_get 0 rs b = al_get 0 reserves b + (if b = a
       then \<Sum>x\<leftarrow>xs. calc_reserve (reserved_balance past l r e n x) (vi_reserve_ratio_bp v) else 0))"
proof (induction xs arbitrary: reserves)
  case (Cons x xs)
  have zero: "calc_reserve 0 ratio = 0" for ratio by (simp add: calc_reserve_def round_up_def dec_def)
  obtain b where b: "reserve_balance (re_validator_state env) l r e n x = Inr b"
    "case b of None \<Rightarrow> reserved_balance past l r e n x = 0 | Some w \<Rightarrow> reserved_balance past l r e n x = w"
    using reserve_balance_cases[of past l r e n x] unfolding assms(1) by blast
  obtain t where t: "reserve_step env l r e n vaults a x reserves = Inr t"
    "\<forall>b. al_get 0 t b = al_get 0 reserves b + (if b = a then calc_reserve (reserved_balance past l r e n x) (vi_reserve_ratio_bp v) else 0)"
    using b assms(2) zero by (cases b) (auto simp: reserve_step_def lookupR_def)
  from Cons.IH[of t] obtain rs where "foldR (reserve_step env l r e n vaults a) xs t = Inr rs"
    "\<forall>b. al_get 0 rs b = al_get 0 t b + (if b = a
       then \<Sum>x\<leftarrow>xs. calc_reserve (reserved_balance past l r e n x) (vi_reserve_ratio_bp v) else 0)" by blast
  with t show ?case by auto
qed simp

lemma validators_by_vault_keys:
  assumes "wf_vaults vaults"
  shows "distinct (map fst (get_validators_by_vault validators vaults)) \<and>
    fst ` set (get_validators_by_vault validators vaults) \<subseteq> fst ` set vaults"
proof -
  let ?m = "fold (\<lambda>(_, v) m. AList.update (vi_withdrawal_credentials v) v m) vaults []"
  let ?step = "\<lambda>x by_vault.
          case map_of ?m (wc_of x) of None \<Rightarrow> by_vault
          | Some info \<Rightarrow> AList.update (vi_vault info) (al_get [] by_vault (vi_vault info) @ [x]) by_vault"
  have "distinct (map fst (fold ?step xs g)) \<and> fst ` set (fold ?step xs g) \<subseteq> fst ` set vaults"
    if "distinct (map fst g)" "fst ` set g \<subseteq> fst ` set vaults" for xs g
    using that
  proof (induction xs arbitrary: g)
    case (Cons x xs)
    have "distinct (map fst (?step x g)) \<and> fst ` set (?step x g) \<subseteq> fst ` set vaults"
    proof (cases "map_of ?m (wc_of x)")
      case (Some v)
      from wc_to_vault_only[OF assms Some] have "vi_vault v \<in> fst ` set vaults" by (force dest: map_of_SomeD)
      moreover have "fst ` set (AList.update k y g) = insert k (fst ` set g)" for k y
        using dom_update[of k y g] by (simp add: dom_map_of_conv_image_fst)
      ultimately show ?thesis using Some Cons.prems by (simp add: distinct_update)
    qed (use Cons.prems in simp)
    then show ?case using Cons.IH by simp
  qed simp
  from this[of "[]" validators] show ?thesis by (simp add: get_validators_by_vault_def)
qed

lemma reserve_all:
  assumes "re_validator_state env = (\<lambda>s i. Inr (past s i))"
    and "distinct (map fst groups)" "fst ` set groups \<subseteq> fst ` set vaults" "map_of vaults a = Some v"
  shows "\<exists>rs. foldR (\<lambda>(address, xs). foldR (reserve_step env l r e n vaults address) xs) groups reserves = Inr rs \<and>
    al_get 0 rs a = al_get 0 reserves a +
      (\<Sum>x\<leftarrow>al_get [] groups a. calc_reserve (reserved_balance past l r e n x) (vi_reserve_ratio_bp v))"
  using assms(2,3)
proof (induction groups arbitrary: reserves)
  case (Cons g groups)
  obtain b xs where g: "g = (b, xs)" by (cases g)
  have "map_of vaults b \<noteq> None" using Cons.prems(2) by (simp add: g map_of_eq_None_iff)
  then obtain w where w: "map_of vaults b = Some w" by blast
  from reserve_steps[OF assms(1) w, of l r e n xs reserves] obtain t where
    t: "foldR (reserve_step env l r e n vaults b) xs reserves = Inr t"
      "al_get 0 t a = al_get 0 reserves a + (if a = b
         then \<Sum>x\<leftarrow>xs. calc_reserve (reserved_balance past l r e n x) (vi_reserve_ratio_bp w) else 0)" by blast
  from Cons.IH[of t] Cons.prems obtain rs where
    rs: "foldR (\<lambda>(address, xs). foldR (reserve_step env l r e n vaults address) xs) groups t = Inr rs"
      "al_get 0 rs a = al_get 0 t a +
        (\<Sum>x\<leftarrow>al_get [] groups a. calc_reserve (reserved_balance past l r e n x) (vi_reserve_ratio_bp v))" by auto
  have "al_get [] groups b = []" using Cons.prems g by (simp add: al_get_def map_of_eq_None_iff[THEN iffD2])
  moreover have "foldR (\<lambda>(address, xs). foldR (reserve_step env l r e n vaults address) xs) (g # groups) reserves = Inr rs"
    by (simp add: g t(1) rs(1))
  moreover have "al_get [] (g # groups) a = (if a = b then xs else al_get [] groups a)" by (simp add: g al_get_def)
  ultimately show ?case using t(2) rs(2) w assms(4) by (intro exI[of _ rs] conjI) (auto simp del: al_get_update)
qed simp

text \<open>
  The reserve of a vault covers its slashed validators: it is the sum, over the validators with its
  credentials, of the reserve ratio of the balance that counts (the balance before the slashing period while
  the period lasts, the current one before it, none after it), each rounded up to a full wei. So it is never
  below the exact share and less than one wei per validator above it; no decimal digit is lost.
\<close>

theorem slashing_reserve_covers:
  fixes validators :: "validator list" and c :: chain_config
  assumes "wf_vaults vaults" "map_of vaults a = Some v" "0 \<le> vi_reserve_ratio_bp v"
    and "re_left_shift env (bs_block_hash bs) = Inr l" "re_right_shift env (bs_block_hash bs) = Inr r"
    and "re_validator_state env = (\<lambda>s i. Inr (past s i))"
  defines "xs \<equiv> filter (\<lambda>x. wc_of x = vi_withdrawal_credentials v) validators"
    and "w \<equiv> reserved_balance past l r (bs_ref_epoch bs) (slots_per_epoch c)"
  assumes "\<forall>x \<in> set xs. 0 \<le> w x \<and> w x * vi_reserve_ratio_bp v \<le> 10 ^ 27"
  shows "\<exists>reserves. get_vaults_slashing_reserve env bs vaults validators c = Inr reserves \<and>
    al_get 0 reserves a = (\<Sum>x\<leftarrow>xs. (w x * vi_reserve_ratio_bp v + TOTAL_BASIS_POINTS - 1) div TOTAL_BASIS_POINTS) \<and>
    (\<Sum>x\<leftarrow>xs. w x) * vi_reserve_ratio_bp v \<le> TOTAL_BASIS_POINTS * al_get 0 reserves a \<and>
    TOTAL_BASIS_POINTS * al_get 0 reserves a \<le>
      (\<Sum>x\<leftarrow>xs. w x) * vi_reserve_ratio_bp v + int (length xs) * (TOTAL_BASIS_POINTS - 1)"
proof -
  let ?ratio = "vi_reserve_ratio_bp v" and ?e = "bs_ref_epoch bs" and ?n = "slots_per_epoch c"
  let ?up = "\<lambda>x. (w x * ?ratio + TOTAL_BASIS_POINTS - 1) div TOTAL_BASIS_POINTS"
  from reserve_all[OF assms(6) _ _ assms(2), of "get_validators_by_vault validators vaults" l r ?e ?n "[]"]
    validators_by_vault_keys[OF assms(1), of validators]
  obtain rs where rs: "get_vaults_slashing_reserve env bs vaults validators c = Inr rs"
    "al_get 0 rs a = (\<Sum>x\<leftarrow>xs. calc_reserve (w x) ?ratio)"
    by (auto simp: get_vaults_slashing_reserve_def assms(4,5) validators_of_vault[OF assms(1,2)] xs_def w_def)
  have up: "(\<Sum>x\<leftarrow>xs. calc_reserve (w x) ?ratio) = (\<Sum>x\<leftarrow>xs. ?up x)"
    using assms(3,9) by (intro arg_cong[of _ _ sum_list] map_cong refl calc_reserve_exact) auto
  have "(\<Sum>x\<leftarrow>ys. w x) * ?ratio \<le> 10000 * (\<Sum>x\<leftarrow>ys. ?up x) \<and>
      10000 * (\<Sum>x\<leftarrow>ys. ?up x) \<le> (\<Sum>x\<leftarrow>ys. w x) * ?ratio + int (length ys) * 9999" for ys
  proof (induction ys)
    case (Cons y ys)
    have "w y * ?ratio \<le> 10000 * ?up y" "10000 * ?up y \<le> w y * ?ratio + 9999"
      using div_10000_round_up[of "w y * ?ratio"] by (simp_all add: TOTAL_BASIS_POINTS_def add.commute)
    with Cons.IH show ?case by (simp add: distrib_right distrib_left)
  qed simp
  with rs up show ?thesis by (simp add: TOTAL_BASIS_POINTS_def)
qed

section \<open>Paging\<close>

definition pages_of :: "vault_info list \<Rightarrow> int \<Rightarrow> int \<Rightarrow> vault_info list res" where
  "pages_of vs offset limit = Inr (take (nat limit) (drop (nat offset) vs))"

lemma page_vaults_rest:
  assumes "0 < page_size" "0 \<le> offset" "offset \<le> int (length vs) + page_size" "out = take (nat offset) vs"
  shows "page_vaults (pages_of vs) page_size (int (length vs)) offset out = Some (Inr vs)"
  using assms
proof (induction "nat (int (length vs) - offset)" arbitrary: offset out rule: less_induct)
  case less
  show ?case
  proof (cases "offset < int (length vs)")
    case True
    then have ne: "take (nat page_size) (drop (nat offset) vs) \<noteq> []" using less.prems by auto
    have "out @ take (nat page_size) (drop (nat offset) vs) = take (nat (offset + page_size)) vs"
      using less.prems by (simp add: nat_add_distrib take_add)
    moreover have "page_vaults (pages_of vs) page_size (int (length vs)) (offset + page_size)
        (take (nat (offset + page_size)) vs) = Some (Inr vs)"
      using less.prems True by (intro less.hyps) auto
    ultimately show ?thesis using True ne by (subst page_vaults.simps) (simp add: pages_of_def)
  next
    case False
    then show ?thesis using less.prems by (subst page_vaults.simps) simp
  qed
qed

text \<open>
  Paging ends and is complete: for every positive page size the loop returns all vaults the contract
  holds, each once and in the contract's order.
\<close>

theorem all_vaults_complete:
  assumes "0 < page_size"
  shows "get_all_vaults (Inr (int (length vs))) (pages_of vs) page_size = Some (Inr vs)"
  using page_vaults_rest[OF assms, of 0 vs "[]"] assms by (simp add: get_all_vaults_def)

section \<open>Two vaults\<close>

definition demo_vault :: "address \<Rightarrow> hexstr \<Rightarrow> vault_info" where
  "demo_vault a wc = \<lparr>vi_vault = a, vi_aggregated_balance = 7, vi_in_out_delta = 0, vi_withdrawal_credentials = wc,
     vi_liability_shares = 100, vi_max_liability_shares = 100, vi_mintable_st_eth = 10 ^ 18, vi_share_limit = 1000,
     vi_reserve_ratio_bp = 3000, vi_forced_rebalance_threshold_bp = 2900, vi_infra_fee_bp = 100,
     vi_liquidity_fee_bp = 400, vi_reservation_fee_bp = 0, vi_pending_disconnect = False\<rparr>"

definition demo_vault_validator :: "int \<Rightarrow> hexstr \<Rightarrow> hexstr \<Rightarrow> epoch \<Rightarrow> bool \<Rightarrow> validator" where
  "demo_vault_validator i pk wc eligible slashed = \<lparr>v_index = i, v_balance = 32000000001,
     v_validator = \<lparr>vs_pubkey = pk, vs_withdrawal_credentials = wc, vs_effective_balance = 32000000000,
       vs_slashed = slashed, vs_activation_eligibility_epoch = eligible, vs_activation_epoch = eligible,
       vs_exit_epoch = FAR_FUTURE_EPOCH, vs_withdrawable_epoch = 9000\<rparr>\<rparr>"

definition demo_vaults :: vaults_map where
  "demo_vaults = get_vaults [demo_vault ''A'' ''0x02a'', demo_vault ''B'' ''0x02b'']"

definition demo_vault_validators :: "validator list" where
  "demo_vault_validators =
     [demo_vault_validator 0 ''p0'' ''0x02a'' 5 True, demo_vault_validator 1 ''p1'' ''0x02b'' 5 False,
      demo_vault_validator 2 ''p2'' ''0x02a'' FAR_FUTURE_EPOCH False]"

definition demo_vault_deposits :: "pending_deposit list" where
  "demo_vault_deposits = map (\<lambda>(pk, amount). \<lparr>pd_pubkey = pk, pd_withdrawal_credentials = ''0x02a'', pd_amount = amount,
     pd_signature = ''s'', pd_slot = 0\<rparr>) [(''p0'', 5), (''q'', 10 ^ 9), (''q'', 10 ^ 9)]"

definition demo_status :: "hexstr \<Rightarrow> validator_status" where
  "demo_status pk = \<lparr>st_stage = PREDEPOSITED, st_staking_vault = ''A'', st_node_operator = ''N''\<rparr>"

definition demo_status_env :: status_env where
  "demo_status_env = \<lparr>se_canonical = Inr, se_batch_statuses = (\<lambda>batch. Inr (map (\<lambda>pk. (1, ''A'', ''N'')) batch)), se_batch_size = 2\<rparr>"

lemma demo_vaults_wf: "wf_vaults demo_vaults"
  unfolding demo_vaults_def by (rule get_vaults_wf) (simp_all add: demo_vault_def)

theorem all_vaults_complete_witness:
  "get_all_vaults (Inr 2) (pages_of [demo_vault ''A'' ''a'', demo_vault ''B'' ''b'']) 1 =
    Some (Inr [demo_vault ''A'' ''a'', demo_vault ''B'' ''b''])"
  using all_vaults_complete[of 1 "[demo_vault ''A'' ''a'', demo_vault ''B'' ''b'']"] by simp

theorem vault_total_value_exact_witness:
  "\<exists>totals. get_vaults_total_values demo_status_env demo_vaults demo_vault_validators demo_vault_deposits = Inr totals \<and>
    map_of totals ''A'' = Some (7 + 32000000006 * 10 ^ 9 + 10 ^ 18 + 10 ^ 18)"
proof -
  have "status_oracle demo_status_env demo_status K" for K
    by (simp add: status_oracle_def demo_status_env_def demo_status_def)
  from vault_total_value_exact[OF demo_vaults_wf this] obtain totals where
    t: "get_vaults_total_values demo_status_env demo_vaults demo_vault_validators demo_vault_deposits = Inr totals"
    "\<And>a v. map_of demo_vaults a = Some v \<Longrightarrow> map_of totals a = Some
      (vi_aggregated_balance v + (\<Sum>x\<leftarrow>filter (\<lambda>x. wc_of x = vi_withdrawal_credentials v) demo_vault_validators.
         contribution demo_status a demo_vault_deposits x) +
       int (card (predeposited_keys demo_status demo_vaults demo_vault_validators demo_vault_deposits a)) *
         gwei_to_wei MIN_DEPOSIT_AMOUNT)" by blast
  have a: "map_of demo_vaults ''A'' = Some (demo_vault ''A'' ''0x02a'')" by code_simp
  have "predeposited_keys demo_status demo_vaults demo_vault_validators demo_vault_deposits ''A'' = {''q''}" by code_simp
  moreover have "(\<Sum>x\<leftarrow>filter (\<lambda>x. wc_of x = vi_withdrawal_credentials (demo_vault ''A'' ''0x02a'')) demo_vault_validators.
      contribution demo_status ''A'' demo_vault_deposits x) = 32000000006 * 10 ^ 9 + 10 ^ 18" by code_simp
  ultimately show ?thesis
    using t(1) t(2)[OF a] by (simp add: demo_vault_def gwei_to_wei_def GWEI_TO_WEI_def MIN_DEPOSIT_AMOUNT_def)
qed

definition demo_vault_ref :: ref_blockstamp where
  "demo_vault_ref = \<lparr>bs_state_root = ''s'', bs_slot_number = 32000, bs_block_hash = ''h'', bs_block_number = 0,
     bs_block_timestamp = 0, bs_ref_slot = 32000, bs_ref_epoch = 1000\<rparr>"

definition demo_reserve_env :: reserve_env where
  "demo_reserve_env = \<lparr>re_left_shift = \<lambda>_. Inr 8192, re_right_shift = \<lambda>_. Inr 8192,
     re_validator_state = \<lambda>s i. Inr (demo_vault_validator i ''p0'' ''0x02a'' 5 True)\<rparr>"

theorem slashing_reserve_covers_witness:
  "\<exists>reserves. get_vaults_slashing_reserve demo_reserve_env demo_vault_ref demo_vaults demo_vault_validators mainnet_chain = Inr reserves \<and>
    al_get 0 reserves ''A'' = 9600000000300000000"
proof -
  let ?past = "\<lambda>s i. demo_vault_validator i ''p0'' ''0x02a'' 5 True"
  let ?v = "demo_vault ''A'' ''0x02a''"
  let ?xs = "filter (\<lambda>x. wc_of x = vi_withdrawal_credentials ?v) demo_vault_validators"
  let ?w = "reserved_balance ?past 8192 8192 (bs_ref_epoch demo_vault_ref) (slots_per_epoch mainnet_chain)"
  have a: "map_of demo_vaults ''A'' = Some ?v" by code_simp
  have b: "\<forall>x \<in> set ?xs. 0 \<le> ?w x \<and> ?w x * vi_reserve_ratio_bp ?v \<le> 10 ^ 27" by code_simp
  have ratio: "0 \<le> vi_reserve_ratio_bp ?v" by (simp add: demo_vault_def)
  have env: "re_left_shift demo_reserve_env (bs_block_hash demo_vault_ref) = Inr 8192"
    "re_right_shift demo_reserve_env (bs_block_hash demo_vault_ref) = Inr 8192"
    "re_validator_state demo_reserve_env = (\<lambda>s i. Inr (?past s i))"
    by (simp_all add: demo_reserve_env_def)
  have "(\<Sum>x\<leftarrow>?xs. (?w x * vi_reserve_ratio_bp ?v + TOTAL_BASIS_POINTS - 1) div TOTAL_BASIS_POINTS) = 9600000000300000000" by code_simp
  with slashing_reserve_covers[OF demo_vaults_wf a ratio env b] show ?thesis by auto
qed

end
