(* ===== verification/Effects.thy ===== *)
theory Effects
  imports Prelude
begin

text \<open>
  Effects of the modules that act on the outside world: an action takes the state of the process and
  returns a result with the state after it. An exception keeps the state reached when it was raised,
  so a transaction that was sent before a failure stays sent.
\<close>

type_synonym ('s, 'a) act = "'s \<Rightarrow> 'a res \<times> 's"

definition returnA :: "'a \<Rightarrow> ('s, 'a) act" where
  "returnA a s = (Inr a, s)"

definition liftA :: "'a res \<Rightarrow> ('s, 'a) act" where
  "liftA r s = (r, s)"

definition bindA :: "('s, 'a) act \<Rightarrow> ('a \<Rightarrow> ('s, 'b) act) \<Rightarrow> ('s, 'b) act" where
  "bindA m f s = (case m s of (Inl e, s') \<Rightarrow> (Inl e, s') | (Inr a, s') \<Rightarrow> f a s')"

definition catchA :: "('s, 'a) act \<Rightarrow> (pyerr \<Rightarrow> ('s, 'a) act) \<Rightarrow> ('s, 'a) act" where
  "catchA m h s = (case m s of (Inl e, s') \<Rightarrow> h e s' | (Inr a, s') \<Rightarrow> (Inr a, s'))"

definition finallyA :: "('s, 'a) act \<Rightarrow> ('s \<Rightarrow> 's) \<Rightarrow> ('s, 'a) act" where
  \<comment> \<open>\<open>try: m finally: f\<close> for a clean-up that does not raise\<close>
  "finallyA m f s = (case m s of (r, s') \<Rightarrow> (r, f s'))"

text \<open>How an action can have ended.\<close>

lemma bindA_cases:
  assumes "bindA m f s = (r, s')"
  obtains (error) e where "m s = (Inl e, s')" "r = Inl e"
  | (ok) a t where "m s = (Inr a, t)" "f a t = (r, s')"
  using assms unfolding bindA_def by (auto split: prod.splits sum.splits)

lemma liftA_eq [simp]: "liftA r s = (r', s') \<longleftrightarrow> r = r' \<and> s' = s"
  by (auto simp: liftA_def)

lemma returnA_eq [simp]: "returnA a s = (r', s') \<longleftrightarrow> r' = Inr a \<and> s' = s"
  by (auto simp: returnA_def)

lemma bindA_liftA [simp]: "bindA (liftA (Inr a)) f = f a"
  by (auto simp: bindA_def liftA_def)

end
