(* ===== verification/Bytes.thy ===== *)
theory Bytes
  imports Chain
begin

text \<open>
  Python's \<open>bytes\<close> as lists of integers below 256: \<open>int.to_bytes\<close> (big endian, of a fixed length,
  with its OverflowError), \<open>bytes.fromhex\<close> behind \<open>hex_str_to_bytes\<close> of \<open>src/utils/types.py\<close>, and
  the loop that concatenates encoded items. The locale \<open>fixed_codec\<close> is the contract of an encoder
  of fixed size: it is interpreted on big-endian numbers here and on the packed report items of the
  ejector in \<open>Data_Encode\<close>.
\<close>

type_synonym bytes = "int list"

section \<open>Big-endian integers\<close>

fun be :: "nat \<Rightarrow> int \<Rightarrow> bytes" where
  "be 0 n = []"
| "be (Suc k) n = be k (n div 256) @ [n mod 256]"

definition from_be :: "bytes \<Rightarrow> int" where
  "from_be bs = fold (\<lambda>b a. a * 256 + b) bs 0"

definition to_bytes :: "int \<Rightarrow> nat \<Rightarrow> bytes res" where
  "to_bytes n len = (if 0 \<le> n \<and> n < 256 ^ len then Inr (be len n) else Inl OverflowError)"

lemma length_be [simp]: "length (be k n) = k"
  by (induction k arbitrary: n) auto

lemma from_be_snoc: "from_be (bs @ [b]) = from_be bs * 256 + b"
  by (simp add: from_be_def)

lemma from_be_be: "0 \<le> n \<Longrightarrow> n < 256 ^ k \<Longrightarrow> from_be (be k n) = n"
proof (induction k arbitrary: n)
  case 0
  then show ?case by (simp add: from_be_def)
next
  case (Suc k)
  then have "0 \<le> n div 256" "n div 256 < 256 ^ k" by auto
  then show ?case using Suc.IH[of "n div 256"] by (simp add: from_be_snoc)
qed

lemma to_bytes_Inr [res_simps]: "to_bytes n len = Inr b \<longleftrightarrow> 0 \<le> n \<and> n < 256 ^ len \<and> b = be len n"
  by (auto simp: to_bytes_def)

section \<open>Hex strings\<close>

definition hex_digit :: "char \<Rightarrow> int res" where
  "hex_digit c =
     (let n = of_char c :: int in
      if 48 \<le> n \<and> n \<le> 57 then Inr (n - 48)
      else if 97 \<le> n \<and> n \<le> 102 then Inr (n - 87)
      else if 65 \<le> n \<and> n \<le> 70 then Inr (n - 55)
      else Inl ValueError)"

definition ascii_space :: "char \<Rightarrow> bool" where
  "ascii_space c = (let n = of_char c :: int in n = 32 \<or> (9 \<le> n \<and> n \<le> 13))"

text \<open>\<open>bytes.fromhex\<close> skips white space between the bytes.\<close>

fun fromhex :: "string \<Rightarrow> bytes res" where
  "fromhex [] = Inr []"
| "fromhex [c] = (if ascii_space c then Inr [] else Inl ValueError)"
| "fromhex (c # d # cs) =
     (if ascii_space c then fromhex (d # cs)
      else bindR (hex_digit c) (\<lambda>h. bindR (hex_digit d) (\<lambda>l.
             bindR (fromhex cs) (\<lambda>bs. Inr ((h * 16 + l) # bs)))))"

definition hex_str_to_bytes :: "hexstr \<Rightarrow> bytes res" where
  "hex_str_to_bytes s = (if take 2 s = ''0x'' then fromhex (drop 2 s) else fromhex s)"

lemma hex_digit_range: "hex_digit c = Inr h \<Longrightarrow> 0 \<le> h \<and> h < 16"
  by (auto simp: hex_digit_def Let_def split: if_splits)

lemma fromhex_range: "fromhex s = Inr bs \<Longrightarrow> \<forall>b \<in> set bs. 0 \<le> b \<and> b < 256"
proof (induction s arbitrary: bs rule: fromhex.induct)
  case (3 c d cs)
  show ?case
  proof (cases "ascii_space c")
    case True
    with 3 show ?thesis by simp
  next
    case False
    with 3(3) obtain h l cs' where "hex_digit c = Inr h" "hex_digit d = Inr l" "fromhex cs = Inr cs'"
      "bs = (h * 16 + l) # cs'"
      by (auto simp: res_simps)
    with 3(2)[OF False] hex_digit_range[of c h] hex_digit_range[of d l] show ?thesis by auto
  qed
qed (auto split: if_splits)

section \<open>Concatenating encoded items\<close>

text \<open>The loop \<open>result += encode(x)\<close>.\<close>

definition encode_all :: "('a \<Rightarrow> bytes res) \<Rightarrow> 'a list \<Rightarrow> bytes \<Rightarrow> bytes res" where
  "encode_all enc = foldR (\<lambda>x acc. bindR (enc x) (\<lambda>b. Inr (acc @ b)))"

lemma encode_all_acc: "encode_all enc xs acc = bindR (encode_all enc xs []) (\<lambda>b. Inr (acc @ b))"
proof (induction xs arbitrary: acc)
  case Nil
  then show ?case by (simp add: encode_all_def)
next
  case (Cons x xs)
  show ?case
  proof (cases "enc x")
    case (Inl e)
    then show ?thesis by (simp add: encode_all_def)
  next
    case (Inr b)
    have "encode_all enc xs (acc @ b) = bindR (encode_all enc xs b) (\<lambda>c. Inr (acc @ c))"
      unfolding Cons.IH[of "acc @ b"] Cons.IH[of b] by (simp add: bindR_assoc)
    with Inr show ?thesis by (simp add: encode_all_def)
  qed
qed

lemma encode_all_Cons:
  "encode_all enc (x # xs) [] = bindR (enc x) (\<lambda>b. bindR (encode_all enc xs []) (\<lambda>bs. Inr (b @ bs)))"
proof (cases "enc x")
  case (Inr b)
  then show ?thesis using encode_all_acc[of enc xs b] by (simp add: encode_all_def)
qed (simp add: encode_all_def)

lemma encode_all_ok_iff: "is_ok (encode_all enc xs []) \<longleftrightarrow> (\<forall>x \<in> set xs. is_ok (enc x))"
proof (induction xs)
  case Nil
  then show ?case by (simp add: encode_all_def)
next
  case (Cons x xs)
  then show ?case
    by (cases "enc x"; cases "encode_all enc xs []") (auto simp: encode_all_Cons)
qed

locale fixed_codec =
  fixes enc :: "'a \<Rightarrow> bytes res" and dec :: "bytes \<Rightarrow> 'b" and view :: "'a \<Rightarrow> 'b" and size :: nat
  assumes size_pos: "0 < size"
    and enc_length: "enc x = Inr b \<Longrightarrow> length b = size"
    and dec_enc: "enc x = Inr b \<Longrightarrow> dec b = view x"
begin

lemma items_length: "encode_all enc xs [] = Inr bs \<Longrightarrow> length bs = size * length xs"
proof (induction xs arbitrary: bs)
  case Nil
  then show ?case by (simp add: encode_all_def)
next
  case (Cons x xs)
  then show ?case by (auto simp: encode_all_Cons res_simps dest: enc_length)
qed

lemma items_roundtrip: "encode_all enc xs [] = Inr bs \<Longrightarrow> map dec (batched size bs) = map view xs"
proof (induction xs arbitrary: bs)
  case Nil
  then show ?case by (simp add: encode_all_def)
next
  case (Cons x xs)
  then obtain b cs where b: "enc x = Inr b" "encode_all enc xs [] = Inr cs" "bs = b @ cs"
    by (auto simp: encode_all_Cons res_simps)
  then have "batched size bs = b # batched size cs"
    using enc_length[OF b(1)] size_pos by (subst batched.simps) auto
  with Cons.IH[OF b(2)] dec_enc[OF b(1)] show ?case by simp
qed

lemma items_injective:
  assumes "encode_all enc xs [] = Inr bs" and "encode_all enc ys [] = Inr bs"
  shows "map view xs = map view ys"
  using items_roundtrip[OF assms(1)] items_roundtrip[OF assms(2)] by simp

end

interpretation uint64: fixed_codec "\<lambda>n. to_bytes n 8" from_be "\<lambda>n. n" 8
  by unfold_locales (auto simp: res_simps from_be_be)

interpretation uint128: fixed_codec "\<lambda>n. to_bytes n 16" from_be "\<lambda>n. n" 16
  by unfold_locales (auto simp: res_simps from_be_be)

end
