(* ===== verification/Ipfs.thy ===== *)
theory Ipfs
  imports Effects Bytes
begin

text \<open>
  \<open>src/web3py/extensions/ipfs.py\<close> and the provider interface of \<open>src/providers/ipfs/types.py\<close>: fetching
  with retries and fallback over the providers, publishing to all of them and agreeing on one CID.
  Providers are services: each is a record of functions whose first argument counts the calls made so
  far. Threads complete in an arbitrary order, \<open>ie_completion\<close>. CID parsing (\<open>multiformats\<close>) and the
  content address of \<open>src/utils/car.py\<close> are functions of the environment.
\<close>

type_synonym cid = string

record ipfs_provider =
  ip_class :: string
  ip_fetch :: "nat \<Rightarrow> cid \<Rightarrow> bytes res"
  ip_upload :: "nat \<Rightarrow> bytes \<Rightarrow> string res"
  ip_pin :: "nat \<Rightarrow> cid \<Rightarrow> unit res"

record ipfs_env =
  ie_providers :: "ipfs_provider list"
  ie_priority_providers :: "ipfs_provider list"
  ie_completion :: "nat list"
  ie_retries :: nat
  ie_validate_cid :: bool
  ie_normalize_cid :: "string \<Rightarrow> cid res"
  ie_content_cid :: "bytes \<Rightarrow> cid"

record ipfs_state =
  is_calls :: nat
  is_current_provider_index :: nat
  is_last_working_provider_index :: nat
  is_current_frame :: "int option"

section \<open>A provider\<close>

definition validate_cid :: "ipfs_env \<Rightarrow> cid \<Rightarrow> bytes \<Rightarrow> unit res" where
  "validate_cid env cid content = (if ie_content_cid env content \<noteq> cid then Inl CIDValidationError else Inr ())"

definition provider_fetch :: "ipfs_env \<Rightarrow> ipfs_provider \<Rightarrow> nat \<Rightarrow> cid \<Rightarrow> bytes res" where
  "provider_fetch env p t cid =
     bindR (ip_fetch p t cid) (\<lambda>content.
       if ie_validate_cid env
       then bindR (ie_normalize_cid env cid) (\<lambda>normalized_cid.
              bindR (validate_cid env normalized_cid content) (\<lambda>_. Inr content))
       else Inr content)"

definition provider_upload :: "ipfs_env \<Rightarrow> ipfs_provider \<Rightarrow> nat \<Rightarrow> bytes \<Rightarrow> cid res" where
  "provider_upload env p t content = bindR (ip_upload p t content) (ie_normalize_cid env)"

definition provider_publish :: "ipfs_env \<Rightarrow> ipfs_provider \<Rightarrow> bytes \<Rightarrow> (nat, cid) act" where
  "provider_publish env p content t =
     (bindR (provider_upload env p t content) (\<lambda>cid.
      bindR (if ie_validate_cid env then validate_cid env cid content else Inr ()) (\<lambda>_.
      bindR (ip_pin p t cid) (\<lambda>_. Inr cid))), Suc t)"

section \<open>Retries and fallback\<close>

fun retry :: "nat \<Rightarrow> ('s, 'a) act \<Rightarrow> ('s, 'a) act" where
  "retry 0 fn s = (Inl MaxRetryError, s)"
| "retry (Suc retries_left) fn s =
     (case fn s of
        (Inr a, s') \<Rightarrow> (Inr a, s')
      | (Inl e, s') \<Rightarrow>
          if \<not> is_ipfs_error e then (Inl e, s')
          else if retries_left = 0 then (Inl MaxRetryError, s')
          else retry retries_left fn s')"

definition set_provider_for_frame :: "ipfs_env \<Rightarrow> int \<Rightarrow> ipfs_state \<Rightarrow> ipfs_state" where
  "set_provider_for_frame env frame s =
     (if is_current_frame s \<noteq> Some frame
      then let i = nat (frame mod int (length (ie_providers env)))
        in s\<lparr>is_current_frame := Some frame, is_current_provider_index := i, is_last_working_provider_index := i\<rparr>
      else s)"

definition fetch_once :: "ipfs_env \<Rightarrow> cid \<Rightarrow> int \<Rightarrow> (ipfs_state, bytes) act" where
  "fetch_once env cid frame s =
     (let s = set_provider_for_frame env frame s
      in (provider_fetch env (ie_providers env ! is_current_provider_index s) (is_calls s) cid,
          s\<lparr>is_calls := Suc (is_calls s)\<rparr>))"

text \<open>The recursion of \<open>with_fallback\<close>; \<open>None\<close> would be a call that never returns.\<close>

partial_function (option) fetch :: "ipfs_env \<Rightarrow> cid \<Rightarrow> int \<Rightarrow> ipfs_state \<Rightarrow> (bytes res \<times> ipfs_state) option" where
  "fetch env cid frame s =
     (case retry (ie_retries env) (fetch_once env cid frame) s of
        (Inr content, s) \<Rightarrow> Some (Inr content, s\<lparr>is_last_working_provider_index := is_current_provider_index s\<rparr>)
      | (Inl e, s) \<Rightarrow>
          (let s = s\<lparr>is_current_provider_index := (is_current_provider_index s + 1) mod length (ie_providers env)\<rparr>
           in if is_last_working_provider_index s = is_current_provider_index s
              then Some (Inl NoMoreProvidersError, s)
              else fetch env cid frame s))"

declare fetch.simps [code]

section \<open>Publishing\<close>

text \<open>The counter is read in the order in which the CIDs were first seen, so the first hit is the same.\<close>

definition upload_to_provider :: "ipfs_env \<Rightarrow> ipfs_provider \<Rightarrow> bytes \<Rightarrow> cid res" where
  "upload_to_provider env p content = fst (retry (ie_retries env) (provider_publish env p content) 0)"

definition find_upload :: "(string \<times> cid) list \<Rightarrow> ipfs_provider \<Rightarrow> (string \<times> cid) option" where
  "find_upload uploads p = find (\<lambda>(cls, _). cls = ip_class p) uploads"

definition select_cid_with_quorum :: "ipfs_env \<Rightarrow> (string \<times> cid) list \<Rightarrow> cid res" where
  "select_cid_with_quorum env successful_uploads =
     (let cids = map snd successful_uploads;
          required_quorum = length successful_uploads div 2 + 1
      in case find (\<lambda>cid. count_list cids cid \<ge> required_quorum) cids of
           Some cid \<Rightarrow> Inr cid
         | None \<Rightarrow>
             (case find (\<lambda>p. find_upload successful_uploads p \<noteq> None) (ie_priority_providers env) of
                None \<Rightarrow> Inl ProviderConsistencyError
              | Some p \<Rightarrow> Inr (snd (the (find_upload successful_uploads p)))))"

definition publish :: "ipfs_env \<Rightarrow> bytes \<Rightarrow> cid res" where
  "publish env content =
     (let uploads = map (\<lambda>i. let p = ie_providers env ! i in (ip_class p, upload_to_provider env p content)) (ie_completion env);
          successful_uploads = concat (map (\<lambda>(cls, r). case r of Inl _ \<Rightarrow> [] | Inr cid \<Rightarrow> [(cls, cid)]) uploads)
      in if successful_uploads = [] then Inl NoMoreProvidersError
         else select_cid_with_quorum env successful_uploads)"

text \<open>What a caller sees of a fetch; a fetch that does not return would be cut off by the cycle's timeout.\<close>

definition ipfs_read :: "ipfs_env \<Rightarrow> ipfs_state \<Rightarrow> cid \<Rightarrow> frame \<Rightarrow> bytes res" where
  "ipfs_read env s cid frame = (case fetch env cid frame s of None \<Rightarrow> Inl TimeoutError | Some (r, _) \<Rightarrow> r)"

section \<open>A fetch ends and finds what a provider has\<close>

text \<open>
  Between calls the working provider is the current one, and both are indices of providers.
\<close>

definition wf_ipfs :: "ipfs_env \<Rightarrow> ipfs_state \<Rightarrow> bool" where
  "wf_ipfs env s \<longleftrightarrow> is_current_provider_index s < length (ie_providers env) \<and>
     is_last_working_provider_index s = is_current_provider_index s"

definition authentic :: "ipfs_env \<Rightarrow> cid \<Rightarrow> bytes \<Rightarrow> bool" where
  "authentic env cid content \<longleftrightarrow>
     (ie_validate_cid env \<longrightarrow> ie_normalize_cid env cid = Inr (ie_content_cid env content))"

lemma provider_fetch_authentic: "provider_fetch env p t cid = Inr c \<Longrightarrow> authentic env cid c"
  by (auto simp: provider_fetch_def authentic_def bindR_eq_Inr validate_cid_def split: if_splits)

text \<open>Retrying keeps the provider: only the number of calls changes within a frame.\<close>

lemma retry_fetch:
  assumes "retry k (fetch_once env cid frame) s = (r, s')" "is_current_frame s = Some frame"
  shows "(\<exists>n. s' = s\<lparr>is_calls := n\<rparr>) \<and> (\<forall>c. r = Inr c \<longrightarrow> authentic env cid c) \<and>
    (0 < k \<longrightarrow> (\<forall>t. \<exists>c. provider_fetch env (ie_providers env ! is_current_provider_index s) t cid = Inr c) \<longrightarrow> (\<exists>c. r = Inr c))"
  using assms
proof (induction k arbitrary: s)
  case (Suc k)
  have f: "fetch_once env cid frame s = (provider_fetch env (ie_providers env ! is_current_provider_index s) (is_calls s) cid,
      s\<lparr>is_calls := Suc (is_calls s)\<rparr>)"
    using Suc.prems(2) by (simp add: fetch_once_def set_provider_for_frame_def Let_def)
  show ?case
  proof (cases "provider_fetch env (ie_providers env ! is_current_provider_index s) (is_calls s) cid")
    case (Inr c)
    with Suc.prems(1) f provider_fetch_authentic[OF Inr] show ?thesis by auto
  next
    case (Inl e)
    show ?thesis
    proof (cases "is_ipfs_error e \<and> k \<noteq> 0")
      case True
      with Suc.prems(1) f Inl have "retry k (fetch_once env cid frame) (s\<lparr>is_calls := Suc (is_calls s)\<rparr>) = (r, s')" by simp
      from Suc.IH[OF this] Suc.prems(2) Inl show ?thesis by (auto dest: spec[of _ "is_calls s"])
    next
      case False
      with Suc.prems(1) f Inl show ?thesis by (fastforce split: if_splits)
    qed
  qed
qed (auto intro!: exI[of _ "is_calls s'"])

definition up :: "ipfs_env \<Rightarrow> cid \<Rightarrow> nat \<Rightarrow> bool" where
  \<comment> \<open>the provider answers every call for the content, and its answers pass the check\<close>
  "up env cid i \<longleftrightarrow> (\<forall>t. \<exists>c. provider_fetch env (ie_providers env ! i) t cid = Inr c)"

lemma next_index:
  fixes b j n :: nat
  assumes "b < n" "j < n"
  shows "((b + j) mod n + 1) mod n = (b + Suc j) mod n" "(b + Suc j) mod n = b \<longleftrightarrow> Suc j = n"
proof -
  show "((b + j) mod n + 1) mod n = (b + Suc j) mod n" by (simp add: mod_simps)
  show "(b + Suc j) mod n = b \<longleftrightarrow> Suc j = n"
    using assms by (cases "b + Suc j < n") (auto simp: mod_if not_less le_mod_geq)
qed

lemma fetch_from:
  fixes env
  defines "n \<equiv> length (ie_providers env)"
  assumes "0 < ie_retries env" "j < n" "is_current_frame s = Some frame" "is_last_working_provider_index s = b" "b < n"
    and "is_current_provider_index s = (b + j) mod n"
  shows "\<exists>r s'. fetch env cid frame s = Some (r, s') \<and> wf_ipfs env s' \<and> is_current_frame s' = Some frame \<and>
    (\<forall>c. r = Inr c \<longrightarrow> authentic env cid c) \<and>
    ((\<exists>i. j \<le> i \<and> i < n \<and> up env cid ((b + i) mod n)) \<longrightarrow> (\<exists>c. r = Inr c))"
  using assms(3-)
proof (induction "n - j" arbitrary: j s)
  case (Suc k)
  obtain r s1 where rt: "retry (ie_retries env) (fetch_once env cid frame) s = (r, s1)" by fastforce
  from retry_fetch[OF rt Suc.prems(2)] obtain m where s1: "s1 = s\<lparr>is_calls := m\<rparr>"
    and r: "\<forall>c. r = Inr c \<longrightarrow> authentic env cid c" "up env cid ((b + j) mod n) \<longrightarrow> (\<exists>c. r = Inr c)"
    using assms(2) Suc.prems(5) by (auto simp: up_def)
  show ?case
  proof (cases r)
    case (Inr c)
    then show ?thesis
      using rt r s1 Suc.prems by (subst fetch.simps) (auto simp: wf_ipfs_def n_def intro: mod_less_divisor)
  next
    case (Inl e)
    let ?s2 = "s1\<lparr>is_current_provider_index := (b + Suc j) mod n\<rparr>"
    have f: "fetch env cid frame s = (if b = (b + Suc j) mod n then Some (Inl NoMoreProvidersError, ?s2) else fetch env cid frame ?s2)"
      using rt Inl s1 Suc.prems next_index(1)[OF Suc.prems(4,1)] by (subst fetch.simps) (simp add: n_def Let_def)
    have down: "\<not> up env cid ((b + j) mod n)" using r(2) Inl by auto
    show ?thesis
    proof (cases "Suc j = n")
      case True
      then have "(b + Suc j) mod n = b" using next_index(2)[OF Suc.prems(4,1)] by simp
      moreover have "\<not> (\<exists>i. j \<le> i \<and> i < n \<and> up env cid ((b + i) mod n))"
        using True down by (metis Suc_leI le_antisym not_less_eq_eq nat_less_le)
      ultimately show ?thesis using f s1 Suc.prems by (auto simp: wf_ipfs_def n_def)
    next
      case False
      then have "Suc j < n" "(b + Suc j) mod n \<noteq> b" using Suc.prems(1) next_index(2)[OF Suc.prems(4,1)] by auto
      moreover have "(\<exists>i. j \<le> i \<and> i < n \<and> up env cid ((b + i) mod n)) \<longleftrightarrow> (\<exists>i. Suc j \<le> i \<and> i < n \<and> up env cid ((b + i) mod n))"
        using down by (metis Suc_leD Suc_leI le_neq_implies_less)
      moreover have "k = n - Suc j" using Suc.hyps(2) by simp
      ultimately show ?thesis
        using Suc.hyps(1)[of "Suc j" ?s2] f s1 Suc.prems by auto
    qed
  qed
qed simp

lemma fetch_set_provider: 
  assumes "0 < ie_retries env"
  shows "fetch env cid frame s = fetch env cid frame (set_provider_for_frame env frame s)"
proof -
  have "fetch_once env cid frame (set_provider_for_frame env frame s) = fetch_once env cid frame s"
    by (simp add: fetch_once_def set_provider_for_frame_def Let_def)
  then have "retry (ie_retries env) (fetch_once env cid frame) (set_provider_for_frame env frame s) =
      retry (ie_retries env) (fetch_once env cid frame) s"
    using assms by (cases "ie_retries env") simp_all
  then show ?thesis by (subst (1 2) fetch.simps) simp
qed

lemma fetch_complete:
  assumes "wf_ipfs env s" "0 < ie_retries env"
  shows "\<exists>r s'. fetch env cid frame s = Some (r, s') \<and> wf_ipfs env s' \<and> is_current_frame s' = Some frame \<and>
    (\<forall>c. r = Inr c \<longrightarrow> authentic env cid c) \<and>
    ((\<exists>i < length (ie_providers env). up env cid i) \<longrightarrow> (\<exists>c. r = Inr c))"
proof -
  let ?n = "length (ie_providers env)" and ?t = "set_provider_for_frame env frame s"
  have n: "0 < ?n" using assms(1) by (auto simp: wf_ipfs_def)
  define b where "b = is_current_provider_index ?t"
  have t: "is_current_frame ?t = Some frame" "is_last_working_provider_index ?t = b" "b < ?n"
    using assms(1) n by (auto simp: b_def wf_ipfs_def set_provider_for_frame_def Let_def nat_less_iff)
  have all: "(\<exists>i < ?n. up env cid ((b + i) mod ?n)) \<longleftrightarrow> (\<exists>i < ?n. up env cid i)"
  proof
    assume "\<exists>i < ?n. up env cid i"
    then obtain i where i: "i < ?n" "up env cid i" by blast
    have "(b + (i + ?n - b) mod ?n) mod ?n = i"
      using i(1) t(3) by (simp add: mod_add_right_eq)
    with i(2) n show "\<exists>i < ?n. up env cid ((b + i) mod ?n)"
      by (intro exI[of _ "(i + ?n - b) mod ?n"]) simp
  qed (use n in \<open>metis mod_less_divisor\<close>)
  show ?thesis
    using fetch_from[OF assms(2) n t, of cid] fetch_set_provider[OF assms(2), of cid frame s] t(3)
    by (simp add: b_def[symmetric] all)
qed


section \<open>Publishing selects one content\<close>

lemma count_majority_unique:
  assumes "length xs < 2 * count_list xs a" "length xs < 2 * count_list xs b"
  shows "a = b"
proof (rule ccontr)
  assume "a \<noteq> b"
  then have "count_list xs a + count_list xs b \<le> length xs" by (induction xs) auto
  with assms show False by linarith
qed

lemma find_upload_eq: "find_upload uploads p = map_option (Pair (ip_class p)) (map_of uploads (ip_class p))"
  unfolding find_upload_def by (induction uploads) auto

lemma find_upload_Some: "find_upload uploads p = Some u \<Longrightarrow> u \<in> set uploads"
  by (auto simp: find_upload_eq dest: map_of_SomeD)

lemma quorum_iff: "length xs div 2 + 1 \<le> count_list xs a \<longleftrightarrow> length xs < 2 * count_list xs a"
  by linarith

lemma find_majority:
  "find (\<lambda>cid. count_list xs cid \<ge> length xs div 2 + 1) xs = Some c \<longleftrightarrow> length xs < 2 * count_list xs c"
proof
  assume "find (\<lambda>cid. count_list xs cid \<ge> length xs div 2 + 1) xs = Some c"
  then show "length xs < 2 * count_list xs c" by (auto simp: find_Some_iff quorum_iff)
next
  assume c: "length xs < 2 * count_list xs c"
  then have "c \<in> set xs" by (metis count_notin mult_0_right not_less_zero)
  with c obtain c' where f: "find (\<lambda>cid. count_list xs cid \<ge> length xs div 2 + 1) xs = Some c'"
    by (cases "find (\<lambda>cid. count_list xs cid \<ge> length xs div 2 + 1) xs") (auto simp: find_None_iff quorum_iff)
  then have "length xs < 2 * count_list xs c'" by (auto simp: find_Some_iff quorum_iff)
  with c f count_majority_unique show "find (\<lambda>cid. count_list xs cid \<ge> length xs div 2 + 1) xs = Some c" by metis
qed

lemma select_permuted:
  assumes "mset ys = mset xs" "distinct (map fst xs)"
  shows "select_cid_with_quorum env ys = select_cid_with_quorum env xs"
proof -
  let ?f = "\<lambda>xs. find (\<lambda>cid. count_list xs cid \<ge> length xs div 2 + 1) xs"
  have m: "mset (map snd ys) = mset (map snd xs)" "mset (map fst ys) = mset (map fst xs)" using assms(1) by simp_all
  have "count_list (map snd ys) c = count_list (map snd xs) c" "length (map snd ys) = length (map snd xs)" for c
    using m(1) by (metis count_mset) (metis assms(1) length_map size_mset)
  then have "?f (map snd ys) = Some c \<longleftrightarrow> ?f (map snd xs) = Some c" for c unfolding find_majority by simp
  then have f: "?f (map snd ys) = ?f (map snd xs)" by (metis option.exhaust)
  have "distinct (map fst ys)" using assms(2) m(2) by (metis mset_eq_imp_distinct_iff)
  with assms have "map_of ys = map_of xs" by (metis map_of_inject_set mset_eq_setD)
  then show ?thesis
    using f assms(1) unfolding select_cid_with_quorum_def Let_def find_upload_eq by (metis length_map size_mset)
qed

text \<open>
  Oracles that see the same uploads agree on the CID: a CID that more than half of the successful
  uploads returned is selected, in whatever order the uploads completed; the selected CID is one that was
  uploaded; and when every upload came from a prioritised provider the selection never fails.
\<close>

theorem quorum_selects:
  assumes "uploads \<noteq> []" "\<forall>(cls, _) \<in> set uploads. \<exists>p \<in> set (ie_priority_providers env). ip_class p = cls"
  shows "\<exists>cid. select_cid_with_quorum env uploads = Inr cid \<and> cid \<in> snd ` set uploads \<and>
    (\<forall>c. length uploads < 2 * count_list (map snd uploads) c \<longrightarrow> cid = c) \<and>
    (\<forall>uploads'. mset uploads' = mset uploads \<longrightarrow> distinct (map fst uploads) \<longrightarrow>
      select_cid_with_quorum env uploads' = Inr cid)"
proof -
  let ?xs = "map snd uploads"
  let ?f = "find (\<lambda>cid. count_list ?xs cid \<ge> length ?xs div 2 + 1) ?xs"
  have "\<exists>cid. select_cid_with_quorum env uploads = Inr cid \<and> cid \<in> snd ` set uploads \<and>
    (\<forall>c. length uploads < 2 * count_list ?xs c \<longrightarrow> cid = c)"
  proof (cases ?f)
    case (Some c)
    then have "c \<in> set ?xs" by (auto simp: find_Some_iff)
    moreover have "\<forall>c'. length ?xs < 2 * count_list ?xs c' \<longrightarrow> c = c'" using Some find_majority[of ?xs] by auto
    ultimately show ?thesis using Some by (auto simp: select_cid_with_quorum_def Let_def)
  next
    case None
    then have none: "\<not> length ?xs < 2 * count_list ?xs c" for c using find_majority[of ?xs c] by simp
    from assms obtain cls c p where "(cls, c) \<in> set uploads" "p \<in> set (ie_priority_providers env)" "ip_class p = cls"
      by (cases uploads) auto
    then have "ip_class p \<in> fst ` set uploads" by force
    then have "find_upload uploads p \<noteq> None" by (simp add: find_upload_eq map_of_eq_None_iff)
    with \<open>p \<in> _\<close> obtain q where q: "find (\<lambda>p. find_upload uploads p \<noteq> None) (ie_priority_providers env) = Some q"
      by (cases "find (\<lambda>p. find_upload uploads p \<noteq> None) (ie_priority_providers env)") (auto simp: find_None_iff)
    then obtain u where u: "find_upload uploads q = Some u" by (auto simp: find_Some_iff)
    then have "u \<in> set uploads" by (rule find_upload_Some)
    then show ?thesis using None q u none by (auto simp: select_cid_with_quorum_def Let_def)
  qed
  then show ?thesis using select_permuted by metis
qed

section \<open>A content addressed store\<close>

text \<open>
  What a client of IPFS relies on: what is fetched under the CID that publishing a content returned is
  that content.
\<close>

locale content_store =
  fixes valid :: "'e \<Rightarrow> bool" and put :: "'e \<Rightarrow> bytes \<Rightarrow> cid \<Rightarrow> bool" and get :: "'e \<Rightarrow> cid \<Rightarrow> bytes \<Rightarrow> bool"
  assumes get_put: "valid e \<Longrightarrow> put e content cid \<Longrightarrow> get e cid content' \<Longrightarrow> content' = content"
begin

lemma get_unique: "valid e \<Longrightarrow> put e content cid \<Longrightarrow> put e content' cid \<Longrightarrow> get e cid c \<Longrightarrow> content = content'"
  using get_put by metis

text \<open>A document stored in an encoding that decodes is read back.\<close>

lemma document_restored:
  assumes "valid e" "put e (encode doc) cid" "get e cid content" "decode (encode doc) = Inr doc"
  shows "decode content = Inr doc"
  using get_put[OF assms(1-3)] assms(4) by simp

end

text \<open>
  The IPFS module is one when it validates: content addresses are collision free and a content address
  is its own normal form.
\<close>

definition validating :: "ipfs_env \<Rightarrow> bool" where
  "validating env \<longleftrightarrow> ie_validate_cid env \<and> inj (ie_content_cid env) \<and>
     (\<forall>content. ie_normalize_cid env (ie_content_cid env content) = Inr (ie_content_cid env content))"

definition published :: "ipfs_env \<Rightarrow> bytes \<Rightarrow> cid \<Rightarrow> bool" where
  "published env content cid \<longleftrightarrow> publish env content = Inr cid"

definition fetched :: "ipfs_env \<Rightarrow> cid \<Rightarrow> bytes \<Rightarrow> bool" where
  "fetched env cid content \<longleftrightarrow> (\<exists>frame s s'. wf_ipfs env s \<and> 0 < ie_retries env \<and> fetch env cid frame s = Some (Inr content, s'))"

lemma retry_publish:
  assumes "fst (retry k (provider_publish env p content) t) = Inr cid" "ie_validate_cid env"
  shows "ie_content_cid env content = cid"
  using assms(1)
proof (induction k arbitrary: t)
  case (Suc k)
  then show ?case
    using assms(2) by (cases "provider_publish env p content t")
      (auto simp: provider_publish_def bindR_eq_Inr validate_cid_def split: sum.splits if_splits)
qed simp

lemma select_in:
  assumes "select_cid_with_quorum env uploads = Inr cid"
  shows "cid \<in> snd ` set uploads"
proof (cases "find (\<lambda>cid. count_list (map snd uploads) cid \<ge> length uploads div 2 + 1) (map snd uploads)")
  case (Some c)
  with assms have "cid = c" by (simp add: select_cid_with_quorum_def Let_def)
  moreover from Some have "c \<in> set (map snd uploads)" by (auto simp: find_Some_iff)
  ultimately show ?thesis by simp
next
  case None
  with assms obtain q where "find (\<lambda>p. find_upload uploads p \<noteq> None) (ie_priority_providers env) = Some q"
    and cid: "cid = snd (the (find_upload uploads q))"
    by (auto simp: select_cid_with_quorum_def Let_def split: option.splits)
  then obtain u where "find_upload uploads q = Some u" by (auto simp: find_Some_iff)
  with cid find_upload_Some[of uploads q u] show ?thesis by simp
qed

lemma publish_address:
  assumes "publish env content = Inr cid" "ie_validate_cid env"
  shows "cid = ie_content_cid env content"
proof -
  from assms(1) obtain cls p where "(cls, upload_to_provider env p content) = (cls, Inr cid)"
    by (auto simp: publish_def Let_def split: if_splits sum.splits dest!: select_in)
  then show ?thesis using retry_publish[of "ie_retries env" env p content 0 cid] assms(2) by (simp add: upload_to_provider_def)
qed

lemma fetch_once_authentic:
  assumes "fetch env cid frame s = Some (Inr c, s')" "wf_ipfs env s" "0 < ie_retries env"
  shows "authentic env cid c"
proof -
  let ?n = "length (ie_providers env)" and ?t = "set_provider_for_frame env frame s"
  have n: "0 < ?n" using assms(2) by (auto simp: wf_ipfs_def)
  have t: "is_current_frame ?t = Some frame" "is_last_working_provider_index ?t < ?n"
    "is_current_provider_index ?t = (is_last_working_provider_index ?t + 0) mod ?n"
    using assms(2) n by (auto simp: wf_ipfs_def set_provider_for_frame_def Let_def nat_less_iff)
  from fetch_from[OF assms(3) n t(1) refl t(2,3), of cid] obtain r s2 where
    "fetch env cid frame ?t = Some (r, s2)" "\<forall>c. r = Inr c \<longrightarrow> authentic env cid c" by (elim exE conjE) (rule that)
  then show ?thesis
    using fetch_set_provider[OF assms(3), of cid frame s] assms(1) by auto
qed

interpretation ipfs: content_store validating published fetched
proof
  fix env content cid content'
  assume v: "validating env" and p: "published env content cid" and f: "fetched env cid content'"
  have "cid = ie_content_cid env content"
    using publish_address v p by (simp add: validating_def published_def)
  moreover have "authentic env cid content'"
    using f fetch_once_authentic by (auto simp: fetched_def)
  ultimately show "content' = content"
    using v by (auto simp: authentic_def validating_def dest: injD)
qed

text \<open>A document that was published is what a later read returns, if the read succeeds.\<close>

lemma published_document:
  assumes "validating env" "publish env (encode doc) = Inr cid" "ipfs_read env s cid frame = Inr content"
    and "wf_ipfs env s" "0 < ie_retries env" "decode (encode doc) = Inr doc"
  shows "decode content = Inr doc"
proof -
  have "fetched env cid content"
    using assms(3-5) by (auto simp: fetched_def ipfs_read_def split: option.splits)
  then show ?thesis
    using ipfs.document_restored[of env encode doc cid content decode] assms(1,2,6) by (simp add: published_def)
qed

section \<open>Two providers\<close>

text \<open>The first one is down, the second one has every content under the CID made of its bytes.\<close>

definition demo_provider :: "bool \<Rightarrow> string \<Rightarrow> ipfs_provider" where
  "demo_provider works cls = \<lparr>ip_class = cls,
     ip_fetch = (\<lambda>t cid. if works then Inr (map of_char cid) else Inl FetchError),
     ip_upload = (\<lambda>t content. if works then Inr (map char_of content) else Inl UploadError), ip_pin = (\<lambda>_ _. Inr ())\<rparr>"

definition demo_ipfs :: ipfs_env where
  "demo_ipfs = \<lparr>ie_providers = [demo_provider False ''K'', demo_provider True ''P''],
     ie_priority_providers = [demo_provider True ''P'', demo_provider False ''K''], ie_completion = [1, 0], ie_retries = 3,
     ie_validate_cid = True, ie_normalize_cid = Inr, ie_content_cid = map char_of\<rparr>"


theorem quorum_selects_witness:
  "select_cid_with_quorum (demo_ipfs\<lparr>ie_priority_providers := [demo_provider True ''A'', demo_provider True ''B'', demo_provider True ''C'']\<rparr>)
     [(''C'', ''x''), (''A'', ''y''), (''B'', ''x'')] = Inr ''x''"
proof -
  let ?e = "demo_ipfs\<lparr>ie_priority_providers := [demo_provider True ''A'', demo_provider True ''B'', demo_provider True ''C'']\<rparr>"
  let ?u = "[(''C'', ''x''), (''A'', ''y''), (''B'', ''x'')]"
  have m: "length ?u < 2 * count_list (map snd ?u) ''x''" by simp
  have "\<forall>(cls, _) \<in> set ?u. \<exists>p \<in> set (ie_priority_providers ?e). ip_class p = cls" by (simp add: demo_provider_def)
  with quorum_selects[of ?u ?e] obtain cid where "select_cid_with_quorum ?e ?u = Inr cid"
    "\<forall>c. length ?u < 2 * count_list (map snd ?u) c \<longrightarrow> cid = c" by blast
  with m show ?thesis by blast
qed

end
