(* ===== verification/Json.thy ===== *)
theory Json
  imports Bytes
begin

text \<open>
  JSON values as the code sees them after \<open>json.loads\<close> and before \<open>json.dumps\<close> (the text form belongs to
  the standard library and is a parameter of its users), with Python's operations on them: subscripts,
  iteration and \<open>int(x)\<close>. A \<open>JObj\<close> is a dict: insertion ordered, each key once. Numbers with a fraction
  do not occur in the documents the code reads. \<open>to_0x_hex\<close> is the hex form of \<open>HexBytes\<close>.
\<close>

datatype json = JNull | JBool bool | JInt int | JStr string | JList "json list" | JObj "(string \<times> json) list"

section \<open>Hexadecimal text\<close>

definition hex_char :: "int \<Rightarrow> char" where
  "hex_char d = ''0123456789abcdef'' ! nat d"

definition to_0x_hex :: "bytes \<Rightarrow> string" where
  "to_0x_hex bs = ''0x'' @ concat (map (\<lambda>b. [hex_char (b div 16), hex_char (b mod 16)]) bs)"

lemma hex_char_digit:
  assumes "0 \<le> d" "d < 16"
  shows "hex_digit (hex_char d) = Inr d \<and> \<not> ascii_space (hex_char d)"
proof -
  have "d \<in> set [0..15]" using assms by simp
  moreover have "list_all (\<lambda>d. hex_digit (hex_char d) = Inr d \<and> \<not> ascii_space (hex_char d)) [0..15]" by code_simp
  ultimately show ?thesis by (auto simp: list_all_iff)
qed

lemma fromhex_hex:
  "\<forall>b \<in> set bs. 0 \<le> b \<and> b < 256 \<Longrightarrow>
     fromhex (concat (map (\<lambda>b. [hex_char (b div 16), hex_char (b mod 16)]) bs)) = Inr bs"
proof (induction bs)
  case (Cons b bs)
  then have "0 \<le> b div 16 \<and> b div 16 < 16" by auto
  then have "hex_digit (hex_char (b div 16)) = Inr (b div 16)" "hex_digit (hex_char (b mod 16)) = Inr (b mod 16)"
    "\<not> ascii_space (hex_char (b div 16))"
    using hex_char_digit[of "b div 16"] hex_char_digit[of "b mod 16"] by auto
  with Cons show ?case by simp
qed simp

lemma hex_str_roundtrip: "\<forall>b \<in> set bs. 0 \<le> b \<and> b < 256 \<Longrightarrow> hex_str_to_bytes (to_0x_hex bs) = Inr bs"
  by (simp add: hex_str_to_bytes_def to_0x_hex_def fromhex_hex)

section \<open>Decimal text\<close>

definition digit_char :: "int \<Rightarrow> char" where
  "digit_char d = ''0123456789'' ! nat d"

function str_of_pos :: "int \<Rightarrow> string" where
  "str_of_pos n = (if n < 10 then [digit_char n] else str_of_pos (n div 10) @ [digit_char (n mod 10)])"
  by pat_completeness auto
termination by (relation "measure nat") auto

declare str_of_pos.simps [simp del]

definition str_of_int :: "int \<Rightarrow> string" where
  \<comment> \<open>\<open>str(n)\<close>\<close>
  "str_of_int n = (if n < 0 then CHR ''-'' # str_of_pos (- n) else str_of_pos n)"

definition digit_value :: "char \<Rightarrow> int option" where
  "digit_value c = (let k = of_char c in if 48 \<le> k \<and> k < (58 :: int) then Some (k - 48) else None)"

fun read_digits :: "int \<Rightarrow> string \<Rightarrow> int res" where
  \<comment> \<open>single underscores are allowed between digits\<close>
  "read_digits acc [] = Inl ValueError"
| "read_digits acc (c # cs) =
     (case digit_value c of
        None \<Rightarrow> Inl ValueError
      | Some d \<Rightarrow>
          (case cs of
             [] \<Rightarrow> Inr (acc * 10 + d)
           | c' # cs' \<Rightarrow> if c' = CHR ''_'' then read_digits (acc * 10 + d) cs' else read_digits (acc * 10 + d) cs))"

definition int_of_str :: "string \<Rightarrow> int res" where
  \<comment> \<open>\<open>int(s)\<close> for ASCII text\<close>
  "int_of_str s =
     (case rev (dropWhile ascii_space (rev (dropWhile ascii_space s))) of
        [] \<Rightarrow> Inl ValueError
      | c # cs \<Rightarrow>
          if c = CHR ''-'' then bindR (read_digits 0 cs) (\<lambda>n. Inr (- n))
          else if c = CHR ''+'' then read_digits 0 cs
          else read_digits 0 (c # cs))"

lemma digit_char_value:
  assumes "0 \<le> d" "d < 10"
  shows "digit_value (digit_char d) = Some d \<and> \<not> ascii_space (digit_char d) \<and> digit_char d \<noteq> CHR ''-'' \<and>
    digit_char d \<noteq> CHR ''+'' \<and> digit_char d \<noteq> CHR ''_''"
proof -
  have "d \<in> set [0..9]" using assms by simp
  moreover have "list_all (\<lambda>d. digit_value (digit_char d) = Some d \<and> \<not> ascii_space (digit_char d) \<and>
      digit_char d \<noteq> CHR ''-'' \<and> digit_char d \<noteq> CHR ''+'' \<and> digit_char d \<noteq> CHR ''_'') [0..9]" by code_simp
  ultimately show ?thesis by (auto simp: list_all_iff)
qed

definition plain_digits :: "string \<Rightarrow> bool" where
  "plain_digits s \<longleftrightarrow> s \<noteq> [] \<and> (\<forall>c \<in> set s. \<exists>d. 0 \<le> d \<and> d < 10 \<and> c = digit_char d)"

definition digits_value :: "int \<Rightarrow> string \<Rightarrow> int" where
  "digits_value acc s = foldl (\<lambda>a c. a * 10 + the (digit_value c)) acc s"

lemma read_plain: "plain_digits s \<Longrightarrow> read_digits acc s = Inr (digits_value acc s)"
proof (induction s arbitrary: acc)
  case (Cons c s)
  then obtain d where d: "0 \<le> d" "d < 10" "c = digit_char d" by (auto simp: plain_digits_def)
  show ?case
  proof (cases s)
    case Nil
    then show ?thesis using d digit_char_value[of d] by (simp add: digits_value_def)
  next
    case (Cons c' s')
    with Cons.prems obtain e where "0 \<le> e" "e < 10" "c' = digit_char e" by (auto simp: plain_digits_def)
    with Cons Cons.IH[of "acc * 10 + d"] Cons.prems d digit_char_value[of d] digit_char_value[of e] show ?thesis
      by (simp add: digits_value_def plain_digits_def)
  qed
qed (simp add: plain_digits_def)

lemma str_of_pos_value: "0 \<le> n \<Longrightarrow> plain_digits (str_of_pos n) \<and> digits_value 0 (str_of_pos n) = n"
proof (induction n rule: str_of_pos.induct)
  case (1 n)
  show ?case
  proof (cases "n < 10")
    case True
    with 1 digit_char_value[of n] show ?thesis
      by (subst (1 2) str_of_pos.simps) (auto simp: plain_digits_def digits_value_def)
  next
    case False
    with 1 have IH: "plain_digits (str_of_pos (n div 10))" "digits_value 0 (str_of_pos (n div 10)) = n div 10" by auto
    have m: "0 \<le> n mod 10" "n mod 10 < 10" by simp_all
    then have "plain_digits (str_of_pos (n div 10) @ [digit_char (n mod 10)])"
      using IH(1) exI[of "\<lambda>d. 0 \<le> d \<and> d < 10 \<and> digit_char (n mod 10) = digit_char d" "n mod 10"]
      unfolding plain_digits_def by auto
    moreover have "digits_value 0 (str_of_pos (n div 10) @ [digit_char (n mod 10)]) = n"
      using IH(2) digit_char_value[OF m] by (simp add: digits_value_def)
    ultimately show ?thesis using False by (subst (1 2) str_of_pos.simps) simp
  qed
qed

lemma plain_no_space: "plain_digits s \<Longrightarrow> \<forall>c \<in> set s. \<not> ascii_space c"
  using digit_char_value by (auto simp: plain_digits_def)

lemma strip_id: "\<forall>c \<in> set s. \<not> ascii_space c \<Longrightarrow> rev (dropWhile ascii_space (rev (dropWhile ascii_space s))) = s"
proof -
  have d: "dropWhile ascii_space t = t" if "\<forall>c \<in> set t. \<not> ascii_space c" for t using that by (cases t) auto
  show "\<forall>c \<in> set s. \<not> ascii_space c \<Longrightarrow> ?thesis" using d[of s] d[of "rev s"] by simp
qed

lemma int_of_str_of_int [simp]: "int_of_str (str_of_int n) = Inr n"
proof (cases "n < 0")
  case True
  then have s: "plain_digits (str_of_pos (- n))" "digits_value 0 (str_of_pos (- n)) = - n"
    using str_of_pos_value[of "- n"] by auto
  have "\<not> ascii_space (CHR ''-'')" by code_simp
  then have "rev (dropWhile ascii_space (rev (dropWhile ascii_space (CHR ''-'' # str_of_pos (- n))))) = CHR ''-'' # str_of_pos (- n)"
    using plain_no_space[OF s(1)] by (intro strip_id) simp
  with True s read_plain[OF s(1)] show ?thesis unfolding int_of_str_def str_of_int_def by simp
next
  case False
  then have s: "plain_digits (str_of_pos n)" "digits_value 0 (str_of_pos n) = n" using str_of_pos_value[of n] by auto
  then obtain c cs d where c: "str_of_pos n = c # cs" "c = digit_char d" "0 \<le> d" "d < 10"
    by (cases "str_of_pos n") (auto simp: plain_digits_def)
  with False s strip_id[OF plain_no_space[OF s(1)]] read_plain[OF s(1)] digit_char_value[of d] show ?thesis
    unfolding int_of_str_def str_of_int_def by simp
qed

section \<open>Operations on values\<close>

fun json_get :: "json \<Rightarrow> string \<Rightarrow> json res" where
  \<comment> \<open>\<open>x[key]\<close> with a string\<close>
  "json_get (JObj kvs) k = lookupR kvs k"
| "json_get _ _ = Inl TypeError"

fun json_nth :: "json \<Rightarrow> int \<Rightarrow> json res" where
  \<comment> \<open>\<open>x[i]\<close> with an integer\<close>
  "json_nth (JList xs) i = nthR xs i"
| "json_nth (JStr s) i = bindR (nthR s i) (\<lambda>c. Inr (JStr [c]))"
| "json_nth (JObj _) _ = Inl KeyError"
| "json_nth _ _ = Inl TypeError"

fun json_iter :: "json \<Rightarrow> json list res" where
  "json_iter (JList xs) = Inr xs"
| "json_iter (JStr s) = Inr (map (\<lambda>c. JStr [c]) s)"
| "json_iter (JObj kvs) = Inr (map (\<lambda>(k, _). JStr k) kvs)"
| "json_iter _ = Inl TypeError"

fun json_items :: "json \<Rightarrow> (string \<times> json) list res" where
  \<comment> \<open>\<open>x.items()\<close>\<close>
  "json_items (JObj kvs) = Inr kvs"
| "json_items _ = Inl AttributeError"

fun json_to_int :: "json \<Rightarrow> int res" where
  \<comment> \<open>\<open>int(x)\<close>\<close>
  "json_to_int (JInt n) = Inr n"
| "json_to_int (JBool b) = Inr (of_bool b)"
| "json_to_int (JStr s) = int_of_str s"
| "json_to_int _ = Inl TypeError"

section \<open>A text form\<close>

text \<open>
  One text form for which decoding undoes encoding, to instantiate the parameters of the users: a tag, then
  the length, then the parts.
\<close>

fun demo_ser :: "json \<Rightarrow> bytes" where
  "demo_ser JNull = [0]"
| "demo_ser (JBool b) = [1, of_bool b]"
| "demo_ser (JInt n) = [2, n]"
| "demo_ser (JStr s) = 3 # int (length s) # map of_char s"
| "demo_ser (JList js) = 4 # int (length js) # concat (map demo_ser js)"
| "demo_ser (JObj kvs) = 5 # int (length kvs) # concat (map (\<lambda>(k, j). int (length k) # map of_char k @ demo_ser j) kvs)"

fun demo_des :: "nat \<Rightarrow> bytes \<Rightarrow> (json \<times> bytes) res"
  and demo_des_list :: "nat \<Rightarrow> nat \<Rightarrow> bytes \<Rightarrow> (json list \<times> bytes) res"
  and demo_des_pairs :: "nat \<Rightarrow> nat \<Rightarrow> bytes \<Rightarrow> ((string \<times> json) list \<times> bytes) res" where
  "demo_des (Suc fuel) (t # n # xs) =
     (if t = 0 then Inr (JNull, n # xs)
      else if t = 1 then Inr (JBool (n \<noteq> 0), xs)
      else if t = 2 then Inr (JInt n, xs)
      else if t = 3 then Inr (JStr (map char_of (take (nat n) xs)), drop (nat n) xs)
      else if t = 4 then bindR (demo_des_list fuel (nat n) xs) (\<lambda>(js, xs). Inr (JList js, xs))
      else if t = 5 then bindR (demo_des_pairs fuel (nat n) xs) (\<lambda>(kvs, xs). Inr (JObj kvs, xs))
      else Inl ValueError)"
| "demo_des fuel xs = (if xs = [0] \<and> 0 < fuel then Inr (JNull, []) else Inl ValueError)"
| "demo_des_list fuel 0 xs = Inr ([], xs)"
| "demo_des_list (Suc fuel) (Suc k) xs =
     bindR (demo_des fuel xs) (\<lambda>(j, xs). bindR (demo_des_list fuel k xs) (\<lambda>(js, xs). Inr (j # js, xs)))"
| "demo_des_list 0 (Suc k) xs = Inl ValueError"
| "demo_des_pairs fuel 0 xs = Inr ([], xs)"
| "demo_des_pairs (Suc fuel) (Suc k) (n # xs) =
     bindR (demo_des fuel (drop (nat n) xs)) (\<lambda>(j, ys).
       bindR (demo_des_pairs fuel k ys) (\<lambda>(kvs, ys). Inr ((map char_of (take (nat n) xs), j) # kvs, ys)))"
| "demo_des_pairs fuel (Suc k) xs = Inl ValueError"

definition demo_parse :: "bytes \<Rightarrow> json res" where
  "demo_parse bs = bindR (demo_des (length bs) bs) (\<lambda>(j, rest). if rest = [] then Inr j else Inl ValueError)"

lemma demo_ser_length: "1 \<le> length (demo_ser j)"
  by (cases j) auto

lemma demo_des_list_ser:
  assumes "\<And>k f rest. k \<in> set ks \<Longrightarrow> length (demo_ser k) \<le> f \<Longrightarrow> demo_des f (demo_ser k @ rest) = Inr (k, rest)"
    and "length (concat (map demo_ser ks)) < f"
  shows "demo_des_list f (length ks) (concat (map demo_ser ks) @ rest) = Inr (ks, rest)"
  using assms
proof (induction ks arbitrary: f)
  case (Cons k ks)
  from Cons.prems obtain g where f: "f = Suc g" by (cases f) auto
  have "demo_des g (demo_ser k @ concat (map demo_ser ks) @ rest) = Inr (k, concat (map demo_ser ks) @ rest)"
    using Cons.prems(2) f by (intro Cons.prems(1)) auto
  moreover have "demo_des_list g (length ks) (concat (map demo_ser ks) @ rest) = Inr (ks, rest)"
    using Cons.prems f demo_ser_length[of k] by (intro Cons.IH) auto
  ultimately show ?case by (simp add: f)
qed simp

lemma demo_des_pairs_ser:
  fixes ks :: "(string \<times> json) list"
  defines "ser \<equiv> \<lambda>(k :: string, j). int (length k) # map of_char k @ demo_ser j"
  assumes "\<And>k j f rest. (k, j) \<in> set ks \<Longrightarrow> length (demo_ser j) \<le> f \<Longrightarrow> demo_des f (demo_ser j @ rest) = Inr (j, rest)"
    and "length (concat (map ser ks)) < f"
  shows "demo_des_pairs f (length ks) (concat (map ser ks) @ rest) = Inr (ks, rest)"
  using assms(2,3)
proof (induction ks arbitrary: f)
  case (Cons kj ks)
  obtain k j where kj: "kj = (k, j)" by (cases kj)
  from Cons.prems obtain g where f: "f = Suc g" by (cases f) auto
  have "demo_des g (demo_ser j @ concat (map ser ks) @ rest) = Inr (j, concat (map ser ks) @ rest)"
    using Cons.prems(2) f kj by (intro Cons.prems(1)[of k]) (auto simp: ser_def)
  moreover have "demo_des_pairs g (length ks) (concat (map ser ks) @ rest) = Inr (ks, rest)"
    using Cons.prems f by (intro Cons.IH) (auto simp: ser_def kj)
  ultimately show ?case by (simp add: f kj ser_def comp_def)
qed simp

lemma demo_des_ser: "length (demo_ser j) \<le> fuel \<Longrightarrow> demo_des fuel (demo_ser j @ rest) = Inr (j, rest)"
proof (induction j arbitrary: fuel rest)
  case JNull
  then show ?case by (cases fuel; cases rest) auto
next
  case (JList js)
  from JList.prems obtain g where "fuel = Suc g" by (cases fuel) auto
  with demo_des_list_ser[of js g rest] JList show ?case by simp
next
  case (JObj kvs)
  from JObj.prems obtain g where g: "fuel = Suc g" by (cases fuel) auto
  have "demo_des f (demo_ser j @ rest) = Inr (j, rest)" if "(k, j) \<in> set kvs" "length (demo_ser j) \<le> f" for k j f rest
    using that by (intro JObj.IH[of "(k, j)"]) auto
  with demo_des_pairs_ser[of kvs g rest] JObj.prems g show ?case by simp
qed (auto elim: Suc_le_D[THEN exE] simp: Suc_le_D comp_def)

lemma demo_parse_ser: "demo_parse (demo_ser j) = Inr j"
  using demo_des_ser[of j "length (demo_ser j)" "[]"] by (simp add: demo_parse_def)

text \<open>An injective text of bytes, to instantiate content addresses.\<close>

definition demo_cid :: "bytes \<Rightarrow> string" where
  "demo_cid bs = concat (map (\<lambda>b. str_of_int b @ '','') bs)"

lemma takeWhile_comma: "takeWhile (\<lambda>c. c \<noteq> CHR '','') (str_of_int b @ CHR '','' # rest) = str_of_int b"
proof -
  have "\<forall>c \<in> set (str_of_int b). c \<noteq> CHR '',''"
  proof -
    have "list_all (\<lambda>d. digit_char d \<noteq> CHR '','') [0..9]" by code_simp
    then have d: "digit_char d \<noteq> CHR '',''" if "0 \<le> d" "d < 10" for d using that by (auto simp: list_all_iff)
    have "CHR '','' \<notin> set t" if "plain_digits t" for t
      using that d unfolding plain_digits_def by metis
    then show ?thesis
      using str_of_pos_value[of b] str_of_pos_value[of "- b"] by (auto simp: str_of_int_def split: if_splits)
  qed
  then show ?thesis by (simp add: takeWhile_append2)
qed

lemma demo_cid_inj: "inj demo_cid"
proof (rule injI)
  fix bs cs assume "demo_cid bs = demo_cid cs"
  then show "bs = cs"
  proof (induction bs arbitrary: cs)
    case Nil
    then show ?case by (cases cs) (auto simp: demo_cid_def)
  next
    case (Cons b bs)
    then obtain c cs' where cs: "cs = c # cs'" by (cases cs) (auto simp: demo_cid_def)
    have e: "str_of_int b @ CHR '','' # demo_cid bs = str_of_int c @ CHR '','' # demo_cid cs'"
      using Cons.prems by (simp add: demo_cid_def cs)
    then have "str_of_int b = str_of_int c" by (metis takeWhile_comma)
    then have "b = c" using int_of_str_of_int by (metis sum.inject(2))
    with e Cons.IH[of cs'] cs show ?case by simp
  qed
qed

end
