(* ===== verification/Vault_Report.thy ===== *)
theory Vault_Report
  imports Vault_Values Ipfs Json
begin

text \<open>
  The report of the staking vaults as a document: \<open>src/services/staking_vaults.py\<close> builds, publishes and
  reads it back, \<open>src/modules/oracles/accounting/types.py\<close> parses it. \<open>oz_merkle_tree\<close> is the record
  \<open>merkle_lib\<close>; a tree is the list of its leaves. The text form of JSON and IPFS are parameters.
\<close>

section \<open>Libraries\<close>

record merkle_lib =
  ml_FORMAT :: string
  ml_values :: "vault_tree_node list \<Rightarrow> (vault_tree_node \<times> int) list"
  ml_dump :: "vault_tree_node list \<Rightarrow> (string \<times> json) list"
  ml_root :: "vault_tree_node list \<Rightarrow> bytes"

record report_env =
  rp_merkle :: merkle_lib
  rp_ipfs :: ipfs_env
  rp_ipfs_state :: ipfs_state
  rp_dumps :: "json \<Rightarrow> bytes"
  rp_loads :: "bytes \<Rightarrow> json res"

definition get_merkle_tree :: "vault_tree_node list \<Rightarrow> vault_tree_node list" where
  "get_merkle_tree data = data"

section \<open>Names of fields\<close>

definition capitalize :: "string \<Rightarrow> string" where
  "capitalize s =
     (let code = (\<lambda>c. of_char c :: int);
          upper = (\<lambda>c. if 97 \<le> code c \<and> code c \<le> 122 then char_of (code c - 32) else c);
          lower = (\<lambda>c. if 65 \<le> code c \<and> code c \<le> 90 then char_of (code c + 32) else c)
      in case s of [] \<Rightarrow> [] | c # cs \<Rightarrow> upper c # map lower cs)"

fun split_on :: "char \<Rightarrow> string \<Rightarrow> string list" where
  "split_on d [] = [[]]"
| "split_on d (c # cs) =
     (if c = d then [] # split_on d cs
      else case split_on d cs of [] \<Rightarrow> [[c]] | p # ps \<Rightarrow> (c # p) # ps)"

definition snake_to_camel :: "string \<Rightarrow> string" where
  "snake_to_camel s = (let parts = split_on (CHR ''_'') s in hd parts @ concat (map capitalize (tl parts)))"

record extra_value =
  xv_in_out_delta :: json
  xv_prev_fee :: json
  xv_infra_fee :: json
  xv_liquidity_fee :: json
  xv_reservation_fee :: json

definition to_camel_dict :: "extra_value \<Rightarrow> (string \<times> json) list" where
  "to_camel_dict x =
     map (\<lambda>(k, v). (snake_to_camel k, v))
       [(''in_out_delta'', xv_in_out_delta x), (''prev_fee'', xv_prev_fee x), (''infra_fee'', xv_infra_fee x),
        (''liquidity_fee'', xv_liquidity_fee x), (''reservation_fee'', xv_reservation_fee x)]"

section \<open>Leaves\<close>

record merkle_value =
  mv_vault_address :: address
  mv_total_value_wei :: wei
  mv_fee :: int
  mv_liability_shares :: int
  mv_max_liability_shares :: int
  mv_slashing_reserve :: int

definition leaf_index_to_data :: "(string \<times> int) list" where
  "leaf_index_to_data =
     [(''vaultAddress'', 0), (''totalValueWei'', 1), (''fee'', 2), (''liabilityShares'', 3),
      (''maxLiabilityShares'', 4), (''slashingReserve'', 5)]"

definition get_tree_value_ind :: "string \<Rightarrow> int res" where
  "get_tree_value_ind key = lookupR leaf_index_to_data key"

definition stringify_value :: "vault_tree_node \<times> int \<Rightarrow> json" where
  "stringify_value item =
     (case item of ((address, total_value, fee, liability, max_liability, reserve), tree_index) \<Rightarrow>
        JObj [(''value'', JList (JStr address #
                 map (\<lambda>x. JStr (str_of_int x)) [total_value, fee, liability, max_liability, reserve])),
              (''treeIndex'', JInt tree_index)])"

section \<open>Writing the report\<close>

definition extra_value_of :: "(address \<times> vault_fee) list \<Rightarrow> address \<Rightarrow> vault_info \<Rightarrow> extra_value res" where
  "extra_value_of fee_map address vault =
     bindR (lookupR fee_map address) (\<lambda>f.
       Inr \<lparr>xv_in_out_delta = JStr (str_of_int (vi_in_out_delta vault)), xv_prev_fee = JStr (str_of_int (vf_prev_fee f)),
            xv_infra_fee = JStr (str_of_int (vf_infra_fee f)), xv_liquidity_fee = JStr (str_of_int (vf_liquidity_fee f)),
            xv_reservation_fee = JStr (str_of_int (vf_reservation_fee f))\<rparr>)"

definition get_dumped_tree ::
    "merkle_lib \<Rightarrow> vault_tree_node list \<Rightarrow> vaults_map \<Rightarrow> ref_blockstamp \<Rightarrow> string \<Rightarrow> chain_config \<Rightarrow>
     (address \<times> vault_fee) list \<Rightarrow> (string \<times> json) list res" where
  "get_dumped_tree lib tree vaults bs prev_tree_cid c fee_map =
     bindR (foldR (\<lambda>(address, vault) extra.
              bindR (extra_value_of fee_map address vault) (\<lambda>x.
                Inr (AList.update address (JObj (to_camel_dict x)) extra))) vaults []) (\<lambda>extra_values.
       let output = fold (\<lambda>(k, v) d. AList.update k v d)
             [(''refSlot'', JInt (bs_ref_slot bs)), (''blockHash'', JStr (bs_block_hash bs)),
              (''blockNumber'', JInt (bs_block_number bs)),
              (''timestamp'', JInt (genesis_time c + bs_slot_number bs * seconds_per_slot c)),
              (''extraValues'', JObj extra_values), (''prevTreeCID'', JStr prev_tree_cid),
              (''leafIndexToData'', JObj (map (\<lambda>(k, i). (k, JInt i)) leaf_index_to_data))]
             (ml_dump lib tree)
       in Inr (AList.update ''values'' (JList (map stringify_value (ml_values lib tree))) output))"

definition publish_tree ::
    "report_env \<Rightarrow> vault_tree_node list \<Rightarrow> vaults_map \<Rightarrow> ref_blockstamp \<Rightarrow> string \<Rightarrow> chain_config \<Rightarrow>
     (address \<times> vault_fee) list \<Rightarrow> cid res" where
  "publish_tree env tree vaults bs prev_tree_cid c fee_map =
     bindR (get_dumped_tree (rp_merkle env) tree vaults bs prev_tree_cid c fee_map) (\<lambda>output.
       publish (rp_ipfs env) (rp_dumps env (JObj output)))"

section \<open>Reading a report\<close>

record ipfs_report =
  ir_format :: json
  ir_leaf_encoding :: json
  ir_tree :: json
  ir_values :: "merkle_value list"
  ir_ref_slot :: json
  ir_block_number :: json
  ir_block_hash :: json
  ir_timestamp :: json
  ir_prev_tree_cid :: json
  ir_extra_values :: "(string \<times> extra_value) list"

text \<open>
  A vault address that is no string passes the parser, but the tree cannot be rebuilt with it; the model
  refuses it here, before the validation that follows every parse.
\<close>

fun json_address :: "json \<Rightarrow> address res" where
  "json_address (JStr a) = Inr a"
| "json_address _ = Inl TypeError"

definition parse_leaf :: "json \<Rightarrow> merkle_value res" where
  "parse_leaf entry =
     (let field = (\<lambda>key. bindR (get_tree_value_ind key) (\<lambda>i. bindR (json_get entry ''value'') (\<lambda>v. json_nth v i)));
          number = (\<lambda>key. bindR (field key) json_to_int)
      in bindR (bindR (field ''vaultAddress'') json_address) (\<lambda>address.
         bindR (number ''totalValueWei'') (\<lambda>total_value.
         bindR (number ''fee'') (\<lambda>fee.
         bindR (number ''liabilityShares'') (\<lambda>liability.
         bindR (number ''maxLiabilityShares'') (\<lambda>max_liability.
         bindR (number ''slashingReserve'') (\<lambda>reserve.
           Inr \<lparr>mv_vault_address = address, mv_total_value_wei = total_value, mv_fee = fee,
                mv_liability_shares = liability, mv_max_liability_shares = max_liability,
                mv_slashing_reserve = reserve\<rparr>)))))))"

definition parse_extra_value :: "json \<Rightarrow> extra_value res" where
  "parse_extra_value val =
     bindR (json_get val ''inOutDelta'') (\<lambda>in_out_delta.
     bindR (json_get val ''prevFee'') (\<lambda>prev_fee.
     bindR (json_get val ''infraFee'') (\<lambda>infra_fee.
     bindR (json_get val ''liquidityFee'') (\<lambda>liquidity_fee.
     bindR (json_get val ''reservationFee'') (\<lambda>reservation_fee.
       Inr \<lparr>xv_in_out_delta = in_out_delta, xv_prev_fee = prev_fee, xv_infra_fee = infra_fee,
            xv_liquidity_fee = liquidity_fee, xv_reservation_fee = reservation_fee\<rparr>)))))"

definition parse_merkle_tree_data :: "report_env \<Rightarrow> bytes \<Rightarrow> ipfs_report res" where
  "parse_merkle_tree_data env raw_bytes =
     bindR (rp_loads env raw_bytes) (\<lambda>data.
     bindR (json_get data ''format'') (\<lambda>fmt.
     if fmt \<noteq> JStr (ml_FORMAT (rp_merkle env)) then Inl ValueError
     else
       bindR (bindR (json_get data ''values'') json_iter) (\<lambda>entries.
       bindR (mapR parse_leaf entries) (\<lambda>leaves.
       bindR (json_items (case json_get data ''extraValues'' of Inl _ \<Rightarrow> JObj [] | Inr x \<Rightarrow> x)) (\<lambda>extra.
       bindR (foldR (\<lambda>(address, val) d. bindR (parse_extra_value val) (\<lambda>x. Inr (AList.update address x d))) extra []) (\<lambda>extra_values.
       bindR (json_get data ''leafEncoding'') (\<lambda>leaf_encoding.
       bindR (json_get data ''tree'') (\<lambda>tree.
       bindR (json_get data ''refSlot'') (\<lambda>ref_slot.
       bindR (json_get data ''blockHash'') (\<lambda>block_hash.
       bindR (json_get data ''blockNumber'') (\<lambda>block_number.
       bindR (json_get data ''timestamp'') (\<lambda>timestamp.
       bindR (json_get data ''prevTreeCID'') (\<lambda>prev_tree_cid.
         Inr \<lparr>ir_format = fmt, ir_leaf_encoding = leaf_encoding, ir_tree = tree, ir_values = leaves, ir_ref_slot = ref_slot,
              ir_block_number = block_number, ir_block_hash = block_hash, ir_timestamp = timestamp,
              ir_prev_tree_cid = prev_tree_cid, ir_extra_values = extra_values\<rparr>)))))))))))))"

definition get_vault_report :: "report_env \<Rightarrow> cid \<Rightarrow> frame \<Rightarrow> ipfs_report res" where
  "get_vault_report env tree_cid current_frame =
     bindR (ipfs_read (rp_ipfs env) (rp_ipfs_state env) tree_cid current_frame) (parse_merkle_tree_data env)"

definition get_ipfs_report :: "report_env \<Rightarrow> string \<Rightarrow> frame \<Rightarrow> ipfs_report res" where
  "get_ipfs_report env ipfs_report_cid current_frame =
     (if ipfs_report_cid = [] then Inl ValueError else get_vault_report env ipfs_report_cid current_frame)"

definition tree_node_of :: "merkle_value \<Rightarrow> vault_tree_node" where
  "tree_node_of v = (mv_vault_address v, mv_total_value_wei v, mv_fee v, mv_liability_shares v,
     mv_max_liability_shares v, mv_slashing_reserve v)"

definition is_tree_root_valid :: "report_env \<Rightarrow> string \<Rightarrow> ipfs_report \<Rightarrow> bool res" where
  "is_tree_root_valid env expected_tree_root report =
     (let rebuild_merkle_tree = get_merkle_tree (map tree_node_of (ir_values report));
          root_hex = to_0x_hex (ml_root (rp_merkle env) rebuild_merkle_tree)
      in bindR (json_nth (ir_tree report) 0) (\<lambda>root. Inr (root = JStr root_hex \<and> root_hex = expected_tree_root)))"

record onchain_report =
  oc_timestamp :: int
  oc_ref_slot :: slot
  oc_tree_root :: bytes
  oc_report_cid :: string

definition get_prev_vault_ipfs_report :: "report_env \<Rightarrow> onchain_report \<Rightarrow> frame \<Rightarrow> ipfs_report option res" where
  "get_prev_vault_ipfs_report env latest current_frame =
     (if oc_report_cid latest = [] then Inr None
      else bindR (get_ipfs_report env (oc_report_cid latest) current_frame) (\<lambda>report.
           bindR (is_tree_root_valid env (to_0x_hex (oc_tree_root latest)) report) (\<lambda>valid.
           if \<not> valid then Inl ValueError else Inr (Some report))))"

definition build_prev_report_maps :: "ipfs_report option \<Rightarrow> (address \<times> int) list \<times> (address \<times> int) list" where
  "build_prev_report_maps report =
     (case report of
        None \<Rightarrow> ([], [])
      | Some r \<Rightarrow> fold (\<lambda>v (fees, shares).
          (AList.update (mv_vault_address v) (mv_fee v) fees,
           AList.update (mv_vault_address v) (mv_liability_shares v) shares)) (ir_values r) ([], []))"

section \<open>What is written is read back\<close>

lemma to_camel_dict_eq:
  "to_camel_dict x = [(''inOutDelta'', xv_in_out_delta x), (''prevFee'', xv_prev_fee x), (''infraFee'', xv_infra_fee x),
     (''liquidityFee'', xv_liquidity_fee x), (''reservationFee'', xv_reservation_fee x)]"
proof -
  have "map snake_to_camel [''in_out_delta'', ''prev_fee'', ''infra_fee'', ''liquidity_fee'', ''reservation_fee''] =
      [''inOutDelta'', ''prevFee'', ''infraFee'', ''liquidityFee'', ''reservationFee'']" by code_simp
  then show ?thesis by (simp add: to_camel_dict_def)
qed

lemma parse_extra_value_dict [simp]: "parse_extra_value (JObj (to_camel_dict x)) = Inr x"
  by (simp add: parse_extra_value_def to_camel_dict_eq lookupR_def)

definition value_of_node :: "vault_tree_node \<Rightarrow> merkle_value" where
  "value_of_node n = (case n of (address, total_value, fee, liability, max_liability, reserve) \<Rightarrow>
     \<lparr>mv_vault_address = address, mv_total_value_wei = total_value, mv_fee = fee, mv_liability_shares = liability,
      mv_max_liability_shares = max_liability, mv_slashing_reserve = reserve\<rparr>)"

lemma tree_node_of_value [simp]: "tree_node_of (value_of_node n) = n"
  by (cases n) (simp add: value_of_node_def tree_node_of_def)

lemma parse_stringified [simp]: "parse_leaf (stringify_value (n, i)) = Inr (value_of_node n)"
  by (cases n)
    (simp add: parse_leaf_def stringify_value_def value_of_node_def get_tree_value_ind_def leaf_index_to_data_def
      lookupR_def nthR_def Let_def)

text \<open>
  The documented behaviour of the Merkle tree package: a tree keeps its values in the order given, and its
  dump names the format, the leaf encoding and the nodes, the root first.
\<close>

definition documented :: "merkle_lib \<Rightarrow> bool" where
  "documented lib \<longleftrightarrow> (\<forall>data. map fst (ml_values lib data) = data \<and>
     map_of (ml_dump lib data) ''format'' = Some (JStr (ml_FORMAT lib)) \<and>
     (\<exists>enc. map_of (ml_dump lib data) ''leafEncoding'' = Some enc) \<and>
     (\<exists>nodes. map_of (ml_dump lib data) ''tree'' = Some (JList (JStr (to_0x_hex (ml_root lib data)) # nodes))))"

lemma parse_extra_values:
  assumes "\<forall>(k, j) \<in> set extra. \<exists>x. j = JObj (to_camel_dict x)"
  shows "\<exists>d'. foldR (\<lambda>(address, val) d. bindR (parse_extra_value val) (\<lambda>x. Inr (AList.update address x d))) extra d = Inr d'"
  using assms by (induction extra arbitrary: d) auto

lemma extra_values_shape:
  assumes "foldR (\<lambda>(address, vault) extra.
              bindR (extra_value_of fee_map address vault) (\<lambda>x.
                Inr (AList.update address (JObj (to_camel_dict x)) extra))) vaults [] = Inr extra"
  shows "\<forall>(k, j) \<in> set extra. \<exists>x. j = JObj (to_camel_dict x)"
  by (rule foldR_invariant[OF assms]) (auto simp: res_simps dest!: set_update_subset[THEN subsetD])

lemma dumped_tree_parses:
  assumes "documented (rp_merkle env)" "get_dumped_tree (rp_merkle env) tree vaults bs prev c fee_map = Inr out"
    and "rp_loads env raw = Inr (JObj out)"
  shows "\<exists>report nodes. parse_merkle_tree_data env raw = Inr report \<and> ir_values report = map value_of_node tree \<and>
    ir_tree report = JList (JStr (to_0x_hex (ml_root (rp_merkle env) tree)) # nodes)"
proof -
  let ?lib = "rp_merkle env"
  from assms(2) obtain extra where
    ex: "foldR (\<lambda>(address, vault) extra.
              bindR (extra_value_of fee_map address vault) (\<lambda>x.
                Inr (AList.update address (JObj (to_camel_dict x)) extra))) vaults [] = Inr extra"
    and out: "out = AList.update ''values'' (JList (map stringify_value (ml_values ?lib tree)))
        (fold (\<lambda>(k, v) d. AList.update k v d)
             [(''refSlot'', JInt (bs_ref_slot bs)), (''blockHash'', JStr (bs_block_hash bs)),
              (''blockNumber'', JInt (bs_block_number bs)),
              (''timestamp'', JInt (genesis_time c + bs_slot_number bs * seconds_per_slot c)),
              (''extraValues'', JObj extra), (''prevTreeCID'', JStr prev),
              (''leafIndexToData'', JObj (map (\<lambda>(k, i). (k, JInt i)) leaf_index_to_data))]
             (ml_dump ?lib tree))"
    by (auto simp: get_dumped_tree_def res_simps Let_def)
  from assms(1) obtain enc nodes where lib: "map fst (ml_values ?lib tree) = tree"
    "map_of (ml_dump ?lib tree) ''format'' = Some (JStr (ml_FORMAT ?lib))"
    "map_of (ml_dump ?lib tree) ''leafEncoding'' = Some enc"
    "map_of (ml_dump ?lib tree) ''tree'' = Some (JList (JStr (to_0x_hex (ml_root ?lib tree)) # nodes))"
    unfolding documented_def by blast
  have keys: "map_of out ''format'' = Some (JStr (ml_FORMAT ?lib))" "map_of out ''leafEncoding'' = Some enc"
    "map_of out ''tree'' = Some (JList (JStr (to_0x_hex (ml_root ?lib tree)) # nodes))"
    "map_of out ''values'' = Some (JList (map stringify_value (ml_values ?lib tree)))"
    "map_of out ''extraValues'' = Some (JObj extra)" "map_of out ''refSlot'' = Some (JInt (bs_ref_slot bs))"
    "map_of out ''blockHash'' = Some (JStr (bs_block_hash bs))" "map_of out ''blockNumber'' = Some (JInt (bs_block_number bs))"
    "map_of out ''timestamp'' = Some (JInt (genesis_time c + bs_slot_number bs * seconds_per_slot c))"
    "map_of out ''prevTreeCID'' = Some (JStr prev)"
    by (simp_all add: out lib(2-4) map_of_update_iff)
  have leaves: "mapR parse_leaf (map stringify_value vs) = Inr (map (value_of_node \<circ> fst) vs)" for vs
    by (induction vs) auto
  obtain xs where "foldR (\<lambda>(address, val) d. bindR (parse_extra_value val) (\<lambda>x. Inr (AList.update address x d))) extra [] = Inr xs"
    using parse_extra_values[OF extra_values_shape[OF ex]] by blast
  then show ?thesis
    using leaves[of "ml_values ?lib tree"] lib(1)
    by (simp add: parse_merkle_tree_data_def assms(3) lookupR_def keys flip: map_map)
qed

lemma prev_maps_table:
  assumes "distinct (map mv_vault_address vs)"
  shows "fold (\<lambda>v (fees, shares).
          (AList.update (mv_vault_address v) (mv_fee v) fees,
           AList.update (mv_vault_address v) (mv_liability_shares v) shares)) vs ([], []) =
    (map (\<lambda>v. (mv_vault_address v, mv_fee v)) vs, map (\<lambda>v. (mv_vault_address v, mv_liability_shares v)) vs)"
proof -
  have "fold (\<lambda>v (fees, shares).
          (AList.update (mv_vault_address v) (mv_fee v) fees,
           AList.update (mv_vault_address v) (mv_liability_shares v) shares)) vs (a, b) =
    (fold (\<lambda>v m. AList.update (mv_vault_address v) (mv_fee v) m) vs a,
     fold (\<lambda>v m. AList.update (mv_vault_address v) (mv_liability_shares v) m) vs b)" for a b
    by (induction vs arbitrary: a b) auto
  then show ?thesis using assms by (simp add: fold_update_append)
qed

lemma tree_data_columns:
  assumes "build_tree_data vaults tvs fees reserves = Inr tree" "distinct (map fst vaults)"
  shows "map fst tree = map fst vaults \<and>
    (\<forall>a. map_of (map (\<lambda>n. (fst n, fst (snd (snd n)))) tree) a =
       (case map_of vaults a of None \<Rightarrow> None | Some v \<Rightarrow> map_option fee_total (map_of fees a))) \<and>
    (\<forall>a. map_of (map (\<lambda>n. (fst n, fst (snd (snd (snd n))))) tree) a = map_option vi_liability_shares (map_of vaults a))"
  using assms
proof (induction vaults arbitrary: tree)
  case (Cons av vaults)
  obtain a v where av: "av = (a, v)" by (cases av)
  from Cons.prems(1) av obtain tv f t where *: "map_of tvs a = Some tv" "map_of fees a = Some f"
    "build_tree_data vaults tvs fees reserves = Inr t"
    "tree = (a, tv, fee_total f, vi_liability_shares v, vi_max_liability_shares v, al_get 0 reserves a) # t"
    by (auto simp: build_tree_data_def res_simps split: option.splits)
  from Cons.IH[OF *(3)] Cons.prems(2) have "map fst t = map fst vaults"
    "\<forall>a. map_of (map (\<lambda>n. (fst n, fst (snd (snd n)))) t) a =
       (case map_of vaults a of None \<Rightarrow> None | Some v \<Rightarrow> map_option fee_total (map_of fees a))"
    "\<forall>a. map_of (map (\<lambda>n. (fst n, fst (snd (snd (snd n))))) t) a = map_option vi_liability_shares (map_of vaults a)"
    by simp_all
  with * av show ?case by simp
qed (simp add: build_tree_data_def)

text \<open>
  C27. The next report starts where this one ended: whatever the report publishes is read back by the next
  one, passes its validation against the root on chain, and gives for every vault of this report exactly the
  fee total and the liability shares of this report, and nothing for any other address.
\<close>

theorem vault_report_restored:
  assumes "validating (rp_ipfs env)" "documented (rp_merkle env)" "\<forall>j. rp_loads env (rp_dumps env j) = Inr j"
    and "build_tree_data vaults tvs fees reserves = Inr tree" "distinct (map fst vaults)"
    and "publish_tree env (get_merkle_tree tree) vaults bs prev c fees = Inr cid" "cid \<noteq> []"
    and "wf_ipfs (rp_ipfs env) (rp_ipfs_state env)" "0 < ie_retries (rp_ipfs env)"
    and "ipfs_read (rp_ipfs env) (rp_ipfs_state env) cid frame = Inr content"
    and "oc_tree_root latest = ml_root (rp_merkle env) (get_merkle_tree tree)" "oc_report_cid latest = cid"
  shows "\<exists>report prev_fee prev_shares. get_prev_vault_ipfs_report env latest frame = Inr (Some report) \<and>
    build_prev_report_maps (Some report) = (prev_fee, prev_shares) \<and>
    (\<forall>a. map_of prev_fee a = (case map_of vaults a of None \<Rightarrow> None | Some _ \<Rightarrow> map_option fee_total (map_of fees a))) \<and>
    (\<forall>a. map_of prev_shares a = map_option vi_liability_shares (map_of vaults a))"
proof -
  from assms(6) obtain out where out: "get_dumped_tree (rp_merkle env) tree vaults bs prev c fees = Inr out"
    "publish (rp_ipfs env) (rp_dumps env (JObj out)) = Inr cid"
    by (auto simp: publish_tree_def get_merkle_tree_def res_simps)
  have "rp_loads env content = Inr (JObj out)"
    using published_document[of "rp_ipfs env" "rp_dumps env" "JObj out" cid "rp_ipfs_state env" frame content "rp_loads env"]
      assms out(2) by simp
  from dumped_tree_parses[OF assms(2) out(1) this] obtain report nodes where
    report: "parse_merkle_tree_data env content = Inr report" "ir_values report = map value_of_node tree"
      "ir_tree report = JList (JStr (to_0x_hex (ml_root (rp_merkle env) tree)) # nodes)" by blast
  have nodes: "map tree_node_of (ir_values report) = tree" by (simp add: report(2) comp_def)
  have "is_tree_root_valid env (to_0x_hex (oc_tree_root latest)) report = Inr True"
    using assms(11) nodes report(3) by (simp add: is_tree_root_valid_def Let_def get_merkle_tree_def nthR_def)
  then have read: "get_prev_vault_ipfs_report env latest frame = Inr (Some report)"
    using assms(7,10,12) report(1) by (simp add: get_prev_vault_ipfs_report_def get_ipfs_report_def get_vault_report_def)
  note cols = tree_data_columns[OF assms(4,5)]
  have sel: "mv_vault_address (value_of_node n) = fst n" "mv_fee (value_of_node n) = fst (snd (snd n))"
    "mv_liability_shares (value_of_node n) = fst (snd (snd (snd n)))" for n
    by (cases n; simp add: value_of_node_def)+
  have "build_prev_report_maps (Some report) =
      (map (\<lambda>n. (fst n, fst (snd (snd n)))) tree, map (\<lambda>n. (fst n, fst (snd (snd (snd n))))) tree)"
    using cols assms(5) by (simp add: build_prev_report_maps_def report(2) prev_maps_table comp_def sel)
  with read cols show ?thesis by auto
qed

section \<open>A report of one vault\<close>

definition demo_merkle :: merkle_lib where
  "demo_merkle = \<lparr>ml_FORMAT = ''standard-v1'', ml_values = (\<lambda>data. map (\<lambda>n. (n, 0)) data),
     ml_dump = (\<lambda>data. [(''format'', JStr ''standard-v1''), (''leafEncoding'', JList [JStr ''address'']),
       (''tree'', JList [JStr (to_0x_hex [int (length data)])]), (''values'', JNull)]),
     ml_root = (\<lambda>data. [int (length data)])\<rparr>"

lemma demo_merkle_documented: "documented demo_merkle"
  by (simp add: documented_def demo_merkle_def comp_def)

text \<open>One provider with every content, addressed injectively by the text form itself.\<close>

definition demo_fee :: vault_fee where
  "demo_fee = \<lparr>vf_infra_fee = 3, vf_liquidity_fee = 4, vf_reservation_fee = 0, vf_prev_fee = 10\<rparr>"

definition demo_tree :: "vault_tree_node list" where
  "demo_tree = [(''A'', 50, 17, 100, 100, 0)]"

definition demo_output :: "(string \<times> json) list" where
  "demo_output = (case get_dumped_tree demo_merkle demo_tree [(''A'', demo_vault ''A'' ''0x02a'')] demo_vault_ref [] mainnet_chain
     [(''A'', demo_fee)] of Inr out \<Rightarrow> out | Inl _ \<Rightarrow> [])"

definition demo_content :: bytes where
  "demo_content = demo_ser (JObj demo_output)"

definition demo_report_env :: report_env where
  "demo_report_env =
     \<lparr>rp_merkle = demo_merkle,
      rp_ipfs = (let p = \<lparr>ip_class = ''K'', ip_fetch = (\<lambda>_ cid. if cid = demo_cid demo_content then Inr demo_content else Inl FetchError),
          ip_upload = (\<lambda>_ content. Inr (demo_cid content)), ip_pin = (\<lambda>_ _. Inr ())\<rparr>
        in \<lparr>ie_providers = [p], ie_priority_providers = [p], ie_completion = [0], ie_retries = 3,
            ie_validate_cid = True, ie_normalize_cid = Inr, ie_content_cid = demo_cid\<rparr>),
      rp_ipfs_state = \<lparr>is_calls = 0, is_current_provider_index = 0, is_last_working_provider_index = 0, is_current_frame = None\<rparr>,
      rp_dumps = demo_ser, rp_loads = demo_parse\<rparr>"

theorem vault_report_restored_witness:
  "\<exists>report. get_prev_vault_ipfs_report demo_report_env
      \<lparr>oc_timestamp = 0, oc_ref_slot = 32000, oc_tree_root = [1], oc_report_cid = demo_cid demo_content\<rparr> 5 = Inr (Some report) \<and>
    map_of (fst (build_prev_report_maps (Some report))) ''A'' = Some 17 \<and>
    map_of (snd (build_prev_report_maps (Some report))) ''A'' = Some 100"
proof -
  let ?e = demo_report_env and ?vaults = "[(''A'', demo_vault ''A'' ''0x02a'')]" and ?cid = "demo_cid demo_content"
  let ?latest = "\<lparr>oc_timestamp = 0, oc_ref_slot = 32000, oc_tree_root = [1], oc_report_cid = ?cid\<rparr>"
  have v: "validating (rp_ipfs ?e)" by (simp add: validating_def demo_report_env_def Let_def demo_cid_inj)
  have d: "documented (rp_merkle ?e)" using demo_merkle_documented by (simp add: demo_report_env_def)
  have codec: "\<forall>j. rp_loads ?e (rp_dumps ?e j) = Inr j" by (simp add: demo_report_env_def demo_parse_ser)
  have tree: "build_tree_data ?vaults [(''A'', 50)] [(''A'', demo_fee)] [] = Inr demo_tree" by code_simp
  have "is_ok (get_dumped_tree demo_merkle demo_tree ?vaults demo_vault_ref [] mainnet_chain [(''A'', demo_fee)])" by code_simp
  then have out: "get_dumped_tree demo_merkle demo_tree ?vaults demo_vault_ref [] mainnet_chain [(''A'', demo_fee)] = Inr demo_output"
    by (auto simp: is_ok_iff demo_output_def)
  have "publish (rp_ipfs ?e) (rp_dumps ?e (JObj demo_output)) = Inr ?cid"
    by (simp add: demo_report_env_def Let_def publish_def upload_to_provider_def numeral_3_eq_3 provider_publish_def
        provider_upload_def validate_cid_def select_cid_with_quorum_def demo_content_def)
  then have p: "publish_tree ?e (get_merkle_tree demo_tree) ?vaults demo_vault_ref [] mainnet_chain [(''A'', demo_fee)] = Inr ?cid"
    using out by (simp add: publish_tree_def get_merkle_tree_def demo_report_env_def)
  have ne: "?cid \<noteq> []" by (simp add: demo_cid_def demo_content_def)
  have read: "ipfs_read (rp_ipfs ?e) (rp_ipfs_state ?e) ?cid 5 = Inr demo_content"
    by (subst ipfs_read_def, subst fetch.simps)
      (simp add: demo_report_env_def numeral_3_eq_3 fetch_once_def set_provider_for_frame_def Let_def provider_fetch_def validate_cid_def)
  have s: "wf_ipfs (rp_ipfs ?e) (rp_ipfs_state ?e)" "0 < ie_retries (rp_ipfs ?e)"
    by (simp_all add: wf_ipfs_def demo_report_env_def Let_def)
  have root: "oc_tree_root ?latest = ml_root (rp_merkle ?e) (get_merkle_tree demo_tree)" "oc_report_cid ?latest = ?cid"
    by (simp_all add: demo_report_env_def demo_merkle_def get_merkle_tree_def demo_tree_def)
  from vault_report_restored[OF v d codec tree _ p ne s read root] show ?thesis
    by (fastforce simp: demo_vault_def demo_fee_def fee_total_def)
qed

end
