(* ===== verification/Vault_Fees.thy ===== *)
theory Vault_Fees
  imports Vault_Report
begin

text \<open>
  The fees of staking vaults: the event types of \<open>src/modules/oracles/accounting/events.py\<close>, the queries of
  \<open>src/providers/execution/contracts/vault_hub.py\<close>, the APR of \<open>src/utils/apr.py\<close> and the fee part of
  \<open>src/services/staking_vaults.py\<close>. A fee accrues over the time between reports; what a vault owed in
  between is reconstructed by undoing its events backwards from the reference block. Decimal operations
  round to 27 digits (\<open>dec\<close>). Fetching logs may not return (\<open>Events\<close>), so neither may the fees.
\<close>

section \<open>Events\<close>

text \<open>
  A log of the vault hub: the integer arguments are \<open>ev_args\<close>, the addresses \<open>vl_addresses\<close>. Of the common
  fields only the position is read.
\<close>

record vault_log = event +
  vl_log_index :: int
  vl_addresses :: "(string \<times> address) list"

record event_base =
  eb_block_number :: int
  eb_log_index :: int

datatype vault_event =
    MintedSharesOnVaultEvent (ve_base: event_base) (ve_vault: address) (amount_of_shares: int) (locked_amount: int)
  | BurnedSharesOnVaultEvent (ve_base: event_base) (ve_vault: address) (amount_of_shares: int)
  | VaultFeesUpdatedEvent (ve_base: event_base) (ve_vault: address) (pre_infra_fee_bp: int) (infra_fee_bp: int)
      (pre_liquidity_fee_bp: int) (liquidity_fee_bp: int) (pre_reservation_fee_bp: int) (reservation_fee_bp: int)
  | VaultRebalancedEvent (ve_base: event_base) (ve_vault: address) (shares_burned: int) (ether_withdrawn: int)
  | BadDebtSocializedEvent (ve_base: event_base) (vault_donor: address) (vault_acceptor: address) (bad_debt_shares: int)
  | VaultConnectedEvent (ve_base: event_base) (ve_vault: address) (share_limit: int) (reserve_ratio_bp: int)
      (forced_rebalance_threshold_bp: int) (infra_fee_bp: int) (liquidity_fee_bp: int) (reservation_fee_bp: int)
  | BadDebtWrittenOffToBeInternalizedEvent (ve_base: event_base) (ve_vault: address) (bad_debt_shares: int)

definition extract_common :: "vault_log \<Rightarrow> event_base" where
  "extract_common entry = \<lparr>eb_block_number = ev_block entry, eb_log_index = vl_log_index entry\<rparr>"

definition log_int :: "vault_log \<Rightarrow> string \<Rightarrow> (int \<Rightarrow> 'a res) \<Rightarrow> 'a res" where
  "log_int entry field f = bindR (lookupR (ev_args entry) field) f"

definition log_address :: "vault_log \<Rightarrow> string \<Rightarrow> (address \<Rightarrow> 'a res) \<Rightarrow> 'a res" where
  "log_address entry field f = bindR (lookupR (vl_addresses entry) field) f"

definition minted_from_log :: "vault_log \<Rightarrow> vault_event res" where
  "minted_from_log entry =
     log_address entry ''vault'' (\<lambda>vault. log_int entry ''amountOfShares'' (\<lambda>amount. log_int entry ''lockedAmount'' (\<lambda>locked.
       Inr (MintedSharesOnVaultEvent (extract_common entry) vault amount locked))))"

definition burned_from_log :: "vault_log \<Rightarrow> vault_event res" where
  "burned_from_log entry =
     log_address entry ''vault'' (\<lambda>vault. log_int entry ''amountOfShares'' (\<lambda>amount.
       Inr (BurnedSharesOnVaultEvent (extract_common entry) vault amount)))"

definition fees_updated_from_log :: "vault_log \<Rightarrow> vault_event res" where
  "fees_updated_from_log entry =
     log_address entry ''vault'' (\<lambda>vault. log_int entry ''preInfraFeeBP'' (\<lambda>pre_infra. log_int entry ''infraFeeBP'' (\<lambda>infra.
     log_int entry ''preLiquidityFeeBP'' (\<lambda>pre_liquidity. log_int entry ''liquidityFeeBP'' (\<lambda>liquidity.
     log_int entry ''preReservationFeeBP'' (\<lambda>pre_reservation. log_int entry ''reservationFeeBP'' (\<lambda>reservation.
       Inr (VaultFeesUpdatedEvent (extract_common entry) vault pre_infra infra pre_liquidity liquidity pre_reservation reservation))))))))"

definition rebalanced_from_log :: "vault_log \<Rightarrow> vault_event res" where
  "rebalanced_from_log entry =
     log_address entry ''vault'' (\<lambda>vault. log_int entry ''sharesBurned'' (\<lambda>burned. log_int entry ''etherWithdrawn'' (\<lambda>withdrawn.
       Inr (VaultRebalancedEvent (extract_common entry) vault burned withdrawn))))"

definition socialized_from_log :: "vault_log \<Rightarrow> vault_event res" where
  "socialized_from_log entry =
     log_address entry ''vaultDonor'' (\<lambda>donor. log_address entry ''vaultAcceptor'' (\<lambda>acceptor. log_int entry ''badDebtShares'' (\<lambda>shares.
       Inr (BadDebtSocializedEvent (extract_common entry) donor acceptor shares))))"

definition connected_from_log :: "vault_log \<Rightarrow> vault_event res" where
  "connected_from_log entry =
     log_address entry ''vault'' (\<lambda>vault. log_int entry ''shareLimit'' (\<lambda>limit. log_int entry ''reserveRatioBP'' (\<lambda>ratio.
     log_int entry ''forcedRebalanceThresholdBP'' (\<lambda>threshold. log_int entry ''infraFeeBP'' (\<lambda>infra.
     log_int entry ''liquidityFeeBP'' (\<lambda>liquidity. log_int entry ''reservationFeeBP'' (\<lambda>reservation.
       Inr (VaultConnectedEvent (extract_common entry) vault limit ratio threshold infra liquidity reservation))))))))"

definition written_off_from_log :: "vault_log \<Rightarrow> vault_event res" where
  "written_off_from_log entry =
     log_address entry ''vault'' (\<lambda>vault. log_int entry ''badDebtShares'' (\<lambda>shares.
       Inr (BadDebtWrittenOffToBeInternalizedEvent (extract_common entry) vault shares)))"

record vault_hub =
  vh_step :: int
  vh_logs :: "string \<Rightarrow> int \<Rightarrow> int \<Rightarrow> vault_log list res"

definition hub_events ::
    "vault_hub \<Rightarrow> string \<Rightarrow> (vault_log \<Rightarrow> vault_event res) \<Rightarrow> int \<Rightarrow> int \<Rightarrow> vault_event list res option" where
  "hub_events hub name from_log from_block to_block =
     bindO (get_events_in_range (vh_step hub) (vh_logs hub name) from_block to_block) (\<lambda>logs. Some (mapR from_log logs))"

definition get_minted_events :: "vault_hub \<Rightarrow> int \<Rightarrow> int \<Rightarrow> vault_event list res option" where
  "get_minted_events hub = hub_events hub ''MintedSharesOnVault'' minted_from_log"

definition get_burned_events :: "vault_hub \<Rightarrow> int \<Rightarrow> int \<Rightarrow> vault_event list res option" where
  "get_burned_events hub = hub_events hub ''BurnedSharesOnVault'' burned_from_log"

definition get_vault_fee_updated_events :: "vault_hub \<Rightarrow> int \<Rightarrow> int \<Rightarrow> vault_event list res option" where
  "get_vault_fee_updated_events hub = hub_events hub ''VaultFeesUpdated'' fees_updated_from_log"

definition get_vault_rebalanced_events :: "vault_hub \<Rightarrow> int \<Rightarrow> int \<Rightarrow> vault_event list res option" where
  "get_vault_rebalanced_events hub = hub_events hub ''VaultRebalanced'' rebalanced_from_log"

definition get_bad_debt_socialized_events :: "vault_hub \<Rightarrow> int \<Rightarrow> int \<Rightarrow> vault_event list res option" where
  "get_bad_debt_socialized_events hub = hub_events hub ''BadDebtSocialized'' socialized_from_log"

definition get_bad_debt_written_off_to_be_internalized_events :: "vault_hub \<Rightarrow> int \<Rightarrow> int \<Rightarrow> vault_event list res option" where
  "get_bad_debt_written_off_to_be_internalized_events hub = hub_events hub ''BadDebtWrittenOffToBeInternalized'' written_off_from_log"

definition get_vault_connected_events :: "vault_hub \<Rightarrow> int \<Rightarrow> int \<Rightarrow> vault_event list res option" where
  "get_vault_connected_events hub = hub_events hub ''VaultConnected'' connected_from_log"

text \<open>Socialized bad debt concerns two vaults and is filed under both.\<close>

fun vaults_of :: "vault_event \<Rightarrow> address list" where
  "vaults_of (BadDebtSocializedEvent _ donor acceptor _) = [donor, acceptor]"
| "vaults_of e = [ve_vault e]"

definition file_event :: "vault_event \<Rightarrow> (address \<times> vault_event list) list \<Rightarrow> (address \<times> vault_event list) list" where
  "file_event e events = fold (\<lambda>a m. AList.update a (al_get [] m a @ [e]) m) (vaults_of e) events"

definition get_vault_events_for_fees ::
    "vault_hub \<Rightarrow> int \<Rightarrow> int \<Rightarrow> ((address \<times> vault_event list) list \<times> address set) res option" where
  "get_vault_events_for_fees hub from_block to_block =
     bindO (get_vault_fee_updated_events hub from_block to_block) (\<lambda>fees_updated.
     bindO (get_minted_events hub from_block to_block) (\<lambda>minted.
     bindO (get_burned_events hub from_block to_block) (\<lambda>burned.
     bindO (get_vault_rebalanced_events hub from_block to_block) (\<lambda>rebalanced.
     bindO (get_bad_debt_written_off_to_be_internalized_events hub from_block to_block) (\<lambda>written_off.
     bindO (get_bad_debt_socialized_events hub from_block to_block) (\<lambda>socialized.
     bindO (get_vault_connected_events hub from_block to_block) (\<lambda>reconnected.
       Some (Inr (fold file_event (fees_updated @ minted @ burned @ rebalanced @ written_off @ socialized @ reconnected) [],
         set (map ve_vault reconnected))))))))))"

section \<open>Share rates\<close>

definition dec_divR :: "rat \<Rightarrow> rat \<Rightarrow> rat res" where
  "dec_divR a b = (if b = 0 then Inl (if a = 0 then InvalidOperation else ZeroDivisionError) else Inr (dec (a / b)))"

definition calculate_gross_core_apr :: "int \<Rightarrow> int \<Rightarrow> int \<Rightarrow> int \<Rightarrow> int \<Rightarrow> int \<Rightarrow> rat res" where
  "calculate_gross_core_apr post_internal_ether post_internal_shares shares_minted_as_fees pre_total_ether
       pre_total_shares time_elapsed_seconds =
     (if pre_total_shares = 0 then Inl ValueError
      else if time_elapsed_seconds = 0 then Inl ValueError
      else if post_internal_shares = shares_minted_as_fees then Inl ValueError
      else
        let shares_no_fees = post_internal_shares - shares_minted_as_fees in
        bindR (dec_divR (of_int (post_internal_ether * SHARE_RATE_PRECISION_E27)) (of_int shares_no_fees)) (\<lambda>post_share_rate_no_fees.
        bindR (dec_divR (of_int (pre_total_ether * SHARE_RATE_PRECISION_E27)) (of_int pre_total_shares)) (\<lambda>pre_share_rate.
          let rate_diff = dec (post_share_rate_no_fees - pre_share_rate) in
          if rate_diff < 0 then Inr 0
          else bindR (dec_divR rate_diff pre_share_rate) (\<lambda>q.
                 dec_divR (dec (of_int SECONDS_IN_YEAR * q)) (of_int time_elapsed_seconds)))))"

definition get_steth_by_shares :: "int \<Rightarrow> int \<Rightarrow> int \<Rightarrow> rat res" where
  "get_steth_by_shares shares total_ether total_shares =
     dec_divR (dec (of_int shares * of_int total_ether)) (of_int total_shares)"

definition calc_fee_value :: "rat \<Rightarrow> int \<Rightarrow> rat \<Rightarrow> int \<Rightarrow> rat" where
  "calc_fee_value value time_elapsed_seconds core_apr_ratio fee_bp =
     dec (dec (dec (dec (value * of_int time_elapsed_seconds) * core_apr_ratio) * of_int fee_bp)
       / of_int (SECONDS_IN_YEAR * TOTAL_BASIS_POINTS))"

section \<open>The walk back in time\<close>

fun apply_event :: "vault_event \<Rightarrow> address \<Rightarrow> int \<Rightarrow> int \<Rightarrow> int \<times> int" where
  "apply_event (VaultFeesUpdatedEvent _ _ _ _ pre_liquidity _ _ _) _ shares fee = (shares, pre_liquidity)"
| "apply_event (MintedSharesOnVaultEvent _ _ amount _) _ shares fee = (shares - amount, fee)"
| "apply_event (BurnedSharesOnVaultEvent _ _ amount) _ shares fee = (shares + amount, fee)"
| "apply_event (VaultRebalancedEvent _ _ burned _) _ shares fee = (shares + burned, fee)"
| "apply_event (BadDebtWrittenOffToBeInternalizedEvent _ _ bad) _ shares fee = (shares + bad, fee)"
| "apply_event (BadDebtSocializedEvent _ donor _ bad) address shares fee =
     (if address = donor then shares + bad else shares - bad, fee)"
| "apply_event (VaultConnectedEvent _ _ _ _ _ _ _ _) _ shares fee = (shares, fee)"

record rates =
  ra_core_apr_ratio :: rat
  ra_pre_total_pooled_ether :: int
  ra_pre_total_shares :: int

definition accrue :: "rates \<Rightarrow> int \<Rightarrow> int \<Rightarrow> int \<Rightarrow> rat \<Rightarrow> rat res" where
  "accrue ra shares interval_seconds liquidity_fee vault_liquidity_fee =
     bindR (get_steth_by_shares shares (ra_pre_total_pooled_ether ra) (ra_pre_total_shares ra)) (\<lambda>minted_steth.
       Inr (dec (vault_liquidity_fee + calc_fee_value minted_steth interval_seconds (ra_core_apr_ratio ra) liquidity_fee)))"

definition is_connected :: "vault_event \<Rightarrow> bool" where
  "is_connected e \<longleftrightarrow> (case e of VaultConnectedEvent _ _ _ _ _ _ _ _ \<Rightarrow> True | _ \<Rightarrow> False)"

fun walk_back ::
    "rates \<Rightarrow> (int \<times> int) list \<Rightarrow> address \<Rightarrow> int \<Rightarrow> vault_event list \<Rightarrow> int \<Rightarrow> int \<Rightarrow> int \<Rightarrow> rat \<Rightarrow> (rat \<times> int) res" where
  "walk_back ra block_timestamps address prev_ref_timestamp [] prev_event_timestamp shares fee_bp acc =
     (let interval_seconds = prev_event_timestamp - prev_ref_timestamp in
      if interval_seconds < 0 then Inl ValueError
      else bindR (accrue ra shares interval_seconds fee_bp acc) (\<lambda>acc. Inr (acc, shares)))"
| "walk_back ra block_timestamps address prev_ref_timestamp (e # es) prev_event_timestamp shares fee_bp acc =
     (case map_of block_timestamps (eb_block_number (ve_base e)) of
        None \<Rightarrow> Inl ValueError
      | Some event_timestamp \<Rightarrow>
          let interval_seconds = prev_event_timestamp - event_timestamp in
          if interval_seconds < 0 then Inl ValueError
          else bindR (accrue ra shares interval_seconds fee_bp acc) (\<lambda>acc.
            if is_connected e then (if shares \<noteq> 0 then Inl ValueError else Inr (acc, shares))
            else case apply_event e address shares fee_bp of (shares, fee_bp) \<Rightarrow>
              walk_back ra block_timestamps address prev_ref_timestamp es event_timestamp shares fee_bp acc))"

definition position_of :: "vault_event \<Rightarrow> int \<times> int" where
  "position_of e = (eb_block_number (ve_base e), eb_log_index (ve_base e))"

definition calculate_liquidity_fee_by_events ::
    "rates \<Rightarrow> (int \<times> int) list \<Rightarrow> address \<Rightarrow> int \<Rightarrow> int \<Rightarrow> vault_event list \<Rightarrow> int \<Rightarrow> int \<Rightarrow> (rat \<times> int) res" where
  "calculate_liquidity_fee_by_events ra block_timestamps address shares fee_bp vault_events prev_ref_timestamp current_ref_timestamp =
     walk_back ra block_timestamps address prev_ref_timestamp (sort_desc position_of vault_events) current_ref_timestamp shares fee_bp 0"

section \<open>The fees of all vaults\<close>

definition get_report_timestamp :: "slot \<Rightarrow> chain_config \<Rightarrow> int" where
  "get_report_timestamp ref_slot c = genesis_time c + ref_slot * seconds_per_slot c"

definition calculate_vault_fee_components ::
    "rates \<Rightarrow> (int \<times> int) list \<Rightarrow> address \<Rightarrow> vault_info \<Rightarrow> wei \<Rightarrow> vault_event list \<Rightarrow> int \<Rightarrow> int \<Rightarrow> int \<Rightarrow> (rat \<times> rat \<times> rat \<times> int) res" where
  "calculate_vault_fee_components ra block_timestamps address vault total_value vault_events interval prev_ref_timestamp current_ref_timestamp =
     (let apr = ra_core_apr_ratio ra;
          infra = calc_fee_value (of_int total_value) interval apr (vi_infra_fee_bp vault);
          reservation = calc_fee_value (of_int (vi_mintable_st_eth vault)) interval apr (vi_reservation_fee_bp vault)
      in if vault_events = [] then
           bindR (get_steth_by_shares (vi_liability_shares vault) (ra_pre_total_pooled_ether ra) (ra_pre_total_shares ra)) (\<lambda>minted_steth.
             Inr (infra, reservation, calc_fee_value minted_steth interval apr (vi_liquidity_fee_bp vault), vi_liability_shares vault))
         else
           bindR (calculate_liquidity_fee_by_events ra block_timestamps address (vi_liability_shares vault)
               (vi_liquidity_fee_bp vault) vault_events prev_ref_timestamp current_ref_timestamp) (\<lambda>(liquidity, shares).
             Inr (infra, reservation, liquidity, shares)))"

record fee_env =
  fe_report :: report_env
  fe_cl :: cl_client
  fe_last_processing_ref_slot :: "hexstr \<Rightarrow> slot res"
  fe_hub :: vault_hub
  fe_batch_limit :: int
  fe_get_ts :: "int \<Rightarrow> int res"
  fe_batch_ts :: "int list \<Rightarrow> int list res"

definition first_or_last_ref_slot :: "slot \<Rightarrow> frame_config \<Rightarrow> chain_config \<Rightarrow> slot" where
  "first_or_last_ref_slot last_ref_slot f c =
     (if last_ref_slot = 0 then max ((initial_epoch f - epochs_per_frame f) * slots_per_epoch c - 1) 0 else last_ref_slot)"

definition vault_fee_step ::
    "rates \<Rightarrow> (int \<times> int) list \<Rightarrow> (address \<times> vault_event list) list \<Rightarrow> address set \<Rightarrow> (address \<times> int) list \<Rightarrow> (address \<times> int) list \<Rightarrow>
     (address \<times> wei) list \<Rightarrow> int \<Rightarrow> int \<Rightarrow> int \<Rightarrow> address \<times> vault_info \<Rightarrow> (address \<times> vault_fee) list \<Rightarrow> (address \<times> vault_fee) list res" where
  "vault_fee_step ra block_timestamps events reconnected prev_fee_map prev_shares_map total_values interval
       prev_ref_timestamp current_ref_timestamp av out =
     (case av of (address, vault) \<Rightarrow>
        let prev_shares = (if address \<in> reconnected then 0 else al_get 0 prev_shares_map address);
            prev_fee = (if address \<in> reconnected then 0 else al_get 0 prev_fee_map address)
        in bindR (calculate_vault_fee_components ra block_timestamps address vault (al_get 0 total_values address)
               (al_get [] events address) interval prev_ref_timestamp current_ref_timestamp) (\<lambda>(infra, reservation, liquidity, shares).
             if prev_shares \<noteq> shares then Inl ValueError
             else Inr (AList.update address
               \<lparr>vf_infra_fee = round_up infra, vf_liquidity_fee = round_up liquidity,
                vf_reservation_fee = round_up reservation, vf_prev_fee = prev_fee\<rparr> out)))"

definition get_vaults_fees ::
    "fee_env \<Rightarrow> ref_blockstamp \<Rightarrow> vaults_map \<Rightarrow> (address \<times> wei) list \<Rightarrow> onchain_report \<Rightarrow> rates \<Rightarrow> frame_config \<Rightarrow>
     chain_config \<Rightarrow> frame \<Rightarrow> (address \<times> vault_fee) list res option" where
  "get_vaults_fees env bs vaults total_values latest ra f c current_frame =
     bindO (Some (get_prev_vault_ipfs_report (fe_report env) latest current_frame)) (\<lambda>prev_ipfs_report.
     bindO (Some (fe_last_processing_ref_slot env (bs_block_hash bs))) (\<lambda>last_ref_slot.
       let from_ref_slot = first_or_last_ref_slot last_ref_slot f c in
       bindO (Some (get_blockstamp (fe_cl env) from_ref_slot (bs_slot_number bs))) (\<lambda>prev_bs.
       bindO (get_vault_events_for_fees (fe_hub env) (bs_block_number prev_bs + 1) (bs_block_number bs)) (\<lambda>(events, reconnected).
         let current_ref_timestamp = get_report_timestamp (bs_ref_slot bs) c;
             prev_ref_timestamp = get_report_timestamp from_ref_slot c;
             interval = current_ref_timestamp - prev_ref_timestamp
         in if interval < 0 then Some (Inl ValueError)
            else case build_prev_report_maps prev_ipfs_report of (prev_fee_map, prev_shares_map) \<Rightarrow>
              bindO (Some (get_block_timestamps (fe_batch_limit env) (fe_get_ts env) (fe_batch_ts env) (seconds_per_slot c)
                  (set (map (\<lambda>e. eb_block_number (ve_base e)) (concat (map snd events)))))) (\<lambda>block_timestamps.
                Some (foldR (vault_fee_step ra block_timestamps events reconnected prev_fee_map prev_shares_map total_values
                  interval prev_ref_timestamp current_ref_timestamp) vaults []))))))"

section \<open>The share balance over a period\<close>

text \<open>What an event changes going forward, and the reference: the intervals between events in order of time.\<close>

fun shares_delta :: "address \<Rightarrow> vault_event \<Rightarrow> int" where
  "shares_delta a (MintedSharesOnVaultEvent _ _ amount _) = amount"
| "shares_delta a (BurnedSharesOnVaultEvent _ _ amount) = - amount"
| "shares_delta a (VaultRebalancedEvent _ _ burned _) = - burned"
| "shares_delta a (BadDebtWrittenOffToBeInternalizedEvent _ _ bad) = - bad"
| "shares_delta a (BadDebtSocializedEvent _ donor acceptor bad) =
     (if a = acceptor then bad else 0) - (if a = donor then bad else 0)"
| "shares_delta a _ = 0"

fun fee_after :: "vault_event \<Rightarrow> int \<Rightarrow> int" where
  "fee_after (VaultFeesUpdatedEvent _ _ _ _ _ liquidity _ _) fee = liquidity"
| "fee_after _ fee = fee"

text \<open>An event of the vault: bad debt moves between two different vaults, one of them this one.\<close>

fun concerns :: "address \<Rightarrow> vault_event \<Rightarrow> bool" where
  "concerns a (BadDebtSocializedEvent _ donor acceptor _) \<longleftrightarrow> donor \<noteq> acceptor \<and> a \<in> {donor, acceptor}"
| "concerns a e \<longleftrightarrow> a = ve_vault e"

fun continues :: "vault_event \<Rightarrow> int \<Rightarrow> bool" where
  "continues (VaultFeesUpdatedEvent _ _ _ _ pre_liquidity _ _ _) fee \<longleftrightarrow> pre_liquidity = fee"
| "continues e fee \<longleftrightarrow> \<not> is_connected e"

fun history :: "address \<Rightarrow> (int \<times> int) list \<Rightarrow> int \<Rightarrow> vault_event list \<Rightarrow> int \<Rightarrow> int \<Rightarrow> bool" where
  "history a ts t [] t1 fee \<longleftrightarrow> t \<le> t1"
| "history a ts t (e # es) t1 fee \<longleftrightarrow>
     (case map_of ts (eb_block_number (ve_base e)) of None \<Rightarrow> False | Some t' \<Rightarrow>
        t \<le> t' \<and> concerns a e \<and> continues e fee \<and> history a ts t' es t1 (fee_after e fee))"

fun periods :: "(int \<times> int) list \<Rightarrow> address \<Rightarrow> int \<Rightarrow> vault_event list \<Rightarrow> int \<Rightarrow> int \<Rightarrow> int \<Rightarrow> (int \<times> int \<times> int) list" where
  "periods ts a t [] t1 shares fee = [(shares, t1 - t, fee)]"
| "periods ts a t (e # es) t1 shares fee =
     (let t' = al_get 0 ts (eb_block_number (ve_base e)) in
      (shares, t' - t, fee) # periods ts a t' es t1 (shares + shares_delta a e) (fee_after e fee))"

definition accrued :: "rates \<Rightarrow> (int \<times> int \<times> int) list \<Rightarrow> rat \<Rightarrow> rat res" where
  "accrued ra ps acc = foldR (\<lambda>(shares, interval, fee). accrue ra shares interval fee) (rev ps) acc"

lemma apply_event_undoes:
  "concerns a e \<Longrightarrow> continues e fee \<Longrightarrow> apply_event e a (shares + shares_delta a e) (fee_after e fee) = (shares, fee)"
  by (cases e) (auto simp: is_connected_def)

lemma continues_not_connected: "continues e fee \<Longrightarrow> \<not> is_connected e"
  by (cases e) (simp_all add: is_connected_def)

lemma apply_event_shares: "concerns a e \<Longrightarrow> fst (apply_event e a shares fee) = shares - shares_delta a e"
  by (cases e) auto

lemma periods_snoc:
  "periods ts a t (es @ [e]) t1 shares fee =
     periods ts a t es (al_get 0 ts (eb_block_number (ve_base e))) shares fee @
       [(shares + sum_list (map (shares_delta a) (es @ [e])), t1 - al_get 0 ts (eb_block_number (ve_base e)),
         fold fee_after (es @ [e]) fee)]"
  by (induction es arbitrary: t shares fee) (simp_all add: Let_def algebra_simps)

lemma history_snoc:
  "history a ts t (es @ [e]) t1 fee \<longleftrightarrow>
     (case map_of ts (eb_block_number (ve_base e)) of None \<Rightarrow> False | Some t' \<Rightarrow>
        history a ts t es t' fee \<and> concerns a e \<and> continues e (fold fee_after es fee) \<and> t' \<le> t1)"
  by (induction es arbitrary: t fee) (auto split: option.splits)

lemma accrued_snoc: "accrued ra (ps @ [(s, i, f)]) acc = bindR (accrue ra s i f acc) (accrued ra ps)"
  by (simp add: accrued_def[abs_def])

lemma walk_back_history:
  assumes "history a ts t0 es t1 fee"
  shows "walk_back ra ts a t0 (rev es) t1 (shares + sum_list (map (shares_delta a) es)) (fold fee_after es fee) acc =
    bindR (accrued ra (periods ts a t0 es t1 shares fee) acc) (\<lambda>acc. Inr (acc, shares))"
  using assms
proof (induction es arbitrary: t1 acc rule: rev_induct)
  case Nil
  then show ?case by (simp add: Let_def accrued_def bindR_assoc)
next
  case (snoc e es)
  obtain t' where t': "map_of ts (eb_block_number (ve_base e)) = Some t'" "history a ts t0 es t' fee"
      "concerns a e" "continues e (fold fee_after es fee)" "t' \<le> t1"
    using snoc.prems by (auto simp: history_snoc split: option.splits)
  have undo: "apply_event e a (shares + (sum_list (map (shares_delta a) es) + shares_delta a e))
      (fee_after e (fold fee_after es fee)) = (shares + sum_list (map (shares_delta a) es), fold fee_after es fee)"
    using apply_event_undoes[OF t'(3,4), of "shares + sum_list (map (shares_delta a) es)"] by (simp add: add.assoc)
  have g: "al_get 0 ts (eb_block_number (ve_base e)) = t'" using t'(1) by (simp add: al_get_def)
  show ?case
    using t' by (simp add: Let_def continues_not_connected undo snoc.IH[OF t'(2)] periods_snoc accrued_snoc g bindR_assoc)
qed

lemma periods_fill: "sum_list (map (\<lambda>(_, i, _). i) (periods ts a t es t1 shares fee)) = t1 - t"
  by (induction es arbitrary: t shares fee) (simp_all add: Let_def)

text \<open>Distinct positions have one order, so sorting forgets the order in which the queries returned the events.\<close>

lemma sort_desc_rev:
  assumes "mset xs = mset ys" "sorted_wrt (\<lambda>x y. key x < key y) ys"
  shows "sort_desc key xs = rev ys"
proof -
  have strict: "sorted_wrt (<) (map key ys)" using assms(2) by (simp add: sorted_wrt_map)
  then have d: "sorted (map key ys)" "distinct (map key ys)" by (simp_all add: strict_sorted_iff)
  have m: "mset (sort_key key (rev xs)) = mset ys" using assms(1) by simp
  then have "map key (sort_key key (rev xs)) = map key ys"
    using d(1) by (metis mset_map properties_for_sort sorted_sort_key)
  moreover have "inj_on key (set (sort_key key (rev xs)) \<union> set ys)"
    using d(2) mset_eq_setD[OF m] by (simp add: distinct_map)
  ultimately have "sort_key key (rev xs) = ys" by (rule map_inj_on)
  then show ?thesis unfolding sort_desc_def by simp
qed

text \<open>
  C25. Walking back from the current state of a vault yields what walking forward from the previous report
  gives: for a history whose fee updates continue one another and whose times do not decrease, the code,
  given the shares and the fee at the end of it and its events in any order, returns the shares at its
  beginning and the fee accrued over the periods between the events, which fill the report interval.\<close>

theorem liquidity_fee_accrues_over_history:
  assumes "history a ts t0 es t1 fee"
    and "sorted_wrt (\<lambda>x y. position_of x < position_of y) es" "mset events = mset es"
  shows "calculate_liquidity_fee_by_events ra ts a (shares + sum_list (map (shares_delta a) es)) (fold fee_after es fee)
      events t0 t1 = bindR (accrued ra (periods ts a t0 es t1 shares fee) 0) (\<lambda>acc. Inr (acc, shares)) \<and>
    sum_list (map (\<lambda>(_, interval, _). interval) (periods ts a t0 es t1 shares fee)) = t1 - t0"
  using sort_desc_rev[OF assms(3,2)]
  by (simp add: calculate_liquidity_fee_by_events_def walk_back_history[OF assms(1)] periods_fill)

section \<open>The events of a vault\<close>

lemma vaults_of_base:
  "(\<forall>b donor acceptor bad. e \<noteq> BadDebtSocializedEvent b donor acceptor bad) \<Longrightarrow> vaults_of e = [ve_vault e]"
  by (cases e) simp_all

lemma file_event_mem:
  "x \<in> set (al_get [] (file_event e m) a) \<Longrightarrow> x \<in> set (al_get [] m a) \<or> x = e \<and> a \<in> set (vaults_of e)"
proof -
  have "x \<in> set (al_get [] (fold (\<lambda>a m. AList.update a (al_get [] m a @ [e]) m) as m) a) \<Longrightarrow>
      x \<in> set (al_get [] m a) \<or> x = e \<and> a \<in> set as" for as
  proof (induction as arbitrary: m)
    case (Cons b as)
    have "x \<in> set (al_get [] (AList.update b (al_get [] m b @ [e]) m) a) \<or> x = e \<and> a \<in> set as"
      using Cons.IH[of "AList.update b (al_get [] m b @ [e]) m"] Cons.prems by (simp only: fold_simps)
    then show ?case by (cases "a = b") auto
  qed simp
  then show "x \<in> set (al_get [] (file_event e m) a) \<Longrightarrow> ?thesis" unfolding file_event_def .
qed

lemma filed_events:
  "x \<in> set (al_get [] (fold file_event es m) a) \<Longrightarrow> x \<in> set (al_get [] m a) \<or> x \<in> set es \<and> a \<in> set (vaults_of x)"
proof (induction es arbitrary: m)
  case Nil
  then show ?case by simp
next
  case (Cons e es)
  from Cons.IH[of "file_event e m"] Cons.prems show ?case by (auto dest: file_event_mem)
qed

definition hub_pays :: "vault_hub \<Rightarrow> bool" where
  \<comment> \<open>The hub moves bad debt between two vaults\<close>
  "hub_pays hub \<longleftrightarrow> (\<forall>a b es e. get_bad_debt_socialized_events hub a b = Some (Inr es) \<longrightarrow> e \<in> set es \<longrightarrow>
     vault_donor e \<noteq> vault_acceptor e)"

lemmas hub_defs = get_minted_events_def get_burned_events_def get_vault_fee_updated_events_def
  get_vault_rebalanced_events_def get_bad_debt_socialized_events_def
  get_bad_debt_written_off_to_be_internalized_events_def get_vault_connected_events_def

lemmas log_defs = minted_from_log_def burned_from_log_def fees_updated_from_log_def rebalanced_from_log_def
  socialized_from_log_def connected_from_log_def written_off_from_log_def log_int_def log_address_def

lemma hub_event_parsed:
  "hub_events hub name from_log a b = Some (Inr es) \<Longrightarrow> e \<in> set es \<Longrightarrow> \<exists>entry. from_log entry = Inr e"
  by (auto simp: hub_events_def res_simps mapR_Inr_iff list_all2_conv_all_nth in_set_conv_nth)

lemma hub_event_kinds:
  "get_vault_connected_events hub a b = Some (Inr es) \<Longrightarrow> e \<in> set es \<Longrightarrow> is_connected e"
  "get_minted_events hub a b = Some (Inr es) \<Longrightarrow> e \<in> set es \<Longrightarrow> \<not> is_connected e \<and> vaults_of e = [ve_vault e]"
  "get_burned_events hub a b = Some (Inr es) \<Longrightarrow> e \<in> set es \<Longrightarrow> \<not> is_connected e \<and> vaults_of e = [ve_vault e]"
  "get_vault_fee_updated_events hub a b = Some (Inr es) \<Longrightarrow> e \<in> set es \<Longrightarrow> \<not> is_connected e \<and> vaults_of e = [ve_vault e]"
  "get_vault_rebalanced_events hub a b = Some (Inr es) \<Longrightarrow> e \<in> set es \<Longrightarrow> \<not> is_connected e \<and> vaults_of e = [ve_vault e]"
  "get_bad_debt_written_off_to_be_internalized_events hub a b = Some (Inr es) \<Longrightarrow> e \<in> set es \<Longrightarrow>
     \<not> is_connected e \<and> vaults_of e = [ve_vault e]"
  "get_bad_debt_socialized_events hub a b = Some (Inr es) \<Longrightarrow> e \<in> set es \<Longrightarrow>
     \<exists>b donor acceptor bad. e = BadDebtSocializedEvent b donor acceptor bad"
  by (auto simp: hub_defs log_defs res_simps is_connected_def dest!: hub_event_parsed)

lemma concerns_vaults_of:
  "a \<in> set (vaults_of e) \<Longrightarrow> (\<forall>b donor acceptor bad. e = BadDebtSocializedEvent b donor acceptor bad \<longrightarrow> donor \<noteq> acceptor) \<Longrightarrow>
    concerns a e"
  by (cases e) auto

lemma events_for_fees:
  assumes "get_vault_events_for_fees hub a b = Some (Inr (events, reconnected))" "hub_pays hub"
    and "e \<in> set (al_get [] events v)"
  shows "concerns v e" and "is_connected e \<Longrightarrow> v \<in> reconnected"
proof -
  obtain fu mi bu re wr so co where
      q: "get_vault_fee_updated_events hub a b = Some (Inr fu)" "get_minted_events hub a b = Some (Inr mi)"
        "get_burned_events hub a b = Some (Inr bu)" "get_vault_rebalanced_events hub a b = Some (Inr re)"
        "get_bad_debt_written_off_to_be_internalized_events hub a b = Some (Inr wr)"
        "get_bad_debt_socialized_events hub a b = Some (Inr so)" "get_vault_connected_events hub a b = Some (Inr co)"
      and ev: "events = fold file_event (fu @ mi @ bu @ re @ wr @ so @ co) []" "reconnected = set (map ve_vault co)"
    using assms(1) by (auto simp: get_vault_events_for_fees_def res_simps simp del: fold_append)
  from assms(3) have mem: "e \<in> set (fu @ mi @ bu @ re @ wr @ so @ co)" "v \<in> set (vaults_of e)"
    unfolding ev using filed_events[of e "fu @ mi @ bu @ re @ wr @ so @ co" "[]" v] by auto
  have single: "\<forall>e \<in> set fu \<union> set mi \<union> set bu \<union> set re \<union> set wr. \<not> is_connected e \<and> vaults_of e = [ve_vault e]"
    using hub_event_kinds(2)[OF q(2)] hub_event_kinds(3)[OF q(3)] hub_event_kinds(4)[OF q(1)]
      hub_event_kinds(5)[OF q(4)] hub_event_kinds(6)[OF q(5)] by blast
  have "donor \<noteq> acceptor" if "e = BadDebtSocializedEvent b' donor acceptor bad" for b' donor acceptor bad
  proof -
    have "vaults_of e \<noteq> [ve_vault e]" "\<not> is_connected e" using that by (simp_all add: is_connected_def)
    then have "e \<notin> set fu \<union> set mi \<union> set bu \<union> set re \<union> set wr" "e \<notin> set co"
      using single hub_event_kinds(1)[OF q(7), of e] by blast+
    then have "e \<in> set so" using mem(1) by auto
    then show ?thesis using assms(2) q(6) that unfolding hub_pays_def by force
  qed
  then show "concerns v e" using mem(2) concerns_vaults_of by blast
  show "v \<in> reconnected" if "is_connected e"
  proof -
    have "e \<notin> set fu \<union> set mi \<union> set bu \<union> set re \<union> set wr" using single that by blast
    moreover have "e \<notin> set so" using hub_event_kinds(7)[OF q(6), of e] that by (auto simp: is_connected_def)
    ultimately have "e \<in> set co" using mem(1) by auto
    moreover have "vaults_of e = [ve_vault e]" using that by (cases e) (simp_all add: is_connected_def)
    ultimately show ?thesis using mem(2) ev(2) by auto
  qed
qed

section \<open>Every vault's shares are accounted for\<close>

lemma walk_back_shares:
  "walk_back ra ts a t0 es t1 shares fee acc = Inr (acc', shares') \<Longrightarrow> (\<forall>e \<in> set es. concerns a e \<and> \<not> is_connected e) \<Longrightarrow>
    shares = shares' + sum_list (map (shares_delta a) es)"
proof (induction es arbitrary: t1 shares fee acc)
  case Nil
  then show ?case by (auto simp: Let_def res_simps split: if_splits)
next
  case (Cons e es)
  obtain s f where u: "apply_event e a shares fee = (s, f)" by fastforce
  then have "s = shares - shares_delta a e" using Cons.prems(2) apply_event_shares[of a e shares fee] by simp
  moreover have "s = shares' + sum_list (map (shares_delta a) es)"
    using Cons u by (fastforce simp: Let_def res_simps split: if_splits option.splits)
  ultimately show ?case by simp
qed

lemma components_shares:
  assumes "calculate_vault_fee_components ra ts a vault tv es interval t0 t1 = Inr (infra, reservation, liquidity, shares)"
    and "\<forall>e \<in> set es. concerns a e \<and> \<not> is_connected e"
  shows "vi_liability_shares vault = shares + sum_list (map (shares_delta a) es)"
proof (cases "es = []")
  case True
  then show ?thesis using assms(1) by (auto simp: calculate_vault_fee_components_def Let_def res_simps)
next
  case False
  obtain acc where w: "walk_back ra ts a t0 (sort_desc position_of es) t1 (vi_liability_shares vault)
      (vi_liquidity_fee_bp vault) 0 = Inr (acc, shares)"
    using assms(1) False
    by (auto simp: calculate_vault_fee_components_def calculate_liquidity_fee_by_events_def Let_def res_simps)
  have "sum_list (map (shares_delta a) (sort_desc position_of es)) = sum_list (map (shares_delta a) es)"
    by (metis mset_map mset_sort_desc(1) sum_mset_sum_list)
  then show ?thesis using walk_back_shares[OF w] assms(2) by simp
qed

definition accounted ::
    "(address \<times> vault_event list) list \<Rightarrow> address set \<Rightarrow> (address \<times> int) list \<Rightarrow> (address \<times> int) list \<Rightarrow>
     address \<times> vault_info \<Rightarrow> address \<times> vault_fee \<Rightarrow> bool" where
  "accounted events reconnected prev_fees prev_shares av af \<longleftrightarrow>
     fst af = fst av \<and>
     vf_prev_fee (snd af) = (if fst av \<in> reconnected then 0 else al_get 0 prev_fees (fst av)) \<and>
     (fst av \<notin> reconnected \<longrightarrow> vi_liability_shares (snd av) =
        al_get 0 prev_shares (fst av) + sum_list (map (shares_delta (fst av)) (al_get [] events (fst av))))"

lemma fee_step_accounts:
  assumes "vault_fee_step ra ts events reconnected prev_fees prev_shares tvs interval t0 t1 av out = Inr out'"
    and "fst av \<notin> set (map fst out)"
    and "\<And>e. e \<in> set (al_get [] events (fst av)) \<Longrightarrow> concerns (fst av) e \<and> (is_connected e \<longrightarrow> fst av \<in> reconnected)"
  shows "\<exists>af. out' = out @ [af] \<and> accounted events reconnected prev_fees prev_shares av af"
proof -
  obtain a v where av: "av = (a, v)" by fastforce
  obtain i r l s where c: "calculate_vault_fee_components ra ts a v (al_get 0 tvs a) (al_get [] events a) interval t0 t1 =
      Inr (i, r, l, s)" and s: "s = (if a \<in> reconnected then 0 else al_get 0 prev_shares a)"
    and out: "out' = AList.update a \<lparr>vf_infra_fee = round_up i, vf_liquidity_fee = round_up l,
        vf_reservation_fee = round_up r, vf_prev_fee = if a \<in> reconnected then 0 else al_get 0 prev_fees a\<rparr> out"
    using assms(1) unfolding av vault_fee_step_def Let_def by (auto simp: res_simps split: if_splits)
  have "vi_liability_shares v = s + sum_list (map (shares_delta a) (al_get [] events a))" if "a \<notin> reconnected"
    using components_shares[OF c] assms(3) that unfolding av by auto
  then show ?thesis using s out assms(2) unfolding av accounted_def by (auto simp: update_fresh)
qed

lemma fee_steps_account:
  assumes "foldR (vault_fee_step ra ts events reconnected prev_fees prev_shares tvs interval t0 t1) vaults out = Inr out'"
    and "distinct (map fst out @ map fst vaults)"
    and "\<And>a e. e \<in> set (al_get [] events a) \<Longrightarrow> concerns a e \<and> (is_connected e \<longrightarrow> a \<in> reconnected)"
  shows "\<exists>fees. out' = out @ fees \<and> list_all2 (accounted events reconnected prev_fees prev_shares) vaults fees"
  using assms(1,2)
proof (induction vaults arbitrary: out)
  case Nil
  then show ?case by simp
next
  case (Cons av vaults)
  obtain o1 where o1: "vault_fee_step ra ts events reconnected prev_fees prev_shares tvs interval t0 t1 av out = Inr o1"
      "foldR (vault_fee_step ra ts events reconnected prev_fees prev_shares tvs interval t0 t1) vaults o1 = Inr out'"
    using Cons.prems(1) by (auto simp: res_simps)
  obtain af where af: "o1 = out @ [af]" "accounted events reconnected prev_fees prev_shares av af"
    using fee_step_accounts[OF o1(1)] Cons.prems(2) assms(3) by auto
  have "distinct (map fst o1 @ map fst vaults)" using Cons.prems(2) af unfolding accounted_def by auto
  then obtain fees where "out' = o1 @ fees" "list_all2 (accounted events reconnected prev_fees prev_shares) vaults fees"
    using Cons.IH[OF o1(2)] by blast
  then show ?case using af by auto
qed


section \<open>A vault that minted and burned\<close>

definition demo_entry :: "int \<Rightarrow> int \<Rightarrow> (string \<times> int) list \<Rightarrow> vault_log" where
  "demo_entry block index args = \<lparr>ev_block = block, ev_args = args, vl_log_index = index, vl_addresses = [(''vault'', ''A'')]\<rparr>"

definition demo_hub :: vault_hub where
  "demo_hub = \<lparr>vh_step = 100, vh_logs = (\<lambda>name a b.
     if name = ''MintedSharesOnVault'' then Inr [demo_entry 14 0 [(''amountOfShares'', 130), (''lockedAmount'', 7)]]
     else if name = ''BurnedSharesOnVault'' then Inr [demo_entry 16 3 [(''amountOfShares'', 30)]]
     else if name = ''VaultFeesUpdated'' then Inr [demo_entry 14 5
       [(''preInfraFeeBP'', 0), (''infraFeeBP'', 100), (''preLiquidityFeeBP'', 500), (''liquidityFeeBP'', 400),
        (''preReservationFeeBP'', 0), (''reservationFeeBP'', 0)]]
     else Inr [])\<rparr>"

definition demo_fee_env :: fee_env where
  "demo_fee_env = \<lparr>fe_report = demo_report_env, fe_cl = demo_node, fe_last_processing_ref_slot = \<lambda>_. Inr 17, fe_hub = demo_hub,
     fe_batch_limit = 100, fe_get_ts = \<lambda>b. Inr (12 * (b + 5)), fe_batch_ts = \<lambda>bs. Inr (map (\<lambda>b. 12 * (b + 5)) bs)\<rparr>"

definition demo_fee_ref :: ref_blockstamp where
  "demo_fee_ref = \<lparr>bs_state_root = ''s'', bs_slot_number = 24, bs_block_hash = ''h'', bs_block_number = 19,
     bs_block_timestamp = 288, bs_ref_slot = 24, bs_ref_epoch = 0\<rparr>"

definition demo_rates :: rates where
  "demo_rates = \<lparr>ra_core_apr_ratio = 3 / 100, ra_pre_total_pooled_ether = 12, ra_pre_total_shares = 10\<rparr>"

definition demo_events :: "vault_event list" where
  "demo_events = [MintedSharesOnVaultEvent \<lparr>eb_block_number = 14, eb_log_index = 0\<rparr> ''A'' 130 7,
     VaultFeesUpdatedEvent \<lparr>eb_block_number = 14, eb_log_index = 5\<rparr> ''A'' 0 100 500 400 0 0,
     BurnedSharesOnVaultEvent \<lparr>eb_block_number = 16, eb_log_index = 3\<rparr> ''A'' 30]"

definition demo_first_report :: onchain_report where
  "demo_first_report = \<lparr>oc_timestamp = 0, oc_ref_slot = 0, oc_tree_root = [], oc_report_cid = []\<rparr>"

theorem liquidity_fee_accrues_over_history_witness:
  "\<exists>acc. calculate_liquidity_fee_by_events demo_rates [(14, 228), (16, 252)] ''A'' 100 400 (rev demo_events) 204 288 =
    Inr (acc, 0) \<and> accrued demo_rates [(0, 24, 500), (130, 0, 500), (130, 24, 400), (100, 36, 400)] 0 = Inr acc"
proof -
  have h: "history ''A'' [(14, 228), (16, 252)] 204 demo_events 288 500" by code_simp
  have s: "sorted_wrt (\<lambda>x y. position_of x < position_of y) demo_events"
    by (simp add: demo_events_def position_of_def)
  have p: "periods [(14, 228), (16, 252)] ''A'' 204 demo_events 288 0 500 =
      [(0, 24, 500), (130, 0, 500), (130, 24, 400), (100, 36, 400)]" by code_simp
  have v: "sum_list (map (shares_delta ''A'') demo_events) = 100" "fold fee_after demo_events 500 = 400" by code_simp+
  have "is_ok (accrued demo_rates [(0, 24, 500), (130, 0, 500), (130, 24, 400), (100, 36, 400)] 0)"
    by (simp add: accrued_def accrue_def get_steth_by_shares_def dec_divR_def demo_rates_def)
  then show ?thesis
    using liquidity_fee_accrues_over_history[OF h s, of "rev demo_events" demo_rates 0] by (auto simp: p v is_ok_iff)
qed

definition demo_filed :: "vault_event list" where
  "demo_filed = [VaultFeesUpdatedEvent \<lparr>eb_block_number = 14, eb_log_index = 5\<rparr> ''A'' 0 100 500 400 0 0,
     MintedSharesOnVaultEvent \<lparr>eb_block_number = 14, eb_log_index = 0\<rparr> ''A'' 130 7,
     BurnedSharesOnVaultEvent \<lparr>eb_block_number = 16, eb_log_index = 3\<rparr> ''A'' 30]"

lemma demo_filed_ne: "demo_filed \<noteq> []"
  by (simp add: demo_filed_def)

lemma demo_hub_pays: "hub_pays (fe_hub demo_fee_env)"
proof -
  have none: "events_loop 100 (\<lambda>a b. Inr []) a b = Some (Inr [] :: vault_log list res)" if "\<not> b < a" for a b
    using events_loop_honest[of 100 "[]" "\<lambda>a b. Inr []" a b] that by (simp add: logs_between_def)
  show ?thesis
    by (auto simp: none hub_pays_def demo_fee_env_def demo_hub_def hub_defs hub_events_def get_events_in_range_def res_simps)
qed

end
