(* ===== verification/Lido_Validators.thy ===== *)
theory Lido_Validators
  imports Bytes
begin

text \<open>
  \<open>src/web3py/extensions/lido_validators.py\<close> and \<open>src/services/deposit_signature_verification.py\<close>:
  matching Lido keys with validators, the pending deposits and consolidations that concern them, the
  detection of front-run deposits, and the grouping by node operator. The answers of the consensus
  node, the Keys API and the contracts are arguments. The SSZ hash tree roots and the BLS check are
  the fields of \<open>signature_lib\<close>.
\<close>

section \<open>Node operators and staking modules\<close>

datatype node_operator_limit_mode = DISABLED | SOFT | FORCE

record staking_module =
  sm_id :: module_id
  sm_staking_module_address :: hexstr
  sm_staking_module_fee :: int
  sm_treasury_fee :: int
  sm_stake_share_limit :: int
  sm_status :: int
  sm_name :: string
  sm_last_deposit_at :: int
  sm_last_deposit_block :: int
  sm_exited_validators_count :: int
  sm_priority_exit_share_threshold :: int
  sm_max_deposits_per_block :: int
  sm_min_deposit_block_distance :: int
  sm_withdrawal_credentials_type :: int
  sm_validators_balance_gwei :: gwei

record node_operator =
  no_id :: operator_id
  no_is_active :: bool
  no_is_target_limit_active :: node_operator_limit_mode
  no_target_validators_count :: int
  no_refunded_validators_count :: int
  no_total_exited_validators :: int
  no_total_deposited_validators :: int
  no_depositable_validators_count :: int
  no_staking_module :: staking_module

definition limit_mode_of :: "int \<Rightarrow> node_operator_limit_mode res" where
  "limit_mode_of n =
     (if n = 0 then Inr DISABLED else if n = 1 then Inr SOFT else if n = 2 then Inr FORCE
      else Inl ValueError)"

type_synonym operator_digest = "int \<times> bool \<times> (int \<times> int \<times> int \<times> int \<times> int \<times> int \<times> int \<times> int)"

definition node_operator_from_response :: "operator_digest \<Rightarrow> staking_module \<Rightarrow> node_operator res" where
  "node_operator_from_response data m =
     (case data of (op_id, is_active, (is_target_limit_active, target_validators_count, stuck,
        refunded, stuck_penalty_end, total_exited, total_deposited, depositable)) \<Rightarrow>
        bindR (limit_mode_of (min is_target_limit_active 2)) (\<lambda>mode.
          Inr \<lparr>no_id = op_id, no_is_active = is_active, no_is_target_limit_active = mode,
               no_target_validators_count = target_validators_count,
               no_refunded_validators_count = refunded, no_total_exited_validators = total_exited,
               no_total_deposited_validators = total_deposited,
               no_depositable_validators_count = depositable, no_staking_module = m\<rparr>))"

definition no_gid :: "node_operator \<Rightarrow> gid" where
  "no_gid operator = (sm_id (no_staking_module operator), no_id operator)"

section \<open>Dicts of lists\<close>

definition append_to :: "'k \<Rightarrow> 'v \<Rightarrow> ('k \<times> 'v list) list \<Rightarrow> ('k \<times> 'v list) list" where
  \<comment> \<open>\<open>d.setdefault(k, []).append(x)\<close>\<close>
  "append_to k x d = AList.update k (al_get [] d k @ [x]) d"

definition dict_of :: "('k \<times> 'v) list \<Rightarrow> ('k \<times> 'v) list" where
  \<comment> \<open>a dict comprehension: the last entry of a key counts\<close>
  "dict_of kvs = fold (\<lambda>(k, v). AList.update k v) kvs []"

lemma map_of_dict_of: "map_of (dict_of kvs) k = map_of (rev kvs) k"
proof -
  have "map_of (fold (\<lambda>(k, v). AList.update k v) kvs d) k =
      (case map_of (rev kvs) k of None \<Rightarrow> map_of d k | Some v \<Rightarrow> Some v)" for d
    by (induction kvs arbitrary: d) (auto simp: map_of_update_iff map_add_def split: option.splits)
  from this[of "[]"] show ?thesis by (simp add: dict_of_def split: option.splits)
qed

lemma dict_of_distinct: "distinct (map fst (dict_of kvs))"
proof -
  have "distinct (map fst d) \<Longrightarrow> distinct (map fst (fold (\<lambda>(k, v). AList.update k v) kvs d))" for d :: "('a \<times> 'b) list"
    by (induction kvs arbitrary: d) (auto intro: distinct_update)
  then show ?thesis by (simp add: dict_of_def)
qed

lemma dict_of_distinct_keys: "distinct (map fst kvs) \<Longrightarrow> dict_of kvs = kvs"
proof -
  have "distinct (map fst (d @ kvs)) \<Longrightarrow> fold (\<lambda>(k, v). AList.update k v) kvs d = d @ kvs" for d :: "('a \<times> 'b) list"
    by (induction kvs arbitrary: d) (auto simp: update_fresh)
  from this[of "[]"] show "distinct (map fst kvs) \<Longrightarrow> ?thesis" by (simp add: dict_of_def)
qed

lemma dict_of_keys: "map_of (dict_of (map (\<lambda>x. (f x, x)) xs)) k = Some x \<Longrightarrow> x \<in> set xs \<and> f x = k"
  by (auto simp: map_of_dict_of rev_map dest: map_of_SomeD)

lemma dict_of_None: "map_of (dict_of (map (\<lambda>x. (f x, x)) xs)) k = None \<longleftrightarrow> k \<notin> f ` set xs"
  by (simp add: map_of_dict_of map_of_eq_None_iff image_image)

definition group_by :: "('a \<Rightarrow> 'k) \<Rightarrow> 'a list \<Rightarrow> ('k \<times> 'a list) list \<Rightarrow> ('k \<times> 'a list) list" where
  "group_by key xs d = fold (\<lambda>x. append_to (key x) x) xs d"

lemma al_get_append_to [simp]:
  "al_get [] (append_to k x d) j = (if j = k then al_get [] d k @ [x] else al_get [] d j)"
  by (simp add: append_to_def)

lemma al_get_group_by: "al_get [] (group_by key xs d) k = al_get [] d k @ filter (\<lambda>x. key x = k) xs"
  by (induction xs arbitrary: d) (auto simp: group_by_def)

section \<open>Deposit signatures\<close>

record signature_lib =
  root_deposit_message :: "bytes \<Rightarrow> bytes \<Rightarrow> gwei \<Rightarrow> bytes"
  root_fork_data :: "bytes \<Rightarrow> bytes \<Rightarrow> bytes"
  root_signing_data :: "bytes \<Rightarrow> bytes \<Rightarrow> bytes"
  bls_verify :: "bytes \<Rightarrow> bytes \<Rightarrow> bytes \<Rightarrow> bool"

definition DOMAIN_DEPOSIT_TYPE :: bytes where "DOMAIN_DEPOSIT_TYPE = [3, 0, 0, 0]"
definition GENESIS_FORK_VERSION :: bytes where "GENESIS_FORK_VERSION = [0, 0, 0, 0]"

definition compute_fork_data_root :: "signature_lib \<Rightarrow> bytes \<Rightarrow> bytes \<Rightarrow> bytes" where
  "compute_fork_data_root lib current_version genesis_validators_root =
     root_fork_data lib current_version genesis_validators_root"

definition compute_domain :: "signature_lib \<Rightarrow> bytes \<Rightarrow> bytes option \<Rightarrow> bytes option \<Rightarrow> bytes" where
  "compute_domain lib domain_type fork_version genesis_validators_root =
     (let fork_version' = (case fork_version of None \<Rightarrow> GENESIS_FORK_VERSION | Some v \<Rightarrow> v);
          root = (case genesis_validators_root of None \<Rightarrow> replicate 32 0 | Some r \<Rightarrow> r)
      in domain_type @ take 28 (compute_fork_data_root lib fork_version' root))"

definition compute_signing_root :: "signature_lib \<Rightarrow> bytes \<Rightarrow> bytes \<Rightarrow> bytes" where
  "compute_signing_root lib object_root domain = root_signing_data lib object_root domain"

definition is_valid_deposit_signature ::
    "signature_lib \<Rightarrow> bytes \<Rightarrow> bytes \<Rightarrow> gwei \<Rightarrow> bytes \<Rightarrow> bytes option \<Rightarrow> bytes option \<Rightarrow> bool" where
  "is_valid_deposit_signature lib pubkey withdrawal_credentials amount signature
      genesis_fork_version genesis_validators_root =
     (let message = root_deposit_message lib pubkey withdrawal_credentials amount;
          domain = compute_domain lib DOMAIN_DEPOSIT_TYPE genesis_fork_version genesis_validators_root;
          signing_root = compute_signing_root lib message domain
      in bls_verify lib pubkey signing_root signature)"

definition deposit_signature_ok :: "signature_lib \<Rightarrow> bytes \<Rightarrow> pending_deposit \<Rightarrow> bool res" where
  \<comment> \<open>the call with its arguments converted from hex\<close>
  "deposit_signature_ok lib genesis_fork_version d =
     bindR (hex_str_to_bytes (pd_pubkey d)) (\<lambda>pk.
       bindR (hex_str_to_bytes (pd_withdrawal_credentials d)) (\<lambda>wc.
         bindR (hex_str_to_bytes (pd_signature d)) (\<lambda>sig.
           Inr (is_valid_deposit_signature lib pk wc (pd_amount d) sig (Some genesis_fork_version) None))))"

section \<open>Front-run detection\<close>

type_synonym deposit_state = "(hexstr \<times> pending_deposit list) list \<times> hexstr set"

definition collect_step ::
    "(pending_deposit \<Rightarrow> bool res) \<Rightarrow> hexstr set \<Rightarrow> hexstr list \<Rightarrow> pending_deposit \<Rightarrow>
     deposit_state \<Rightarrow> deposit_state res" where
  "collect_step valid_signature filter_pubkeys lido_wc_list d s =
     (case s of (result, invalid_keys) \<Rightarrow>
       if pd_pubkey d \<notin> filter_pubkeys then Inr (result, invalid_keys)
       else if map_of result (pd_pubkey d) \<noteq> None then Inr (append_to (pd_pubkey d) d result, invalid_keys)
       else if pd_pubkey d \<in> invalid_keys then Inr (result, invalid_keys)
       else bindR (valid_signature d) (\<lambda>ok.
         if \<not> ok then Inr (result, invalid_keys)
         else if pd_withdrawal_credentials d \<in> set lido_wc_list
         then Inr (AList.update (pd_pubkey d) [d] result, invalid_keys)
         else Inr (result, insert (pd_pubkey d) invalid_keys)))"

definition collect_valid_pending_deposits ::
    "(pending_deposit \<Rightarrow> bool res) \<Rightarrow> pending_deposit list \<Rightarrow> hexstr set \<Rightarrow> hexstr list \<Rightarrow>
     (hexstr \<times> pending_deposit list) list res" where
  "collect_valid_pending_deposits valid_signature pending_deposits filter_pubkeys lido_wc_list =
     bindR (foldR (collect_step valid_signature filter_pubkeys lido_wc_list) pending_deposits ([], {}))
       (\<lambda>(result, _). Inr result)"

definition lower_char :: "char \<Rightarrow> char" where
  "lower_char c = (let n = of_char c :: nat in if 65 \<le> n \<and> n \<le> 90 then char_of (n + 32) else c)"

definition get_lido_wc_list :: "hexstr \<Rightarrow> hexstr list" where
  "get_lido_wc_list withdrawal_vault =
     (let wc_postfix = replicate 22 CHR ''0'' @ map lower_char (drop 2 withdrawal_vault)
      in [ETH1_ADDRESS_WITHDRAWAL_PREFIX @ wc_postfix, COMPOUNDING_WITHDRAWAL_PREFIX @ wc_postfix])"

section \<open>Matching keys and validators\<close>

definition as_lido_validator :: "lido_key \<Rightarrow> validator \<Rightarrow> lido_validator" where
  "as_lido_validator key v = validator.extend v \<lparr>lido_id = key\<rparr>"

definition compute_lido_validators ::
    "lido_key list \<Rightarrow> validator list \<Rightarrow> lido_validator list \<times> lido_key list" where
  "compute_lido_validators keys validators =
     (let validators_keys_dict = dict_of (map (\<lambda>v. (vs_pubkey (v_validator v), v)) validators)
      in fold (\<lambda>key (lido_validators, pending_lido_keys).
           case map_of validators_keys_dict (lk_key key) of
             Some v \<Rightarrow> (lido_validators @ [as_lido_validator key v], pending_lido_keys)
           | None \<Rightarrow> (lido_validators, pending_lido_keys @ [key])) keys ([], []))"

definition kapi_sanity_check :: "int \<Rightarrow> int \<Rightarrow> unit res" where
  "kapi_sanity_check keys_count_received deposited_validators =
     (if keys_count_received < deposited_validators then Inl CountOfKeysDiffersException else Inr ())"

definition get_lido_validators_with_keys ::
    "lido_key list \<Rightarrow> validator list \<Rightarrow> int \<Rightarrow> (lido_validator list \<times> lido_key list) res" where
  "get_lido_validators_with_keys lido_keys validators deposited_validators =
     bindR (kapi_sanity_check (int (length lido_keys)) deposited_validators)
       (\<lambda>_. Inr (compute_lido_validators lido_keys validators))"

definition get_pending_lido_validators ::
    "signature_lib \<Rightarrow> hexstr \<Rightarrow> hexstr \<Rightarrow> pending_deposit list \<Rightarrow> lido_key list \<Rightarrow> validator list \<Rightarrow> int \<Rightarrow>
     (hexstr \<times> (lido_key \<times> pending_deposit list)) list res" where
  "get_pending_lido_validators lib withdrawal_vault genesis_fork_version pending_deposits
      lido_keys validators deposited_validators =
     bindR (get_lido_validators_with_keys lido_keys validators deposited_validators)
       (\<lambda>(_, pending_lido_keys).
          let pending_keys = dict_of (map (\<lambda>k. (lk_key k, k)) pending_lido_keys) in
          bindR (hex_str_to_bytes genesis_fork_version) (\<lambda>fork.
            bindR (collect_valid_pending_deposits (deposit_signature_ok lib fork) pending_deposits
                     (set (map fst pending_keys)) (get_lido_wc_list withdrawal_vault))
              (\<lambda>valid. mapR (\<lambda>(pubkey, deposits).
                  bindR (lookupR pending_keys pubkey) (\<lambda>k. Inr (pubkey, (k, deposits)))) valid)))"

section \<open>Deposits and consolidations of active validators\<close>

record pending_consolidation =
  pc_source_index :: int
  pc_target_index :: int

definition consolidation_step ::
    "(int \<times> validator) list \<Rightarrow> pending_consolidation \<Rightarrow>
     (int \<times> consolidation_request) list \<times> (int \<times> consolidation_request list) list \<Rightarrow>
     ((int \<times> consolidation_request) list \<times> (int \<times> consolidation_request list) list) res" where
  "consolidation_step validators_by_index c s = (case s of (by_source, by_target) \<Rightarrow>
     bindR (lookupR validators_by_index (pc_source_index c)) (\<lambda>source_validator.
       if vs_slashed (v_validator source_validator) then Inr (by_source, by_target)
       else
         let req = \<lparr>cr_source_index = pc_source_index c, cr_target_index = pc_target_index c,
                    cr_amount = min (v_balance source_validator)
                      (get_max_effective_balance (v_validator source_validator))\<rparr>
         in Inr (AList.update (pc_source_index c) req by_source,
                 append_to (pc_target_index c) req by_target)))"

definition link_validator ::
    "(hexstr \<times> pending_deposit list) list \<Rightarrow> (int \<times> consolidation_request) list \<Rightarrow>
     (int \<times> consolidation_request list) list \<Rightarrow> lido_validator \<Rightarrow> linked_validator" where
  "link_validator deposits_by_pubkey by_source by_target v =
     lido_validator.extend v
       \<lparr>pending_topups = al_get [] deposits_by_pubkey (vs_pubkey (v_validator v)),
        consolidating_as_source = map_of by_source (v_index v),
        consolidating_as_target = al_get [] by_target (v_index v)\<rparr>"

definition get_active_lido_validators ::
    "pending_deposit list \<Rightarrow> validator list \<Rightarrow> pending_consolidation list \<Rightarrow> lido_key list \<Rightarrow> int \<Rightarrow>
     linked_validator list res" where
  "get_active_lido_validators pending_deposits validators consolidations lido_keys deposited_validators =
     (let deposits_by_pubkey = group_by pd_pubkey pending_deposits [];
          validators_by_index = dict_of (map (\<lambda>v. (v_index v, v)) validators)
      in bindR (foldR (consolidation_step validators_by_index) consolidations ([], []))
        (\<lambda>(by_source, by_target).
          bindR (get_lido_validators_with_keys lido_keys validators deposited_validators)
            (\<lambda>(lido_validators, _).
               Inr (map (link_validator deposits_by_pubkey by_source by_target) lido_validators))))"

section \<open>Grouping by node operator\<close>

definition get_lido_node_operators :: "(module_id \<times> node_operator list) list \<Rightarrow> node_operator list" where
  "get_lido_node_operators by_modules = concat (map snd by_modules)"

definition by_operator_step ::
    "(hexstr \<times> module_id) list \<Rightarrow> linked_validator \<Rightarrow> (gid \<times> linked_validator list) list \<Rightarrow>
     (gid \<times> linked_validator list) list res" where
  "by_operator_step staking_module_address v no_validators =
     bindR (lookupR staking_module_address (lk_module_address (lido_id v))) (\<lambda>module_id.
       let global_no_id = (module_id, lk_operator_index (lido_id v)) in
       if map_of no_validators global_no_id \<noteq> None
       then Inr (append_to global_no_id v no_validators) else Inr no_validators)"

definition get_lido_validators_by_node_operators ::
    "linked_validator list \<Rightarrow> node_operator list \<Rightarrow> (gid \<times> linked_validator list) list res" where
  "get_lido_validators_by_node_operators merged_validators no_operators =
     (let no_validators = dict_of (map (\<lambda>operator. (no_gid operator, [])) no_operators);
          staking_module_address = dict_of (map (\<lambda>operator.
            (sm_staking_module_address (no_staking_module operator), sm_id (no_staking_module operator))) no_operators)
      in foldR (by_operator_step staking_module_address) merged_validators no_validators)"

section \<open>Keys and validators are matched without loss\<close>

lemma compute_lido_validators_eq:
  "compute_lido_validators keys vs =
     (let d = dict_of (map (\<lambda>v. (vs_pubkey (v_validator v), v)) vs) in
      (map (\<lambda>k. as_lido_validator k (the (map_of d (lk_key k)))) (filter (\<lambda>k. map_of d (lk_key k) \<noteq> None) keys),
       filter (\<lambda>k. map_of d (lk_key k) = None) keys))"
proof -
  have "fold (\<lambda>key (lvs, pks). case map_of d (lk_key key) of
          Some v \<Rightarrow> (lvs @ [as_lido_validator key v], pks) | None \<Rightarrow> (lvs, pks @ [key])) keys (a, b) =
      (a @ map (\<lambda>k. as_lido_validator k (the (map_of d (lk_key k)))) (filter (\<lambda>k. map_of d (lk_key k) \<noteq> None) keys),
       b @ filter (\<lambda>k. map_of d (lk_key k) = None) keys)" for d :: "(hexstr \<times> validator) list" and a b
    by (induction keys arbitrary: a b) (auto split: option.splits)
  then show ?thesis by (simp add: compute_lido_validators_def Let_def)
qed

lemma as_lido_validator_simps [simp]:
  "lido_id (as_lido_validator k v) = k" "v_validator (as_lido_validator k v) = v_validator v"
  "v_index (as_lido_validator k v) = v_index v" "v_balance (as_lido_validator k v) = v_balance v"
  by (simp_all add: as_lido_validator_def validator.extend_def)

text \<open>
  Matching splits the Lido keys without loss: every key is either the identity of exactly one
  Lido validator or pending, in the given order; a Lido validator is one of the chain's validators
  with the key's public key, and a pending key is the public key of none.
\<close>

theorem lido_keys_partition:
  assumes "compute_lido_validators keys vs = (lvs, pks)"
  shows "map lido_id lvs = filter (\<lambda>k. lk_key k \<in> (\<lambda>v. vs_pubkey (v_validator v)) ` set vs) keys \<and>
    pks = filter (\<lambda>k. lk_key k \<notin> (\<lambda>v. vs_pubkey (v_validator v)) ` set vs) keys \<and>
    (\<forall>lv \<in> set lvs. vs_pubkey (v_validator lv) = lk_key (lido_id lv) \<and>
       (\<exists>v \<in> set vs. lv = as_lido_validator (lido_id lv) v))"
proof -
  let ?d = "dict_of (map (\<lambda>v. (vs_pubkey (v_validator v), v)) vs)"
  from assms have lvs: "lvs = map (\<lambda>k. as_lido_validator k (the (map_of ?d (lk_key k))))
      (filter (\<lambda>k. map_of ?d (lk_key k) \<noteq> None) keys)"
    and pks: "pks = filter (\<lambda>k. map_of ?d (lk_key k) = None) keys"
    by (simp_all add: compute_lido_validators_eq Let_def)
  have known: "map_of ?d k = None \<longleftrightarrow> k \<notin> (\<lambda>v. vs_pubkey (v_validator v)) ` set vs" for k
    by (rule dict_of_None)
  have "vs_pubkey (v_validator lv) = lk_key (lido_id lv) \<and> (\<exists>v \<in> set vs. lv = as_lido_validator (lido_id lv) v)"
    if "lv \<in> set lvs" for lv
  proof -
    from that obtain k v where kv: "lv = as_lido_validator k v" "map_of ?d (lk_key k) = Some v"
      unfolding lvs by auto
    with dict_of_keys[OF kv(2)] show ?thesis by auto
  qed
  moreover have "map lido_id lvs = filter (\<lambda>k. map_of ?d (lk_key k) \<noteq> None) keys"
    by (simp add: lvs comp_def)
  ultimately show ?thesis unfolding pks known by auto
qed

definition demo_lido_key :: "nat \<Rightarrow> hexstr \<Rightarrow> lido_key" where
  "demo_lido_key i key = \<lparr>lk_index = int i, lk_key = key, lk_operator_index = 0, lk_module_address = ''m''\<rparr>"

definition demo_chain_validator :: "int \<Rightarrow> hexstr \<Rightarrow> validator" where
  "demo_chain_validator i key =
     \<lparr>v_index = i, v_balance = 32 * 10 ^ 9,
      v_validator = \<lparr>vs_pubkey = key, vs_withdrawal_credentials = ''0x01'',
        vs_effective_balance = 32 * 10 ^ 9, vs_slashed = False, vs_activation_eligibility_epoch = 0,
        vs_activation_epoch = 0, vs_exit_epoch = FAR_FUTURE_EPOCH, vs_withdrawable_epoch = FAR_FUTURE_EPOCH\<rparr>\<rparr>"

theorem lido_keys_partition_witness:
  "map lido_id (fst (compute_lido_validators [demo_lido_key 0 ''a'', demo_lido_key 1 ''b'']
       [demo_chain_validator 7 ''x'', demo_chain_validator 8 ''b''])) = [demo_lido_key 1 ''b''] \<and>
   snd (compute_lido_validators [demo_lido_key 0 ''a'', demo_lido_key 1 ''b'']
       [demo_chain_validator 7 ''x'', demo_chain_validator 8 ''b'']) = [demo_lido_key 0 ''a'']"
proof -
  obtain lvs pks where r: "compute_lido_validators [demo_lido_key 0 ''a'', demo_lido_key 1 ''b'']
       [demo_chain_validator 7 ''x'', demo_chain_validator 8 ''b''] = (lvs, pks)" by fastforce
  from lido_keys_partition[OF r] show ?thesis
    unfolding r by (simp add: demo_lido_key_def demo_chain_validator_def)
qed
section \<open>Front-run deposits are excluded\<close>

text \<open>
  The deposits of a key that count: from its first validly signed one on, and none if that one has
  foreign withdrawal credentials, since the consensus layer keeps the first credentials for good.
\<close>

definition counted :: "(pending_deposit \<Rightarrow> bool res) \<Rightarrow> pending_deposit list \<Rightarrow> hexstr \<Rightarrow> pending_deposit list" where
  "counted valid_signature ds k =
     dropWhile (\<lambda>d. valid_signature d \<noteq> Inr True) (filter (\<lambda>d. pd_pubkey d = k) ds)"

definition safe_deposits ::
    "(pending_deposit \<Rightarrow> bool res) \<Rightarrow> hexstr set \<Rightarrow> hexstr list \<Rightarrow> pending_deposit list \<Rightarrow> hexstr \<Rightarrow>
     pending_deposit list option" where
  "safe_deposits valid_signature keys wcs ds k =
     (if k \<notin> keys then None
      else case counted valid_signature ds k of
        [] \<Rightarrow> None
      | d # rest \<Rightarrow> (if pd_withdrawal_credentials d \<in> set wcs then Some (d # rest) else None))"

definition deposits_inv ::
    "(pending_deposit \<Rightarrow> bool res) \<Rightarrow> hexstr set \<Rightarrow> hexstr list \<Rightarrow> pending_deposit list \<Rightarrow> deposit_state \<Rightarrow> bool" where
  "deposits_inv valid_signature keys wcs ds s \<longleftrightarrow>
     (\<forall>k. map_of (fst s) k = safe_deposits valid_signature keys wcs ds k \<and>
       (k \<in> snd s \<longleftrightarrow> k \<in> keys \<and> counted valid_signature ds k \<noteq> [] \<and>
          pd_withdrawal_credentials (hd (counted valid_signature ds k)) \<notin> set wcs))"

lemma counted_snoc:
  "counted vf (ds @ [d]) k =
     (if pd_pubkey d \<noteq> k then counted vf ds k
      else if counted vf ds k \<noteq> [] then counted vf ds k @ [d]
      else if vf d = Inr True then [d] else [])"
  by (auto simp: counted_def dropWhile_append eq_commute[of "[]"])

lemma map_of_append_to: "map_of (append_to k x d) j = (if j = k then Some (al_get [] d k @ [x]) else map_of d j)"
  by (simp add: append_to_def map_of_update_iff)

lemma collect_step_inv [inv_intros]:
  assumes inv: "deposits_inv vf keys wcs ds s" and step: "collect_step vf keys wcs d s = Inr s'"
  shows "deposits_inv vf keys wcs (ds @ [d]) s'"
proof -
  obtain result invalid where s: "s = (result, invalid)" by fastforce
  let ?p = "pd_pubkey d"
  have res: "map_of result k = safe_deposits vf keys wcs ds k"
    and bad: "k \<in> invalid \<longleftrightarrow> k \<in> keys \<and> counted vf ds k \<noteq> [] \<and>
      pd_withdrawal_credentials (hd (counted vf ds k)) \<notin> set wcs" for k
    using inv by (simp_all add: deposits_inv_def s)
  consider (other) "?p \<notin> keys" | (more) "?p \<in> keys" "counted vf ds ?p \<noteq> []"
    | (new) "?p \<in> keys" "counted vf ds ?p = []" by blast
  then show ?thesis
  proof cases
    case other
    with step have "s' = s" by (simp add: collect_step_def s)
    with other inv show ?thesis
      by (auto simp: deposits_inv_def safe_deposits_def counted_snoc)
  next
    case more
    then obtain e es where e: "counted vf ds ?p = e # es" by (cases "counted vf ds ?p") auto
    show ?thesis
    proof (cases "pd_withdrawal_credentials e \<in> set wcs")
      case True
      then have r: "map_of result ?p = Some (e # es)" using more e by (simp add: res safe_deposits_def)
      with step more(1) have "s' = (append_to ?p d result, invalid)" by (simp add: collect_step_def s)
      with r e True more(1) show ?thesis
        by (auto simp: deposits_inv_def map_of_append_to al_get_def res bad safe_deposits_def counted_snoc
            split: if_splits)
    next
      case False
      then have "map_of result ?p = None" "?p \<in> invalid" using more e by (simp_all add: res bad safe_deposits_def)
      with step more(1) have "s' = s" by (simp add: collect_step_def s)
      with e False more(1) show ?thesis
        by (auto simp: deposits_inv_def s res bad safe_deposits_def counted_snoc split: if_splits)
    qed
  next
    case new
    then have "map_of result ?p = None" "?p \<notin> invalid" by (simp_all add: res bad safe_deposits_def)
    with step new(1) obtain ok where ok: "vf d = Inr ok"
      "s' = (if \<not> ok then s else if pd_withdrawal_credentials d \<in> set wcs
             then (AList.update ?p [d] result, invalid) else (result, insert ?p invalid))"
      by (auto simp: collect_step_def s res_simps split: if_splits)
    with new show ?thesis
      by (auto simp: deposits_inv_def s res bad safe_deposits_def counted_snoc map_of_update_iff split: if_splits)
  qed
qed

text \<open>
  C2. Front-run protection: a key's pending deposits are counted exactly when the key is one asked
  for and its first deposit with a valid signature carries Lido withdrawal credentials; then all its
  deposits from that one on are counted, in order. A key first deposited validly with foreign
  credentials is never counted, whatever is deposited afterwards.
\<close>

theorem frontrun_deposits_excluded:
  assumes "collect_valid_pending_deposits valid_signature ds keys wcs = Inr result"
  shows "map_of result k = safe_deposits valid_signature keys wcs ds k"
proof -
  from assms obtain invalid where
    "foldR (collect_step valid_signature keys wcs) ds ([], {}) = Inr (result, invalid)"
    by (auto simp: collect_valid_pending_deposits_def res_simps)
  then have "deposits_inv valid_signature keys wcs ds (result, invalid)"
  proof (rule foldR_prefix_invariant[where P = "deposits_inv valid_signature keys wcs"])
    show "deposits_inv valid_signature keys wcs [] ([], {})"
      by (simp add: deposits_inv_def safe_deposits_def counted_def)
  qed (rule collect_step_inv)
  then show ?thesis by (simp add: deposits_inv_def)
qed

definition demo_deposit :: "hexstr \<Rightarrow> hexstr \<Rightarrow> int \<Rightarrow> pending_deposit" where
  "demo_deposit pk wc amount =
     \<lparr>pd_pubkey = pk, pd_withdrawal_credentials = wc, pd_amount = amount, pd_signature = ''ok'', pd_slot = 0\<rparr>"

definition demo_deposits :: "pending_deposit list" where
  "demo_deposits =
     [demo_deposit ''a'' ''lido'' 1 \<lparr>pd_signature := ''bad''\<rparr>, demo_deposit ''b'' ''thief'' 1,
      demo_deposit ''a'' ''lido'' 2, demo_deposit ''b'' ''lido'' 31, demo_deposit ''a'' ''x'' 3]"

definition demo_signature :: "pending_deposit \<Rightarrow> bool res" where
  "demo_signature d = Inr (pd_signature d = ''ok'')"

theorem frontrun_deposits_excluded_witness:
  "\<exists>result. collect_valid_pending_deposits demo_signature demo_deposits {''a'', ''b''} [''lido''] = Inr result \<and>
     map_of result ''a'' = Some [demo_deposit ''a'' ''lido'' 2, demo_deposit ''a'' ''x'' 3] \<and>
     map_of result ''b'' = None"
proof -
  have "is_ok (collect_valid_pending_deposits demo_signature demo_deposits {''a'', ''b''} [''lido''])"
    by code_simp
  then obtain result where r:
    "collect_valid_pending_deposits demo_signature demo_deposits {''a'', ''b''} [''lido''] = Inr result"
    by (auto simp: is_ok_iff)
  have "safe_deposits demo_signature {''a'', ''b''} [''lido''] demo_deposits ''a'' =
      Some [demo_deposit ''a'' ''lido'' 2, demo_deposit ''a'' ''x'' 3]"
    "safe_deposits demo_signature {''a'', ''b''} [''lido''] demo_deposits ''b'' = None" by code_simp+
  with frontrun_deposits_excluded[OF r] r show ?thesis by auto
qed

end
