(* ===== verification/Midterm.thy ===== *)
theory Midterm
  imports Converter Lido_Validators
begin

text \<open>
  \<open>src/services/bunker_cases/midterm_slashing_penalty.py\<close>: the forecast of midterm slashing
  penalties. \<open>cut_slashings\<close> works on the consensus layer's ring buffer of slashed balances, and
  \<open>ring_window\<close> is the fact about ring buffers its correctness rests on.
\<close>

section \<open>Definitions\<close>

definition has_midterm_impact :: "epoch \<Rightarrow> 'a validator_scheme \<Rightarrow> bool" where
  "has_midterm_impact ref_epoch v \<longleftrightarrow>
     vs_slashed (v_validator v) \<and> vs_withdrawable_epoch (v_validator v) > ref_epoch"

definition get_slashed_validators_with_impact_on_midterm_penalties ::
    "'a validator_scheme list \<Rightarrow> epoch \<Rightarrow> 'a validator_scheme list" where
  "get_slashed_validators_with_impact_on_midterm_penalties validators ref_epoch =
     filter (has_midterm_impact ref_epoch) validators"

definition get_possible_slashed_epochs :: "'a validator_scheme \<Rightarrow> epoch \<Rightarrow> epoch list" where
  "get_possible_slashed_epochs validator ref_epoch =
     (let v = v_validator validator in
      if vs_withdrawable_epoch v - vs_exit_epoch v > MIN_VALIDATOR_WITHDRAWABILITY_DELAY
      then [vs_withdrawable_epoch v - EPOCHS_PER_SLASHINGS_VECTOR]
      else
        let earliest_possible_slashed_epoch = max 0 (ref_epoch - EPOCHS_PER_SLASHINGS_VECTOR);
            latest_possible_epoch = min ref_epoch (vs_withdrawable_epoch v - EPOCHS_PER_SLASHINGS_VECTOR)
        in [earliest_possible_slashed_epoch..latest_possible_epoch])"

definition get_midterm_penalty_epoch :: "'a validator_scheme \<Rightarrow> epoch" where
  "get_midterm_penalty_epoch v =
     vs_withdrawable_epoch (v_validator v) - EPOCHS_PER_SLASHINGS_VECTOR div 2"

definition get_lido_validators_with_future_midterm_epoch ::
    "epoch \<Rightarrow> frame_config \<Rightarrow> 'a validator_scheme list \<Rightarrow> (frame \<times> 'a validator_scheme list) list" where
  "get_lido_validators_with_future_midterm_epoch ref_epoch f lido_validators =
     fold (\<lambda>v buckets.
       if \<not> vs_slashed (v_validator v) then buckets
       else if get_midterm_penalty_epoch v \<le> ref_epoch then buckets
       else append_to (get_frame_by_epoch f (get_midterm_penalty_epoch v)) v buckets) lido_validators []"

definition cut_slashings :: "gwei list \<Rightarrow> epoch \<Rightarrow> epoch \<Rightarrow> gwei list res" where
  "cut_slashings slashings midterm_penalty_epoch report_ref_epoch =
     (if int (length slashings) \<noteq> EPOCHS_PER_SLASHINGS_VECTOR then Inl ValueError
      else if midterm_penalty_epoch - report_ref_epoch > EPOCHS_PER_SLASHINGS_VECTOR then Inr []
      else
        let obsolete_indexes = (\<lambda>i. i mod EPOCHS_PER_SLASHINGS_VECTOR) `
              set [report_ref_epoch + 1..midterm_penalty_epoch - 1]
        in Inr (map snd (filter (\<lambda>(i, v). int i \<notin> obsolete_indexes) (enumerate 0 slashings))))"

definition get_validator_midterm_penalty ::
    "'a validator_scheme \<Rightarrow> gwei list \<Rightarrow> gwei \<Rightarrow> epoch \<Rightarrow> epoch \<Rightarrow> gwei res" where
  "get_validator_midterm_penalty v slashings total_balance midterm_penalty_epoch report_ref_epoch =
     bindR (cut_slashings slashings midterm_penalty_epoch report_ref_epoch) (\<lambda>cut.
       let slashings_sum = sum_list cut;
           adjusted_total_slashing_balance =
             min (slashings_sum * PROPORTIONAL_SLASHING_MULTIPLIER_BELLATRIX) total_balance;
           effective_balance = vs_effective_balance (v_validator v);
           increment = EFFECTIVE_BALANCE_INCREMENT
       in bindR (floordivR adjusted_total_slashing_balance (total_balance div increment))
            (\<lambda>penalty_per_effective_balance_increment.
               let effective_balance_increments = effective_balance div increment
               in Inr (penalty_per_effective_balance_increment * effective_balance_increments)))"

definition predict_midterm_penalty_in_frame ::
    "epoch \<Rightarrow> gwei list \<Rightarrow> gwei \<Rightarrow> 'a validator_scheme list \<Rightarrow> gwei res" where
  "predict_midterm_penalty_in_frame report_ref_epoch slashings total_balance validators =
     foldR (\<lambda>v penalty_in_frame.
       bindR (get_validator_midterm_penalty v slashings total_balance (get_midterm_penalty_epoch v) report_ref_epoch)
         (\<lambda>p. Inr (penalty_in_frame + p))) validators 0"

definition get_future_midterm_penalty_sum_in_frames ::
    "epoch \<Rightarrow> gwei list \<Rightarrow> gwei \<Rightarrow> (frame \<times> 'a validator_scheme list) list \<Rightarrow> (frame \<times> gwei) list res" where
  "get_future_midterm_penalty_sum_in_frames ref_epoch slashings total_balance per_frame_validators =
     mapR (\<lambda>(frame_number, vs).
       bindR (predict_midterm_penalty_in_frame ref_epoch slashings total_balance vs)
         (\<lambda>p. Inr (frame_number, p))) per_frame_validators"

definition get_frame_cl_rebase_from_report_cl_rebase ::
    "chain_config \<Rightarrow> frame_config \<Rightarrow> gwei \<Rightarrow> epoch \<Rightarrow> slot \<Rightarrow> gwei res" where
  "get_frame_cl_rebase_from_report_cl_rebase c f report_cl_rebase ref_epoch last_report_ref_slot =
     (let last_report_ref_epoch = get_epoch_by_slot c last_report_ref_slot;
          epochs_passed_since_last_report = ref_epoch - last_report_ref_epoch
      in bindR (truedivR report_cl_rebase epochs_passed_since_last_report)
           (\<lambda>x. Inr (py_int (fl (x * float_of_int (epochs_per_frame f))))))"

definition is_high_midterm_slashing_penalty ::
    "epoch \<Rightarrow> chain_config \<Rightarrow> frame_config \<Rightarrow> 'a validator_scheme list \<Rightarrow> 'b validator_scheme list \<Rightarrow>
     gwei list \<Rightarrow> gwei \<Rightarrow> slot \<Rightarrow> bool res" where
  "is_high_midterm_slashing_penalty ref_epoch c f all_validators lido_validators slashings
      current_report_cl_rebase last_report_ref_slot =
     (let future_frames_lido_validators =
            get_lido_validators_with_future_midterm_epoch ref_epoch f lido_validators
      in if future_frames_lido_validators = [] then Inr False
         else
           let total_balance = calculate_total_active_effective_balance all_validators ref_epoch in
           bindR (get_future_midterm_penalty_sum_in_frames ref_epoch slashings total_balance
                    future_frames_lido_validators) (\<lambda>frames_lido_midterm_penalties.
             let max_lido_midterm_penalty = Max (set (map snd frames_lido_midterm_penalties)) in
             bindR (get_frame_cl_rebase_from_report_cl_rebase c f current_report_cl_rebase ref_epoch
                      last_report_ref_slot)
               (\<lambda>frame_cl_rebase. Inr (max_lido_midterm_penalty > frame_cl_rebase))))"

section \<open>The ring buffer of slashings\<close>

lemma mod_window_bij:
  assumes "0 < n"
  shows "bij_betw (\<lambda>e. e mod n) {a..<a + n} {0..<(n::int)}"
proof (rule bij_betw_imageI)
  show inj: "inj_on (\<lambda>e. e mod n) {a..<a + n}"
  proof (rule inj_onI)
    fix x y assume xy: "x \<in> {a..<a + n}" "y \<in> {a..<a + n}" and "x mod n = y mod n"
    then have "n dvd x - y" by (simp add: mod_eq_dvd_iff)
    moreover have "\<bar>x - y\<bar> < n" using xy by auto
    ultimately show "x = y" using zdvd_imp_le[of n "\<bar>x - y\<bar>"] by (cases "x = y") auto
  qed
  have "(\<lambda>e. e mod n) ` {a..<a + n} \<subseteq> {0..<n}" using assms by auto
  moreover have "card ((\<lambda>e. e mod n) ` {a..<a + n}) = card {0..<n}" using inj by (simp add: card_image)
  ultimately show "(\<lambda>e. e mod n) ` {a..<a + n} = {0..<n}" by (intro card_subset_eq) simp_all
qed

lemma sum_kept:
  "sum_list (map snd (filter (\<lambda>(i, v). int i \<notin> S) (enumerate 0 xs))) =
     (\<Sum>i \<in> {0..<int (length xs)} - S. (xs ! nat i :: int))"
proof -
  have "sum_list (map snd (filter (\<lambda>(i, v). int i \<notin> S) (enumerate 0 xs))) =
      (\<Sum>i | i < length xs \<and> int i \<notin> S. xs ! i)"
  proof (induction xs rule: rev_induct)
    case Nil
    then show ?case by simp
  next
    case (snoc x xs)
    have "{i. i < length (xs @ [x]) \<and> int i \<notin> S} =
        {i. i < length xs \<and> int i \<notin> S} \<union> (if int (length xs) \<in> S then {} else {length xs})"
      by (auto simp: less_Suc_eq)
    moreover have "(\<Sum>i | i < length xs \<and> int i \<notin> S. (xs @ [x]) ! i) = (\<Sum>i | i < length xs \<and> int i \<notin> S. xs ! i)"
      by (intro sum.cong) (auto simp: nth_append)
    ultimately show ?case using snoc by (auto simp: enumerate_append_eq)
  qed
  also have "\<dots> = (\<Sum>i \<in> {0..<int (length xs)} - S. xs ! nat i)"
    by (rule sum.reindex_bij_witness[of _ nat int]) auto
  finally show ?thesis .
qed

text \<open>
  The buckets left when the epochs after the reference epoch have overwritten theirs are those of the
  window of one cycle that ends with the reference epoch.
\<close>

lemma ring_window:
  assumes "0 < n" and "ref < m" and "m \<le> ref + n"
  shows "(\<Sum>i \<in> {0..<n} - (\<lambda>e. e mod n) ` {ref + 1..m - 1}. f i) = (\<Sum>e \<in> {m - n..ref}. f (e mod n :: int) :: int)"
proof -
  note b = mod_window_bij[OF assms(1), of "m - n"]
  then have inj: "inj_on (\<lambda>e. e mod n) {m - n..<m}" and img: "(\<lambda>e. e mod n) ` {m - n..<m} = {0..<n}"
    by (simp_all add: bij_betw_def)
  have split: "{m - n..<m} = {m - n..ref} \<union> {ref + 1..m - 1}" "{m - n..ref} \<inter> {ref + 1..m - 1} = {}"
    using assms(2,3) by auto
  have "{0..<n} - (\<lambda>e. e mod n) ` {ref + 1..m - 1} = (\<lambda>e. e mod n) ` {m - n..ref}"
    unfolding img[symmetric] split(1) image_Un
    using inj_on_image_set_diff[OF inj, of "{m - n..ref}" "{ref + 1..m - 1}"] split
    by (auto simp: Diff_triv)
  moreover have "inj_on (\<lambda>e. e mod n) {m - n..ref}" by (rule inj_on_subset[OF inj]) (use split in auto)
  ultimately show ?thesis by (simp add: sum.reindex)
qed

text \<open>
  The forecast sums exactly the buckets of the ring buffer that will survive until the midterm
  epoch: for a midterm epoch after the reference epoch and within a cycle of it, the slashings of
  the epochs from the midterm epoch minus 8192 up to the reference epoch, each once; beyond a cycle,
  nothing.
\<close>

theorem cut_slashings_window:
  assumes "int (length slashings) = EPOCHS_PER_SLASHINGS_VECTOR" and "ref < m"
  shows "\<exists>cut. cut_slashings slashings m ref = Inr cut \<and>
    sum_list cut = (\<Sum>e \<in> {m - EPOCHS_PER_SLASHINGS_VECTOR..ref}. slashings ! nat (e mod EPOCHS_PER_SLASHINGS_VECTOR))"
proof (cases "m \<le> ref + EPOCHS_PER_SLASHINGS_VECTOR")
  case False
  with assms(1) show ?thesis by (simp add: cut_slashings_def)
next
  case True
  have pos: "0 < EPOCHS_PER_SLASHINGS_VECTOR" by (simp add: constants_defs)
  let ?S = "(\<lambda>i. i mod EPOCHS_PER_SLASHINGS_VECTOR) ` {ref + 1..m - 1}"
  have "cut_slashings slashings m ref =
      Inr (map snd (filter (\<lambda>(i, v). int i \<notin> ?S) (enumerate 0 slashings)))"
    using True assms(1) by (simp add: cut_slashings_def Let_def)
  moreover note sum_kept[of ?S slashings] ring_window[OF pos assms(2) True, of "\<lambda>i. slashings ! nat i"]
  ultimately show ?thesis using assms(1) by auto
qed

theorem cut_slashings_window_witness:
  "\<exists>cut. cut_slashings (replicate 8192 5) 10100 10000 = Inr cut \<and> sum_list cut = 5 * 8093"
proof -
  have N: "EPOCHS_PER_SLASHINGS_VECTOR = 8192" by (simp add: constants_defs)
  have s: "(\<Sum>e \<in> {10100 - EPOCHS_PER_SLASHINGS_VECTOR..10000}.
      replicate 8192 5 ! nat (e mod EPOCHS_PER_SLASHINGS_VECTOR)) = (\<Sum>e \<in> {1908..10000::int}. 5 :: int)"
    unfolding N by (intro sum.cong) (simp_all add: nat_less_iff)
  from cut_slashings_window[of "replicate 8192 5" 10000 10100] s N show ?thesis by auto
qed

section \<open>A penalty never exceeds the balance\<close>

lemma active_sum_dvd:
  assumes "\<forall>v \<in> set vs. EFFECTIVE_BALANCE_INCREMENT dvd vs_effective_balance (v_validator v)"
  shows "EFFECTIVE_BALANCE_INCREMENT dvd calculate_total_active_effective_balance vs e"
proof -
  have "EFFECTIVE_BALANCE_INCREMENT dvd calculate_active_effective_balance_sum vs e"
    using assms unfolding active_sum_eq by (induction vs) auto
  then show ?thesis by (auto simp: calculate_total_active_effective_balance_def max_def)
qed

lemma cut_slashings_subset:
  assumes "int (length slashings) = EPOCHS_PER_SLASHINGS_VECTOR"
  shows "\<exists>cut. cut_slashings slashings m ref = Inr cut \<and> set cut \<subseteq> set slashings"
proof (cases "m - ref > EPOCHS_PER_SLASHINGS_VECTOR")
  case True
  with assms show ?thesis by (simp add: cut_slashings_def)
next
  case False
  with assms show ?thesis by (auto simp: cut_slashings_def Let_def in_set_enumerate_eq)
qed

text \<open>
  With the chain's effective balances (multiples of the increment) and buckets that are not
  negative, the forecast penalty exists and lies between zero and the validator's effective balance.
\<close>

theorem midterm_penalty_bounded:
  assumes "int (length slashings) = EPOCHS_PER_SLASHINGS_VECTOR" and "\<forall>x \<in> set slashings. 0 \<le> x"
    and "\<forall>v \<in> set all_validators. EFFECTIVE_BALANCE_INCREMENT dvd vs_effective_balance (v_validator v)"
    and "0 \<le> vs_effective_balance (v_validator v)"
  shows "\<exists>p. get_validator_midterm_penalty v slashings
      (calculate_total_active_effective_balance all_validators ref) m ref = Inr p \<and>
    0 \<le> p \<and> p \<le> vs_effective_balance (v_validator v)"
proof -
  let ?t = "calculate_total_active_effective_balance all_validators ref" and ?i = EFFECTIVE_BALANCE_INCREMENT
  let ?e = "vs_effective_balance (v_validator v)"
  have i: "0 < ?i" by (simp add: constants_defs)
  obtain q where q: "?t = ?i * q" using active_sum_dvd[OF assms(3)] by (auto elim: dvdE)
  have "?i * 1 \<le> ?i * q" using total_active_ge_increment[of all_validators ref] q by simp
  then have q1: "1 \<le> q" using i by (simp add: mult_le_cancel_left)
  obtain cut where cut: "cut_slashings slashings m ref = Inr cut" "set cut \<subseteq> set slashings"
    using cut_slashings_subset[OF assms(1)] by blast
  have s: "0 \<le> sum_list cut" using cut(2) assms(2) by (intro sum_list_nonneg) auto
  let ?a = "min (sum_list cut * PROPORTIONAL_SLASHING_MULTIPLIER_BELLATRIX) ?t"
  have a: "0 \<le> ?a" "?a \<le> ?i * q" using s q q1 i by (auto simp: constants_defs)
  have tq: "?t div ?i = q" using q i by simp
  have per: "0 \<le> ?a div q" "?a div q \<le> ?i"
    using a q1 zdiv_mono1[OF a(2), of q] by (auto simp: pos_imp_zdiv_nonneg_iff)
  have "?a div q * (?e div ?i) \<le> ?i * (?e div ?i)"
    using per(2) assms(4) i by (intro mult_right_mono) (simp_all add: pos_imp_zdiv_nonneg_iff)
  also have "\<dots> \<le> ?e" using i by (simp add: minus_mod_eq_mult_div[symmetric])
  finally have le: "?a div q * (?e div ?i) \<le> ?e" .
  have "0 \<le> ?a div q * (?e div ?i)"
    using per(1) assms(4) i by (simp add: pos_imp_zdiv_nonneg_iff)
  with le show ?thesis
    using cut(1) q1 by (simp add: get_validator_midterm_penalty_def Let_def floordivR_def tq)
qed

definition demo_validator :: "int \<Rightarrow> gwei \<Rightarrow> validator" where
  "demo_validator i b =
     \<lparr>v_index = i, v_balance = b,
      v_validator = \<lparr>vs_pubkey = ''0xab'', vs_withdrawal_credentials = ''0x01'',
        vs_effective_balance = b, vs_slashed = True, vs_activation_eligibility_epoch = 0,
        vs_activation_epoch = 10, vs_exit_epoch = 300000, vs_withdrawable_epoch = 300300\<rparr>\<rparr>"

theorem midterm_penalty_bounded_witness:
  "\<exists>p. get_validator_midterm_penalty (demo_validator 1 32000000000) (replicate 8192 7000000000)
      (calculate_total_active_effective_balance [demo_validator 1 32000000000] 100) 4000 100 = Inr p \<and>
    0 \<le> p \<and> p \<le> 32000000000"
proof -
  have "int (length (replicate 8192 (7000000000::int))) = EPOCHS_PER_SLASHINGS_VECTOR" by (simp add: constants_defs)
  from midterm_penalty_bounded[OF this, of "[demo_validator 1 32000000000]" "demo_validator 1 32000000000" 100 4000]
  show ?thesis by (simp add: demo_validator_def constants_defs)
qed

end
