(* ===== verification/Bunker.thy ===== *)
theory Bunker
  imports Midterm Slots Events
begin

text \<open>
  \<open>src/services/bunker_cases/abnormal_cl_rebase.py\<close>, \<open>src/services/bunker.py\<close> and their
  configuration: the decision to turn bunker mode on. The answers of the node, the Keys API and the
  contracts are the fields of \<open>abnormal_env\<close>; fetching events may not end (\<open>Events\<close>), so whatever
  depends on it is a result inside an option.
\<close>

section \<open>The square root of the library\<close>

fun isqrt :: "nat \<Rightarrow> nat" where
  "isqrt n = (if n = 0 then 0
     else let r = 2 * isqrt (n div 4) in if (r + 1) * (r + 1) \<le> n then r + 1 else r)"

declare isqrt.simps [simp del]

lemma isqrt_spec: "isqrt n * isqrt n \<le> n \<and> n < (isqrt n + 1) * (isqrt n + 1)"
proof (induction n rule: isqrt.induct)
  case (1 n)
  show ?case
  proof (cases "n = 0")
    case False
    let ?q = "isqrt (n div 4)"
    from 1 False have q: "?q * ?q \<le> n div 4" "n div 4 < (?q + 1) * (?q + 1)" by auto
    have "4 * (?q * ?q) \<le> n" using q(1) by linarith
    moreover have "n < 4 * ((?q + 1) * (?q + 1))" using q(2) by linarith
    ultimately show ?thesis using False by (subst (1 2 3 4) isqrt.simps) (simp add: Let_def algebra_simps)
  qed (simp add: isqrt.simps)
qed

text \<open>
  \<open>math.sqrt\<close> for arguments of at least one, correctly rounded: sixty bits of the root, and half a
  unit more when the root is not exact, so that the final rounding sees on which side it lies.
\<close>

definition fsqrt :: "rat \<Rightarrow> rat" where
  "fsqrt x =
     (let s = x * 4 ^ 60; r = isqrt (nat \<lfloor>s\<rfloor>);
          r' = (if of_nat (r * r) = s then of_nat r else of_nat r + 1 / 2)
      in fl (r' / 2 ^ 60))"

lemma fsqrt_ge_one: "1 \<le> x \<Longrightarrow> 1 \<le> fsqrt x"
proof -
  assume x: "1 \<le> x"
  let ?n = "nat \<lfloor>x * 4 ^ 60\<rfloor>"
  have "4 ^ 60 \<le> \<lfloor>x * 4 ^ 60\<rfloor>" using x by (simp add: le_floor_iff)
  then have "4 ^ 60 \<le> ?n" by (simp add: le_nat_iff)
  then have "(2 ^ 60) * (2 ^ 60) < (isqrt ?n + 1) * (isqrt ?n + 1)"
    using isqrt_spec[of ?n] by (simp add: power_mult_distrib[symmetric])
  then have "2 ^ 60 < isqrt ?n + 1" by (metis linorder_not_less mult_le_mono)
  then have "2 ^ 60 \<le> isqrt ?n" by simp
  then have "(2::rat) ^ 60 \<le> of_nat (isqrt ?n)"
    by (metis of_nat_le_iff of_nat_numeral of_nat_power)
  then have "(1::rat) \<le> of_nat (isqrt ?n) / 2 ^ 60" "(1::rat) \<le> (of_nat (isqrt ?n) + 1 / 2) / 2 ^ 60"
    by (simp_all add: le_divide_eq)
  then show ?thesis
    using float53.rnd_ge_int[of 1] by (simp add: fsqrt_def Let_def)
qed

section \<open>Abnormal rebase\<close>

record bunker_config =
  normalized_cl_reward_per_epoch :: int
  normalized_cl_reward_mistake_rate :: rat
  rebase_check_nearest_epoch_distance :: int
  rebase_check_distant_epoch_distance :: int

record abnormal_env =
  ab_chain :: chain_config
  ab_frame :: frame_config
  ab_conf :: bunker_config
  ab_cl :: cl_client
  ab_lido_keys :: "lido_key list"
  ab_validators :: "blockstamp \<Rightarrow> validator list res"
  ab_vault_balance :: "blockstamp \<Rightarrow> wei"
  ab_eth_distributed :: get_logs
  ab_search_step :: int
  ab_last_processing_ref_slot :: slot
  ab_lido_version :: "int \<Rightarrow> int"
  ab_pending_deposits :: "blockstamp \<Rightarrow> pending_deposit list"
  ab_deposited_since_last_report :: "hexstr \<Rightarrow> wei"
  ab_deposited_for_current_report :: "hexstr \<Rightarrow> wei"
  ab_withdrawal_vault :: hexstr
  ab_genesis_fork_version :: hexstr
  ab_signature_lib :: signature_lib

definition LIDO_V4 :: int where "LIDO_V4 = 4"

definition calculate_validators_count_diff_in_gwei ::
    "'a validator_scheme list \<Rightarrow> 'b validator_scheme list \<Rightarrow> gwei res" where
  "calculate_validators_count_diff_in_gwei prev_validators ref_validators =
     (let validators_diff = int (length ref_validators) - int (length prev_validators)
      in if validators_diff < 0 then Inl ValueError else Inr (validators_diff * LIDO_DEPOSIT_AMOUNT))"

definition get_mean_sum_of_effective_balance ::
    "epoch \<Rightarrow> epoch \<Rightarrow> 'a validator_scheme list \<Rightarrow> 'b validator_scheme list \<Rightarrow> gwei" where
  "get_mean_sum_of_effective_balance last_report_ref_epoch ref_epoch last_report_validators ref_validators =
     (let last_report_effective_balance_sum =
            calculate_active_effective_balance_sum last_report_validators last_report_ref_epoch;
          ref_effective_balance_sum = calculate_active_effective_balance_sum ref_validators ref_epoch
      in (ref_effective_balance_sum + last_report_effective_balance_sum) div 2)"

definition validate_slot_distance :: "slot \<Rightarrow> slot \<Rightarrow> slot \<Rightarrow> unit res" where
  "validate_slot_distance distant_slot nearest_slot ref_slot =
     (if distant_slot \<le> nearest_slot \<and> nearest_slot \<le> ref_slot then Inr () else Inl ValueError)"

definition calculate_validators_balance_sum :: "'a validator_scheme list \<Rightarrow> gwei" where
  "calculate_validators_balance_sum validators = (\<Sum>v\<leftarrow>validators. v_balance v)"

definition calculate_normal_cl_rebase :: "bunker_config \<Rightarrow> gwei \<Rightarrow> gwei \<Rightarrow> int \<Rightarrow> gwei res" where
  "calculate_normal_cl_rebase conf mean_all mean_lido epochs_passed =
     (let mean_all' = max EFFECTIVE_BALANCE_INCREMENT mean_all;
          root = fsqrt (float_of_int mean_all')
      in if root = 0 then Inl ZeroDivisionError
         else Inr (py_int (fl (float_of_int (normalized_cl_reward_per_epoch conf * mean_lido * epochs_passed) / root))))"

definition get_last_report_reference_blockstamp :: "abnormal_env \<Rightarrow> ref_blockstamp \<Rightarrow> ref_blockstamp res" where
  "get_last_report_reference_blockstamp env bs =
     get_reference_blockstamp (ab_cl env) (ab_last_processing_ref_slot env) (bs_slot_number bs)
       (ab_last_processing_ref_slot env div slots_per_epoch (ab_chain env))"

definition calculate_lido_normal_cl_rebase ::
    "abnormal_env \<Rightarrow> ref_blockstamp \<Rightarrow> validator list \<Rightarrow> linked_validator list \<Rightarrow> gwei res" where
  "calculate_lido_normal_cl_rebase env bs all_validators lido_validators =
     bindR (get_last_report_reference_blockstamp env bs) (\<lambda>last.
       let epochs_passed_since_last_report = bs_ref_epoch bs - bs_ref_epoch last in
       bindR (ab_validators env (blockstamp.truncate last)) (\<lambda>last_report_all_validators.
         let last_report_lido_validators = fst (compute_lido_validators (ab_lido_keys env) last_report_all_validators);
             mean_all = get_mean_sum_of_effective_balance (bs_ref_epoch last) (bs_ref_epoch bs)
               last_report_all_validators all_validators;
             mean_lido = get_mean_sum_of_effective_balance (bs_ref_epoch last) (bs_ref_epoch bs)
               last_report_lido_validators lido_validators
         in calculate_normal_cl_rebase (ab_conf env) mean_all mean_lido epochs_passed_since_last_report))"

definition get_nearest_and_distant_blockstamps ::
    "abnormal_env \<Rightarrow> ref_blockstamp \<Rightarrow> (blockstamp \<times> blockstamp) res" where
  "get_nearest_and_distant_blockstamps env bs =
     (let spe = slots_per_epoch (ab_chain env);
          nearest_slot = bs_ref_slot bs - rebase_check_nearest_epoch_distance (ab_conf env) * spe;
          distant_slot = bs_ref_slot bs - rebase_check_distant_epoch_distance (ab_conf env) * spe
      in bindR (validate_slot_distance distant_slot nearest_slot (bs_slot_number bs)) (\<lambda>_.
           bindR (get_blockstamp (ab_cl env) nearest_slot (bs_slot_number bs)) (\<lambda>nearest.
             bindR (get_blockstamp (ab_cl env) distant_slot (bs_slot_number bs)) (\<lambda>distant.
               Inr (nearest, distant)))))"

definition validate_prev_slot_within_ref_frame :: "abnormal_env \<Rightarrow> slot \<Rightarrow> slot \<Rightarrow> unit res" where
  "validate_prev_slot_within_ref_frame env prev_slot ref_slot =
     (let frame_first_slot = get_frame_first_slot (ab_chain env) (ab_frame env)
            (get_frame_by_slot (ab_chain env) (ab_frame env) ref_slot)
      in if prev_slot < frame_first_slot then Inl ValueError else Inr ())"

definition sum_valid_lido_pending ::
    "abnormal_env \<Rightarrow> blockstamp \<Rightarrow> hexstr set \<Rightarrow> hexstr set \<Rightarrow> hexstr list \<Rightarrow> bytes \<Rightarrow> gwei res" where
  "sum_valid_lido_pending env bs lido_pubkeys existing_pubkeys lido_wc_list genesis_fork_version =
     (let pending_deposits = ab_pending_deposits env bs;
          total = fold (\<lambda>d t. if pd_pubkey d \<in> existing_pubkeys then t + pd_amount d else t) pending_deposits 0
      in bindR (collect_valid_pending_deposits (deposit_signature_ok (ab_signature_lib env) genesis_fork_version)
                  pending_deposits (lido_pubkeys - existing_pubkeys) lido_wc_list) (\<lambda>valid.
           Inr (fold (\<lambda>(_, deposits) t. t + sum_list (map pd_amount deposits)) valid total)))"

definition calculate_injected_capital ::
    "abnormal_env \<Rightarrow> blockstamp \<Rightarrow> ref_blockstamp \<Rightarrow> lido_validator list \<Rightarrow> linked_validator list \<Rightarrow> gwei res" where
  "calculate_injected_capital env prev ref prev_lido_validators lido_validators =
     bindR (get_last_report_reference_blockstamp env ref) (\<lambda>last.
       if ab_lido_version env (bs_block_number last) < LIDO_V4
       then calculate_validators_count_diff_in_gwei prev_lido_validators lido_validators
       else
         bindR (validate_prev_slot_within_ref_frame env (bs_slot_number prev) (bs_ref_slot ref)) (\<lambda>_.
           bindR (hex_str_to_bytes (ab_genesis_fork_version env)) (\<lambda>fork.
             let lido_pubkeys = lk_key ` set (ab_lido_keys env);
                 lido_wc_list = get_lido_wc_list (ab_withdrawal_vault env);
                 prev_pubkeys = (\<lambda>v. vs_pubkey (v_validator v)) ` set prev_lido_validators;
                 ref_pubkeys = (\<lambda>v. vs_pubkey (v_validator v)) ` set lido_validators
             in bindR (sum_valid_lido_pending env prev lido_pubkeys prev_pubkeys lido_wc_list fork) (\<lambda>old_pending.
                  let ref_deposited_in_frame = ab_deposited_since_last_report env (bs_block_hash ref)
                        - ab_deposited_for_current_report env (bs_block_hash ref);
                      prev_deposited_in_frame = ab_deposited_since_last_report env (bs_block_hash prev)
                        - ab_deposited_for_current_report env (bs_block_hash prev);
                      deposited_in_window = wei_to_gwei (ref_deposited_in_frame - prev_deposited_in_frame)
                  in bindR (sum_valid_lido_pending env (blockstamp.truncate ref) lido_pubkeys ref_pubkeys lido_wc_list fork)
                       (\<lambda>current_pending. Inr (deposited_in_window + old_pending - current_pending))))))"

definition get_lido_validators_balance_with_vault ::
    "abnormal_env \<Rightarrow> blockstamp \<Rightarrow> 'a validator_scheme list \<Rightarrow> gwei" where
  "get_lido_validators_balance_with_vault env bs lido_validators =
     calculate_validators_balance_sum lido_validators + wei_to_gwei (ab_vault_balance env bs)"

definition get_withdrawn_from_vault_between_blocks ::
    "abnormal_env \<Rightarrow> blockstamp \<Rightarrow> ref_blockstamp \<Rightarrow> gwei res option" where
  "get_withdrawn_from_vault_between_blocks env prev ref =
     bindO (get_events_in_range (ab_search_step env) (ab_eth_distributed env)
              (bs_block_number prev + 1) (bs_block_number ref)) (\<lambda>events.
       if length events > 1 then Some (Inl ValueError)
       else case events of
         [] \<Rightarrow> Some (Inr 0)
       | e # _ \<Rightarrow> Some (bindR (lookupR (ev_args e) ''withdrawalsWithdrawn'') (\<lambda>w. Inr (wei_to_gwei w))))"

definition calculate_cl_rebase_between_blocks ::
    "abnormal_env \<Rightarrow> blockstamp \<Rightarrow> ref_blockstamp \<Rightarrow> linked_validator list \<Rightarrow> gwei res option" where
  "calculate_cl_rebase_between_blocks env prev ref lido_validators =
     (if bs_block_number prev = bs_block_number ref then Some (Inr 0)
      else bindO (Some (ab_validators env prev)) (\<lambda>prev_validators.
        let prev_lido_validators = fst (compute_lido_validators (ab_lido_keys env) prev_validators);
            ref_balance_with_vault = get_lido_validators_balance_with_vault env (blockstamp.truncate ref) lido_validators;
            prev_balance_with_vault = get_lido_validators_balance_with_vault env prev prev_lido_validators;
            raw_cl_rebase = ref_balance_with_vault - prev_balance_with_vault
        in bindO (get_withdrawn_from_vault_between_blocks env prev ref) (\<lambda>withdrawn_from_vault.
             bindO (Some (calculate_injected_capital env prev ref prev_lido_validators lido_validators))
               (\<lambda>injected_capital. Some (Inr (raw_cl_rebase - injected_capital + withdrawn_from_vault))))))"

fun any_negative_rebase :: "(blockstamp \<Rightarrow> gwei res option) \<Rightarrow> blockstamp list \<Rightarrow> bool res option" where
  "any_negative_rebase rebase [] = Some (Inr False)"
| "any_negative_rebase rebase (b # bs) =
     bindO (rebase b) (\<lambda>r. if r < 0 then Some (Inr True) else any_negative_rebase rebase bs)"

definition is_negative_specific_cl_rebase ::
    "abnormal_env \<Rightarrow> ref_blockstamp \<Rightarrow> linked_validator list \<Rightarrow> bool res option" where
  "is_negative_specific_cl_rebase env bs lido_validators =
     bindO (Some (get_nearest_and_distant_blockstamps env bs)) (\<lambda>(nearest, distant).
       any_negative_rebase (\<lambda>b. calculate_cl_rebase_between_blocks env b bs lido_validators)
         (map snd (dict_of [(bs_block_number nearest, nearest), (bs_block_number distant, distant)])))"

definition is_abnormal_cl_rebase ::
    "abnormal_env \<Rightarrow> ref_blockstamp \<Rightarrow> validator list \<Rightarrow> linked_validator list \<Rightarrow> gwei \<Rightarrow> bool res option" where
  "is_abnormal_cl_rebase env bs all_validators lido_validators current_report_cl_rebase =
     bindO (Some (calculate_lido_normal_cl_rebase env bs all_validators lido_validators)) (\<lambda>normal_report_cl_rebase.
       if normal_report_cl_rebase = 0 then Some (Inr False)
       else
         let diff_current_with_normal = fl (1 - truediv current_report_cl_rebase normal_report_cl_rebase) in
         if diff_current_with_normal > normalized_cl_reward_mistake_rate (ab_conf env)
         then
           if rebase_check_nearest_epoch_distance (ab_conf env) = 0
             \<and> rebase_check_distant_epoch_distance (ab_conf env) = 0
           then Some (Inr True)
           else is_negative_specific_cl_rebase env bs lido_validators
         else Some (Inr False))"

section \<open>Bunker mode\<close>

definition get_bunker_config :: "int \<Rightarrow> int \<Rightarrow> int \<Rightarrow> int \<Rightarrow> bunker_config" where
  "get_bunker_config reward_per_epoch mistake_rate_bp nearest distant =
     \<lparr>normalized_cl_reward_per_epoch = reward_per_epoch,
      normalized_cl_reward_mistake_rate = truediv mistake_rate_bp TOTAL_BASIS_POINTS,
      rebase_check_nearest_epoch_distance = nearest, rebase_check_distant_epoch_distance = distant\<rparr>"

definition get_cl_rebase_for_current_report :: "wei \<Rightarrow> wei \<Rightarrow> gwei" where
  "get_cl_rebase_for_current_report post_total_pooled_ether before_report_total_pooled_ether =
     wei_to_gwei (post_total_pooled_ether - before_report_total_pooled_ether)"

definition is_bunker_mode ::
    "abnormal_env \<Rightarrow> ref_blockstamp \<Rightarrow> validator list \<Rightarrow> linked_validator list \<Rightarrow> gwei list \<Rightarrow> wei \<Rightarrow> wei \<Rightarrow>
     bool res option" where
  "is_bunker_mode env bs all_validators lido_validators slashings post_total_pooled_ether total_supply =
     (let last_report_ref_slot = ab_last_processing_ref_slot env in
      if last_report_ref_slot = 0 then Some (Inr False)
      else
        let current_report_cl_rebase = get_cl_rebase_for_current_report post_total_pooled_ether total_supply in
        if current_report_cl_rebase < 0 then Some (Inr True)
        else bindO (Some (is_high_midterm_slashing_penalty (bs_ref_epoch bs) (ab_chain env) (ab_frame env)
               all_validators lido_validators slashings current_report_cl_rebase last_report_ref_slot))
          (\<lambda>high_midterm_slashing_penalty.
             if high_midterm_slashing_penalty then Some (Inr True)
             else bindO (is_abnormal_cl_rebase env bs all_validators lido_validators current_report_cl_rebase)
               (\<lambda>abnormal_cl_rebase. if abnormal_cl_rebase then Some (Inr True) else Some (Inr False))))"

section \<open>What bunker mode guarantees\<close>

lemma normal_cl_rebase_total: "is_ok (calculate_normal_cl_rebase conf a l n)"
proof -
  have "1 \<le> max EFFECTIVE_BALANCE_INCREMENT a" by (simp add: constants_defs)
  then have "1 \<le> float_of_int (max EFFECTIVE_BALANCE_INCREMENT a)"
    unfolding float_of_int_def using float53.rnd_ge_int[of 1] by simp
  then have "1 \<le> fsqrt (float_of_int (max EFFECTIVE_BALANCE_INCREMENT a))" by (rule fsqrt_ge_one)
  then show ?thesis by (auto simp: calculate_normal_cl_rebase_def Let_def)
qed

lemma any_negative_rebase_False:
  "any_negative_rebase f bs = Some (Inr False) \<Longrightarrow> b \<in> set bs \<Longrightarrow> \<exists>r. f b = Some (Inr r) \<and> 0 \<le> r"
  by (induction bs) (auto simp: res_simps split: if_splits)

lemma future_penalties_False:
  assumes "is_high_midterm_slashing_penalty e c f all lido slashings rebase slot = Inr False"
    and "(n, vs) \<in> set (get_lido_validators_with_future_midterm_epoch e f lido)"
  shows "\<exists>p r. predict_midterm_penalty_in_frame e slashings (calculate_total_active_effective_balance all e) vs = Inr p \<and>
    get_frame_cl_rebase_from_report_cl_rebase c f rebase e slot = Inr r \<and> p \<le> r"
proof -
  let ?b = "get_lido_validators_with_future_midterm_epoch e f lido"
  let ?t = "calculate_total_active_effective_balance all e"
  from assms obtain ps r where
    ps: "get_future_midterm_penalty_sum_in_frames e slashings ?t ?b = Inr ps"
    and r: "get_frame_cl_rebase_from_report_cl_rebase c f rebase e slot = Inr r"
    and le: "\<not> Max (set (map snd ps)) > r"
    by (auto simp: is_high_midterm_slashing_penalty_def Let_def res_simps split: if_splits)
  from ps have "list_all2 (\<lambda>x y. bindR (predict_midterm_penalty_in_frame e slashings ?t (snd x)) (\<lambda>p. Inr (fst x, p)) = Inr y) ?b ps"
    by (auto simp: get_future_midterm_penalty_sum_in_frames_def mapR_Inr_iff split_beta)
  with assms(2) obtain p where p: "predict_midterm_penalty_in_frame e slashings ?t vs = Inr p" "(n, p) \<in> set ps"
    by (fastforce simp: list_all2_conv_all_nth in_set_conv_nth res_simps)
  have "p \<le> Max (set (map snd ps))" using p(2) by (intro Max_ge) force+
  with le p(1) r show ?thesis by auto
qed

text \<open>
  C4. Bunker mode off is a guarantee: after a first report, if the decision is off, the reported
  consensus layer rebase is not negative; in every future frame the forecast midterm penalties of
  Lido validators are covered by the rebase of one frame; and if the rebase falls short of the normal
  one by more than the tolerated rate, the sampled check was enabled and no sampled rebase was negative.
\<close>

theorem bunker_off_is_safe:
  assumes "is_bunker_mode env bs all_validators lido_validators slashings post pre = Some (Inr False)"
    and "ab_last_processing_ref_slot env \<noteq> 0"
  defines "rebase \<equiv> get_cl_rebase_for_current_report post pre"
  shows "0 \<le> rebase \<and>
    (\<forall>n vs. (n, vs) \<in> set (get_lido_validators_with_future_midterm_epoch (bs_ref_epoch bs) (ab_frame env) lido_validators) \<longrightarrow>
       (\<exists>p r. predict_midterm_penalty_in_frame (bs_ref_epoch bs) slashings
           (calculate_total_active_effective_balance all_validators (bs_ref_epoch bs)) vs = Inr p \<and>
         get_frame_cl_rebase_from_report_cl_rebase (ab_chain env) (ab_frame env) rebase (bs_ref_epoch bs)
           (ab_last_processing_ref_slot env) = Inr r \<and> p \<le> r)) \<and>
    (\<exists>normal. calculate_lido_normal_cl_rebase env bs all_validators lido_validators = Inr normal \<and>
       (normal \<noteq> 0 \<and> fl (1 - truediv rebase normal) > normalized_cl_reward_mistake_rate (ab_conf env) \<longrightarrow>
         (\<exists>nearest distant. get_nearest_and_distant_blockstamps env bs = Inr (nearest, distant) \<and>
            (\<exists>r. calculate_cl_rebase_between_blocks env distant bs lido_validators = Some (Inr r) \<and> 0 \<le> r) \<and>
            (bs_block_number nearest \<noteq> bs_block_number distant \<longrightarrow>
               (\<exists>r. calculate_cl_rebase_between_blocks env nearest bs lido_validators = Some (Inr r) \<and> 0 \<le> r)))))"
proof -
  from assms(1,2) have nonneg: "0 \<le> rebase"
    and mid: "is_high_midterm_slashing_penalty (bs_ref_epoch bs) (ab_chain env) (ab_frame env)
      all_validators lido_validators slashings rebase (ab_last_processing_ref_slot env) = Inr False"
    and ab: "is_abnormal_cl_rebase env bs all_validators lido_validators rebase = Some (Inr False)"
    by (auto simp: is_bunker_mode_def Let_def res_simps rebase_def split: if_splits)
  from ab obtain normal where
    normal: "calculate_lido_normal_cl_rebase env bs all_validators lido_validators = Inr normal"
    and rest: "normal \<noteq> 0 \<and> fl (1 - truediv rebase normal) > normalized_cl_reward_mistake_rate (ab_conf env)
      \<Longrightarrow> is_negative_specific_cl_rebase env bs lido_validators = Some (Inr False)"
    by (auto simp: is_abnormal_cl_rebase_def Let_def res_simps split: if_splits)
  have samples: "\<exists>nearest distant. get_nearest_and_distant_blockstamps env bs = Inr (nearest, distant) \<and>
            (\<exists>r. calculate_cl_rebase_between_blocks env distant bs lido_validators = Some (Inr r) \<and> 0 \<le> r) \<and>
            (bs_block_number nearest \<noteq> bs_block_number distant \<longrightarrow>
               (\<exists>r. calculate_cl_rebase_between_blocks env nearest bs lido_validators = Some (Inr r) \<and> 0 \<le> r))"
    if "is_negative_specific_cl_rebase env bs lido_validators = Some (Inr False)"
  proof -
    from that obtain nearest distant where nd: "get_nearest_and_distant_blockstamps env bs = Inr (nearest, distant)"
      and any: "any_negative_rebase (\<lambda>b. calculate_cl_rebase_between_blocks env b bs lido_validators)
         (map snd (dict_of [(bs_block_number nearest, nearest), (bs_block_number distant, distant)])) = Some (Inr False)"
      by (auto simp: is_negative_specific_cl_rebase_def res_simps)
    have "distant \<in> set (map snd (dict_of [(bs_block_number nearest, nearest), (bs_block_number distant, distant)]))"
      "bs_block_number nearest \<noteq> bs_block_number distant \<Longrightarrow>
       nearest \<in> set (map snd (dict_of [(bs_block_number nearest, nearest), (bs_block_number distant, distant)]))"
      by (simp_all add: dict_of_def)
    with any_negative_rebase_False[OF any] nd show ?thesis by blast
  qed
  show ?thesis using nonneg future_penalties_False[OF mid] normal rest samples by blast
qed

lemma normal_cl_rebase_no_lido: "calculate_normal_cl_rebase conf a 0 n = Inr 0"
  using normal_cl_rebase_total[of conf a 0 n]
  by (auto simp: calculate_normal_cl_rebase_def Let_def float_of_int_exact float53.rnd_zero py_int_def split: if_splits)

definition demo_abnormal :: abnormal_env where
  "demo_abnormal =
     \<lparr>ab_chain = mainnet_chain, ab_frame = mainnet_frame, ab_conf = get_bunker_config 64 1000 1 10,
      ab_cl = demo_node, ab_lido_keys = [], ab_validators = (\<lambda>_. Inr []), ab_vault_balance = (\<lambda>_. 0),
      ab_eth_distributed = (\<lambda>a b. Inr []), ab_search_step = 10000, ab_last_processing_ref_slot = 19,
      ab_lido_version = (\<lambda>_. 4), ab_pending_deposits = (\<lambda>_. []),
      ab_deposited_since_last_report = (\<lambda>_. 0), ab_deposited_for_current_report = (\<lambda>_. 0),
      ab_withdrawal_vault = ''0xAB'', ab_genesis_fork_version = ''0x00000000'',
      ab_signature_lib = \<lparr>root_deposit_message = (\<lambda>_ _ _. []), root_fork_data = (\<lambda>_ _. []),
        root_signing_data = (\<lambda>_ _. []), bls_verify = (\<lambda>_ _ _. True)\<rparr>\<rparr>"

definition demo_ref :: ref_blockstamp where
  "demo_ref =
     \<lparr>bs_state_root = ''s'', bs_slot_number = 24, bs_block_hash = ''h'', bs_block_number = 19,
      bs_block_timestamp = 288, bs_ref_slot = 24, bs_ref_epoch = 0\<rparr>"

lemma demo_bunker_off: "is_bunker_mode demo_abnormal demo_ref [] [] [] 7000000000 5000000000 = Some (Inr False)"
proof -
  obtain last where last: "get_last_report_reference_blockstamp demo_abnormal demo_ref = Inr last"
  proof -
    have "is_ok (get_last_report_reference_blockstamp demo_abnormal demo_ref)" by code_simp
    then show ?thesis using that by (auto simp: is_ok_iff)
  qed
  have "get_mean_sum_of_effective_balance a b (fst (compute_lido_validators [] [])) ([] :: linked_validator list) = 0" for a b
    by (simp add: get_mean_sum_of_effective_balance_def active_sum_eq compute_lido_validators_eq)
  then have normal: "calculate_lido_normal_cl_rebase demo_abnormal demo_ref [] [] = Inr 0"
    unfolding calculate_lido_normal_cl_rebase_def last
    by (simp add: Let_def demo_abnormal_def normal_cl_rebase_no_lido)
  have slot: "ab_last_processing_ref_slot demo_abnormal = 19" by (simp add: demo_abnormal_def)
  have mid: "is_high_midterm_slashing_penalty e c f ([] :: validator list) ([] :: linked_validator list) [] r s = Inr False" for e c f r s
    by (simp add: is_high_midterm_slashing_penalty_def get_lido_validators_with_future_midterm_epoch_def)
  have "\<not> get_cl_rebase_for_current_report 7000000000 5000000000 < 0"
    by (simp add: get_cl_rebase_for_current_report_def wei_to_gwei_def constants_defs)
  then show ?thesis
    by (simp add: is_bunker_mode_def slot mid is_abnormal_cl_rebase_def normal)
qed

theorem bunker_off_is_safe_witness:
  "0 \<le> get_cl_rebase_for_current_report 7000000000 5000000000"
proof -
  have "ab_last_processing_ref_slot demo_abnormal \<noteq> 0" by (simp add: demo_abnormal_def)
  from bunker_off_is_safe[OF demo_bunker_off this] show ?thesis by blast
qed

end
