(* ===== verification/Validator_Service.thy ===== *)
theory Validator_Service
  imports Lido_Validators Events Converter
begin

text \<open>
  \<open>src/services/validator_state.py\<close> and \<open>src/services/prediction.py\<close>: exited and recently
  requested validators per node operator, and the prediction of rewards from past reports. Events
  come from \<open>get_events_in_past\<close>, so results that need them are results inside an option.
\<close>

section \<open>Exited validators\<close>

definition get_exited_lido_validators :: "(gid \<times> linked_validator list) list \<Rightarrow> epoch \<Rightarrow> (gid \<times> int) list" where
  "get_exited_lido_validators lido_validators ref_epoch =
     map (\<lambda>(g, vs). (g, fold (\<lambda>v t. t + (if is_exited_validator v ref_epoch then 1 else 0)) vs 0)) lido_validators"

definition get_lido_newly_exited_validators ::
    "(gid \<times> linked_validator list) list \<Rightarrow> epoch \<Rightarrow> node_operator list \<Rightarrow> (gid \<times> int) list res" where
  "get_lido_newly_exited_validators by_operators ref_epoch node_operators =
     foldR (\<lambda>operator lido_validators.
       bindR (lookupR lido_validators (no_gid operator)) (\<lambda>n.
         Inr (if n = no_total_exited_validators operator then AList.delete (no_gid operator) lido_validators
              else lido_validators)))
       node_operators (get_exited_lido_validators by_operators ref_epoch)"

section \<open>Recently requested validators\<close>

definition add_request :: "event \<Rightarrow> (gid \<times> int set) list \<Rightarrow> (gid \<times> int set) list res" where
  "add_request e d =
     bindR (lookupR (ev_args e) ''stakingModuleId'') (\<lambda>m.
       bindR (lookupR (ev_args e) ''nodeOperatorId'') (\<lambda>no.
         bindR (lookupR (ev_args e) ''validatorIndex'') (\<lambda>i.
           modifyR (m, no) (insert i) d)))"

definition get_recently_requested_to_exit_validators_by_node_operator ::
    "int \<Rightarrow> get_logs \<Rightarrow> ref_blockstamp \<Rightarrow> int \<Rightarrow> int \<Rightarrow> node_operator list \<Rightarrow> (gid \<times> int set) list res option" where
  "get_recently_requested_to_exit_validators_by_node_operator step get_logs bs lookup_window slot_seconds node_operators =
     Option.bind (get_events_in_past step get_logs bs lookup_window slot_seconds ''timestamp'') (\<lambda>r.
       Some (bindR r (\<lambda>events.
         foldR add_request events (dict_of (map (\<lambda>operator. (no_gid operator, {})) node_operators)))))"

definition is_recently_requested_but_not_exiting :: "(gid \<times> int set) list \<Rightarrow> gid \<Rightarrow> linked_validator \<Rightarrow> bool res" where
  "is_recently_requested_but_not_exiting recent_exit_requests g v =
     (if is_on_exit v then Inr False
      else bindR (lookupR recent_exit_requests g) (\<lambda>requested.
        Inr (v_index v \<in> requested \<and> consolidating_as_source v = None)))"

definition get_recently_requested_but_not_exiting_validators ::
    "(gid \<times> linked_validator list) list \<Rightarrow> (gid \<times> int set) list \<Rightarrow> linked_validator list res" where
  "get_recently_requested_but_not_exiting_validators by_operator recent_exit_requests =
     foldR (\<lambda>(g, vs) acc.
       bindR (filterR (is_recently_requested_but_not_exiting recent_exit_requests g) vs) (\<lambda>ys. Inr (acc @ ys)))
       by_operator []"

section \<open>Rewards prediction\<close>

record tx_event =
  te_transaction_hash :: hexstr
  te_args :: "(string \<times> int) list"

definition match_event ::
    "tx_event \<Rightarrow> (hexstr \<times> tx_event) list \<times> (string \<times> int) list list \<Rightarrow>
     ((hexstr \<times> tx_event) list \<times> (string \<times> int) list list) res" where
  "match_event event_2 s = (case s of (event_type_1_dict, result) \<Rightarrow>
     (case map_of event_type_1_dict (te_transaction_hash event_2) of
        None \<Rightarrow> Inl InconsistentEvents
      | Some event_1 \<Rightarrow>
          Inr (AList.delete (te_transaction_hash event_2) event_type_1_dict,
               result @ [dict_of (te_args event_1 @ te_args event_2)])))"

definition group_events_by_transaction_hash ::
    "tx_event list \<Rightarrow> tx_event list \<Rightarrow> (string \<times> int) list list res" where
  "group_events_by_transaction_hash event_type_1 event_type_2 =
     (let event_type_1_dict = dict_of (map (\<lambda>e. (te_transaction_hash e, e)) event_type_1) in
      if length event_type_1_dict \<noteq> length event_type_1 then Inl InconsistentEvents
      else bindR (foldR match_event event_type_2 (event_type_1_dict, [])) (\<lambda>(left, result).
        if left \<noteq> [] then Inl InconsistentEvents else Inr result))"

definition add_rewards :: "(string \<times> int) list \<Rightarrow> int \<times> int \<Rightarrow> (int \<times> int) res" where
  "add_rewards e s = (case s of (total_rewards, time_spent) \<Rightarrow>
     bindR (lookupR e ''postCLBalance'') (\<lambda>post_cl.
       bindR (lookupR e ''withdrawalsWithdrawn'') (\<lambda>withdrawn.
         bindR (lookupR e ''preCLBalance'') (\<lambda>pre_cl.
           bindR (lookupR e ''executionLayerRewardsWithdrawn'') (\<lambda>el_rewards.
             bindR (lookupR e ''timeElapsed'') (\<lambda>elapsed.
               Inr (total_rewards + (post_cl + withdrawn - pre_cl + el_rewards), time_spent + elapsed)))))))"

definition get_rewards_per_epoch :: "chain_config \<Rightarrow> tx_event list \<Rightarrow> tx_event list \<Rightarrow> wei res" where
  "get_rewards_per_epoch c token_rebase_events eth_distributed_events =
     bindR (group_events_by_transaction_hash token_rebase_events eth_distributed_events) (\<lambda>events.
       if events = [] then Inr 0
       else bindR (foldR add_rewards events (0, 0)) (\<lambda>(total_rewards, time_spent).
         bindR (floordivR (total_rewards * seconds_per_slot c * slots_per_epoch c) time_spent)
           (\<lambda>r. Inr (max r 0))))"

section \<open>Lemmas\<close>

lemma exited_count:
  "fold (\<lambda>v t. t + (if P v then 1 else 0)) vs a = a + int (length (filter P vs))"
  by (induction vs arbitrary: a) auto

text \<open>
  Predicted rewards are never negative, whatever the events; and they are only computed from
  reports whose two events pair up one to one by transaction.
\<close>

theorem rewards_prediction_paired:
  assumes "get_rewards_per_epoch c evs1 evs2 = Inr r"
  shows "0 \<le> r \<and> distinct (map te_transaction_hash evs1) \<and> distinct (map te_transaction_hash evs2) \<and>
    set (map te_transaction_hash evs1) = set (map te_transaction_hash evs2)"
proof -
  let ?d = "dict_of (map (\<lambda>e. (te_transaction_hash e, e)) evs1)"
  from assms obtain events where g: "group_events_by_transaction_hash evs1 evs2 = Inr events"
    and r: "r = 0 \<or> (\<exists>x. r = max x 0)"
    by (auto simp: get_rewards_per_epoch_def res_simps split: if_splits)
  from g obtain result where len: "length ?d = length evs1"
    and loop: "foldR match_event evs2 (?d, []) = Inr ([], result)"
    by (auto simp: group_events_by_transaction_hash_def Let_def res_simps split: if_splits)
  have dd: "distinct (map fst ?d)" by (rule dict_of_distinct)
  have sd: "set (map fst ?d) = set (map te_transaction_hash evs1)"
  proof -
    have "x \<in> set (map fst ?d) \<longleftrightarrow> map_of ?d x \<noteq> None" for x by (simp add: map_of_eq_None_iff)
    then show ?thesis using dict_of_None[of te_transaction_hash evs1] by auto
  qed
  have d1: "distinct (map te_transaction_hash evs1)"
    using len distinct_card[OF dd] sd by (intro card_distinct) simp
  have m: "foldR match_event es (d, acc) = Inr (d', acc') \<Longrightarrow> distinct (map fst d) \<Longrightarrow>
      distinct (map te_transaction_hash es) \<and> set (map te_transaction_hash es) \<subseteq> fst ` set d \<and>
      fst ` set d' = fst ` set d - set (map te_transaction_hash es)" for es d acc d' acc'
  proof (induction es arbitrary: d acc)
    case (Cons e es)
    from Cons.prems(1) obtain x acc2 where "map_of d (te_transaction_hash e) = Some x"
      and rest: "foldR match_event es (AList.delete (te_transaction_hash e) d, acc2) = Inr (d', acc')"
      by (auto simp: match_event_def[of e] res_simps split: option.splits)
    then have "te_transaction_hash e \<in> fst ` set d" by (metis domIff dom_map_of_conv_image_fst option.distinct(1))
    moreover have "distinct (map fst (AList.delete (te_transaction_hash e) d))"
      using Cons.prems(2) by (rule distinct_delete)
    moreover have "fst ` set (AList.delete (te_transaction_hash e) d) = fst ` set d - {te_transaction_hash e}"
      using arg_cong[OF delete_keys[of "te_transaction_hash e" d], of set] by simp
    ultimately show ?case using Cons.IH[OF rest] by auto
  qed simp
  from m[OF loop dd] sd d1 r show ?thesis by auto
qed

definition demo_rebase :: "tx_event list" where
  "demo_rebase = [\<lparr>te_transaction_hash = ''t1'', te_args = [(''timeElapsed'', 100)]\<rparr>]"

definition demo_distributed :: "tx_event list" where
  "demo_distributed =
     [\<lparr>te_transaction_hash = ''t1'', te_args = [(''preCLBalance'', 1000), (''postCLBalance'', 1010),
        (''withdrawalsWithdrawn'', 5), (''executionLayerRewardsWithdrawn'', 2)]\<rparr>]"

theorem rewards_prediction_paired_witness:
  "get_rewards_per_epoch mainnet_chain demo_rebase demo_distributed = Inr 65 \<and> 0 \<le> (65 :: int) \<and>
     set (map te_transaction_hash demo_rebase) = set (map te_transaction_hash demo_distributed)"
proof -
  have "get_rewards_per_epoch mainnet_chain demo_rebase demo_distributed = Inr 65" by code_simp
  with rewards_prediction_paired[OF this] show ?thesis by simp
qed

end
