(* ===== verification/Extra_Data.thy ===== *)
theory Extra_Data
  imports Bytes
begin

text \<open>
  \<open>src/modules/oracles/accounting/third_phase\<close>: the third phase report of exited validators. The
  counts per node operator are grouped by module into payloads, payloads are packed into
  transactions, and transactions are chained by their hashes so that the first hash commits to all.
  \<open>Web3.keccak\<close> is the parameter \<open>keccak\<close>. Counts come as the items of a dict, an association list.
  The transactions' layout is read back by \<open>read_items\<close>, from the class documentation.
\<close>

datatype item_type = EXTRA_DATA_TYPE_EXITED_VALIDATORS

definition item_type_value :: "item_type \<Rightarrow> int" where
  "item_type_value t = (case t of EXTRA_DATA_TYPE_EXITED_VALIDATORS \<Rightarrow> 2)"

datatype format_list = EXTRA_DATA_FORMAT_LIST_EMPTY | EXTRA_DATA_FORMAT_LIST_NON_EMPTY

definition format_list_value :: "format_list \<Rightarrow> int" where
  "format_list_value f =
     (case f of EXTRA_DATA_FORMAT_LIST_EMPTY \<Rightarrow> 0 | EXTRA_DATA_FORMAT_LIST_NON_EMPTY \<Rightarrow> 1)"

record extra_data =
  extra_data_list :: "bytes list"
  data_hash :: bytes
  extra_data_format :: int
  items_count :: int

definition ITEM_INDEX :: nat where "ITEM_INDEX = 3"
definition ITEM_TYPE :: nat where "ITEM_TYPE = 2"
definition MODULE_ID :: nat where "MODULE_ID = 3"
definition NODE_OPS_COUNT :: nat where "NODE_OPS_COUNT = 8"
definition NODE_OPERATOR_ID :: nat where "NODE_OPERATOR_ID = 8"
definition NODE_OPERATOR_VALUE :: nat where "NODE_OPERATOR_VALUE = 16"

lemmas extra_data_lengths =
  ITEM_INDEX_def ITEM_TYPE_def MODULE_ID_def NODE_OPS_COUNT_def NODE_OPERATOR_ID_def NODE_OPERATOR_VALUE_def

definition ZERO_HASH :: bytes where "ZERO_HASH = replicate 32 0"

record item_payload =
  ip_module_id :: int
  ip_node_operator_ids :: "int list"
  ip_value :: "int list"

section \<open>Payloads\<close>

text \<open>\<open>itertools.groupby\<close>: runs of consecutive elements with the same key.\<close>

function groupby :: "('a \<Rightarrow> 'k) \<Rightarrow> 'a list \<Rightarrow> ('k \<times> 'a list) list" where
  "groupby key [] = []"
| "groupby key (x # xs) =
     (key x, x # takeWhile (\<lambda>y. key y = key x) xs) # groupby key (dropWhile (\<lambda>y. key y = key x) xs)"
  by pat_completeness auto
termination
  by (relation "measure (\<lambda>(key, xs). length xs)") (auto simp: length_dropWhile_le le_imp_less_Suc)

text \<open>\<open>itertools.batched(xs, n)\<close>.\<close>

definition batchedR :: "int \<Rightarrow> 'a list \<Rightarrow> 'a list list res" where
  "batchedR n xs = (if n < 1 then Inl ValueError else Inr (batched (nat n) xs))"

definition payload_of :: "int \<Rightarrow> (gid \<times> int) list \<Rightarrow> item_payload" where
  "payload_of module_id nos_in_batch =
     \<lparr>ip_module_id = module_id, ip_node_operator_ids = map (\<lambda>x. snd (fst x)) nos_in_batch,
      ip_value = map snd nos_in_batch\<rparr>"

definition build_validators_payloads :: "(gid \<times> int) list \<Rightarrow> int \<Rightarrow> item_payload list res" where
  "build_validators_payloads validators max_no_in_payload_count =
     (let operator_validators = sort_key fst validators in
      bindR (mapR (\<lambda>(module_id, operators_by_module).
               bindR (batchedR max_no_in_payload_count operators_by_module)
                 (\<lambda>batches. Inr (map (payload_of module_id) batches)))
              (groupby (\<lambda>x. fst (fst x)) operator_validators))
        (\<lambda>payloads. Inr (concat payloads)))"

section \<open>Transactions\<close>

definition encode_item :: "int \<Rightarrow> item_type \<times> item_payload \<Rightarrow> bytes res" where
  "encode_item index x = (case x of (item_type, payload) \<Rightarrow>
     bindR (to_bytes index ITEM_INDEX) (\<lambda>i.
       bindR (to_bytes (item_type_value item_type) ITEM_TYPE) (\<lambda>t.
         bindR (to_bytes (ip_module_id payload) MODULE_ID) (\<lambda>m.
           bindR (to_bytes (int (length (ip_node_operator_ids payload))) NODE_OPS_COUNT) (\<lambda>n.
             bindR (encode_all (\<lambda>k. to_bytes k NODE_OPERATOR_ID) (ip_node_operator_ids payload) []) (\<lambda>ids.
               bindR (encode_all (\<lambda>c. to_bytes c NODE_OPERATOR_VALUE) (ip_value payload) []) (\<lambda>vs.
                 Inr (i @ t @ m @ n @ ids @ vs))))))))"

definition encode_batch :: "(item_type \<times> item_payload) list \<Rightarrow> int \<times> bytes list \<Rightarrow> (int \<times> bytes list) res" where
  "encode_batch payload_batch s = (case s of (index, result) \<Rightarrow>
     bindR (foldR (\<lambda>x (i, body). bindR (encode_item i x) (\<lambda>b. Inr (i + 1, body @ b))) payload_batch (index, []))
       (\<lambda>(i, tx_body). Inr (i, result @ [tx_body])))"

definition build_extra_transactions_data :: "item_payload list \<Rightarrow> int \<Rightarrow> (int \<times> bytes list) res" where
  "build_extra_transactions_data exited_payloads max_items_count_per_tx =
     bindR (batchedR max_items_count_per_tx (map (Pair EXTRA_DATA_TYPE_EXITED_VALIDATORS) exited_payloads))
       (\<lambda>batches. foldR encode_batch batches (0, []))"

definition add_hashes_to_transactions :: "(bytes \<Rightarrow> bytes) \<Rightarrow> bytes list \<Rightarrow> bytes \<times> bytes list" where
  "add_hashes_to_transactions keccak txs_data =
     (let (next_hash, txs_with_hashes) =
        fold (\<lambda>tx (next_hash, txs). (let full = next_hash @ tx in (keccak full, txs @ [full])))
          (rev txs_data) (ZERO_HASH, [])
      in (next_hash, rev txs_with_hashes))"

definition collect :: "(bytes \<Rightarrow> bytes) \<Rightarrow> (gid \<times> int) list \<Rightarrow> int \<Rightarrow> int \<Rightarrow> extra_data res" where
  "collect keccak exited_validators max_items_count_per_tx max_no_in_payload_count =
     bindR (build_validators_payloads exited_validators max_no_in_payload_count) (\<lambda>exited_payloads.
       bindR (build_extra_transactions_data exited_payloads max_items_count_per_tx) (\<lambda>(count, txs).
         let (first_hash, hashed_txs) = add_hashes_to_transactions keccak txs;
             fmt = (if count \<noteq> 0 then EXTRA_DATA_FORMAT_LIST_NON_EMPTY else EXTRA_DATA_FORMAT_LIST_EMPTY)
         in Inr \<lparr>extra_data_list = hashed_txs, data_hash = first_hash,
                 extra_data_format = format_list_value fmt, items_count = count\<rparr>))"

section \<open>The payloads hold every count once\<close>

lemma concat_groupby: "concat (map snd (groupby key xs)) = xs"
  by (induction key xs rule: groupby.induct) simp_all

lemma groupby_key: "(k, g) \<in> set (groupby key xs) \<Longrightarrow> x \<in> set g \<Longrightarrow> key x = k"
  by (induction key xs rule: groupby.induct) (auto dest: set_takeWhileD)

definition payload_counts :: "item_payload \<Rightarrow> (gid \<times> int) list" where
  "payload_counts p =
     map (\<lambda>(no, v). ((ip_module_id p, no), v)) (zip (ip_node_operator_ids p) (ip_value p))"

lemma payload_counts_of:
  "(\<forall>x \<in> set b. fst (fst x) = m) \<Longrightarrow> payload_counts (payload_of m b) = b"
  by (induction b) (auto simp: payload_counts_def payload_of_def)

lemma module_payloads:
  assumes "\<forall>x \<in> set g. fst (fst x) = m" and "0 < n"
  shows "concat (map payload_counts (map (payload_of m) (batched n g))) = g"
proof -
  have "map (payload_counts \<circ> payload_of m) (batched n g) = map (\<lambda>b. b) (batched n g)"
    using assms(1) batched_subset[of _ n g]
    by (intro map_cong refl) (auto intro!: payload_counts_of)
  with assms(2) show ?thesis by (simp add: concat_batched)
qed

lemma build_payloads_form:
  assumes "build_validators_payloads vs n = Inr ps" and "1 \<le> n"
  shows "ps = concat (map (\<lambda>(m, g). map (payload_of m) (batched (nat n) g))
    (groupby (\<lambda>x. fst (fst x)) (sort_key fst vs)))"
proof -
  have "mapR (\<lambda>(m, g). bindR (batchedR n g) (\<lambda>bs. Inr (map (payload_of m) bs))) gs
      = Inr (map (\<lambda>(m, g). map (payload_of m) (batched (nat n) g)) gs)" for gs
    using assms(2) by (intro mapR_all_ok) (auto simp: batchedR_def)
  with assms show ?thesis by (auto simp: build_validators_payloads_def Let_def res_simps)
qed

text \<open>
  The payloads hold every exited count exactly once, in the order of module and node operator;
  none is empty, none names more node operators than the limit, and in each the ids and the values
  have the same length.
\<close>

theorem payloads_lossless:
  assumes "build_validators_payloads vs n = Inr ps" and "1 \<le> n"
  shows "concat (map payload_counts ps) = sort_key fst vs \<and>
    (\<forall>p \<in> set ps. 0 < length (ip_node_operator_ids p) \<and> int (length (ip_node_operator_ids p)) \<le> n \<and>
       length (ip_value p) = length (ip_node_operator_ids p))"
proof
  let ?gs = "groupby (\<lambda>x. fst (fst x)) (sort_key fst vs)"
  note ps = build_payloads_form[OF assms]
  have each: "concat (map payload_counts (map (payload_of m) (batched (nat n) g))) = g"
    if "(m, g) \<in> set ?gs" for m g
    using assms(2) that by (intro module_payloads) (auto dest: groupby_key[where key = "\<lambda>x. fst (fst x)"])
  have "concat (map payload_counts ps) =
      concat (map (\<lambda>x. concat (map payload_counts (map (payload_of (fst x)) (batched (nat n) (snd x))))) ?gs)"
    unfolding ps concat_map_concat by (simp add: case_prod_unfold comp_def)
  also have "\<dots> = concat (map snd ?gs)"
    using each by (intro arg_cong[of _ _ concat] map_cong refl) (metis prod.collapse)
  finally have "concat (map payload_counts ps) = concat (map snd ?gs)" .
  then show "concat (map payload_counts ps) = sort_key fst vs"
    by (simp add: concat_groupby)
  show "\<forall>p \<in> set ps. 0 < length (ip_node_operator_ids p) \<and> int (length (ip_node_operator_ids p)) \<le> n \<and>
       length (ip_value p) = length (ip_node_operator_ids p)"
    using assms(2) by (auto simp: ps payload_of_def dest: batched_lengths)
qed

section \<open>The hash chain\<close>

text \<open>What the oracle contract checks: each transaction hashes to the hash its predecessor announced.\<close>

fun chained :: "(bytes \<Rightarrow> bytes) \<Rightarrow> bytes \<Rightarrow> bytes list \<Rightarrow> bool" where
  "chained keccak h [] \<longleftrightarrow> h = ZERO_HASH"
| "chained keccak h (tx # txs) \<longleftrightarrow> keccak tx = h \<and> chained keccak (take 32 tx) txs"

lemma add_hashes_Cons:
  "add_hashes_to_transactions keccak (tx # txs) =
     (let (h, rest) = add_hashes_to_transactions keccak txs in (keccak (h @ tx), (h @ tx) # rest))"
  by (simp add: add_hashes_to_transactions_def Let_def split: prod.splits)

lemma add_hashes_chained:
  assumes "\<And>x. length (keccak x) = 32" and "add_hashes_to_transactions keccak txs = (h, hashed)"
  shows "chained keccak h hashed \<and> map (drop 32) hashed = txs \<and> length h = 32"
  using assms(2)
proof (induction txs arbitrary: h hashed)
  case Nil
  then show ?case by (auto simp: add_hashes_to_transactions_def ZERO_HASH_def)
next
  case (Cons tx txs)
  obtain g rest where g: "add_hashes_to_transactions keccak txs = (g, rest)" by fastforce
  with Cons.prems have "h = keccak (g @ tx)" "hashed = (g @ tx) # rest"
    by (simp_all add: add_hashes_Cons)
  with Cons.IH[OF g] assms(1) show ?case by simp
qed

section \<open>Reading the transactions back\<close>

type_synonym item_view = "int \<times> int \<times> int \<times> int list \<times> int list"

function read_items :: "bytes \<Rightarrow> item_view list" where
  "read_items bs =
     (if length bs < 16 then []
      else
        let n = nat (from_be (take 8 (drop 8 bs))); body = drop 16 bs in
        (from_be (take 3 bs), from_be (take 2 (drop 3 bs)), from_be (take 3 (drop 5 bs)),
         map from_be (batched 8 (take (8 * n) body)),
         map from_be (batched 16 (take (16 * n) (drop (8 * n) body)))) # read_items (drop (24 * n) body))"
  by pat_completeness auto
termination by (relation "measure length") auto

declare read_items.simps [simp del]

definition item_view_of :: "int \<Rightarrow> item_payload \<Rightarrow> item_view" where
  "item_view_of i p = (i, 2, ip_module_id p, ip_node_operator_ids p, ip_value p)"

lemma read_encoded_item:
  assumes "encode_item i (EXTRA_DATA_TYPE_EXITED_VALIDATORS, p) = Inr b"
    and "length (ip_value p) = length (ip_node_operator_ids p)"
  shows "read_items (b @ rest) = item_view_of i p # read_items rest"
proof -
  let ?n = "length (ip_node_operator_ids p)"
  from assms(1) obtain ids vals where
    ids: "encode_all (\<lambda>k. to_bytes k 8) (ip_node_operator_ids p) [] = Inr ids"
    and vals: "encode_all (\<lambda>c. to_bytes c 16) (ip_value p) [] = Inr vals"
    and b: "b = be 3 i @ be 2 2 @ be 3 (ip_module_id p) @ be 8 (int ?n) @ ids @ vals"
    and i: "0 \<le> i" "i < 256 ^ 3" "0 \<le> ip_module_id p" "ip_module_id p < 256 ^ 3" "int ?n < 256 ^ 8"
    by (auto simp: encode_item_def res_simps extra_data_lengths item_type_value_def)
  note len = uint64.items_length[OF ids] uint128.items_length[OF vals]
  have n: "nat (from_be (take 8 (drop 8 (b @ rest)))) = ?n"
    using i(5) by (simp add: b from_be_be)
  have head: "from_be (take 3 (b @ rest)) = i" "from_be (take 2 (drop 3 (b @ rest))) = 2"
    "from_be (take 3 (drop 5 (b @ rest))) = ip_module_id p"
    using i by (simp_all add: b from_be_be)
  have body: "drop 16 (b @ rest) = ids @ vals @ rest" by (simp add: b)
  have big: "\<not> length (b @ rest) < 16" by (simp add: b)
  have "map from_be (batched 8 ids) = ip_node_operator_ids p"
    "map from_be (batched 16 vals) = ip_value p"
    using uint64.items_roundtrip[OF ids] uint128.items_roundtrip[OF vals] by simp_all
  with n head body big len assms(2) show ?thesis
    by (subst read_items.simps) (simp add: item_view_of_def Let_def)
qed

text \<open>The items of one transaction, and of all of them, are numbered consecutively.\<close>

definition wf_payload :: "item_payload \<Rightarrow> bool" where
  "wf_payload p \<longleftrightarrow> length (ip_value p) = length (ip_node_operator_ids p)"

lemma batch_loop_reads:
  assumes "foldR (\<lambda>x (i, body). bindR (encode_item i x) (\<lambda>b. Inr (i + 1, body @ b)))
      (map (Pair EXTRA_DATA_TYPE_EXITED_VALIDATORS) ps) (i, body) = Inr (j, tx)"
    and "\<forall>p \<in> set ps. wf_payload p"
  shows "j = i + int (length ps) \<and> (\<exists>t. tx = body @ t \<and>
    read_items t = map (\<lambda>(k, p). item_view_of (i + int k) p) (enumerate 0 ps))"
  using assms
proof (induction ps arbitrary: i body)
  case Nil
  then show ?case by (auto simp: read_items.simps)
next
  case (Cons p ps)
  from Cons.prems(1) obtain b where b: "encode_item i (EXTRA_DATA_TYPE_EXITED_VALIDATORS, p) = Inr b"
    and rest: "foldR (\<lambda>x (i, body). bindR (encode_item i x) (\<lambda>b. Inr (i + 1, body @ b)))
      (map (Pair EXTRA_DATA_TYPE_EXITED_VALIDATORS) ps) (i + 1, body @ b) = Inr (j, tx)"
    by (auto simp: res_simps)
  from Cons.IH[OF rest] Cons.prems(2) obtain t where t: "j = i + 1 + int (length ps)"
    "tx = (body @ b) @ t" "read_items t = map (\<lambda>(k, p). item_view_of (i + 1 + int k) p) (enumerate 0 ps)"
    by auto
  have "read_items (b @ t) = item_view_of i p # read_items t"
    using read_encoded_item[OF b] Cons.prems(2) by (simp add: wf_payload_def)
  moreover have "map (\<lambda>(k, p). item_view_of (i + 1 + int k) p) (enumerate 0 ps)
      = map (\<lambda>(k, p). item_view_of (i + int k) p) (enumerate 1 ps)"
    by (simp add: enumerate_Suc_eq[of 0] split_beta algebra_simps)
  ultimately show ?case using t by simp
qed

lemma batches_read:
  assumes "foldR encode_batch (map (map (Pair EXTRA_DATA_TYPE_EXITED_VALIDATORS)) bs) (i, done) = Inr (j, txs)"
    and "\<forall>b \<in> set bs. \<forall>p \<in> set b. wf_payload p"
  shows "j = i + int (length (concat bs)) \<and> (\<exists>ts. txs = done @ ts \<and> length ts = length bs \<and>
    map length (map read_items ts) = map length bs \<and>
    concat (map read_items ts) = map (\<lambda>(k, p). item_view_of (i + int k) p) (enumerate 0 (concat bs)))"
  using assms
proof (induction bs arbitrary: i "done")
  case Nil
  then show ?case by auto
next
  case (Cons b bs)
  from Cons.prems(1) obtain k tx where
    tx: "foldR (\<lambda>x (i, body). bindR (encode_item i x) (\<lambda>b. Inr (i + 1, body @ b)))
      (map (Pair EXTRA_DATA_TYPE_EXITED_VALIDATORS) b) (i, []) = Inr (k, tx)"
    and rest: "foldR encode_batch (map (map (Pair EXTRA_DATA_TYPE_EXITED_VALIDATORS)) bs) (k, done @ [tx]) = Inr (j, txs)"
    by (auto simp: res_simps encode_batch_def[of _ "(i, done)"])
  from batch_loop_reads[OF tx] Cons.prems(2) have k: "k = i + int (length b)"
    and read: "read_items tx = map (\<lambda>(n, p). item_view_of (i + int n) p) (enumerate 0 b)" by auto
  from Cons.IH[OF rest] Cons.prems(2) obtain ts where ts: "j = k + int (length (concat bs))"
    "txs = (done @ [tx]) @ ts" "length ts = length bs" "map length (map read_items ts) = map length bs"
    "concat (map read_items ts) = map (\<lambda>(n, p). item_view_of (k + int n) p) (enumerate 0 (concat bs))"
    by auto
  have shift: "enumerate (length b) ps = map (\<lambda>(n, p). (n + length b, p)) (enumerate 0 ps)" for ps :: "item_payload list"
    by (induction ps rule: rev_induct) (simp_all add: enumerate_append_eq)
  have "map (\<lambda>(n, p). item_view_of (k + int n) p) (enumerate 0 (concat bs)) =
      map (\<lambda>(n, p). item_view_of (i + int n) p) (enumerate (length b) (concat bs))"
    by (simp add: k shift split_beta algebra_simps)
  with ts k read show ?case
    by (intro conjI exI[of _ "tx # ts"]) (simp_all add: enumerate_append_eq)
qed

lemma batched_map: "batched n (map f xs) = map (map f) (batched n xs)"
proof (induction n xs rule: batched.induct)
  case (1 n xs)
  then show ?case by (simp add: batched.simps[of n xs] batched.simps[of n "map f xs"] take_map drop_map)
qed

text \<open>
  C7. The report of the third phase is a verifiable chain that loses nothing: with a hash of 32
  bytes, the announced hash commits to the first transaction and each transaction to the next, the
  transactions read back as all the payloads with consecutive item indices from zero, no transaction
  holds more items than the limit, and the format says whether there are items.
\<close>

theorem extra_data_chain:
  assumes keccak: "\<And>x. length (keccak x) = 32"
    and col: "collect keccak exited max_items max_no = Inr d"
    and pay: "build_validators_payloads exited max_no = Inr ps" "1 \<le> max_no"
  shows "chained keccak (data_hash d) (extra_data_list d) \<and>
    concat (map (\<lambda>tx. read_items (drop 32 tx)) (extra_data_list d)) =
      map (\<lambda>(k, p). item_view_of (int k) p) (enumerate 0 ps) \<and>
    items_count d = int (length ps) \<and>
    (\<forall>tx \<in> set (extra_data_list d). int (length (read_items (drop 32 tx))) \<le> max_items) \<and>
    extra_data_format d = (if ps = [] then 0 else 1)"
proof -
  obtain count txs where txs: "build_extra_transactions_data ps max_items = Inr (count, txs)"
    using col pay(1) by (auto simp: collect_def res_simps)
  obtain h hashed where h: "add_hashes_to_transactions keccak txs = (h, hashed)" by fastforce
  have d: "d = \<lparr>extra_data_list = hashed, data_hash = h, extra_data_format = (if count \<noteq> 0 then 1 else 0),
      items_count = count\<rparr>"
    using col pay(1) txs h by (auto simp: collect_def res_simps format_list_value_def)
  from txs have m: "1 \<le> max_items" and loop: "foldR encode_batch
      (map (map (Pair EXTRA_DATA_TYPE_EXITED_VALIDATORS)) (batched (nat max_items) ps)) (0, []) = Inr (count, txs)"
    by (auto simp: build_extra_transactions_data_def batchedR_def res_simps batched_map split: if_splits)
  have wf: "\<forall>b \<in> set (batched (nat max_items) ps). \<forall>p \<in> set b. wf_payload p"
    using build_payloads_form[OF pay] batched_subset
    by (fastforce simp: wf_payload_def payload_of_def)
  have cat: "concat (batched (nat max_items) ps) = ps" using m by (intro concat_batched) simp
  from batches_read[OF loop wf] cat have count: "count = int (length ps)"
    and lens: "map length (map read_items txs) = map length (batched (nat max_items) ps)"
    and items: "concat (map read_items txs) = map (\<lambda>(k, p). item_view_of (int k) p) (enumerate 0 ps)"
    by auto
  have "\<forall>tx \<in> set txs. length (read_items tx) \<in> set (map length (batched (nat max_items) ps))"
    by (metis (no_types, lifting) image_eqI lens list.set_map)
  then have lim: "\<forall>tx \<in> set txs. int (length (read_items tx)) \<le> max_items"
    using batched_lengths[of _ "nat max_items" ps] m by fastforce
  from add_hashes_chained[OF keccak h] have ch: "chained keccak h hashed" "map (drop 32) hashed = txs" by auto
  have read: "map (\<lambda>tx. read_items (drop 32 tx)) hashed = map read_items txs"
    using arg_cong[OF ch(2), of "map read_items"] by (simp add: comp_def)
  have "\<forall>tx \<in> set hashed. int (length (read_items (drop 32 tx))) \<le> max_items"
    using lim ch(2) by force
  with ch(1) read items count show ?thesis by (simp add: d)
qed

definition demo_keccak :: "bytes \<Rightarrow> bytes" where
  "demo_keccak bs = replicate 31 0 @ [fold (\<lambda>b a. (a * 31 + b) mod 256) bs 7]"

definition demo_exited :: "(gid \<times> int) list" where
  "demo_exited = [((2, 1), 5), ((1, 4), 3), ((1, 0), 9), ((1, 2), 1)]"

lemma demo_payloads:
  "build_validators_payloads demo_exited 2 = Inr
     [\<lparr>ip_module_id = 1, ip_node_operator_ids = [0, 2], ip_value = [9, 1]\<rparr>,
      \<lparr>ip_module_id = 1, ip_node_operator_ids = [4], ip_value = [3]\<rparr>,
      \<lparr>ip_module_id = 2, ip_node_operator_ids = [1], ip_value = [5]\<rparr>]"
  by code_simp

theorem payloads_lossless_witness:
  "\<exists>ps. build_validators_payloads demo_exited 2 = Inr ps \<and>
     concat (map payload_counts ps) = [((1, 0), 9), ((1, 2), 1), ((1, 4), 3), ((2, 1), 5)]"
proof -
  have "sort_key fst demo_exited = [((1, 0), 9), ((1, 2), 1), ((1, 4), 3), ((2, 1), 5)]" by code_simp
  with payloads_lossless[OF demo_payloads] demo_payloads show ?thesis by auto
qed

theorem extra_data_chain_witness:
  "\<exists>d. collect demo_keccak demo_exited 2 2 = Inr d \<and> chained demo_keccak (data_hash d) (extra_data_list d)
     \<and> items_count d = 3"
proof -
  have "is_ok (collect demo_keccak demo_exited 2 2)" by code_simp
  then obtain d where d: "collect demo_keccak demo_exited 2 2 = Inr d" by (auto simp: is_ok_iff)
  have "\<And>x. length (demo_keccak x) = 32" by (simp add: demo_keccak_def)
  from extra_data_chain[OF this d demo_payloads] d show ?thesis by auto
qed

end
