(* ===== verification/Accounting_Report.thy ===== *)
theory Accounting_Report
  imports Withdrawal Vault_Fees Bunker Validator_Service Extra_Data
begin

text \<open>
  The main report of \<open>src/modules/oracles/accounting/accounting.py\<close> with the report types of
  \<open>src/modules/oracles/accounting/types.py\<close>: balances, exited validators, finalization, bunker mode, staking
  vaults and extra data, composed of the services the other theories model. What node, Keys API and
  contracts answer at the reference block is the record \<open>accounting_env\<close>. Fetching events and the
  finalization loop may not return, so the report is a result inside an option.
\<close>

section \<open>Types of the report\<close>

record report_data =
  rd_consensus_version :: int
  rd_ref_slot :: slot
  rd_cl_validators_balance_gwei :: gwei
  rd_cl_pending_balance_gwei :: gwei
  rd_staking_module_ids_with_exited_validators :: "module_id list"
  rd_count_exited_validators_by_staking_module :: "int list"
  rd_staking_module_ids_with_updated_balance :: "module_id list"
  rd_validator_balances_gwei_by_staking_module :: "gwei list"
  rd_withdrawal_vault_balance :: wei
  rd_el_rewards_vault_balance :: wei
  rd_shares_requested_to_burn :: int
  rd_withdrawal_finalization_batches :: "int list"
  rd_finalization_share_rate :: int
  rd_is_bunker :: bool
  rd_vaults_tree_root :: bytes
  rd_vaults_tree_cid :: string
  rd_extra_data_format :: int
  rd_extra_data_hash :: bytes
  rd_extra_data_items_count :: int

definition as_tuple :: "report_data \<Rightarrow>
    int \<times> slot \<times> gwei \<times> gwei \<times> module_id list \<times> int list \<times> module_id list \<times> gwei list \<times> wei \<times> wei \<times> int \<times> int list \<times>
    int \<times> bool \<times> bytes \<times> string \<times> int \<times> bytes \<times> int" where
  "as_tuple r =
     (rd_consensus_version r, rd_ref_slot r, rd_cl_validators_balance_gwei r, rd_cl_pending_balance_gwei r,
      rd_staking_module_ids_with_exited_validators r, rd_count_exited_validators_by_staking_module r,
      rd_staking_module_ids_with_updated_balance r, rd_validator_balances_gwei_by_staking_module r,
      rd_withdrawal_vault_balance r, rd_el_rewards_vault_balance r, rd_shares_requested_to_burn r,
      rd_withdrawal_finalization_batches r, rd_finalization_share_rate r, rd_is_bunker r,
      rd_vaults_tree_root r, rd_vaults_tree_cid r, rd_extra_data_format r, rd_extra_data_hash r,
      rd_extra_data_items_count r)"

record simulation_payload =
  sp_timestamp :: int
  sp_time_elapsed :: int
  sp_cl_validators_balance :: wei
  sp_cl_pending_balance :: wei
  sp_withdrawal_vault_balance :: wei
  sp_el_rewards_vault_balance :: wei
  sp_shares_requested_to_burn :: int
  sp_withdrawal_finalization_batches :: "int list"
  sp_simulated_share_rate :: int

record fee_distribution =
  fd_module_fee_recipients :: "address list"
  fd_module_ids :: "int list"
  fd_module_shares_to_mint :: "int list"
  fd_treasury_shares_to_mint :: int

record simulation_results =
  si_withdrawals_vault_transfer :: wei
  si_el_rewards_vault_transfer :: wei
  si_ether_to_finalize_wq :: wei
  si_shares_to_finalize_wq :: int
  si_shares_to_burn_for_withdrawals :: int
  si_total_shares_to_burn :: int
  si_shares_to_mint_as_fees :: int
  si_fee_distribution :: fee_distribution
  si_principal_cl_balance :: wei
  si_pre_total_shares :: int
  si_pre_total_pooled_ether :: wei
  si_post_internal_shares :: int
  si_post_internal_ether :: wei
  si_post_total_shares :: int
  si_post_total_pooled_ether :: wei

record accounting_env =
  ae_chain :: chain_config
  ae_frame :: frame_config
  ae_consensus_version :: "int res"
  ae_validators :: "validator list res"
  ae_slashings :: "gwei list"
  ae_pending_deposits :: "pending_deposit list res"
  ae_pending_consolidations :: "pending_consolidation list res"
  ae_lido_keys :: "lido_key list res"
  ae_deposited_validators :: int
  ae_node_operators :: "node_operator list res"
  ae_staking_modules :: "staking_module list res"
  ae_signature_lib :: signature_lib
  ae_withdrawal_vault :: hexstr
  ae_genesis_fork_version :: hexstr
  ae_withdrawal_balance :: "wei res"
  ae_el_vault_balance :: "wei res"
  ae_shares_requested_to_burn :: "(int \<times> int) res"
  ae_simulate_oracle_report :: "simulation_payload \<Rightarrow> simulation_results res"
  ae_last_processing_ref_slot :: "slot res"
  ae_total_supply :: wei
  ae_bunker :: abnormal_env
  ae_queue :: queue_env
  ae_border :: border_env
  ae_extra_data_limits :: "(int \<times> int) res"
  ae_keccak :: "bytes \<Rightarrow> bytes"
  ae_vaults :: "vault_info list res option"
  ae_frame_number :: "frame res"
  ae_status :: status_env
  ae_fees :: fee_env
  ae_reserve :: reserve_env
  ae_latest_report :: "onchain_report res"

section \<open>Validators\<close>

definition active_lido_validators :: "accounting_env \<Rightarrow> linked_validator list res" where
  "active_lido_validators env =
     bindR (ae_pending_deposits env) (\<lambda>deposits.
     bindR (ae_validators env) (\<lambda>validators.
     bindR (ae_pending_consolidations env) (\<lambda>consolidations.
     bindR (ae_lido_keys env) (\<lambda>lido_keys.
       get_active_lido_validators deposits validators consolidations lido_keys (ae_deposited_validators env)))))"

definition pending_lido_validators :: "accounting_env \<Rightarrow> (hexstr \<times> (lido_key \<times> pending_deposit list)) list res" where
  "pending_lido_validators env =
     bindR (ae_pending_deposits env) (\<lambda>deposits.
     bindR (ae_lido_keys env) (\<lambda>lido_keys.
     bindR (ae_validators env) (\<lambda>validators.
       get_pending_lido_validators (ae_signature_lib env) (ae_withdrawal_vault env) (ae_genesis_fork_version env)
         deposits lido_keys validators (ae_deposited_validators env))))"

definition lido_validators_by_operators :: "accounting_env \<Rightarrow> (gid \<times> linked_validator list) list res" where
  "lido_validators_by_operators env =
     bindR (active_lido_validators env) (\<lambda>merged_validators.
     bindR (ae_node_operators env) (\<lambda>no_operators.
       get_lido_validators_by_node_operators merged_validators no_operators))"

definition get_cl_validators_balance :: "accounting_env \<Rightarrow> gwei res" where
  "get_cl_validators_balance env =
     bindR (active_lido_validators env) (\<lambda>lido_validators. Inr (\<Sum>v\<leftarrow>lido_validators. v_balance v))"

definition get_cl_pending_validators_balance :: "accounting_env \<Rightarrow> gwei res" where
  "get_cl_pending_validators_balance env =
     bindR (pending_lido_validators env) (\<lambda>by_keys.
       let new_validators_pending = (\<Sum>pending\<leftarrow>concat (map (\<lambda>(_, _, pendings). pendings) by_keys). pd_amount pending) in
       bindR (active_lido_validators env) (\<lambda>active_validators.
         let topups_pending = (\<Sum>topup\<leftarrow>concat (map pending_topups active_validators). pd_amount topup) in
         Inr (new_validators_pending + topups_pending)))"

definition drop_unchanged :: "staking_module \<Rightarrow> (module_id \<times> int) list \<Rightarrow> (module_id \<times> int) list" where
  \<comment> \<open>reading a missing key of a \<open>defaultdict(int)\<close> inserts it\<close>
  "drop_unchanged m module_stats =
     (let module_stats = (if map_of module_stats (sm_id m) = None then AList.update (sm_id m) 0 module_stats else module_stats)
      in if al_get 0 module_stats (sm_id m) = sm_exited_validators_count m
         then AList.delete (sm_id m) module_stats else module_stats)"

definition newly_exited_by_modules :: "(gid \<times> int) list \<Rightarrow> staking_module list \<Rightarrow> (module_id \<times> int) list" where
  "newly_exited_by_modules exited_validators staking_modules =
     (let module_stats = fold (\<lambda>((module_id, _), n) d. AList.update module_id (al_get 0 d module_id + n) d) exited_validators []
      in sort_key fst (fold drop_unchanged staking_modules module_stats))"

definition get_newly_exited_validators_by_modules :: "accounting_env \<Rightarrow> ref_blockstamp \<Rightarrow> (module_id list \<times> int list) res" where
  "get_newly_exited_validators_by_modules env bs =
     bindR (lido_validators_by_operators env) (\<lambda>by_operators.
     bindR (ae_staking_modules env) (\<lambda>staking_modules.
       let items = newly_exited_by_modules (get_exited_lido_validators by_operators (bs_ref_epoch bs)) staking_modules in
       Inr (map fst items, map snd items)))"

definition add_balance :: "module_id \<Rightarrow> linked_validator \<Rightarrow> (module_id \<times> gwei) list \<Rightarrow> (module_id \<times> gwei) list res" where
  "add_balance module_id v module_stats = modifyR module_id (\<lambda>b. b + v_balance v) module_stats"

definition balances_by_modules ::
    "staking_module list \<Rightarrow> (gid \<times> linked_validator list) list \<Rightarrow> (module_id \<times> gwei) list res" where
  "balances_by_modules staking_modules validators_by_no =
     (let sm_by_address = dict_of (map (\<lambda>m. (sm_staking_module_address m, m)) staking_modules) in
      bindR (mapR (\<lambda>(_, m). lookupR sm_by_address (sm_staking_module_address m)) sm_by_address) (\<lambda>modules.
      bindR (foldR (\<lambda>((module_id, _), vs). foldR (add_balance module_id) vs) validators_by_no
          (dict_of (map (\<lambda>m. (sm_id m, 0)) modules))) (\<lambda>module_stats.
        Inr (sort_key fst module_stats))))"

definition get_balances_by_modules :: "accounting_env \<Rightarrow> (module_id list \<times> gwei list) res" where
  "get_balances_by_modules env =
     bindR (ae_staking_modules env) (\<lambda>staking_modules.
     bindR (lido_validators_by_operators env) (\<lambda>validators_by_no.
     bindR (balances_by_modules staking_modules validators_by_no) (\<lambda>items.
       Inr (map fst items, map snd items))))"

section \<open>Simulations\<close>

definition get_shares_to_burn :: "accounting_env \<Rightarrow> int res" where
  "get_shares_to_burn env =
     bindR (ae_shares_requested_to_burn env) (\<lambda>(cover_shares, non_cover_shares). Inr (cover_shares + non_cover_shares))"

definition get_slots_elapsed_from_last_report :: "accounting_env \<Rightarrow> ref_blockstamp \<Rightarrow> int res" where
  "get_slots_elapsed_from_last_report env bs =
     bindR (ae_last_processing_ref_slot env) (\<lambda>last_ref_slot.
       if last_ref_slot \<noteq> 0 then Inr (bs_ref_slot bs - last_ref_slot)
       else
         let prev_slot = max ((initial_epoch (ae_frame env) - epochs_per_frame (ae_frame env))
               * slots_per_epoch (ae_chain env) - 1) 0
         in Inr (bs_ref_slot bs - prev_slot))"

definition simulate_rebase_after_report :: "accounting_env \<Rightarrow> ref_blockstamp \<Rightarrow> wei \<Rightarrow> simulation_results res" where
  "simulate_rebase_after_report env bs el_rewards =
     bindR (get_cl_validators_balance env) (\<lambda>cl_balance.
     bindR (get_cl_pending_validators_balance env) (\<lambda>pending_balance.
     bindR (get_slots_elapsed_from_last_report env bs) (\<lambda>slots_elapsed.
     bindR (ae_withdrawal_balance env) (\<lambda>withdrawal_vault_balance.
     bindR (get_shares_to_burn env) (\<lambda>shares_requested_to_burn.
       ae_simulate_oracle_report env
         \<lparr>sp_timestamp = bs_block_timestamp bs, sp_time_elapsed = slots_elapsed * seconds_per_slot (ae_chain env),
          sp_cl_validators_balance = gwei_to_wei cl_balance, sp_cl_pending_balance = gwei_to_wei pending_balance,
          sp_withdrawal_vault_balance = withdrawal_vault_balance, sp_el_rewards_vault_balance = el_rewards,
          sp_shares_requested_to_burn = shares_requested_to_burn, sp_withdrawal_finalization_batches = [],
          sp_simulated_share_rate = 0\<rparr>)))))"

definition simulate_full_rebase :: "accounting_env \<Rightarrow> ref_blockstamp \<Rightarrow> simulation_results res" where
  "simulate_full_rebase env bs =
     bindR (ae_el_vault_balance env) (\<lambda>el_rewards. simulate_rebase_after_report env bs el_rewards)"

definition simulate_cl_rebase :: "accounting_env \<Rightarrow> ref_blockstamp \<Rightarrow> simulation_results res" where
  "simulate_cl_rebase env bs = simulate_rebase_after_report env bs 0"

definition is_bunker :: "accounting_env \<Rightarrow> ref_blockstamp \<Rightarrow> bool res option" where
  "is_bunker env bs =
     bindO (Some (simulate_cl_rebase env bs)) (\<lambda>cl_rebase_report.
     bindO (Some (ae_validators env)) (\<lambda>all_validators.
     bindO (Some (active_lido_validators env)) (\<lambda>lido_validators.
       is_bunker_mode (ae_bunker env) bs all_validators lido_validators (ae_slashings env)
         (si_post_total_pooled_ether cl_rebase_report) (ae_total_supply env))))"

definition finalization_share_rate :: "simulation_results \<Rightarrow> int" where
  "finalization_share_rate simulation =
     (if si_post_total_shares simulation \<noteq> 0
      then si_post_total_pooled_ether simulation * SHARE_RATE_PRECISION_E27 div si_post_total_shares simulation
      else 0)"

definition get_finalization_data :: "accounting_env \<Rightarrow> ref_blockstamp \<Rightarrow> (int list \<times> int) res option" where
  "get_finalization_data env bs =
     bindO (Some (simulate_full_rebase env bs)) (\<lambda>simulation.
     bindO (is_bunker env bs) (\<lambda>bunker.
       let share_rate = finalization_share_rate simulation in
       bindO (get_finalization_batches (ae_queue env) (ae_border env) bunker share_rate
           (si_withdrawals_vault_transfer simulation) (si_el_rewards_vault_transfer simulation)) (\<lambda>finalization_batches.
         Some (Inr (finalization_batches, share_rate)))))"

definition get_extra_data :: "accounting_env \<Rightarrow> ref_blockstamp \<Rightarrow> extra_data res" where
  "get_extra_data env bs =
     bindR (lido_validators_by_operators env) (\<lambda>by_operators.
     bindR (ae_node_operators env) (\<lambda>node_operators.
     bindR (get_lido_newly_exited_validators by_operators (bs_ref_epoch bs) node_operators) (\<lambda>exited_validators.
     bindR (ae_extra_data_limits env) (\<lambda>(max_items, max_operators).
       collect (ae_keccak env) exited_validators max_items max_operators))))"

section \<open>Staking vaults\<close>

definition core_apr_ratio :: "accounting_env \<Rightarrow> ref_blockstamp \<Rightarrow> simulation_results \<Rightarrow> rat res" where
  "core_apr_ratio env bs simulation =
     bindR (get_slots_elapsed_from_last_report env bs) (\<lambda>slots_elapsed.
       calculate_gross_core_apr (si_post_internal_ether simulation) (si_post_internal_shares simulation)
         (si_shares_to_mint_as_fees simulation) (si_pre_total_pooled_ether simulation) (si_pre_total_shares simulation)
         (slots_elapsed * seconds_per_slot (ae_chain env)))"

definition handle_vaults_report :: "accounting_env \<Rightarrow> ref_blockstamp \<Rightarrow> (bytes \<times> string) res option" where
  "handle_vaults_report env bs =
     bindO (ae_vaults env) (\<lambda>infos.
       let vaults = get_vaults infos in
       if vaults = [] then Some (Inr (ZERO_HASH, []))
       else
         bindO (Some (ae_frame_number env)) (\<lambda>current_frame.
         bindO (Some (ae_validators env)) (\<lambda>validators.
         bindO (Some (ae_pending_deposits env)) (\<lambda>pending_deposits.
         bindO (Some (simulate_full_rebase env bs)) (\<lambda>simulation.
         bindO (Some (get_vaults_total_values (ae_status env) vaults validators pending_deposits)) (\<lambda>total_values.
         bindO (Some (core_apr_ratio env bs simulation)) (\<lambda>apr_ratio.
         bindO (Some (ae_latest_report env)) (\<lambda>latest.
         bindO (get_vaults_fees (ae_fees env) bs vaults total_values latest
             \<lparr>ra_core_apr_ratio = apr_ratio, ra_pre_total_pooled_ether = si_pre_total_pooled_ether simulation,
              ra_pre_total_shares = si_pre_total_shares simulation\<rparr> (ae_frame env) (ae_chain env) current_frame) (\<lambda>fees.
         bindO (Some (get_vaults_slashing_reserve (ae_reserve env) bs vaults validators (ae_chain env))) (\<lambda>slashing_reserve.
         bindO (Some (build_tree_data vaults total_values fees slashing_reserve)) (\<lambda>tree_data.
           let merkle_tree = get_merkle_tree tree_data in
           bindO (Some (publish_tree (fe_report (ae_fees env)) merkle_tree vaults bs (oc_report_cid latest)
               (ae_chain env) fees)) (\<lambda>tree_cid.
             Some (Inr (ml_root (rp_merkle (fe_report (ae_fees env))) merkle_tree, tree_cid))))))))))))))"

section \<open>The report\<close>

definition calculate_report :: "accounting_env \<Rightarrow> ref_blockstamp \<Rightarrow> report_data res option" where
  "calculate_report env bs =
     bindO (Some (ae_consensus_version env)) (\<lambda>consensus_version.
     bindO (Some (get_cl_validators_balance env)) (\<lambda>cl_balance.
     bindO (Some (get_cl_pending_validators_balance env)) (\<lambda>cl_pending_balance.
     bindO (Some (get_newly_exited_validators_by_modules env bs)) (\<lambda>(exit_sm_ids, exit_counts).
     bindO (Some (get_balances_by_modules env)) (\<lambda>(balance_sm_ids, balances).
     bindO (Some (ae_withdrawal_balance env)) (\<lambda>withdrawal_vault_balance.
     bindO (Some (ae_el_vault_balance env)) (\<lambda>el_rewards_vault_balance.
     bindO (Some (get_shares_to_burn env)) (\<lambda>shares_requested_to_burn.
     bindO (get_finalization_data env bs) (\<lambda>(finalization_batches, share_rate).
     bindO (is_bunker env bs) (\<lambda>bunker.
     bindO (handle_vaults_report env bs) (\<lambda>(tree_root, tree_cid).
     bindO (Some (get_extra_data env bs)) (\<lambda>extra_data.
       Some (Inr \<lparr>rd_consensus_version = consensus_version, rd_ref_slot = bs_ref_slot bs,
         rd_cl_validators_balance_gwei = cl_balance, rd_cl_pending_balance_gwei = cl_pending_balance,
         rd_staking_module_ids_with_exited_validators = exit_sm_ids,
         rd_count_exited_validators_by_staking_module = exit_counts,
         rd_staking_module_ids_with_updated_balance = balance_sm_ids,
         rd_validator_balances_gwei_by_staking_module = balances,
         rd_withdrawal_vault_balance = withdrawal_vault_balance,
         rd_el_rewards_vault_balance = el_rewards_vault_balance,
         rd_shares_requested_to_burn = shares_requested_to_burn,
         rd_withdrawal_finalization_batches = finalization_batches, rd_finalization_share_rate = share_rate,
         rd_is_bunker = bunker, rd_vaults_tree_root = tree_root, rd_vaults_tree_cid = tree_cid,
         rd_extra_data_format = extra_data_format extra_data, rd_extra_data_hash = data_hash extra_data,
         rd_extra_data_items_count = items_count extra_data\<rparr>)))))))))))))"

section \<open>Exited validators by module\<close>

definition module_total :: "(gid \<times> int) list \<Rightarrow> module_id \<Rightarrow> int" where
  "module_total exited_validators m = (\<Sum>(_, n)\<leftarrow>filter (\<lambda>((m', _), _). m' = m) exited_validators. n)"

lemma module_stats_total:
  "al_get 0 (fold (\<lambda>((m, _), n) d. AList.update m (al_get 0 d m + n) d) xs d) k = al_get 0 d k + module_total xs k"
  by (induction xs arbitrary: d) (auto simp: module_total_def)

lemma module_stats_distinct:
  "distinct (map fst d) \<Longrightarrow> distinct (map fst (fold (\<lambda>((m, _), n) d. AList.update m (al_get 0 d m + n) d) xs d))"
  by (induction xs arbitrary: d) (auto intro: distinct_update)

lemma drop_unchanged_distinct: "distinct (map fst d) \<Longrightarrow> distinct (map fst (drop_unchanged m d))"
  by (simp add: drop_unchanged_def Let_def distinct_update distinct_delete)

lemma map_of_drop_unchanged:
  "map_of (drop_unchanged m d) k =
     (if k \<noteq> sm_id m then map_of d k
      else if al_get 0 d k = sm_exited_validators_count m then None else Some (al_get 0 d k))"
  by (auto simp: drop_unchanged_def Let_def map_of_update_iff delete_conv' al_get_def split: option.splits)

lemma map_of_drop_all:
  "distinct (map sm_id ms) \<Longrightarrow> map_of (fold drop_unchanged ms d) k =
     (case find (\<lambda>m. sm_id m = k) ms of None \<Rightarrow> map_of d k
      | Some m \<Rightarrow> if al_get 0 d k = sm_exited_validators_count m then None else Some (al_get 0 d k))"
proof (induction ms arbitrary: d)
  case Nil
  then show ?case by simp
next
  case (Cons m ms)
  have "find (\<lambda>m. sm_id m = k) ms = None" if "sm_id m = k" using Cons.prems that by (auto simp: find_None_iff) (metis image_eqI)
  then show ?case using Cons by (auto simp: map_of_drop_unchanged al_get_def split: option.splits)
qed

lemma sort_fst_table:
  fixes d :: "('k::linorder \<times> 'v) list"
  assumes "distinct (map fst d)"
  shows "map_of (sort_key fst d) = map_of d" and "sorted_wrt (<) (map fst (sort_key fst d))"
proof -
  have "mset (map fst (sort_key fst d)) = mset (map fst d)" by simp
  then have dist: "distinct (map fst (sort_key fst d))" using assms mset_eq_imp_distinct_iff by blast
  then show "map_of (sort_key fst d) = map_of d" by (intro map_of_mset) simp_all
  from dist show "sorted_wrt (<) (map fst (sort_key fst d))" by (simp add: strict_sorted_iff)
qed

lemma module_stats_table:
  "distinct (map fst (fold drop_unchanged ms (fold (\<lambda>((m, _), n) d. AList.update m (al_get 0 d m + n) d) exited [])))"
proof -
  have "distinct (map fst (fold drop_unchanged ms d))" if "distinct (map fst d)" for d
    using that by (induction ms arbitrary: d) (simp_all add: drop_unchanged_distinct)
  moreover have "distinct (map fst (fold (\<lambda>((m, _), n) d. AList.update m (al_get 0 d m + n) d) exited []))"
    by (rule module_stats_distinct) simp
  ultimately show ?thesis by blast
qed

lemma newly_exited_sorted: "sorted_wrt (<) (map fst (newly_exited_by_modules exited ms))"
  using sort_fst_table(2)[OF module_stats_table] by (simp add: newly_exited_by_modules_def)

text \<open>
  The report names exactly the modules whose number of exited validators changed: for a module of the
  staking router the number is that of all its operators together, and it is left out exactly when the
  contract already knows it; the modules come in strictly increasing order.\<close>

theorem exited_modules_exact:
  assumes "distinct (map sm_id staking_modules)" "m \<in> set staking_modules"
  shows "map_of (newly_exited_by_modules exited_validators staking_modules) (sm_id m) =
      (if module_total exited_validators (sm_id m) = sm_exited_validators_count m then None
       else Some (module_total exited_validators (sm_id m))) \<and>
    sorted_wrt (<) (map fst (newly_exited_by_modules exited_validators staking_modules))"
proof -
  let ?d = "fold (\<lambda>((m, _), n) d. AList.update m (al_get 0 d m + n) d) exited_validators []"
  have t: "map_of (newly_exited_by_modules exited_validators staking_modules) = map_of (fold drop_unchanged staking_modules ?d)"
    using sort_fst_table(1)[OF module_stats_table] by (simp add: newly_exited_by_modules_def)
  have "find (\<lambda>m'. sm_id m' = sm_id m) staking_modules = Some m"
    using assms by (induction staking_modules) auto
  with t show ?thesis using module_stats_total[of exited_validators "[]" "sm_id m"] newly_exited_sorted
    by (simp add: map_of_drop_all[OF assms(1)])
qed

section \<open>Balances by module\<close>

definition balance_of :: "linked_validator list \<Rightarrow> gwei" where
  "balance_of vs = (\<Sum>v\<leftarrow>vs. v_balance v)"

definition balances_known :: "(module_id \<times> gwei) list \<Rightarrow> module_id \<Rightarrow> gwei \<Rightarrow> (module_id \<times> gwei) list \<Rightarrow> bool" where
  "balances_known d m b d' \<longleftrightarrow> map fst d' = map fst d \<and> (\<forall>k. al_get 0 d' k = al_get 0 d k + (if k = m then b else 0))"

lemma add_balance_Inr:
  "add_balance m v d = Inr d' \<longleftrightarrow> (\<exists>b. map_of d m = Some b \<and> d' = AList.update m (b + v_balance v) d)"
  by (auto simp: add_balance_def modifyR_def res_simps)

lemma add_balances:
  "foldR (add_balance m) vs d = Inr d' \<Longrightarrow> balances_known d m (balance_of vs) d'"
proof (induction vs arbitrary: d)
  case Nil
  then show ?case by (simp add: balances_known_def balance_of_def)
next
  case (Cons v vs)
  obtain b where b: "map_of d m = Some b" "foldR (add_balance m) vs (AList.update m (b + v_balance v) d) = Inr d'"
    using Cons.prems by (auto simp: add_balance_Inr bindR_eq_Inr)
  have k: "map fst (AList.update m (b + v_balance v) d) = map fst d" using b(1) by (simp add: update_keys_same)
  have g: "al_get 0 d m = b" using b(1) by (simp add: al_get_def)
  show ?case
    using Cons.IH[OF b(2)] k g unfolding balances_known_def balance_of_def by auto
qed

lemma update_adds: "map_of d k = Some b \<Longrightarrow> sum_list (map snd (AList.update k (b + x) d)) = sum_list (map snd d) + (x :: int)"
  by (induction d) (auto split: if_splits)

lemma add_balances_sum:
  "foldR (add_balance m) vs d = Inr d' \<Longrightarrow> sum_list (map snd d') = sum_list (map snd d) + balance_of vs"
proof (induction vs arbitrary: d)
  case Nil
  then show ?case by (simp add: balance_of_def)
next
  case (Cons v vs)
  obtain b where b: "map_of d m = Some b" "foldR (add_balance m) vs (AList.update m (b + v_balance v) d) = Inr d'"
    using Cons.prems by (auto simp: add_balance_Inr bindR_eq_Inr)
  show ?case using Cons.IH[OF b(2)] update_adds[OF b(1), of "v_balance v"] by (simp add: balance_of_def)
qed

definition add_operator :: "gid \<times> linked_validator list \<Rightarrow> (module_id \<times> gwei) list \<Rightarrow> (module_id \<times> gwei) list res" where
  "add_operator entry d = (case entry of ((m, _), vs) \<Rightarrow> foldR (add_balance m) vs d)"

definition operators_balance :: "module_id \<Rightarrow> (gid \<times> linked_validator list) list \<Rightarrow> gwei" where
  "operators_balance k by_no = (\<Sum>(g, vs)\<leftarrow>filter (\<lambda>(g, _). fst g = k) by_no. balance_of vs)"

lemma add_operators:
  "foldR add_operator by_no d = Inr d' \<Longrightarrow> map fst d' = map fst d \<and>
    al_get 0 d' k = al_get 0 d k + operators_balance k by_no \<and>
    sum_list (map snd d') = sum_list (map snd d) + (\<Sum>(_, vs)\<leftarrow>by_no. balance_of vs)"
proof (induction by_no arbitrary: d)
  case Nil
  then show ?case by (simp add: operators_balance_def)
next
  case (Cons e by_no)
  obtain m n vs where e: "e = ((m, n), vs)" by (metis surj_pair)
  obtain d1 where d1: "foldR (add_balance m) vs d = Inr d1" "foldR add_operator by_no d1 = Inr d'"
    using Cons.prems unfolding e foldR.simps bindR_eq_Inr by (auto simp: add_operator_def[of "((m, n), vs)"])
  show ?case
    using Cons.IH[OF d1(2)] add_balances[OF d1(1)] add_balances_sum[OF d1(1)]
    by (auto simp: e balances_known_def operators_balance_def)
qed

definition wf_modules :: "staking_module list \<Rightarrow> bool" where
  "wf_modules ms \<longleftrightarrow> distinct (map sm_id ms) \<and> distinct (map sm_staking_module_address ms)"

lemma balances_by_modules_eq:
  assumes "wf_modules ms" "balances_by_modules ms by_no = Inr items"
  obtains d where "foldR add_operator by_no (map (\<lambda>m. (sm_id m, 0)) ms) = Inr d" "items = sort_key fst d"
proof -
  have a: "dict_of (map (\<lambda>m. (sm_staking_module_address m, m)) ms) = map (\<lambda>m. (sm_staking_module_address m, m)) ms"
    "dict_of (map (\<lambda>m. (sm_id m, 0 :: int)) ms) = map (\<lambda>m. (sm_id m, 0)) ms"
    using assms(1) by (auto simp: wf_modules_def comp_def intro!: dict_of_distinct_keys)
  have "mapR (\<lambda>(_, m). lookupR (map (\<lambda>m. (sm_staking_module_address m, m)) ms) (sm_staking_module_address m))
      (map (\<lambda>m. (sm_staking_module_address m, m)) ms) = Inr (map snd (map (\<lambda>m. (sm_staking_module_address m, m)) ms))"
    using assms(1) by (intro mapR_all_ok)
      (auto simp: wf_modules_def lookupR_eq_Inr comp_def intro!: map_of_is_SomeI)
  then have "bindR (foldR add_operator by_no (map (\<lambda>m. (sm_id m, 0)) ms)) (\<lambda>d. Inr (sort_key fst d)) = Inr items"
    using assms(2) a by (simp add: balances_by_modules_def Let_def comp_def add_operator_def[abs_def] split_def)
  then show thesis using that by (auto simp: res_simps)
qed

lemma module_balances:
  assumes "wf_modules ms" "balances_by_modules ms by_no = Inr items"
  shows "sorted_wrt (<) (map fst items) \<and> set (map fst items) = sm_id ` set ms \<and>
    (\<forall>(k, b) \<in> set items. b = operators_balance k by_no) \<and>
    sum_list (map snd items) = (\<Sum>(_, vs)\<leftarrow>by_no. balance_of vs)"
proof -
  obtain d where d: "foldR add_operator by_no (map (\<lambda>m. (sm_id m, 0)) ms) = Inr d" "items = sort_key fst d"
    using balances_by_modules_eq[OF assms] .
  note s = add_operators[OF d(1)]
  have dist: "distinct (map fst d)" using s assms(1) by (simp add: wf_modules_def comp_def)
  have zero: "al_get 0 (map (\<lambda>m. (sm_id m, 0 :: int)) ms) k = 0" for k
    by (auto simp: al_get_def dest!: map_of_SomeD split: option.splits)
  have "b = operators_balance k by_no" if "(k, b) \<in> set d" for k b
    using s[of k] zero map_of_is_SomeI[OF dist that] by (simp add: al_get_def)
  moreover have "set (map fst items) = set (map fst d)" by (simp add: d(2))
  moreover have "sum_list (map snd items) = sum_list (map snd d)"
    by (metis d(2) mset_map mset_sort sum_mset_sum_list)
  moreover have "sum_list (map snd (map (\<lambda>m. (sm_id m, 0 :: int)) ms)) = 0" by (induction ms) simp_all
  ultimately show ?thesis using s sort_fst_table(2)[OF dist] d(2) by (auto simp: comp_def)
qed

section \<open>A well-formed report\<close>

definition module_of_address :: "node_operator list \<Rightarrow> (hexstr \<times> module_id) list" where
  "module_of_address ops = dict_of (map (\<lambda>operator.
     (sm_staking_module_address (no_staking_module operator), sm_id (no_staking_module operator))) ops)"

definition operator_listed :: "node_operator list \<Rightarrow> linked_validator \<Rightarrow> bool" where
  "operator_listed ops v \<longleftrightarrow>
     (case map_of (module_of_address ops) (lk_module_address (lido_id v)) of None \<Rightarrow> False
      | Some m \<Rightarrow> (m, lk_operator_index (lido_id v)) \<in> no_gid ` set ops)"

definition grouped_balance :: "(gid \<times> linked_validator list) list \<Rightarrow> gwei" where
  "grouped_balance d = (\<Sum>(_, vs)\<leftarrow>d. balance_of vs)"

lemma append_to_grouped:
  "map_of d k = Some vs \<Longrightarrow> grouped_balance (append_to k v d) = grouped_balance d + v_balance v"
proof -
  have "map_of d k = Some vs \<Longrightarrow> grouped_balance (AList.update k (vs @ [v]) d) = grouped_balance d + v_balance v"
    by (induction d) (auto simp: grouped_balance_def balance_of_def split: if_splits)
  then show "map_of d k = Some vs \<Longrightarrow> ?thesis" by (simp add: append_to_def al_get_def)
qed

lemma grouping_total:
  assumes "foldR (by_operator_step (module_of_address ops)) active d = Inr d'"
    and "\<forall>v \<in> set active. operator_listed ops v" "set (map fst d) = no_gid ` set ops"
  shows "grouped_balance d' = grouped_balance d + balance_of active"
  using assms
proof (induction active arbitrary: d)
  case Nil
  then show ?case by (simp add: balance_of_def)
next
  case (Cons v active)
  obtain m where m: "map_of (module_of_address ops) (lk_module_address (lido_id v)) = Some m"
    "(m, lk_operator_index (lido_id v)) \<in> no_gid ` set ops"
    using Cons.prems(2) by (auto simp: operator_listed_def split: option.splits)
  then obtain vs where vs: "map_of d (m, lk_operator_index (lido_id v)) = Some vs"
    using Cons.prems(3) by (metis (no_types) map_of_eq_None_iff option.exhaust set_map)
  let ?d = "append_to (m, lk_operator_index (lido_id v)) v d"
  have r: "foldR (by_operator_step (module_of_address ops)) active ?d = Inr d'"
    using Cons.prems(1) m(1) vs by (simp add: by_operator_step_def[of _ v d] lookupR_def Let_def)
  have "set (map fst ?d) = no_gid ` set ops"
    using Cons.prems(3) vs by (simp add: append_to_def update_keys_same del: set_map)
  from Cons.IH[OF r _ this] Cons.prems(2) append_to_grouped[OF vs, of v] show ?case by (simp add: balance_of_def)
qed

lemma operators_total:
  assumes "get_lido_validators_by_node_operators active ops = Inr by_no" "\<forall>v \<in> set active. operator_listed ops v"
  shows "(\<Sum>(_, vs)\<leftarrow>by_no. balance_of vs) = balance_of active"
proof -
  let ?d = "dict_of (map (\<lambda>operator. (no_gid operator, [] :: linked_validator list)) ops)"
  have v: "v = []" if "(k, v) \<in> set ?d" for k v
  proof -
    have "map_of ?d k = Some v" using dict_of_distinct that by (rule map_of_is_SomeI)
    then show ?thesis by (auto simp: map_of_dict_of rev_map dest!: map_of_SomeD)
  qed
  have "map (\<lambda>(_, vs). balance_of vs) ?d = map (\<lambda>_. 0) ?d" by (auto simp: balance_of_def dest: v)
  then have z: "grouped_balance ?d = 0" unfolding grouped_balance_def by (simp only: sum_list_0)
  have "map_of ?d k = None \<longleftrightarrow> k \<notin> no_gid ` set ops" for k
    by (auto simp: map_of_dict_of rev_map map_of_eq_None_iff image_image)
  then have "set (map fst ?d) = no_gid ` set ops" unfolding map_of_eq_None_iff set_map by blast
  from grouping_total[OF _ assms(2) this, of by_no] assms(1) z show ?thesis
    by (simp add: get_lido_validators_by_node_operators_def Let_def module_of_address_def grouped_balance_def)
qed

lemma simple_balance: "get_cl_validators_balance env = Inr b \<Longrightarrow> active_lido_validators env = Inr active \<Longrightarrow> b = balance_of active"
  by (simp add: get_cl_validators_balance_def balance_of_def)

lemma extra_data_format:
  "collect keccak exited n m = Inr x \<Longrightarrow> extra_data_format x = (if items_count x = 0 then 0 else 1)"
  by (auto simp: collect_def res_simps format_list_value_def Let_def split_def split: if_splits)


section \<open>A report of one validator\<close>

definition demo_staking :: staking_module where
  "demo_staking = \<lparr>sm_id = 3, sm_staking_module_address = ''m'', sm_staking_module_fee = 0, sm_treasury_fee = 0,
     sm_stake_share_limit = 0, sm_status = 0, sm_name = ''n'', sm_last_deposit_at = 0, sm_last_deposit_block = 0,
     sm_exited_validators_count = 1, sm_priority_exit_share_threshold = 0, sm_max_deposits_per_block = 0,
     sm_min_deposit_block_distance = 0, sm_withdrawal_credentials_type = 1, sm_validators_balance_gwei = 0\<rparr>"

definition demo_no :: node_operator where
  "demo_no = \<lparr>no_id = 0, no_is_active = True, no_is_target_limit_active = DISABLED, no_target_validators_count = 0,
     no_refunded_validators_count = 0, no_total_exited_validators = 0, no_total_deposited_validators = 2,
     no_depositable_validators_count = 0, no_staking_module = demo_staking\<rparr>"

definition demo_results :: simulation_results where
  "demo_results = \<lparr>si_withdrawals_vault_transfer = 2, si_el_rewards_vault_transfer = 1, si_ether_to_finalize_wq = 0,
     si_shares_to_finalize_wq = 0, si_shares_to_burn_for_withdrawals = 0, si_total_shares_to_burn = 0,
     si_shares_to_mint_as_fees = 0,
     si_fee_distribution = \<lparr>fd_module_fee_recipients = [], fd_module_ids = [], fd_module_shares_to_mint = [],
       fd_treasury_shares_to_mint = 0\<rparr>,
     si_principal_cl_balance = 0, si_pre_total_shares = 10, si_pre_total_pooled_ether = 12, si_post_internal_shares = 10,
     si_post_internal_ether = 13, si_post_total_shares = 10, si_post_total_pooled_ether = 13\<rparr>"

definition demo_accounting :: accounting_env where
  "demo_accounting = \<lparr>ae_chain = mainnet_chain, ae_frame = mainnet_frame, ae_consensus_version = Inr 6,
     ae_validators = Inr [demo_chain_validator 8 ''b''], ae_slashings = [], ae_pending_deposits = Inr [],
     ae_pending_consolidations = Inr [], ae_lido_keys = Inr [demo_lido_key 1 ''b''], ae_deposited_validators = 1,
     ae_node_operators = Inr [demo_no], ae_staking_modules = Inr [demo_staking],
     ae_signature_lib = ab_signature_lib demo_abnormal, ae_withdrawal_vault = ''0xAB'',
     ae_genesis_fork_version = ''0x00000000'', ae_withdrawal_balance = Inr 2, ae_el_vault_balance = Inr 1,
     ae_shares_requested_to_burn = Inr (4, 3), ae_simulate_oracle_report = (\<lambda>_. Inr demo_results),
     ae_last_processing_ref_slot = Inr 0, ae_total_supply = 12,
     ae_bunker = demo_abnormal\<lparr>ab_last_processing_ref_slot := 0\<rparr>, ae_queue = demo_queue\<lparr>qe_is_paused := Inr True\<rparr>, ae_border = demo_border,
     ae_extra_data_limits = Inr (8, 24), ae_keccak = demo_keccak, ae_vaults = Some (Inr []), ae_frame_number = Inr 5,
     ae_status = demo_status_env, ae_fees = demo_fee_env, ae_reserve = demo_reserve_env,
     ae_latest_report = Inr demo_first_report\<rparr>"

definition demo_active :: "linked_validator list" where
  "demo_active = [link_validator [] [] [] (as_lido_validator (demo_lido_key 1 ''b'') (demo_chain_validator 8 ''b''))]"

lemma demo_active_validators:
  "active_lido_validators demo_accounting = Inr demo_active"
  "lido_validators_by_operators demo_accounting = Inr [((3, 0), demo_active)]"
proof -
  show active: "active_lido_validators demo_accounting = Inr demo_active" by code_simp
  have "get_lido_validators_by_node_operators demo_active [demo_no] = Inr [((3, 0), demo_active)]" by code_simp
  then show "lido_validators_by_operators demo_accounting = Inr [((3, 0), demo_active)]"
    by (simp add: lido_validators_by_operators_def active) (simp add: demo_accounting_def)
qed

lemma demo_report_parts:
  assumes "bs_ref_epoch bs = 0"
  shows "is_ok (get_cl_pending_validators_balance demo_accounting)" "is_ok (get_balances_by_modules demo_accounting)"
    "\<exists>x. get_extra_data demo_accounting bs = Inr x \<and> extra_data_format x = 0"
proof -
  have "is_ok (pending_lido_validators demo_accounting)" by code_simp
  then show "is_ok (get_cl_pending_validators_balance demo_accounting)"
    by (auto simp: is_ok_iff get_cl_pending_validators_balance_def demo_active_validators Let_def)
  have "is_ok (balances_by_modules [demo_staking] [((3, 0), demo_active)])" by code_simp
  then show "is_ok (get_balances_by_modules demo_accounting)"
    by (auto simp: is_ok_iff get_balances_by_modules_def demo_active_validators) (auto simp: demo_accounting_def)
  have "bindR (bindR (get_lido_newly_exited_validators [((3, 0), demo_active)] 0 [demo_no])
      (\<lambda>x. collect demo_keccak x 8 24)) (\<lambda>x. Inr (extra_data_format x)) = Inr 0" by code_simp
  then show "\<exists>x. get_extra_data demo_accounting bs = Inr x \<and> extra_data_format x = 0"
    by (simp add: get_extra_data_def demo_active_validators assms) (auto simp: demo_accounting_def res_simps)
qed

lemma demo_report:
  assumes "bs_ref_epoch bs = 0"
  shows "is_bunker demo_accounting bs = Some (Inr False)" "\<exists>r. calculate_report demo_accounting bs = Some (Inr r)"
proof -
  obtain b ds x where parts: "get_cl_pending_validators_balance demo_accounting = Inr b"
      "get_balances_by_modules demo_accounting = Inr ds" "get_extra_data demo_accounting bs = Inr x"
    using demo_report_parts[OF assms] by (auto simp: is_ok_iff)
  have rebase: "simulate_rebase_after_report demo_accounting bs el = Inr demo_results" for el
    by (simp add: simulate_rebase_after_report_def parts get_cl_validators_balance_def demo_active_validators)
      (simp add: demo_accounting_def get_shares_to_burn_def get_slots_elapsed_from_last_report_def)
  show w: "is_bunker demo_accounting bs = Some (Inr False)"
    by (simp add: is_bunker_def simulate_cl_rebase_def rebase demo_active_validators)
      (simp add: is_bunker_mode_def demo_accounting_def)
  have sim: "simulate_full_rebase demo_accounting bs = Inr demo_results"
    by (simp add: simulate_full_rebase_def rebase) (simp add: demo_accounting_def)
  have fin: "get_finalization_data demo_accounting bs = Some (Inr ([], finalization_share_rate demo_results))"
    by (simp add: get_finalization_data_def w sim get_finalization_batches_def) (simp add: demo_accounting_def)
  have vaults: "handle_vaults_report demo_accounting bs = Some (Inr (ZERO_HASH, []))"
    by (simp add: handle_vaults_report_def demo_accounting_def get_vaults_def)
  show "\<exists>r. calculate_report demo_accounting bs = Some (Inr r)"
    by (simp add: calculate_report_def parts fin vaults w split_def get_cl_validators_balance_def demo_active_validators
        get_newly_exited_validators_by_modules_def Let_def)
       (simp add: demo_accounting_def get_shares_to_burn_def)
qed


theorem exited_modules_exact_witness:
  "map_of (newly_exited_by_modules [((3, 0), 1), ((3, 1), 4), ((7, 0), 2)] [demo_staking]) 3 = Some 5"
  using exited_modules_exact[of "[demo_staking]" demo_staking "[((3, 0), 1), ((3, 1), 4), ((7, 0), 2)]"]
  by (simp add: demo_staking_def module_total_def)

end
