(* ===== verification/Consensus.thy ===== *)
theory Consensus
  imports Effects Slots Bytes
begin

text \<open>
  \<open>src/modules/oracles/common/consensus.py\<close> with the transactions of \<open>src/web3py/extensions/tx_utils.py\<close>
  and \<open>src/utils/transaction.py\<close>: when an oracle builds a report, sends its hash and submits its data.
  Contracts and node are functions of the block they are asked at; the head of the chain moves, so
  \<open>oe_head n\<close> is the answer to the process's \<open>n\<close>-th request for it. What the process did to the
  outside world is the log of its state. The abstract methods of the module are fields of the
  environment, which a concrete oracle fills with its definitions. ABI encoding, keccak, signing and the
  encoding of delegated calls are third-party code.
\<close>

section \<open>Data\<close>

definition ZERO_HASH32 :: bytes where "ZERO_HASH32 = replicate 32 0"

definition InitialEpochIsYetToArriveRevert :: string where
  "InitialEpochIsYetToArriveRevert = ''0xcd0883ea''"

record current_frame =
  cf_ref_slot :: slot
  cf_deadline_slot :: slot

record member_info =
  mi_is_report_member :: bool
  mi_is_submit_member :: bool
  mi_is_fast_lane :: bool
  mi_last_report_ref_slot :: slot
  mi_fast_lane_length_slot :: int
  mi_current_frame_ref_slot :: slot
  mi_deadline_slot :: slot
  mi_current_frame_member_report :: bytes
  mi_current_frame_consensus_report :: bytes

record member_state =
  ms_consensus_report :: bytes
  ms_is_member :: bool
  ms_is_fast_lane :: bool
  ms_last_report_ref_slot :: slot
  ms_member_report :: bytes

datatype 'r tx =
    SubmitReport slot bytes int
  | SubmitReportData 'r int
  | SubmitExtraDataEmpty
  | SubmitExtraDataList bytes
  | Delegated "'r tx"

fun plain :: "'r tx \<Rightarrow> 'r tx" where
  \<comment> \<open>the call a delegated transaction carries\<close>
  "plain (Delegated t) = plain t"
| "plain t = t"

record tx_params =
  tp_from :: hexstr
  tp_max_fee :: int
  tp_max_priority_fee :: int
  tp_nonce :: int
  tp_gas :: "int option"

record fee_config =
  fc_min_priority_fee :: int
  fc_max_priority_fee :: int
  fc_gas_addition :: int
  fc_max_block_gas :: int

datatype 'r action =
    TxSent "'r tx"
  | Slept int
  | TelemetrySent bytes
  | DemandPosted epoch epoch

record 'r cstate =
  cs_polls :: nat
  cs_last_sent_report_hash :: "bytes option"
  cs_log :: "'r action list"

record 'r oracle_env =
  oe_client :: cl_client
  oe_head :: "nat \<Rightarrow> blockstamp res"
  oe_finalized :: "nat \<Rightarrow> blockstamp res"
  oe_refresh :: "nat \<Rightarrow> unit res"
  oe_account :: "hexstr option"
  oe_delegation_enabled :: bool
  oe_daemon :: bool
  oe_prompt :: "'r tx \<Rightarrow> bool"
  oe_fees :: fee_config
  oe_base_fee :: "int res"
  oe_reward :: "int res"
  oe_nonce :: "hexstr \<Rightarrow> int res"
  oe_estimate_gas :: "'r tx \<Rightarrow> int res"
  oe_static_call :: "'r tx \<Rightarrow> tx_params \<Rightarrow> unit res"
  oe_send :: "'r tx \<Rightarrow> tx_params \<Rightarrow> unit res"
  oe_receipt :: "'r tx \<Rightarrow> int res"
  oe_chain_config :: "hexstr \<Rightarrow> chain_config res"
  oe_frame_config :: "hexstr \<Rightarrow> frame_config res"
  oe_current_frame :: "hexstr \<Rightarrow> current_frame res"
  oe_member_state :: "hexstr \<Rightarrow> hexstr \<Rightarrow> member_state res"
  oe_members :: "hexstr \<Rightarrow> hexstr list res"
  oe_has_submit_role :: "hexstr \<Rightarrow> hexstr \<Rightarrow> bool res"
  oe_contract_version :: "hexstr \<Rightarrow> int res"
  oe_consensus_version :: "hexstr \<Rightarrow> int res"
  oe_compatible_contract_version :: int
  oe_compatible_consensus_version :: int
  oe_submit_data_delay :: int
  oe_encode :: "'r \<Rightarrow> bytes res"
  oe_keccak :: "bytes \<Rightarrow> bytes"
  oe_telemetry :: "bytes \<Rightarrow> bool"
  oe_build_report :: "ref_blockstamp \<Rightarrow> 'r res"
  oe_is_main_data_submitted :: "blockstamp \<Rightarrow> bool res"
  oe_is_contract_reportable :: "blockstamp \<Rightarrow> bool res"
  oe_is_reporting_allowed :: "ref_blockstamp \<Rightarrow> bool res"

section \<open>Transactions\<close>

definition estimate_gas :: "'r oracle_env \<Rightarrow> 'r tx \<Rightarrow> int option res" where
  "estimate_gas env t =
     (case oe_estimate_gas env t of
        Inl e \<Rightarrow> if is_logic_error e \<or> is_value_error e then Inr None else Inl e
      | Inr gas \<Rightarrow> Inr (Some (min (fc_max_block_gas (oe_fees env)) (gas + fc_gas_addition (oe_fees env)))))"

definition build_transaction_params :: "'r oracle_env \<Rightarrow> 'r tx \<Rightarrow> hexstr \<Rightarrow> tx_params res" where
  "build_transaction_params env t account =
     bindR (oe_base_fee env) (\<lambda>base_fee.
     bindR (oe_reward env) (\<lambda>reward.
     let max_priority_fee = min (fc_max_priority_fee (oe_fees env)) (max reward (fc_min_priority_fee (oe_fees env)))
     in bindR (oe_nonce env account) (\<lambda>nonce.
        bindR (estimate_gas env t) (\<lambda>gas.
          Inr \<lparr>tp_from = account, tp_max_fee = base_fee * 2 + max_priority_fee,
               tp_max_priority_fee = max_priority_fee, tp_nonce = nonce,
               tp_gas = (if gas = Some 0 then None else gas)\<rparr>))))"

definition check_transaction :: "'r oracle_env \<Rightarrow> 'r tx \<Rightarrow> tx_params \<Rightarrow> bool res" where
  "check_transaction env t params =
     (case oe_static_call env t params of
        Inl e \<Rightarrow> if is_value_error e \<or> is_logic_error e then Inr False else Inl e
      | Inr _ \<Rightarrow> Inr True)"

definition log_action :: "'r action \<Rightarrow> ('r cstate, unit) act" where
  "log_action a s = (Inr (), s\<lparr>cs_log := cs_log s @ [a]\<rparr>)"

definition handle_sent_transaction :: "'r oracle_env \<Rightarrow> 'r tx \<Rightarrow> int option res" where
  "handle_sent_transaction env t =
     (case oe_receipt env t of
        Inl e \<Rightarrow> if e = TimeExhausted then Inr None else Inl e
      | Inr status \<Rightarrow> Inr (Some status))"

definition send_transaction :: "'r oracle_env \<Rightarrow> 'r tx \<Rightarrow> tx_params \<Rightarrow> ('r cstate, int option) act" where
  "send_transaction env t params =
     bindA (liftA (oe_send env t params)) (\<lambda>_.
     bindA (log_action (TxSent t)) (\<lambda>_. liftA (handle_sent_transaction env t)))"

definition manual_tx_processing :: "'r oracle_env \<Rightarrow> 'r tx \<Rightarrow> tx_params \<Rightarrow> ('r cstate, int option) act" where
  "manual_tx_processing env t params =
     (if oe_prompt env t then bindA (send_transaction env t params) (\<lambda>_. returnA None) else returnA None)"

definition check_and_send_transaction :: "'r oracle_env \<Rightarrow> 'r tx \<Rightarrow> ('r cstate, int option) act" where
  "check_and_send_transaction env t =
     (case oe_account env of
        None \<Rightarrow> returnA None
      | Some account \<Rightarrow>
          let t = (if oe_delegation_enabled env then Delegated t else t) in
          bindA (liftA (build_transaction_params env t account)) (\<lambda>params.
          bindA (liftA (check_transaction env t params)) (\<lambda>ok.
            if ok
            then if \<not> oe_daemon env then manual_tx_processing env t params else send_transaction env t params
            else returnA None)))"

section \<open>Contract state\<close>

definition get_web3_converter :: "'r oracle_env \<Rightarrow> hexstr \<Rightarrow> (chain_config \<times> frame_config) res" where
  "get_web3_converter env h =
     bindR (oe_chain_config env h) (\<lambda>c. bindR (oe_frame_config env h) (\<lambda>f. Inr (c, f)))"

definition get_initial_or_current_frame :: "'r oracle_env \<Rightarrow> hexstr \<Rightarrow> current_frame res" where
  "get_initial_or_current_frame env h =
     (case oe_current_frame env h of
        Inr f \<Rightarrow> Inr f
      | Inl e \<Rightarrow>
          if e \<noteq> ContractCustomError InitialEpochIsYetToArriveRevert then Inl e
          else bindR (get_web3_converter env h) (\<lambda>(c, f).
            Inr \<lparr>cf_ref_slot = get_frame_last_slot c f (0 - 1), cf_deadline_slot = get_frame_last_slot c f 0\<rparr>))"

definition dry_member_state :: member_state where
  "dry_member_state =
     \<lparr>ms_consensus_report = ZERO_HASH32, ms_is_member = True, ms_is_fast_lane = True,
      ms_last_report_ref_slot = 0, ms_member_report = ZERO_HASH32\<rparr>"

definition get_account_state :: "'r oracle_env \<Rightarrow> hexstr \<Rightarrow> hexstr \<Rightarrow> (member_state \<times> bool) res" where
  "get_account_state env account h =
     bindR (case oe_member_state env account h of
              Inr ms \<Rightarrow> Inr ms
            | Inl e \<Rightarrow> if e \<noteq> ContractCustomError InitialEpochIsYetToArriveRevert then Inl e else Inr dry_member_state)
       (\<lambda>ms. bindR (oe_has_submit_role env account h) (\<lambda>is_submit_member.
          if \<not> ms_is_member ms \<and> \<not> is_submit_member then Inl IsNotMemberException
          else Inr (ms, is_submit_member)))"

definition get_member_info :: "'r oracle_env \<Rightarrow> blockstamp \<Rightarrow> member_info res" where
  "get_member_info env bs =
     (let h = bs_block_hash bs in
      bindR (get_initial_or_current_frame env h) (\<lambda>current_frame.
      bindR (oe_frame_config env h) (\<lambda>frame_config.
      bindR (case oe_account env of None \<Rightarrow> Inr (dry_member_state, True) | Some account \<Rightarrow> get_account_state env account h)
        (\<lambda>(ms, is_submit_member).
        Inr \<lparr>mi_is_report_member = ms_is_member ms, mi_is_submit_member = is_submit_member,
             mi_is_fast_lane = ms_is_fast_lane ms, mi_last_report_ref_slot = ms_last_report_ref_slot ms,
             mi_fast_lane_length_slot = fast_lane_length_slots frame_config,
             mi_current_frame_ref_slot = cf_ref_slot current_frame, mi_deadline_slot = cf_deadline_slot current_frame,
             mi_current_frame_member_report = ms_member_report ms,
             mi_current_frame_consensus_report = ms_consensus_report ms\<rparr>))))"

definition get_latest_blockstamp :: "'r oracle_env \<Rightarrow> ('r cstate, blockstamp) act" where
  "get_latest_blockstamp env s = (oe_head env (cs_polls s), s\<lparr>cs_polls := Suc (cs_polls s)\<rparr>)"

definition get_latest_data :: "'r oracle_env \<Rightarrow> ('r cstate, blockstamp \<times> member_info) act" where
  "get_latest_data env =
     bindA (get_latest_blockstamp env) (\<lambda>bs.
     bindA (liftA (get_member_info env bs)) (\<lambda>mi. returnA (bs, mi)))"

definition check_contract_configs ::
    "'r oracle_env \<Rightarrow> chain_config \<Rightarrow> ('r cstate, unit) act" where
  \<comment> \<open>\<open>spec\<close> holds what the beacon node reports\<close>
  "check_contract_configs env spec =
     bindA (get_latest_blockstamp env) (\<lambda>bs.
     bindA (liftA (oe_chain_config env (bs_block_hash bs))) (\<lambda>config.
       liftA (if genesis_time config \<noteq> genesis_time spec \<or> seconds_per_slot config \<noteq> seconds_per_slot spec \<or>
           slots_per_epoch config \<noteq> slots_per_epoch spec then Inl ValueError else Inr ())))"

section \<open>Blockstamp of the report\<close>

definition get_blockstamp_for_report :: "'r oracle_env \<Rightarrow> blockstamp \<Rightarrow> ('r cstate, ref_blockstamp option) act" where
  "get_blockstamp_for_report env last_finalized =
     bindA (get_latest_data env) (\<lambda>(latest, member_info).
     bindA (liftA (oe_is_contract_reportable env latest)) (\<lambda>reportable.
       if \<not> reportable then returnA None
       else if bs_slot_number last_finalized < mi_current_frame_ref_slot member_info then returnA None
       else if bs_slot_number latest \<ge> mi_deadline_slot member_info then returnA None
       else bindA (liftA (get_web3_converter env (bs_block_hash last_finalized))) (\<lambda>(c, f).
         bindA (liftA (get_reference_blockstamp (oe_client env) (mi_current_frame_ref_slot member_info)
             (bs_slot_number last_finalized) (get_epoch_by_slot c (mi_current_frame_ref_slot member_info))))
           (\<lambda>bs. returnA (Some bs)))))"

definition check_compatibility :: "'r oracle_env \<Rightarrow> 'z blockstamp_scheme \<Rightarrow> bool res" where
  "check_compatibility env bs =
     bindR (oe_contract_version env (bs_block_hash bs)) (\<lambda>contract_version.
     bindR (oe_consensus_version env (bs_block_hash bs)) (\<lambda>consensus_version.
     if \<not> (contract_version \<le> oe_compatible_contract_version env \<and>
           consensus_version \<le> oe_compatible_consensus_version env) then Inl IncompatibleOracleVersion
     else bindR (oe_contract_version env ''latest'') (\<lambda>contract_version_latest.
       bindR (oe_consensus_version env ''latest'') (\<lambda>consensus_version_latest.
       if contract_version \<noteq> contract_version_latest \<or> consensus_version \<noteq> consensus_version_latest
       then Inl ContractVersionMismatch
       else Inr (contract_version = oe_compatible_contract_version env \<and>
                 consensus_version = oe_compatible_consensus_version env)))))"

section \<open>Sending the report\<close>

definition encode_data_hash :: "'r oracle_env \<Rightarrow> 'r \<Rightarrow> bytes res" where
  "encode_data_hash env report_data = bindR (oe_encode env report_data) (\<lambda>encoded. Inr (oe_keccak env encoded))"

definition process_report_hash :: "'r oracle_env \<Rightarrow> ref_blockstamp \<Rightarrow> bytes \<Rightarrow> ('r cstate, unit) act" where
  "process_report_hash env bs report_hash =
     bindA (get_latest_data env) (\<lambda>(latest, member_info).
       if \<not> mi_is_report_member member_info then returnA ()
       else if mi_current_frame_member_report member_info = report_hash then returnA ()
       else if \<not> mi_is_fast_lane member_info \<and>
            bs_slot_number latest < mi_current_frame_ref_slot member_info + mi_fast_lane_length_slot member_info
       then returnA ()
       else if \<not> mi_is_fast_lane member_info \<and> mi_current_frame_consensus_report member_info = report_hash
       then returnA ()
       else bindA (check_and_send_transaction env
              (SubmitReport (bs_ref_slot bs) report_hash (oe_compatible_consensus_version env))) (\<lambda>_. returnA ()))"

fun list_index :: "'a \<Rightarrow> 'a list \<Rightarrow> int res" where
  \<comment> \<open>\<open>xs.index(x)\<close>\<close>
  "list_index x [] = Inl ValueError"
| "list_index x (y # ys) = (if x = y then Inr 0 else bindR (list_index x ys) (\<lambda>i. Inr (i + 1)))"

definition get_slot_delay_before_data_submit :: "'r oracle_env \<Rightarrow> blockstamp \<Rightarrow> int res" where
  "get_slot_delay_before_data_submit env bs =
     bindR (get_member_info env bs) (\<lambda>member.
       case oe_account env of
         None \<Rightarrow> Inr 0
       | Some account \<Rightarrow>
           if mi_is_submit_member member then Inr 0
           else bindR (oe_members env (bs_block_hash bs)) (\<lambda>members.
             bindR (list_index account members) (\<lambda>mem_position.
             bindR (get_web3_converter env (bs_block_hash bs)) (\<lambda>(c, f).
             let current_frame_number = get_frame_by_slot c f (bs_slot_number bs);
                 current_position = current_frame_number mod int (length members);
                 sleep_count = mem_position - current_position;
                 sleep_count = (if sleep_count < 0 then sleep_count + int (length members) else sleep_count)
             in Inr ((1 + sleep_count) * oe_submit_data_delay env)))))"

text \<open>
  The wait before the data: after every slot the head is asked again, and the loop returns early
  (\<open>None\<close>) when somebody else submitted the data; otherwise it ends with the last block seen.
\<close>

fun wait_slots :: "'r oracle_env \<Rightarrow> int \<Rightarrow> nat \<Rightarrow> blockstamp \<Rightarrow> ('r cstate, blockstamp option) act" where
  "wait_slots env secs 0 latest s = (Inr (Some latest), s)"
| "wait_slots env secs (Suc n) latest s =
     bindA (log_action (Slept secs)) (\<lambda>_.
     bindA (get_latest_data env) (\<lambda>(latest, _).
     bindA (liftA (oe_is_main_data_submitted env latest)) (\<lambda>submitted.
       if submitted then returnA None else wait_slots env secs n latest))) s"

definition wait_before_submit :: "'r oracle_env \<Rightarrow> ref_blockstamp \<Rightarrow> blockstamp \<Rightarrow> ('r cstate, blockstamp option) act" where
  "wait_before_submit env bs latest =
     bindA (liftA (get_slot_delay_before_data_submit env latest)) (\<lambda>slots_to_sleep.
       if slots_to_sleep \<noteq> 0
       then bindA (liftA (oe_chain_config env (bs_block_hash bs))) (\<lambda>c.
              wait_slots env (seconds_per_slot c) (nat slots_to_sleep) latest)
       else returnA (Some latest))"

definition submit_if_missing :: "'r oracle_env \<Rightarrow> 'r \<Rightarrow> blockstamp \<Rightarrow> ('r cstate, unit) act" where
  "submit_if_missing env report_data latest =
     bindA (liftA (oe_is_main_data_submitted env latest)) (\<lambda>submitted.
       if submitted then returnA ()
       else bindA (check_and_send_transaction env (SubmitReportData report_data (oe_compatible_contract_version env)))
              (\<lambda>_. returnA ()))"

definition process_report_data :: "'r oracle_env \<Rightarrow> ref_blockstamp \<Rightarrow> 'r \<Rightarrow> bytes \<Rightarrow> ('r cstate, unit) act" where
  "process_report_data env bs report_data report_hash =
     bindA (get_latest_data env) (\<lambda>(latest, member_info).
       if mi_current_frame_consensus_report member_info = ZERO_HASH32 then returnA ()
       else if mi_current_frame_consensus_report member_info \<noteq> report_hash then returnA ()
       else bindA (liftA (oe_is_main_data_submitted env latest)) (\<lambda>submitted.
         if submitted then returnA ()
         else bindA (wait_before_submit env bs latest) (\<lambda>waited.
           case waited of None \<Rightarrow> returnA () | Some latest \<Rightarrow> submit_if_missing env report_data latest)))"

definition send_report_telemetry :: "'r oracle_env \<Rightarrow> bytes \<Rightarrow> 'r cstate \<Rightarrow> 'r cstate" where
  "send_report_telemetry env report_hash s =
     (if cs_last_sent_report_hash s = Some report_hash then s
      else if oe_telemetry env report_hash
      then s\<lparr>cs_last_sent_report_hash := Some report_hash, cs_log := cs_log s @ [TelemetrySent report_hash]\<rparr>
      else s)"

definition process_report :: "'r oracle_env \<Rightarrow> ref_blockstamp \<Rightarrow> ('r cstate, unit) act" where
  "process_report env bs =
     bindA (liftA (oe_build_report env bs)) (\<lambda>report_data.
     bindA (liftA (encode_data_hash env report_data)) (\<lambda>report_hash.
       finallyA
         (bindA (liftA (oe_is_reporting_allowed env bs)) (\<lambda>allowed.
            if \<not> allowed then returnA ()
            else bindA (process_report_hash env bs report_hash) (\<lambda>_.
                 process_report_data env bs report_data report_hash)))
         (send_report_telemetry env report_hash)))"

definition get_frame_number_by_slot :: "'r oracle_env \<Rightarrow> ref_blockstamp \<Rightarrow> frame res" where
  "get_frame_number_by_slot env bs =
     bindR (get_web3_converter env (bs_block_hash bs)) (\<lambda>(c, f). Inr (get_frame_by_slot c f (bs_ref_slot bs + 1)))"

section \<open>What the process can have sent\<close>

text \<open>
  \<open>observed s s'\<close>: what the process saw at some request for the head between the two states.
\<close>

definition observed :: "'r oracle_env \<Rightarrow> 'r cstate \<Rightarrow> 'r cstate \<Rightarrow> blockstamp \<Rightarrow> member_info \<Rightarrow> bool" where
  "observed env s s' b m \<longleftrightarrow>
     (\<exists>n. cs_polls s \<le> n \<and> n < cs_polls s' \<and> oe_head env n = Inr b \<and> get_member_info env b = Inr m)"

text \<open>Conditions on a hash and a data transaction that appear in the log between two states.\<close>

definition hash_tx :: "'r oracle_env \<Rightarrow> ref_blockstamp \<Rightarrow> 'r cstate \<Rightarrow> 'r cstate \<Rightarrow> bytes \<Rightarrow> 'r action \<Rightarrow> bool" where
  "hash_tx env bs s s' h a \<longleftrightarrow> (\<exists>t b m. a = TxSent t \<and>
     plain t = SubmitReport (bs_ref_slot bs) h (oe_compatible_consensus_version env) \<and> observed env s s' b m \<and>
     mi_is_report_member m \<and> mi_current_frame_member_report m \<noteq> h \<and>
     (mi_is_fast_lane m \<or>
      mi_current_frame_ref_slot m + mi_fast_lane_length_slot m \<le> bs_slot_number b \<and>
      mi_current_frame_consensus_report m \<noteq> h))"

definition data_tx :: "'r oracle_env \<Rightarrow> 'r cstate \<Rightarrow> 'r cstate \<Rightarrow> 'r \<Rightarrow> bytes \<Rightarrow> 'r action \<Rightarrow> bool" where
  "data_tx env s s' report h a \<longleftrightarrow> (\<exists>t b m b'. a = TxSent t \<and>
     plain t = SubmitReportData report (oe_compatible_contract_version env) \<and> observed env s s' b m \<and>
     mi_current_frame_consensus_report m = h \<and> h \<noteq> ZERO_HASH32 \<and>
     oe_head env (cs_polls s' - 1) = Inr b' \<and> oe_is_main_data_submitted env b' = Inr False)"

lemma observed_mono:
  "observed env s t b m \<Longrightarrow> cs_polls s' \<le> cs_polls s \<Longrightarrow> cs_polls t \<le> cs_polls t' \<Longrightarrow> observed env s' t' b m"
  unfolding observed_def by (meson order_trans order_less_le_trans)

lemma hash_tx_mono:
  "hash_tx env bs s t h a \<Longrightarrow> cs_polls s' \<le> cs_polls s \<Longrightarrow> cs_polls t \<le> cs_polls t' \<Longrightarrow> hash_tx env bs s' t' h a"
  using observed_mono[of env s t _ _ s' t'] unfolding hash_tx_def by blast

lemma data_tx_mono:
  "data_tx env s t rep h a \<Longrightarrow> cs_polls s' \<le> cs_polls s \<Longrightarrow> cs_polls t' = cs_polls t \<Longrightarrow> data_tx env s' t' rep h a"
  using observed_mono[of env s t _ _ s' t'] unfolding data_tx_def by (metis order_refl)

lemma get_latest_data_cases:
  assumes "get_latest_data env s = (r, s')"
  shows "s' = s\<lparr>cs_polls := Suc (cs_polls s)\<rparr>"
    and "r = Inr (b, m) \<Longrightarrow> oe_head env (cs_polls s) = Inr b \<and> get_member_info env b = Inr m"
  using assms by (auto simp: get_latest_data_def get_latest_blockstamp_def bindA_def returnA_def liftA_def split: sum.splits)

lemma send_transaction_log:
  assumes "send_transaction env t p s = (r, s')"
  shows "s' = s \<or> s' = s\<lparr>cs_log := cs_log s @ [TxSent t]\<rparr>"
  using assms by (auto simp: send_transaction_def bindA_def log_action_def liftA_def split: sum.splits)

lemma manual_log:
  assumes "manual_tx_processing env t p s = (r, s')"
  shows "s' = s \<or> s' = s\<lparr>cs_log := cs_log s @ [TxSent t]\<rparr>"
  using assms unfolding manual_tx_processing_def
  by (auto elim!: bindA_cases split: if_splits dest!: send_transaction_log)

lemma check_and_send_log:
  assumes "check_and_send_transaction env t s = (r, s')"
  shows "s' = s \<or> (\<exists>t'. s' = s\<lparr>cs_log := cs_log s @ [TxSent t']\<rparr> \<and> plain t' = plain t)"
  using assms unfolding check_and_send_transaction_def Let_def
  by (fastforce elim!: bindA_cases split: if_splits option.splits dest!: send_transaction_log manual_log)

lemma process_report_hash_spec:
  assumes "process_report_hash env bs h s = (r, s')"
  shows "cs_polls s' = Suc (cs_polls s) \<and>
    (\<exists>sent. cs_log s' = cs_log s @ sent \<and> length sent \<le> 1 \<and> list_all (hash_tx env bs s s' h) sent)"
  using assms unfolding process_report_hash_def
proof (cases rule: bindA_cases)
  case (error e)
  then show ?thesis using get_latest_data_cases(1)[OF error(1)] by simp
next
  case (ok a t)
  obtain b m where a: "a = (b, m)" by fastforce
  note l = get_latest_data_cases[OF ok(1)]
  from ok(2) have "s' = t \<or> (\<exists>t'. s' = t\<lparr>cs_log := cs_log t @ [TxSent t']\<rparr> \<and>
      plain t' = SubmitReport (bs_ref_slot bs) h (oe_compatible_consensus_version env) \<and>
      mi_is_report_member m \<and> mi_current_frame_member_report m \<noteq> h \<and>
      (mi_is_fast_lane m \<or> mi_current_frame_ref_slot m + mi_fast_lane_length_slot m \<le> bs_slot_number b \<and>
        mi_current_frame_consensus_report m \<noteq> h))"
    unfolding a by (auto elim!: bindA_cases dest!: check_and_send_log split: if_splits)
  moreover from l a have "cs_polls s' = cs_polls t \<Longrightarrow> observed env s s' b m" by (auto simp: observed_def)
  ultimately show ?thesis
    using l a by (fastforce simp: hash_tx_def)
qed

lemma wait_slots_spec:
  assumes "wait_slots env secs n latest s = (r, s')" "0 < cs_polls s" "oe_head env (cs_polls s - 1) = Inr latest"
  shows "\<exists>k \<le> n. cs_log s' = cs_log s @ replicate k (Slept secs) \<and> cs_polls s \<le> cs_polls s' \<and>
    (\<forall>b. r = Inr (Some b) \<longrightarrow> oe_head env (cs_polls s' - 1) = Inr b)"
  using assms
proof (induction n arbitrary: latest s)
  case (Suc n)
  from Suc.prems(1) obtain t where t: "t = s\<lparr>cs_log := cs_log s @ [Slept secs]\<rparr>"
    and rest: "bindA (get_latest_data env) (\<lambda>(latest, _).
     bindA (liftA (oe_is_main_data_submitted env latest)) (\<lambda>submitted.
       if submitted then returnA None else wait_slots env secs n latest)) t = (r, s')"
    by (auto simp: bindA_def[of "log_action _"] log_action_def)
  have stop: ?case if "cs_log s' = cs_log s @ [Slept secs]" "cs_polls s \<le> cs_polls s'" "\<forall>b. r \<noteq> Inr (Some b)"
    using that by (intro exI[of _ 1]) simp
  from rest show ?case
  proof (cases rule: bindA_cases)
    case (error e)
    then show ?thesis using get_latest_data_cases(1)[OF error(1)] t by (intro stop) simp_all
  next
    case (ok a u)
    obtain b m where a: "a = (b, m)" by fastforce
    note u = get_latest_data_cases[OF ok(1)]
    from ok(2) consider "cs_log s' = cs_log u" "cs_polls s' = cs_polls u" "\<forall>b. r \<noteq> Inr (Some b)"
      | "wait_slots env secs n b u = (r, s')"
      unfolding a by (auto elim!: bindA_cases split: if_splits)
    then show ?thesis
    proof cases
      case 1
      then show ?thesis using u(1) t by (intro stop) simp_all
    next
      case 2
      from Suc.IH[OF 2] u a t obtain k where "k \<le> n" "cs_log s' = cs_log u @ replicate k (Slept secs)"
        "cs_polls u \<le> cs_polls s'" "\<forall>b. r = Inr (Some b) \<longrightarrow> oe_head env (cs_polls s' - 1) = Inr b" by auto
      then show ?thesis using u(1) t by (intro exI[of _ "Suc k"]) simp
    qed
  qed
qed auto

lemma wait_before_submit_spec:
  assumes "wait_before_submit env bs latest s = (r, s')" "0 < cs_polls s" "oe_head env (cs_polls s - 1) = Inr latest"
  shows "\<exists>k secs. cs_log s' = cs_log s @ replicate k (Slept secs) \<and> cs_polls s \<le> cs_polls s' \<and>
    (\<forall>b. r = Inr (Some b) \<longrightarrow> oe_head env (cs_polls s' - 1) = Inr b)"
  using assms unfolding wait_before_submit_def
proof (cases rule: bindA_cases)
  case (ok d t)
  show ?thesis
  proof (cases "d \<noteq> 0 \<and> is_ok (oe_chain_config env (bs_block_hash bs))")
    case True
    with ok obtain secs where "wait_slots env secs (nat d) latest s = (r, s')"
      by (auto simp: is_ok_iff)
    from wait_slots_spec[OF this assms(2,3)] show ?thesis by blast
  next
    case False
    with ok assms show ?thesis by (intro exI[of _ 0]) (auto elim!: bindA_cases split: if_splits)
  qed
qed simp

lemma submit_if_missing_log:
  assumes "submit_if_missing env report b s = (r, s')"
  shows "s' = s \<or> (\<exists>t. s' = s\<lparr>cs_log := cs_log s @ [TxSent t]\<rparr> \<and>
    plain t = SubmitReportData report (oe_compatible_contract_version env) \<and> oe_is_main_data_submitted env b = Inr False)"
  using assms unfolding submit_if_missing_def
  by (fastforce elim!: bindA_cases dest: check_and_send_log split: if_splits)

lemma wait_and_submit_spec:
  assumes "bindA (wait_before_submit env bs b) (\<lambda>waited.
      case waited of None \<Rightarrow> returnA () | Some latest \<Rightarrow> submit_if_missing env report latest) s = (r, s')"
    and "0 < cs_polls s" "oe_head env (cs_polls s - 1) = Inr b"
  shows "cs_polls s \<le> cs_polls s' \<and> (\<exists>k secs sent. cs_log s' = cs_log s @ replicate k (Slept secs) @ sent \<and>
    length sent \<le> 1 \<and> (\<forall>a \<in> set sent. \<exists>t b'. a = TxSent t \<and>
      plain t = SubmitReportData report (oe_compatible_contract_version env) \<and>
      oe_head env (cs_polls s' - 1) = Inr b' \<and> oe_is_main_data_submitted env b' = Inr False))"
  using assms(1)
proof (cases rule: bindA_cases)
  case (error e)
  from wait_before_submit_spec[OF error(1) assms(2,3)] show ?thesis by fastforce
next
  case (ok w u)
  from wait_before_submit_spec[OF ok(1) assms(2,3)] obtain k secs where
    u: "cs_log u = cs_log s @ replicate k (Slept secs)" "cs_polls s \<le> cs_polls u"
    "\<And>b'. w = Some b' \<Longrightarrow> oe_head env (cs_polls u - 1) = Inr b'" by auto
  from ok(2) consider "s' = u" | b' t where "w = Some b'" "s' = u\<lparr>cs_log := cs_log u @ [TxSent t]\<rparr>"
    "plain t = SubmitReportData report (oe_compatible_contract_version env)" "oe_is_main_data_submitted env b' = Inr False"
    by (cases w) (auto dest!: submit_if_missing_log)
  then show ?thesis
  proof cases
    case 1
    with u show ?thesis by (intro conjI exI[of _ k] exI[of _ secs] exI[of _ "[]"]) simp_all
  next
    case 2
    with u show ?thesis by (intro conjI exI[of _ k] exI[of _ secs] exI[of _ "[TxSent t]"]) auto
  qed
qed

lemma process_report_data_spec:
  assumes "process_report_data env bs report h s = (r, s')"
  shows "cs_polls s < cs_polls s' \<and> (\<exists>k secs sent. cs_log s' = cs_log s @ replicate k (Slept secs) @ sent \<and>
    length sent \<le> 1 \<and> list_all (data_tx env s s' report h) sent)"
  using assms unfolding process_report_data_def
proof (cases rule: bindA_cases)
  case (error e)
  then show ?thesis using get_latest_data_cases(1)[OF error(1)] by auto
next
  case (ok a t)
  obtain b m where a: "a = (b, m)" by fastforce
  note l = get_latest_data_cases[OF ok(1)]
  have quiet: ?thesis if "s' = t" using l(1) that by auto
  show ?thesis
  proof (cases "mi_current_frame_consensus_report m = h \<and> h \<noteq> ZERO_HASH32 \<and> oe_is_main_data_submitted env b = Inr False")
    case False
    with ok(2) show ?thesis
      unfolding a by (intro quiet) (auto elim!: bindA_cases split: if_splits)
  next
    case True
    with ok(2) a have "bindA (wait_before_submit env bs b) (\<lambda>waited.
        case waited of None \<Rightarrow> returnA () | Some latest \<Rightarrow> submit_if_missing env report latest) t = (r, s')"
      by auto
    from wait_and_submit_spec[OF this] l a obtain k secs sent where
      "cs_polls t \<le> cs_polls s'" "cs_log s' = cs_log t @ replicate k (Slept secs) @ sent" "length sent \<le> 1"
      "\<forall>a \<in> set sent. \<exists>t b'. a = TxSent t \<and> plain t = SubmitReportData report (oe_compatible_contract_version env) \<and>
         oe_head env (cs_polls s' - 1) = Inr b' \<and> oe_is_main_data_submitted env b' = Inr False" by auto
    moreover from this(1) l a have "observed env s s' b m" by (auto simp: observed_def)
    ultimately show ?thesis using True l a
      by (intro conjI exI[of _ k] exI[of _ secs] exI[of _ sent]) (fastforce simp: list_all_iff data_tx_def)+
  qed
qed

lemma send_report_telemetry_log:
  "\<exists>tel. cs_log (send_report_telemetry env h s) = cs_log s @ tel \<and> set tel \<subseteq> {TelemetrySent h} \<and>
     cs_polls (send_report_telemetry env h s) = cs_polls s"
  by (auto simp: send_report_telemetry_def)

lemma process_report_body:
  assumes "bindA (process_report_hash env bs h) (\<lambda>_. process_report_data env bs report h) s = (r, u)"
  shows "\<exists>hashes k secs datas. cs_log u = cs_log s @ hashes @ replicate k (Slept secs) @ datas \<and>
    length hashes \<le> 1 \<and> length datas \<le> 1 \<and> list_all (hash_tx env bs s u h) hashes \<and> list_all (data_tx env s u report h) datas \<and>
    cs_polls s \<le> cs_polls u"
  using assms
proof (cases rule: bindA_cases)
  case (error e)
  from process_report_hash_spec[OF error(1)] show ?thesis
    by (metis append_Nil2 replicate_0 list.pred_inject(1) list.size(3) zero_le le_SucI order_refl)
next
  case (ok x v)
  from process_report_hash_spec[OF ok(1)] obtain hashes where
    hs: "cs_polls v = Suc (cs_polls s)" "cs_log v = cs_log s @ hashes" "length hashes \<le> 1"
      "list_all (hash_tx env bs s v h) hashes" by blast
  from process_report_data_spec[OF ok(2)] obtain k secs datas where
    ds: "cs_polls v < cs_polls u" "cs_log u = cs_log v @ replicate k (Slept secs) @ datas" "length datas \<le> 1"
      "list_all (data_tx env v u report h) datas" by blast
  have "list_all (hash_tx env bs s u h) hashes"
    using hs(4) ds(1) by (auto simp: list_all_iff intro: hash_tx_mono)
  moreover have "list_all (data_tx env s u report h) datas"
    using ds(4) hs(1) by (auto simp: list_all_iff intro: data_tx_mono)
  ultimately show ?thesis
    using hs ds by (intro exI[of _ hashes] exI[of _ k] exI[of _ secs] exI[of _ datas]) simp
qed

lemma process_report_log:
  assumes "process_report env bs s = (r, s')"
  shows "\<exists>hashes k secs datas tel. cs_log s' = cs_log s @ hashes @ replicate k (Slept secs) @ datas @ tel \<and>
    length hashes \<le> 1 \<and> length datas \<le> 1 \<and>
    (hashes @ datas \<noteq> [] \<longrightarrow> oe_is_reporting_allowed env bs = Inr True) \<and>
    (hashes @ datas @ tel \<noteq> [] \<longrightarrow> (\<exists>report h. oe_build_report env bs = Inr report \<and> encode_data_hash env report = Inr h \<and>
       list_all (hash_tx env bs s s' h) hashes \<and> list_all (data_tx env s s' report h) datas \<and> set tel \<subseteq> {TelemetrySent h})) \<and>
    cs_polls s \<le> cs_polls s'"
proof (cases "is_ok (bindR (oe_build_report env bs) (encode_data_hash env))")
  case False
  with assms have "s' = s" unfolding process_report_def
    by (auto simp: is_ok_iff elim!: bindA_cases)
  then show ?thesis by auto
next
  case True
  then obtain report h where rep: "oe_build_report env bs = Inr report" "encode_data_hash env report = Inr h"
    by (auto simp: is_ok_iff bindR_eq_Inr)
  from assms rep obtain u where u: "bindA (liftA (oe_is_reporting_allowed env bs)) (\<lambda>allowed.
          if \<not> allowed then returnA ()
          else bindA (process_report_hash env bs h) (\<lambda>_. process_report_data env bs report h)) s = (r, u)"
    and s': "s' = send_report_telemetry env h u"
    by (auto simp: process_report_def finallyA_def split: prod.splits)
  from send_report_telemetry_log[of env h u] obtain tel where
    tel: "cs_log s' = cs_log u @ tel" "set tel \<subseteq> {TelemetrySent h}" "cs_polls s' = cs_polls u"
    unfolding s' by blast
  show ?thesis
  proof (cases "oe_is_reporting_allowed env bs = Inr True")
    case False
    with u have "u = s" by (auto elim!: bindA_cases split: if_splits)
    with tel rep show ?thesis by (intro exI[of _ "[]"] exI[of _ 0] exI[of _ tel]) auto
  next
    case True
    with u have "bindA (process_report_hash env bs h) (\<lambda>_. process_report_data env bs report h) s = (r, u)" by simp
    from process_report_body[OF this] obtain hashes k secs datas where
      b: "cs_log u = cs_log s @ hashes @ replicate k (Slept secs) @ datas" "length hashes \<le> 1" "length datas \<le> 1"
      "list_all (hash_tx env bs s u h) hashes" "list_all (data_tx env s u report h) datas" "cs_polls s \<le> cs_polls u" by blast
    have "list_all (hash_tx env bs s s' h) hashes" "list_all (data_tx env s s' report h) datas"
      using b(4,5) tel(3) by (auto simp: list_all_iff intro: hash_tx_mono data_tx_mono)
    with b tel rep True show ?thesis
      by (intro exI[of _ hashes] exI[of _ k] exI[of _ secs] exI[of _ datas] exI[of _ tel]) auto
  qed
qed

text \<open>
  C15. What one run for a report can send, whatever the contracts and the node answer. At most one hash
  and then at most one data transaction leave the process, and none unless reporting is allowed. The
  hash is that of the report built for the reference block; it is sent by a member that has not sent it
  yet, and outside the fast lane only after the fast lane interval and when consensus is not on it. The
  data is the report itself, sent only when consensus, not the zero hash, is on its hash and the data
  was not submitted at the last block seen.
\<close>

theorem report_sent_safely:
  assumes "process_report env bs s = (r, s')"
  shows "\<exists>hashes k secs datas tel. cs_log s' = cs_log s @ hashes @ replicate k (Slept secs) @ datas @ tel \<and>
    length hashes \<le> 1 \<and> length datas \<le> 1 \<and>
    (hashes @ datas \<noteq> [] \<longrightarrow> oe_is_reporting_allowed env bs = Inr True) \<and>
    (hashes @ datas @ tel \<noteq> [] \<longrightarrow> (\<exists>report h. oe_build_report env bs = Inr report \<and> encode_data_hash env report = Inr h \<and>
       list_all (hash_tx env bs s s' h) hashes \<and> list_all (data_tx env s s' report h) datas \<and> set tel \<subseteq> {TelemetrySent h}))"
  using process_report_log[OF assms] by blast

section \<open>The block a report is built on\<close>

text \<open>
  C16. A blockstamp for a report is only returned while the contract is reportable at the head, the head
  is before the deadline of the frame, and the reference slot of the current frame is finalized; it is
  the blockstamp of that slot. Before the initial epoch the frame is the one that ends right before it:
  its reference slot is the last slot before the initial epoch.
\<close>

theorem report_blockstamp_valid:
  assumes "get_blockstamp_for_report env last_finalized s = (Inr (Some bs), s')"
  shows "\<exists>latest frame. oe_head env (cs_polls s) = Inr latest \<and> oe_is_contract_reportable env latest = Inr True \<and>
    get_initial_or_current_frame env (bs_block_hash latest) = Inr frame \<and>
    bs_slot_number latest < cf_deadline_slot frame \<and> cf_ref_slot frame \<le> bs_slot_number last_finalized \<and>
    bs_ref_slot bs = cf_ref_slot frame \<and>
    (\<exists>c. oe_chain_config env (bs_block_hash last_finalized) = Inr c \<and> bs_ref_epoch bs = get_epoch_by_slot c (cf_ref_slot frame)) \<and>
    (oe_current_frame env (bs_block_hash latest) = Inl (ContractCustomError InitialEpochIsYetToArriveRevert) \<longrightarrow>
      (\<exists>c f. oe_chain_config env (bs_block_hash latest) = Inr c \<and> oe_frame_config env (bs_block_hash latest) = Inr f \<and>
         bs_ref_slot bs = initial_epoch f * slots_per_epoch c - 1))"
  using assms unfolding get_blockstamp_for_report_def
proof (cases rule: bindA_cases)
  case (ok a t)
  obtain latest m where a: "a = (latest, m)" by fastforce
  from ok(1) a have h: "oe_head env (cs_polls s) = Inr latest" "get_member_info env latest = Inr m"
    by (auto simp: get_latest_data_def get_latest_blockstamp_def bindA_def returnA_def liftA_def split: sum.splits)
  then obtain frame where f: "get_initial_or_current_frame env (bs_block_hash latest) = Inr frame"
    "mi_current_frame_ref_slot m = cf_ref_slot frame" "mi_deadline_slot m = cf_deadline_slot frame"
    by (auto simp: get_member_info_def Let_def bindR_eq_Inr)
  from ok(2) a obtain c g where c: "oe_is_contract_reportable env latest = Inr True"
    "mi_current_frame_ref_slot m \<le> bs_slot_number last_finalized" "bs_slot_number latest < mi_deadline_slot m"
    "get_web3_converter env (bs_block_hash last_finalized) = Inr (c, g)"
    "get_reference_blockstamp (oe_client env) (mi_current_frame_ref_slot m) (bs_slot_number last_finalized)
       (get_epoch_by_slot c (mi_current_frame_ref_slot m)) = Inr bs"
    by (auto elim!: bindA_cases split: if_splits)
  have b: "bs_ref_slot bs = cf_ref_slot frame" "bs_ref_epoch bs = get_epoch_by_slot c (cf_ref_slot frame)"
    using c(5) f(2) by (auto simp: get_reference_blockstamp_def bindR_eq_Inr build_reference_blockstamp_def
        build_blockstamp_def blockstamp.defs)
  have "\<exists>c f. oe_chain_config env (bs_block_hash latest) = Inr c \<and> oe_frame_config env (bs_block_hash latest) = Inr f \<and>
      cf_ref_slot frame = initial_epoch f * slots_per_epoch c - 1"
    if "oe_current_frame env (bs_block_hash latest) = Inl (ContractCustomError InitialEpochIsYetToArriveRevert)"
    using f(1) that
    by (auto simp: get_initial_or_current_frame_def get_web3_converter_def bindR_eq_Inr get_frame_last_slot_def get_frame_first_slot_def)
  with h c f b show ?thesis by (auto simp: get_web3_converter_def bindR_eq_Inr)
qed simp

section \<open>Who submits the data first\<close>

lemma list_index_Inr: "list_index x xs = Inr i \<Longrightarrow> 0 \<le> i \<and> i < int (length xs) \<and> xs ! nat i = x"
  by (induction xs arbitrary: i) (auto simp: bindR_eq_Inr nth_Cons' nat_add_distrib split: if_splits)

lemma list_index_ok: "x \<in> set xs \<Longrightarrow> \<exists>i. list_index x xs = Inr i"
  by (induction xs) auto

lemma slot_delay_eq:
  assumes "oe_account env = Some account" "get_member_info env bs = Inr m" "\<not> mi_is_submit_member m"
    and "oe_members env (bs_block_hash bs) = Inr members" "list_index account members = Inr i"
    and "get_web3_converter env (bs_block_hash bs) = Inr (c, f)"
  shows "get_slot_delay_before_data_submit env bs =
    Inr ((1 + (i - get_frame_by_slot c f (bs_slot_number bs)) mod int (length members)) * oe_submit_data_delay env)"
proof -
  let ?n = "int (length members)" and ?k = "get_frame_by_slot c f (bs_slot_number bs)"
  from list_index_Inr[OF assms(5)] have i: "0 \<le> i" "i < ?n" by auto
  then have "0 < ?n" by linarith
  then have k: "0 \<le> ?k mod ?n" "?k mod ?n < ?n" by (rule pos_mod_sign, rule pos_mod_bound)
  have "(i - ?k) mod ?n = (i - ?k mod ?n) mod ?n" by (simp add: mod_simps)
  also have "\<dots> = (if i - ?k mod ?n < 0 then i - ?k mod ?n + ?n else i - ?k mod ?n)"
    using i k by (smt (verit) mod_add_self2 mod_pos_pos_trivial)
  finally show ?thesis
    using assms by (simp add: get_slot_delay_before_data_submit_def Let_def)
qed

text \<open>
  Members without the submit role take turns: the delay of the member at position i of n members in
  frame k is (1 + (i - k) mod n) times the configured delay. So it is between one and n delays, any two
  members are at least one delay apart, and the member whose position the frame number names goes first.
\<close>

theorem submit_delays_rotate:
  assumes "oe_account env = Some account" "get_member_info env bs = Inr m" "\<not> mi_is_submit_member m"
    and "oe_members env (bs_block_hash bs) = Inr members" "account \<in> set members" "distinct members"
    and "get_web3_converter env (bs_block_hash bs) = Inr (c, f)" and "0 \<le> oe_submit_data_delay env"
  defines "delay \<equiv> \<lambda>i. (1 + (int i - get_frame_by_slot c f (bs_slot_number bs)) mod int (length members)) * oe_submit_data_delay env"
  shows "(\<exists>i < length members. members ! i = account \<and> get_slot_delay_before_data_submit env bs = Inr (delay i)) \<and>
    (\<forall>i < length members. oe_submit_data_delay env \<le> delay i \<and> delay i \<le> int (length members) * oe_submit_data_delay env) \<and>
    (\<forall>i < length members. \<forall>j < length members. i \<noteq> j \<longrightarrow> oe_submit_data_delay env \<le> \<bar>delay i - delay j\<bar>) \<and>
    (\<forall>i < length members. int i = get_frame_by_slot c f (bs_slot_number bs) mod int (length members) \<longrightarrow>
      delay i = oe_submit_data_delay env)"
proof -
  let ?n = "int (length members)" and ?k = "get_frame_by_slot c f (bs_slot_number bs)" and ?D = "oe_submit_data_delay env"
  from assms(5) have n: "0 < ?n" by (cases members) auto
  from list_index_ok[OF assms(5)] obtain i where i: "list_index account members = Inr i" ..
  note li = list_index_Inr[OF i]
  have 1: "\<exists>i < length members. members ! i = account \<and> get_slot_delay_before_data_submit env bs = Inr (delay i)"
    using li slot_delay_eq[OF assms(1-4) i assms(7)] by (intro exI[of _ "nat i"]) (auto simp: delay_def)
  have 2: "?D \<le> delay i \<and> delay i \<le> ?n * ?D" for i
  proof -
    have r: "0 \<le> (int i - ?k) mod ?n" "1 + (int i - ?k) mod ?n \<le> ?n" using pos_mod_sign[OF n, of "int i - ?k"] pos_mod_bound[OF n, of "int i - ?k"] by linarith+
    have "1 * ?D \<le> (1 + (int i - ?k) mod ?n) * ?D" using r(1) assms(8) by (intro mult_right_mono) simp_all
    moreover have "(1 + (int i - ?k) mod ?n) * ?D \<le> ?n * ?D" using r(2) assms(8) by (intro mult_right_mono)
    ultimately show ?thesis unfolding delay_def by linarith
  qed
  have 3: "?D \<le> \<bar>delay i - delay j\<bar>" if ij: "i < length members" "j < length members" "i \<noteq> j" for i j
  proof -
    have "(int i - ?k) mod ?n \<noteq> (int j - ?k) mod ?n"
    proof
      assume "(int i - ?k) mod ?n = (int j - ?k) mod ?n"
      then have "int i mod ?n = int j mod ?n" by (metis diff_add_cancel mod_add_left_eq)
      then show False using ij by simp
    qed
    then have "1 \<le> \<bar>(int i - ?k) mod ?n - (int j - ?k) mod ?n\<bar>" by linarith
    then have "1 * ?D \<le> \<bar>(int i - ?k) mod ?n - (int j - ?k) mod ?n\<bar> * ?D" using assms(8) by (intro mult_right_mono)
    also have "\<dots> = \<bar>((int i - ?k) mod ?n - (int j - ?k) mod ?n) * ?D\<bar>" using assms(8) by (simp add: abs_mult)
    also have "((int i - ?k) mod ?n - (int j - ?k) mod ?n) * ?D = delay i - delay j"
      unfolding delay_def by (simp add: algebra_simps)
    finally show ?thesis by simp
  qed
  have 4: "delay i = ?D" if "int i = ?k mod ?n" for i
  proof -
    have "(int i - ?k) mod ?n = 0" unfolding that using mod_diff_left_eq[of ?k ?n ?k] by simp
    then show ?thesis by (simp add: delay_def)
  qed
  from 1 2 3 4 show ?thesis by blast
qed

section \<open>A concrete run\<close>

text \<open>
  A member \<open>''a''\<close> without submit role, second of two: at the first look at the head (block \<open>''b0''\<close>) it
  has not reported, afterwards consensus is on its report \<open>[1]\<close>, whose hash is \<open>[9, 1]\<close>.
\<close>

definition demo_block :: "hexstr \<Rightarrow> blockstamp" where
  "demo_block h = \<lparr>bs_state_root = ''s'', bs_slot_number = 6458430, bs_block_hash = h, bs_block_number = 7, bs_block_timestamp = 0\<rparr>"

definition demo_report_block :: ref_blockstamp where
  "demo_report_block = \<lparr>bs_state_root = ''s'', bs_slot_number = 6458399, bs_block_hash = ''r'', bs_block_number = 5,
     bs_block_timestamp = 0, bs_ref_slot = 6458399, bs_ref_epoch = 201824\<rparr>"

definition demo_member_state :: "hexstr \<Rightarrow> member_state" where
  "demo_member_state h =
     \<lparr>ms_consensus_report = (if h = ''b0'' then ZERO_HASH32 else [9, 1]), ms_is_member = True, ms_is_fast_lane = False,
      ms_last_report_ref_slot = 0, ms_member_report = (if h = ''b0'' then ZERO_HASH32 else [9, 1])\<rparr>"

definition demo_oracle_for :: "'r \<Rightarrow> 'r oracle_env" where
  "demo_oracle_for report =
     \<lparr>oe_client = demo_node, oe_head = (\<lambda>n. Inr (demo_block (if n = 0 then ''b0'' else ''b1''))), oe_finalized = (\<lambda>n. Inr (demo_block ''f'')),
      oe_refresh = (\<lambda>n. Inr ()), oe_account = Some ''a'',
      oe_delegation_enabled = True, oe_daemon = True, oe_prompt = (\<lambda>_. False),
      oe_fees = \<lparr>fc_min_priority_fee = 1, fc_max_priority_fee = 10, fc_gas_addition = 5, fc_max_block_gas = 100\<rparr>,
      oe_base_fee = Inr 7, oe_reward = Inr 2, oe_nonce = (\<lambda>_. Inr 0), oe_estimate_gas = (\<lambda>_. Inl ContractLogicError),
      oe_static_call = (\<lambda>_ _. Inr ()), oe_send = (\<lambda>_ _. Inr ()), oe_receipt = (\<lambda>_. Inr 1),
      oe_chain_config = (\<lambda>_. Inr mainnet_chain), oe_frame_config = (\<lambda>_. Inr mainnet_frame),
      oe_current_frame = (\<lambda>_. Inr \<lparr>cf_ref_slot = 6458399, cf_deadline_slot = 6465599\<rparr>),
      oe_member_state = (\<lambda>_ h. Inr (demo_member_state h)), oe_members = (\<lambda>_. Inr [''x'', ''a'']),
      oe_has_submit_role = (\<lambda>_ _. Inr False), oe_contract_version = (\<lambda>_. Inr 3), oe_consensus_version = (\<lambda>_. Inr 5),
      oe_compatible_contract_version = 3, oe_compatible_consensus_version = 5, oe_submit_data_delay = 1,
      oe_encode = (\<lambda>_. Inr [1]), oe_keccak = (\<lambda>bs. 9 # bs), oe_telemetry = (\<lambda>_. True), oe_build_report = (\<lambda>_. Inr report),
      oe_is_main_data_submitted = (\<lambda>_. Inr False), oe_is_contract_reportable = (\<lambda>_. Inr True),
      oe_is_reporting_allowed = (\<lambda>_. Inr True)\<rparr>"

abbreviation demo_oracle :: "bytes oracle_env" where
  "demo_oracle \<equiv> demo_oracle_for [1]"

definition demo_start :: "bytes cstate" where
  "demo_start = \<lparr>cs_polls = 0, cs_last_sent_report_hash = None, cs_log = []\<rparr>"

definition demo_end :: "bytes cstate" where
  "demo_end = \<lparr>cs_polls = 3, cs_last_sent_report_hash = Some [9, 1],
     cs_log = [TxSent (Delegated (SubmitReport 6458399 [9, 1] 5)), Slept 12,
       TxSent (Delegated (SubmitReportData [1] 3)), TelemetrySent [9, 1]]\<rparr>"

lemma demo_run: "process_report demo_oracle demo_report_block demo_start = (Inr (), demo_end)"
  by code_simp

theorem report_sent_safely_witness:
  "process_report demo_oracle demo_report_block demo_start = (Inr (), demo_end) \<and>
   (\<exists>b m. observed demo_oracle demo_start demo_end b m \<and> mi_current_frame_consensus_report m = [9, 1])"
proof -
  let ?sent = "TxSent (Delegated (SubmitReportData [1] 3))"
  from report_sent_safely[OF demo_run] obtain hashes k secs datas tel h report where
    l: "cs_log demo_end = cs_log demo_start @ hashes @ replicate k (Slept secs) @ datas @ tel"
    and rep: "hashes @ datas @ tel \<noteq> [] \<longrightarrow> (oe_build_report demo_oracle demo_report_block = Inr report \<and> encode_data_hash demo_oracle report = Inr h \<and>
       list_all (hash_tx demo_oracle demo_report_block demo_start demo_end h) hashes \<and>
       list_all (data_tx demo_oracle demo_start demo_end report h) datas \<and> set tel \<subseteq> {TelemetrySent h})" by blast
  have "?sent \<in> set (cs_log demo_end)" by (simp add: demo_end_def)
  then have "?sent \<in> set (hashes @ datas @ tel)" using l by (auto simp: demo_start_def)
  moreover from this rep have r: "report = [1]" "h = [9, 1]" "list_all (hash_tx demo_oracle demo_report_block demo_start demo_end h) hashes"
    "list_all (data_tx demo_oracle demo_start demo_end report h) datas" "set tel \<subseteq> {TelemetrySent h}"
    by (auto simp: demo_oracle_for_def encode_data_hash_def)
  ultimately have "data_tx demo_oracle demo_start demo_end [1] [9, 1] ?sent" by (auto simp: list_all_iff hash_tx_def)
  then show ?thesis using demo_run by (auto simp: data_tx_def)
qed

theorem report_blockstamp_valid_witness:
  "\<exists>bs s'. get_blockstamp_for_report (demo_oracle\<lparr>oe_current_frame := \<lambda>_. Inr \<lparr>cf_ref_slot = 22, cf_deadline_slot = 6465599\<rparr>\<rparr>) ((demo_block ''b0'')\<lparr>bs_slot_number := 24\<rparr>) demo_start = (Inr (Some bs), s') \<and> bs_ref_slot bs = 22"
proof -
  let ?e = "demo_oracle\<lparr>oe_current_frame := \<lambda>_. Inr \<lparr>cf_ref_slot = 22, cf_deadline_slot = 6465599\<rparr>\<rparr>"
  have "case fst (get_blockstamp_for_report ?e ((demo_block ''b0'')\<lparr>bs_slot_number := 24\<rparr>) demo_start) of Inr (Some _) \<Rightarrow> True | _ \<Rightarrow> False" by code_simp
  then obtain bs s' where r: "get_blockstamp_for_report ?e ((demo_block ''b0'')\<lparr>bs_slot_number := 24\<rparr>) demo_start = (Inr (Some bs), s')"
    by (cases "get_blockstamp_for_report ?e ((demo_block ''b0'')\<lparr>bs_slot_number := 24\<rparr>) demo_start") (auto split: sum.splits option.splits)
  from report_blockstamp_valid[OF r] have "bs_ref_slot bs = 22"
    by (auto simp: demo_oracle_for_def get_initial_or_current_frame_def)
  with r show ?thesis by blast
qed

theorem submit_delays_rotate_witness:
  "get_slot_delay_before_data_submit demo_oracle (demo_block ''b0'') = Inr 1"
proof -
  obtain m where m: "get_member_info demo_oracle (demo_block ''b0'') = Inr m" "\<not> mi_is_submit_member m"
    by (auto simp: get_member_info_def get_account_state_def get_initial_or_current_frame_def demo_oracle_for_def demo_member_state_def Let_def)
  have f: "get_frame_by_slot mainnet_chain mainnet_frame 6458430 = 1" by code_simp
  show ?thesis
    using submit_delays_rotate[of demo_oracle "''a''" "demo_block ''b0''" m "[''x'', ''a'']" mainnet_chain mainnet_frame, OF _ m]
    by (auto simp: demo_oracle_for_def get_web3_converter_def demo_block_def f less_Suc_eq)
qed

end
