(* ===== verification/Daemon.thy ===== *)
theory Daemon
  imports Consensus
begin

text \<open>
  \<open>src/modules/common/daemon_module.py\<close> and \<open>src/modules/oracles/common/oracle_module.py\<close>: the endless
  loop of cycles, its slot threshold and what happens to exceptions, with the module cycle of
  \<open>src/modules/oracles/ejector/ejector.py\<close>. A cycle is an action of the module's state; the timeout
  decorator raises \<open>TimeoutError\<close> inside it, so it is one of the exceptions \<open>execute\<close> may end with.
\<close>

datatype module_delay = NEXT_SLOT | NEXT_FINALIZED_EPOCH

record 's daemon =
  da_slot_threshold :: slot
  da_state :: 's

section \<open>Exceptions\<close>

text \<open>\<open>OracleModule.exception_handler\<close>: what is logged and swallowed, and what ends the process.\<close>

fun is_web3_exception :: "pyerr \<Rightarrow> bool" where
  "is_web3_exception e \<longleftrightarrow> is_logic_error e \<or> e \<in> {Web3Exception, TimeExhausted, RpcError}"

definition oracle_exception_handler :: "pyerr \<Rightarrow> unit res" where
  "oracle_exception_handler e =
     (if e = IsNotMemberException then Inl e
      else if e = IncompatibleOracleVersion then Inl e
      else if e \<in> {ContractVersionMismatch, TimeoutError, NoActiveProviderError, RequestsConnectionError} then Inr ()
      else if (case e of NotOkResponse _ \<Rightarrow> True | _ \<Rightarrow> False) then Inr ()
      else if e \<in> {NoSlotsAvailable, SlotNotFinalized, InconsistentData} then Inr ()
      else if e \<in> {KAPIInconsistentData, KeysOutdatedException, CountOfKeysDiffersException} then Inr ()
      else if is_web3_exception e \<or> is_ipfs_error e \<or> is_value_error e then Inr ()
      else Inl e)"

section \<open>Cycles\<close>

definition run_cycle ::
    "(blockstamp \<Rightarrow> ('s, module_delay) act) \<Rightarrow> blockstamp \<Rightarrow> 's daemon \<Rightarrow> unit res \<times> 's daemon" where
  "run_cycle execute bs d =
     (case execute bs (da_state d) of
        (Inl e, s) \<Rightarrow> (Inl e, d\<lparr>da_state := s\<rparr>)
      | (Inr delay, s) \<Rightarrow>
          (Inr (), d\<lparr>da_state := s,
             da_slot_threshold := (if delay = NEXT_FINALIZED_EPOCH then bs_slot_number bs else da_slot_threshold d)\<rparr>))"

definition cycle ::
    "('s, blockstamp) act \<Rightarrow> (blockstamp \<Rightarrow> ('s, module_delay) act) \<Rightarrow> (pyerr \<Rightarrow> unit res) \<Rightarrow> 's daemon \<Rightarrow>
     unit res \<times> 's daemon" where
  "cycle finalized execute handler d =
     (case finalized (da_state d) of
        (Inl e, s) \<Rightarrow> (handler e, d\<lparr>da_state := s\<rparr>)
      | (Inr bs, s) \<Rightarrow>
          if bs_slot_number bs \<le> da_slot_threshold d then (Inr (), d\<lparr>da_state := s\<rparr>)
          else case run_cycle execute bs (d\<lparr>da_state := s\<rparr>) of
                 (Inl e, d') \<Rightarrow> (handler e, d')
               | (Inr u, d') \<Rightarrow> (Inr u, d'))"

text \<open>
  \<open>run_as_daemon\<close> repeats cycles until an exception leaves one. \<open>completed\<close> is the finalized slot a
  cycle has finished with: the one for which the module asked to wait for the next finalized epoch.
\<close>

definition completed :: "('s, blockstamp) act \<Rightarrow> (blockstamp \<Rightarrow> ('s, module_delay) act) \<Rightarrow> 's daemon \<Rightarrow> slot list" where
  "completed finalized execute d =
     (case finalized (da_state d) of
        (Inr bs, s) \<Rightarrow>
          if da_slot_threshold d < bs_slot_number bs \<and> fst (execute bs s) = Inr NEXT_FINALIZED_EPOCH
          then [bs_slot_number bs] else []
      | _ \<Rightarrow> [])"

inductive daemon_runs ::
    "('s, blockstamp) act \<Rightarrow> (blockstamp \<Rightarrow> ('s, module_delay) act) \<Rightarrow> (pyerr \<Rightarrow> unit res) \<Rightarrow>
     's daemon \<Rightarrow> slot list \<Rightarrow> 's daemon \<Rightarrow> bool"
  for finalized execute handler where
  start: "daemon_runs finalized execute handler d [] d"
| step: "daemon_runs finalized execute handler d slots d' \<Longrightarrow> cycle finalized execute handler d' = (Inr (), d'') \<Longrightarrow>
    daemon_runs finalized execute handler d (slots @ completed finalized execute d') d''"

inductive_cases daemon_runsE: "daemon_runs finalized execute handler d slots d'"

lemma strict_sorted_le_last:
  fixes xs :: "int list"
  shows "sorted_wrt (<) xs \<Longrightarrow> x \<in> set xs \<Longrightarrow> x \<le> last xs"
  by (induction xs rule: rev_induct) (auto simp: sorted_wrt_append)

text \<open>
  The interface a daemon relies on: \<open>exception_handler\<close> swallows an exception or raises that one again.
\<close>

locale daemon_module =
  fixes finalized :: "('s, blockstamp) act" and execute :: "blockstamp \<Rightarrow> ('s, module_delay) act"
    and handler :: "pyerr \<Rightarrow> unit res"
  assumes handler_reraises: "handler e = Inl e' \<Longrightarrow> e' = e"
begin

lemma cycle_threshold:
  assumes "cycle finalized execute handler d = (r, d')"
  shows "da_slot_threshold d' = last (da_slot_threshold d # completed finalized execute d) \<and>
    (\<forall>x \<in> set (completed finalized execute d). da_slot_threshold d < x) \<and> length (completed finalized execute d) \<le> 1"
proof (cases "finalized (da_state d)")
  case (Pair a s)
  show ?thesis
  proof (cases a)
    case (Inl e)
    with Pair assms show ?thesis by (auto simp: cycle_def completed_def)
  next
    case (Inr bs)
    show ?thesis
      by (cases "execute bs s"; cases "fst (execute bs s)")
        (use assms Pair Inr in \<open>auto simp: cycle_def completed_def run_cycle_def split: if_splits\<close>)
  qed
qed

lemma cycle_error:
  assumes "cycle finalized execute handler d = (Inl e, d')"
  shows "handler e = Inl e"
proof -
  from assms obtain e0 where "handler e0 = Inl e"
    unfolding cycle_def by (simp split: prod.split_asm sum.split_asm if_split_asm; blast)
  then show ?thesis using handler_reraises[of e0 e] by simp
qed

lemma runs_completed_once:
  "daemon_runs finalized execute handler d slots d' \<Longrightarrow>
     sorted_wrt (<) (da_slot_threshold d # slots) \<and> da_slot_threshold d' = last (da_slot_threshold d # slots)"
proof (induction rule: daemon_runs.induct)
  case (step d slots d' d'')
  note t = cycle_threshold[OF step.hyps(2)]
  have le: "\<forall>x \<in> set (da_slot_threshold d # slots). x \<le> da_slot_threshold d'"
    using step.IH strict_sorted_le_last by metis
  show ?case
  proof (cases "completed finalized execute d'")
    case Nil
    then show ?thesis using step.IH t by simp
  next
    case (Cons x xs)
    with t have "completed finalized execute d' = [x]" by simp
    with step.IH t le show ?thesis by (fastforce simp: sorted_wrt_append)
  qed
qed simp

end

section \<open>The cycle of an oracle\<close>

definition receive_last_finalized_slot :: "'r oracle_env \<Rightarrow> ('r cstate, blockstamp) act" where
  "receive_last_finalized_slot env s = (oe_finalized env (cs_polls s), s\<lparr>cs_polls := Suc (cs_polls s)\<rparr>)"

definition oracle_run_cycle ::
    "'r oracle_env \<Rightarrow> (blockstamp \<Rightarrow> ('r cstate, module_delay) act) \<Rightarrow> blockstamp \<Rightarrow> ('r cstate, module_delay) act" where
  \<comment> \<open>contracts are refreshed first when an address has changed\<close>
  "oracle_run_cycle env execute_module bs =
     bindA (\<lambda>s. (oe_refresh env (cs_polls s), s)) (\<lambda>_. execute_module bs)"

section \<open>The ejector module\<close>

record ejector_processing_state =
  ep_current_frame_ref_slot :: slot
  ep_processing_deadline_time :: int
  ep_data_hash :: bytes
  ep_data_submitted :: bool
  ep_data_format :: int
  ep_requests_count :: int
  ep_requests_submitted :: int

definition get_ejector_processing_state ::
    "'r oracle_env \<Rightarrow> (hexstr \<Rightarrow> ejector_processing_state res) \<Rightarrow> blockstamp \<Rightarrow> ejector_processing_state res" where
  "get_ejector_processing_state env get_processing_state bs =
     (case get_processing_state (bs_block_hash bs) of
        Inr ps \<Rightarrow> Inr ps
      | Inl e \<Rightarrow>
          if e \<noteq> ContractCustomError InitialEpochIsYetToArriveRevert then Inl e
          else bindR (get_initial_or_current_frame env (bs_block_hash bs)) (\<lambda>frame.
            Inr \<lparr>ep_current_frame_ref_slot = cf_ref_slot frame, ep_processing_deadline_time = cf_deadline_slot frame,
                 ep_data_hash = ZERO_HASH32, ep_data_submitted = False, ep_data_format = 0,
                 ep_requests_count = 0, ep_requests_submitted = 0\<rparr>))"

definition ejector_is_main_data_submitted ::
    "'r oracle_env \<Rightarrow> (hexstr \<Rightarrow> ejector_processing_state res) \<Rightarrow> blockstamp \<Rightarrow> bool res" where
  "ejector_is_main_data_submitted env get_processing_state bs =
     bindR (get_ejector_processing_state env get_processing_state bs) (\<lambda>ps. Inr (ep_data_submitted ps))"

definition ejector_is_contract_reportable ::
    "'r oracle_env \<Rightarrow> (hexstr \<Rightarrow> ejector_processing_state res) \<Rightarrow> blockstamp \<Rightarrow> bool res" where
  "ejector_is_contract_reportable env get_processing_state bs =
     bindR (ejector_is_main_data_submitted env get_processing_state bs) (\<lambda>b. Inr (\<not> b))"

definition ejector_is_reporting_allowed :: "bool res \<Rightarrow> ref_blockstamp \<Rightarrow> bool res" where
  "ejector_is_reporting_allowed is_paused bs = bindR is_paused (\<lambda>on_pause. Inr (\<not> on_pause))"

text \<open>The consensus module with its abstract methods filled by the ejector.\<close>

definition ejector_module ::
    "(hexstr \<Rightarrow> ejector_processing_state res) \<Rightarrow> bool res \<Rightarrow> (ref_blockstamp \<Rightarrow> 'r res) \<Rightarrow> 'r oracle_env \<Rightarrow> 'r oracle_env" where
  "ejector_module get_processing_state is_paused build_report env =
     env\<lparr>oe_build_report := build_report,
         oe_is_main_data_submitted := ejector_is_main_data_submitted env get_processing_state,
         oe_is_contract_reportable := ejector_is_contract_reportable env get_processing_state,
         oe_is_reporting_allowed := ejector_is_reporting_allowed is_paused,
         oe_compatible_contract_version := 3, oe_compatible_consensus_version := 5\<rparr>"

definition ejector_execute_module :: "'r oracle_env \<Rightarrow> blockstamp \<Rightarrow> ('r cstate, module_delay) act" where
  "ejector_execute_module env last_finalized =
     bindA (get_blockstamp_for_report env last_finalized) (\<lambda>report_blockstamp.
       case report_blockstamp of
         None \<Rightarrow> returnA NEXT_FINALIZED_EPOCH
       | Some bs \<Rightarrow>
           bindA (liftA (check_compatibility env bs)) (\<lambda>compatible.
             if \<not> compatible then returnA NEXT_FINALIZED_EPOCH
             else catchA (bindA (process_report env bs) (\<lambda>_. returnA NEXT_SLOT))
               (\<lambda>e. if e = WeightsNotUpdatedError then returnA NEXT_FINALIZED_EPOCH else liftA (Inl e))))"

interpretation ejector: daemon_module
  "receive_last_finalized_slot env" "oracle_run_cycle env (ejector_execute_module env)" oracle_exception_handler for env
  by unfold_locales (simp add: oracle_exception_handler_def split: if_splits)


text \<open>
  With data already submitted at the head an ejector cycle is idle.
\<close>

lemma ejector_idle:
  assumes "oe_head env (cs_polls s) = Inr latest" "get_member_info env latest = Inr m"
    and "oe_is_contract_reportable env latest = Inr False"
  shows "ejector_execute_module env last_finalized s = (Inr NEXT_FINALIZED_EPOCH, s\<lparr>cs_polls := Suc (cs_polls s)\<rparr>)"
  using assms
  by (simp add: ejector_execute_module_def get_blockstamp_for_report_def bindA_def get_latest_data_def
      get_latest_blockstamp_def liftA_def returnA_def)

section \<open>Two cycles\<close>

definition demo_ejector_env :: "bytes oracle_env" where
  "demo_ejector_env = ejector_module
     (\<lambda>_. Inr \<lparr>ep_current_frame_ref_slot = 6458399, ep_processing_deadline_time = 0, ep_data_hash = [9, 1],
        ep_data_submitted = True, ep_data_format = 2, ep_requests_count = 1, ep_requests_submitted = 1\<rparr>)
     (Inr False) (\<lambda>_. Inr [1])
     (demo_oracle\<lparr>oe_finalized := \<lambda>n. Inr ((demo_block ''f'')\<lparr>bs_slot_number := 6458400 + 32 * int n\<rparr>)\<rparr>)"

definition demo_daemon :: "bytes cstate daemon" where
  "demo_daemon = \<lparr>da_slot_threshold = 0, da_state = demo_start\<rparr>"


end
