(* ===== verification/Accounting_Module.thy ===== *)
theory Accounting_Module
  imports Accounting_Report Daemon "HOL-Library.Sublist"
begin

text \<open>
  The module cycle of \<open>src/modules/oracles/accounting/accounting.py\<close>: the processing state of the contract,
  the three phases of a report, and the accounting oracle as a consensus module. The cycle runs under the
  timeout of the daemon, so a report that does not return ends in \<open>TimeoutError\<close>.
\<close>

section \<open>Processing state\<close>

record accounting_processing_state =
  ap_current_frame_ref_slot :: slot
  ap_processing_deadline_time :: int
  ap_main_data_hash :: bytes
  ap_main_data_submitted :: bool
  ap_extra_data_hash :: bytes
  ap_extra_data_format :: int
  ap_extra_data_submitted :: bool
  ap_extra_data_items_count :: int
  ap_extra_data_items_submitted :: int

type_synonym report_tuple = "int \<times> slot \<times> gwei \<times> gwei \<times> module_id list \<times> int list \<times> module_id list \<times> gwei list \<times> wei \<times> wei \<times>
  int \<times> int list \<times> int \<times> bool \<times> bytes \<times> string \<times> int \<times> bytes \<times> int"

record accounting_setup =
  as_processing_state :: "hexstr \<Rightarrow> accounting_processing_state res"
  as_reads :: "ref_blockstamp \<Rightarrow> accounting_env"
  as_allow_reporting_in_bunker_mode :: bool

definition get_accounting_processing_state ::
    "'r oracle_env \<Rightarrow> (hexstr \<Rightarrow> accounting_processing_state res) \<Rightarrow> blockstamp \<Rightarrow> accounting_processing_state res" where
  "get_accounting_processing_state env get_processing_state bs =
     (case get_processing_state (bs_block_hash bs) of
        Inr ps \<Rightarrow> Inr ps
      | Inl e \<Rightarrow>
          if e \<noteq> ContractCustomError InitialEpochIsYetToArriveRevert then Inl e
          else bindR (get_initial_or_current_frame env (bs_block_hash bs)) (\<lambda>frame.
            Inr \<lparr>ap_current_frame_ref_slot = cf_ref_slot frame, ap_processing_deadline_time = cf_deadline_slot frame,
                 ap_main_data_hash = ZERO_HASH32, ap_main_data_submitted = False, ap_extra_data_hash = ZERO_HASH32,
                 ap_extra_data_format = 0, ap_extra_data_submitted = False, ap_extra_data_items_count = 0,
                 ap_extra_data_items_submitted = 0\<rparr>))"

definition accounting_is_main_data_submitted ::
    "'r oracle_env \<Rightarrow> (hexstr \<Rightarrow> accounting_processing_state res) \<Rightarrow> blockstamp \<Rightarrow> bool res" where
  "accounting_is_main_data_submitted env get_processing_state bs =
     bindR (get_accounting_processing_state env get_processing_state bs) (\<lambda>ps. Inr (ap_main_data_submitted ps))"

definition can_submit_extra_data ::
    "'r oracle_env \<Rightarrow> (hexstr \<Rightarrow> accounting_processing_state res) \<Rightarrow> blockstamp \<Rightarrow> bool res" where
  "can_submit_extra_data env get_processing_state bs =
     bindR (get_accounting_processing_state env get_processing_state bs) (\<lambda>ps.
       Inr (ap_main_data_submitted ps \<and> \<not> ap_extra_data_submitted ps))"

definition accounting_is_contract_reportable ::
    "'r oracle_env \<Rightarrow> (hexstr \<Rightarrow> accounting_processing_state res) \<Rightarrow> blockstamp \<Rightarrow> bool res" where
  "accounting_is_contract_reportable env get_processing_state bs =
     bindR (accounting_is_main_data_submitted env get_processing_state bs) (\<lambda>submitted.
       if \<not> submitted then Inr True else can_submit_extra_data env get_processing_state bs)"

definition before_timeout :: "'a res option \<Rightarrow> 'a res" where
  "before_timeout r = (case r of None \<Rightarrow> Inl TimeoutError | Some r \<Rightarrow> r)"

definition accounting_is_reporting_allowed :: "accounting_setup \<Rightarrow> ref_blockstamp \<Rightarrow> bool res" where
  "accounting_is_reporting_allowed acc bs =
     bindR (before_timeout (is_bunker (as_reads acc bs) bs)) (\<lambda>bunker.
       if \<not> bunker then Inr True else Inr (as_allow_reporting_in_bunker_mode acc))"

definition build_report :: "accounting_setup \<Rightarrow> ref_blockstamp \<Rightarrow> report_tuple res" where
  "build_report acc bs = bindR (before_timeout (calculate_report (as_reads acc bs) bs)) (\<lambda>report_data. Inr (as_tuple report_data))"

text \<open>The consensus module with its abstract methods filled by the accounting oracle.\<close>

definition accounting_module :: "accounting_setup \<Rightarrow> report_tuple oracle_env \<Rightarrow> report_tuple oracle_env" where
  "accounting_module acc env =
     env\<lparr>oe_build_report := build_report acc,
         oe_is_main_data_submitted := accounting_is_main_data_submitted env (as_processing_state acc),
         oe_is_contract_reportable := accounting_is_contract_reportable env (as_processing_state acc),
         oe_is_reporting_allowed := accounting_is_reporting_allowed acc,
         oe_compatible_contract_version := 5, oe_compatible_consensus_version := 6\<rparr>"

section \<open>The third phase\<close>

fun send_all :: "'r oracle_env \<Rightarrow> 'r tx list \<Rightarrow> ('r cstate, unit) act" where
  "send_all env [] = returnA ()"
| "send_all env (t # ts) = bindA (check_and_send_transaction env t) (\<lambda>_. send_all env ts)"

definition extra_data_txs :: "extra_data \<Rightarrow> 'r tx list" where
  "extra_data_txs x =
     (if extra_data_format x = format_list_value EXTRA_DATA_FORMAT_LIST_EMPTY then [SubmitExtraDataEmpty]
      else map SubmitExtraDataList (extra_data_list x))"

definition submit_extra_data :: "accounting_setup \<Rightarrow> 'r oracle_env \<Rightarrow> ref_blockstamp \<Rightarrow> ('r cstate, unit) act" where
  "submit_extra_data acc env bs =
     bindA (liftA (get_extra_data (as_reads acc bs) bs)) (\<lambda>x. send_all env (extra_data_txs x))"

definition submit_extra_data_if_possible ::
    "accounting_setup \<Rightarrow> 'r oracle_env \<Rightarrow> ref_blockstamp \<Rightarrow> ('r cstate, unit) act" where
  "submit_extra_data_if_possible acc env bs =
     bindA (get_latest_blockstamp env) (\<lambda>latest.
     bindA (liftA (can_submit_extra_data env (as_processing_state acc) latest)) (\<lambda>can_submit.
       if \<not> can_submit then returnA () else submit_extra_data acc env bs))"

definition process_extra_data :: "accounting_setup \<Rightarrow> 'r oracle_env \<Rightarrow> ref_blockstamp \<Rightarrow> ('r cstate, unit) act" where
  "process_extra_data acc env bs =
     bindA (get_latest_blockstamp env) (\<lambda>latest.
     bindA (liftA (can_submit_extra_data env (as_processing_state acc) latest)) (\<lambda>can_submit.
       if \<not> can_submit then returnA ()
       else
         bindA (liftA (oe_chain_config env (bs_block_hash bs))) (\<lambda>c.
         bindA (liftA (get_slot_delay_before_data_submit env latest)) (\<lambda>slots_to_sleep.
         bindA (log_action (Slept (slots_to_sleep * seconds_per_slot c))) (\<lambda>_.
           submit_extra_data_if_possible acc env bs)))))"

definition accounting_execute_module ::
    "accounting_setup \<Rightarrow> report_tuple oracle_env \<Rightarrow> blockstamp \<Rightarrow> (report_tuple cstate, module_delay) act" where
  "accounting_execute_module acc env last_finalized =
     (let env = accounting_module acc env in
      bindA (get_blockstamp_for_report env last_finalized) (\<lambda>report_blockstamp.
        case report_blockstamp of
          None \<Rightarrow> returnA NEXT_FINALIZED_EPOCH
        | Some bs \<Rightarrow>
            bindA (liftA (check_compatibility env bs)) (\<lambda>compatible.
              if \<not> compatible then returnA NEXT_FINALIZED_EPOCH
              else bindA (process_report env bs) (\<lambda>_.
                   bindA (process_extra_data acc env bs) (\<lambda>_. returnA NEXT_SLOT)))))"

interpretation accounting: daemon_module
  "receive_last_finalized_slot env" "oracle_run_cycle env (accounting_execute_module acc env)" oracle_exception_handler for env acc
  by unfold_locales (simp add: oracle_exception_handler_def split: if_splits)

section \<open>The phases of a report\<close>

text \<open>The abstract protocol: what the contract waits for, and which transaction belongs to it.\<close>

datatype report_phase = Collecting_Report | Collecting_Extra_Data | Report_Done

definition phase_of :: "accounting_processing_state \<Rightarrow> report_phase" where
  "phase_of ps = (if \<not> ap_main_data_submitted ps then Collecting_Report
     else if \<not> ap_extra_data_submitted ps then Collecting_Extra_Data else Report_Done)"

fun phase_enables :: "report_phase \<Rightarrow> 'r tx \<Rightarrow> bool" where
  "phase_enables p (SubmitReport _ _ _) \<longleftrightarrow> p \<noteq> Report_Done"
| "phase_enables p (SubmitReportData _ _) \<longleftrightarrow> p = Collecting_Report"
| "phase_enables p SubmitExtraDataEmpty \<longleftrightarrow> p = Collecting_Extra_Data"
| "phase_enables p (SubmitExtraDataList _) \<longleftrightarrow> p = Collecting_Extra_Data"
| "phase_enables p (Delegated t) \<longleftrightarrow> phase_enables p t"

lemma phase_enables_plain: "phase_enables p (plain t) \<longleftrightarrow> phase_enables p t"
  by (induction t) simp_all

definition phase_seen :: "accounting_setup \<Rightarrow> 'r oracle_env \<Rightarrow> nat \<Rightarrow> nat \<Rightarrow> report_phase \<Rightarrow> bool" where
  "phase_seen acc env n n' p \<longleftrightarrow> (\<exists>i b ps. n \<le> i \<and> i < n' \<and> oe_head env i = Inr b \<and>
     get_accounting_processing_state env (as_processing_state acc) b = Inr ps \<and> phase_of ps = p)"

lemma phase_seen_mono: "phase_seen acc env n n' p \<Longrightarrow> m \<le> n \<Longrightarrow> n' \<le> m' \<Longrightarrow> phase_seen acc env m m' p"
  unfolding phase_seen_def by (metis order_trans order_less_le_trans)

lemma sent_at_most_once:
  assumes "check_and_send_transaction env t s = (r, s')"
  shows "cs_polls s' = cs_polls s \<and>
    (\<exists>xs. cs_log s' = cs_log s @ map TxSent xs \<and> (xs = [] \<or> map plain xs = [plain t]))"
  using check_and_send_log[OF assms]
proof (elim disjE exE conjE)
  fix t' assume "s' = s\<lparr>cs_log := cs_log s @ [TxSent t']\<rparr>" "plain t' = plain t"
  then show ?thesis by (intro conjI exI[of _ "[t']"]) simp_all
qed simp

lemma send_all_log:
  "send_all env ts s = (r, s') \<Longrightarrow> cs_polls s' = cs_polls s \<and>
    (\<exists>sent. cs_log s' = cs_log s @ map TxSent sent \<and> subseq (map plain sent) (map plain ts))"
proof (induction ts arbitrary: s)
  case Nil
  then show ?case by (intro conjI exI[of _ "[]"]) simp_all
next
  case (Cons t ts)
  from Cons.prems have "bindA (check_and_send_transaction env t) (\<lambda>_. send_all env ts) s = (r, s')" by simp
  then show ?case
  proof (cases rule: bindA_cases)
    case (error e)
    from sent_at_most_once[OF error(1)] obtain xs where
      xs: "cs_polls s' = cs_polls s" "cs_log s' = cs_log s @ map TxSent xs" "xs = [] \<or> map plain xs = [plain t]" by (elim conjE exE)
    from xs show ?thesis by (intro conjI exI[of _ xs]) auto
  next
    case (ok a u)
    from Cons.IH[OF ok(2)] obtain sent where
      sent: "cs_polls s' = cs_polls u" "cs_log s' = cs_log u @ map TxSent sent" "subseq (map plain sent) (map plain ts)" by blast
    from sent_at_most_once[OF ok(1)] obtain xs where
      xs: "cs_polls u = cs_polls s" "cs_log u = cs_log s @ map TxSent xs" "xs = [] \<or> map plain xs = [plain t]" by (elim conjE exE)
    with sent show ?thesis by (intro conjI exI[of _ "xs @ sent"]) auto
  qed
qed

lemma submit_if_possible_log:
  assumes "submit_extra_data_if_possible acc env bs s = (r, s')"
  shows "cs_polls s' = Suc (cs_polls s) \<and> (\<exists>sent. cs_log s' = cs_log s @ map TxSent sent \<and>
    (sent \<noteq> [] \<longrightarrow> phase_seen acc env (cs_polls s) (cs_polls s') Collecting_Extra_Data \<and>
       (\<exists>x. get_extra_data (as_reads acc bs) bs = Inr x \<and> subseq (map plain sent) (map plain (extra_data_txs x)))))"
  using assms unfolding submit_extra_data_if_possible_def
proof (cases rule: bindA_cases)
  case (error e)
  then show ?thesis by (auto simp: get_latest_blockstamp_def)
next
  case (ok b t)
  then have t: "t = s\<lparr>cs_polls := Suc (cs_polls s)\<rparr>" "oe_head env (cs_polls s) = Inr b"
    by (auto simp: get_latest_blockstamp_def)
  show ?thesis
  proof (cases "can_submit_extra_data env (as_processing_state acc) b = Inr True")
    case False
    with ok(2) t show ?thesis by (auto elim!: bindA_cases split: if_splits)
  next
    case True
    then have seen: "phase_seen acc env (cs_polls s) (Suc (cs_polls s)) Collecting_Extra_Data"
      using t(2) unfolding phase_seen_def can_submit_extra_data_def by (auto simp: res_simps phase_of_def)
    from ok(2) True have "submit_extra_data acc env bs t = (r, s')" by simp
    then show ?thesis unfolding submit_extra_data_def
    proof (cases rule: bindA_cases)
      case (error e)
      with t show ?thesis by auto
    next
      case (ok x u)
      then have "get_extra_data (as_reads acc bs) bs = Inr x" "send_all env (extra_data_txs x) t = (r, s')" by auto
      with send_all_log[of env "extra_data_txs x" t r s'] t(1) seen show ?thesis by fastforce
    qed
  qed
qed

lemma process_extra_data_log:
  assumes "process_extra_data acc env bs s = (r, s')"
  shows "cs_polls s < cs_polls s' \<and> (\<exists>naps sent. cs_log s' = cs_log s @ map Slept naps @ map TxSent sent \<and> length naps \<le> 1 \<and>
    (sent \<noteq> [] \<longrightarrow> phase_seen acc env (cs_polls s) (cs_polls s') Collecting_Extra_Data \<and>
       (\<exists>x. get_extra_data (as_reads acc bs) bs = Inr x \<and> subseq (map plain sent) (map plain (extra_data_txs x)))))"
  using assms unfolding process_extra_data_def
proof (cases rule: bindA_cases)
  case (error e)
  then show ?thesis by (auto simp: get_latest_blockstamp_def)
next
  case (ok b t)
  then have t: "t = s\<lparr>cs_polls := Suc (cs_polls s)\<rparr>" by (auto simp: get_latest_blockstamp_def)
  from ok(2) consider "s' = t"
    | secs where "submit_extra_data_if_possible acc env bs (t\<lparr>cs_log := cs_log t @ [Slept secs]\<rparr>) = (r, s')"
    by (auto elim!: bindA_cases split: if_splits simp: log_action_def)
  then show ?thesis
  proof cases
    case 1
    with t show ?thesis by auto
  next
    case 2
    from submit_if_possible_log[OF 2] obtain sent where
      sent: "cs_polls s' = Suc (cs_polls t)" "cs_log s' = (cs_log t @ [Slept secs]) @ map TxSent sent"
      "sent \<noteq> [] \<Longrightarrow> phase_seen acc env (cs_polls t) (cs_polls s') Collecting_Extra_Data \<and>
         (\<exists>x. get_extra_data (as_reads acc bs) bs = Inr x \<and> subseq (map plain sent) (map plain (extra_data_txs x)))" by auto
    with t show ?thesis
      by (intro conjI exI[of _ "[secs]"] exI[of _ sent]) (auto intro: phase_seen_mono)
  qed
qed

lemma accounting_module_fields [simp]:
  "oe_head (accounting_module acc env) = oe_head env"
  "oe_chain_config (accounting_module acc env) = oe_chain_config env"
  "oe_frame_config (accounting_module acc env) = oe_frame_config env"
  "oe_current_frame (accounting_module acc env) = oe_current_frame env"
  "oe_is_main_data_submitted (accounting_module acc env) = accounting_is_main_data_submitted env (as_processing_state acc)"
  "oe_is_contract_reportable (accounting_module acc env) = accounting_is_contract_reportable env (as_processing_state acc)"
  by (simp_all add: accounting_module_def)

lemma get_initial_or_current_frame_module:
  "get_initial_or_current_frame (accounting_module acc env) = get_initial_or_current_frame env"
  unfolding get_initial_or_current_frame_def get_web3_converter_def accounting_module_fields by (rule refl)

lemma phase_seen_module [simp]: "phase_seen acc (accounting_module acc env) n n' p = phase_seen acc env n n' p"
  unfolding phase_seen_def get_accounting_processing_state_def get_initial_or_current_frame_module accounting_module_fields
  by (rule refl)

lemma reportable_not_done:
  "accounting_is_contract_reportable env (as_processing_state acc) b = Inr True \<Longrightarrow> oe_head env i = Inr b \<Longrightarrow>
    \<exists>p. phase_seen acc env i (Suc i) p \<and> p \<noteq> Report_Done"
  unfolding phase_seen_def
  by (auto simp: accounting_is_contract_reportable_def accounting_is_main_data_submitted_def can_submit_extra_data_def
      phase_of_def res_simps split: if_splits intro!: exI[of _ b])

lemma blockstamp_for_report_log:
  assumes "get_blockstamp_for_report env last_finalized s = (r, s')"
  shows "cs_log s' = cs_log s \<and> cs_polls s' = Suc (cs_polls s) \<and>
    (\<forall>bs. r = Inr (Some bs) \<longrightarrow> (\<exists>b. oe_head env (cs_polls s) = Inr b \<and> oe_is_contract_reportable env b = Inr True))"
  using assms unfolding get_blockstamp_for_report_def
proof (cases rule: bindA_cases)
  case (error e)
  then show ?thesis using get_latest_data_cases(1)[OF error(1)] by simp
next
  case (ok a t)
  obtain b m where a: "a = (b, m)" by fastforce
  have "oe_head env (cs_polls s) = Inr b" using get_latest_data_cases(2)[OF ok(1)] a by simp
  with get_latest_data_cases(1)[OF ok(1)] ok(2) a show ?thesis
    by (auto elim!: bindA_cases split: if_splits)
qed

lemma report_phase:
  assumes "process_report (accounting_module acc env) bs s = (r, s')"
    and "phase_seen acc env n (cs_polls s) p" "p \<noteq> Report_Done" "n \<le> cs_polls s"
  shows "cs_polls s \<le> cs_polls s' \<and> (\<exists>main. cs_log s' = cs_log s @ main \<and>
    (\<forall>t. TxSent t \<in> set main \<longrightarrow> (\<exists>p. phase_seen acc env n (cs_polls s') p \<and> phase_enables p t)))"
proof -
  from process_report_log[OF assms(1)] obtain hashes k secs datas tel where
    l: "cs_log s' = cs_log s @ hashes @ replicate k (Slept secs) @ datas @ tel" "cs_polls s \<le> cs_polls s'"
    and sent: "hashes @ datas @ tel \<noteq> [] \<Longrightarrow> \<exists>report h.
       list_all (hash_tx (accounting_module acc env) bs s s' h) hashes \<and>
       list_all (data_tx (accounting_module acc env) s s' report h) datas \<and> set tel \<subseteq> {TelemetrySent h}" by blast
  have seen: "phase_seen acc env n (cs_polls s') p" using assms(2) l(2) by (rule phase_seen_mono[OF _ order_refl])
  have data: "phase_seen acc env n (cs_polls s') Collecting_Report"
    if "data_tx (accounting_module acc env) s s' report h a" for report h a
  proof -
    from that obtain b' where "cs_polls s < cs_polls s'" "oe_head env (cs_polls s' - 1) = Inr b'"
      "accounting_is_main_data_submitted env (as_processing_state acc) b' = Inr False"
      unfolding data_tx_def observed_def by auto
    then show ?thesis using assms(4) unfolding phase_seen_def
      by (auto simp: accounting_is_main_data_submitted_def res_simps phase_of_def intro!: exI[of _ "cs_polls s' - 1"])
  qed
  have "\<exists>p. phase_seen acc env n (cs_polls s') p \<and> phase_enables p t"
    if t: "TxSent t \<in> set (hashes @ replicate k (Slept secs) @ datas @ tel)" for t
  proof -
    from t have ne: "hashes @ datas @ tel \<noteq> []" by (auto dest: in_set_replicate[THEN iffD1])
    then obtain report h where rh: "list_all (hash_tx (accounting_module acc env) bs s s' h) hashes"
      "list_all (data_tx (accounting_module acc env) s s' report h) datas" "set tel \<subseteq> {TelemetrySent h}" using sent by blast
    with t consider "hash_tx (accounting_module acc env) bs s s' h (TxSent t)"
      | "data_tx (accounting_module acc env) s s' report h (TxSent t)"
      by (auto simp: list_all_iff)
    then show ?thesis
    proof cases
      case 1
      then have "phase_enables p t" using assms(3) phase_enables_plain[of p t] by (auto simp: hash_tx_def)
      with seen show ?thesis by blast
    next
      case 2
      then have "phase_enables Collecting_Report t" using phase_enables_plain[of Collecting_Report t] by (auto simp: data_tx_def)
      with data[OF 2] show ?thesis by blast
    qed
  qed
  with l show ?thesis by blast
qed

lemma third_phase_log:
  assumes "bindA (process_report (accounting_module acc env) bs) (\<lambda>_.
      bindA (process_extra_data acc (accounting_module acc env) bs) (\<lambda>_. returnA NEXT_SLOT)) s = (r, s')"
    and "phase_seen acc env n (cs_polls s) p" "p \<noteq> Report_Done" "n \<le> cs_polls s"
  shows "\<exists>main naps sent. cs_log s' = cs_log s @ main @ map Slept naps @ map TxSent sent \<and>
    (\<forall>t. TxSent t \<in> set main \<union> TxSent ` set sent \<longrightarrow> (\<exists>p. phase_seen acc env n (cs_polls s') p \<and> phase_enables p t)) \<and>
    (sent \<noteq> [] \<longrightarrow> (\<exists>x. get_extra_data (as_reads acc bs) bs = Inr x \<and>
       subseq (map plain sent) (map plain (extra_data_txs x :: report_tuple tx list))))"
  using assms(1)
proof (cases rule: bindA_cases)
  case (error e)
  from report_phase[OF error(1) assms(2-4)] obtain main where "cs_log s' = cs_log s @ main"
    "\<forall>t. TxSent t \<in> set main \<longrightarrow> (\<exists>p. phase_seen acc env n (cs_polls s') p \<and> phase_enables p t)" by blast
  then show ?thesis by (intro exI[of _ main] exI[of _ "[]"]) simp
next
  case (ok u s2)
  from report_phase[OF ok(1) assms(2-4)] obtain main where
    main: "cs_polls s \<le> cs_polls s2" "cs_log s2 = cs_log s @ main"
      "\<forall>t. TxSent t \<in> set main \<longrightarrow> (\<exists>p. phase_seen acc env n (cs_polls s2) p \<and> phase_enables p t)" by blast
  from ok(2) obtain r' where "process_extra_data acc (accounting_module acc env) bs s2 = (r', s')"
    by (auto elim!: bindA_cases)
  from process_extra_data_log[OF this] obtain naps sent where
    e: "cs_polls s2 < cs_polls s'" "cs_log s' = cs_log s2 @ map Slept naps @ map TxSent sent"
    "sent \<noteq> [] \<Longrightarrow> phase_seen acc env (cs_polls s2) (cs_polls s') Collecting_Extra_Data \<and>
       (\<exists>x. get_extra_data (as_reads acc bs) bs = Inr x \<and> subseq (map plain sent) (map plain (extra_data_txs x)))" by auto
  have extra: "phase_enables Collecting_Extra_Data t" if "t \<in> set sent" for t
  proof -
    from that e(3) obtain x where x: "subseq (map plain sent) (map plain (extra_data_txs x :: report_tuple tx list))" by fastforce
    have "plain t \<in> set (map plain sent)" using that by simp
    from list_emb_set[OF x this] have "plain t \<in> plain ` set (extra_data_txs x)" by auto
    then have "phase_enables Collecting_Extra_Data (plain t)" by (auto simp: extra_data_txs_def split: if_splits)
    then show ?thesis by (simp add: phase_enables_plain)
  qed
  have "\<exists>p. phase_seen acc env n (cs_polls s') p \<and> phase_enables p t" if "TxSent t \<in> set main \<union> TxSent ` set sent" for t
  proof (cases "t \<in> set sent")
    case True
    then have "phase_seen acc env (cs_polls s2) (cs_polls s') Collecting_Extra_Data" using e(3) by fastforce
    then have "phase_seen acc env n (cs_polls s') Collecting_Extra_Data"
      by (rule phase_seen_mono) (use assms(4) main(1) in simp_all)
    with extra[OF True] show ?thesis by blast
  next
    case False
    with that have "TxSent t \<in> set main" by blast
    with main(3) obtain p where p: "phase_seen acc env n (cs_polls s2) p" "phase_enables p t" by blast
    have "phase_seen acc env n (cs_polls s') p" by (rule phase_seen_mono[OF p(1)]) (use e(1) in simp_all)
    with p(2) show ?thesis by blast
  qed
  moreover have "cs_log s' = cs_log s @ main @ map Slept naps @ map TxSent sent" using e(2) main(2) by simp
  ultimately show ?thesis using e(3) by blast
qed


section \<open>A cycle in the third phase\<close>

text \<open>The main data is submitted, extra data is missing; the account may submit but is no consensus member.\<close>

definition demo_setup :: accounting_setup where
  "demo_setup = \<lparr>as_processing_state = (\<lambda>_. Inr \<lparr>ap_current_frame_ref_slot = 22, ap_processing_deadline_time = 0,
       ap_main_data_hash = [9, 1], ap_main_data_submitted = True, ap_extra_data_hash = [], ap_extra_data_format = 0,
       ap_extra_data_submitted = False, ap_extra_data_items_count = 0, ap_extra_data_items_submitted = 0\<rparr>),
     as_reads = (\<lambda>_. demo_accounting), as_allow_reporting_in_bunker_mode = False\<rparr>"

definition demo_submitter :: "report_tuple oracle_env" where
  "demo_submitter = (demo_oracle_for (6, 0, 0, 0, [], [], [], [], 0, 0, 0, [], 0, False, [], [], 0, [], 0))
     \<lparr>oe_current_frame := \<lambda>_. Inr \<lparr>cf_ref_slot = 22, cf_deadline_slot = 6465599\<rparr>,
      oe_delegation_enabled := False, oe_telemetry := (\<lambda>_. False),
      oe_member_state := (\<lambda>_ h. Inr ((demo_member_state h)\<lparr>ms_is_member := False, ms_consensus_report := [7]\<rparr>)),
      oe_has_submit_role := (\<lambda>_ _. Inr True), oe_contract_version := (\<lambda>_. Inr 5), oe_consensus_version := (\<lambda>_. Inr 6)\<rparr>"

definition demo_idle :: "report_tuple cstate" where
  "demo_idle = \<lparr>cs_polls = 0, cs_last_sent_report_hash = None, cs_log = []\<rparr>"

lemma demo_submitter_member:
  "get_member_info (accounting_module demo_setup demo_submitter) (demo_block h) = Inr
     \<lparr>mi_is_report_member = False, mi_is_submit_member = True, mi_is_fast_lane = False, mi_last_report_ref_slot = 0,
      mi_fast_lane_length_slot = fast_lane_length_slots mainnet_frame, mi_current_frame_ref_slot = 22, mi_deadline_slot = 6465599,
      mi_current_frame_member_report = ms_member_report (demo_member_state h), mi_current_frame_consensus_report = [7]\<rparr>"
  by (simp add: get_member_info_def get_initial_or_current_frame_def get_account_state_def Let_def demo_submitter_def
      demo_oracle_for_def accounting_module_def demo_block_def demo_member_state_def)

lemma demo_submitter_fields:
  "oe_head demo_submitter n = Inr (demo_block (if n = 0 then ''b0'' else ''b1''))"
  "can_submit_extra_data (accounting_module demo_setup demo_submitter) (as_processing_state demo_setup) b = Inr True"
  "accounting_is_contract_reportable demo_submitter (as_processing_state demo_setup) b = Inr True"
  "encode_data_hash (accounting_module demo_setup demo_submitter) rep = Inr [9, 1]"
  "send_report_telemetry (accounting_module demo_setup demo_submitter) h s = s"
  by (simp_all add: demo_submitter_def demo_oracle_for_def accounting_module_def can_submit_extra_data_def demo_setup_def
      get_accounting_processing_state_def accounting_is_contract_reportable_def accounting_is_main_data_submitted_def
      encode_data_hash_def send_report_telemetry_def)

lemma demo_report_quiet:
  assumes "bs_ref_epoch bs = 0"
  shows "process_report (accounting_module demo_setup demo_submitter) bs s = (Inr (), s\<lparr>cs_polls := cs_polls s + 2\<rparr>)"
proof -
  let ?m = "accounting_module demo_setup demo_submitter"
  obtain r where "calculate_report demo_accounting bs = Some (Inr r)" using demo_report(2)[OF assms] by blast
  then have "oe_build_report ?m bs = Inr (as_tuple r)"
    by (simp add: accounting_module_def build_report_def demo_setup_def before_timeout_def)
  then obtain rep where rep: "oe_build_report ?m bs = Inr rep" by blast
  have allowed: "oe_is_reporting_allowed ?m bs = Inr True"
    using demo_report(1)[OF assms]
    by (simp add: accounting_module_def accounting_is_reporting_allowed_def demo_setup_def before_timeout_def)
  have "process_report_hash ?m bs h s = (Inr (), s\<lparr>cs_polls := Suc (cs_polls s)\<rparr>)" for h s
    by (simp add: process_report_hash_def get_latest_data_def get_latest_blockstamp_def bindA_def liftA_def
        demo_submitter_fields demo_submitter_member returnA_def)
  moreover have "process_report_data ?m bs rep [9, 1] s = (Inr (), s\<lparr>cs_polls := Suc (cs_polls s)\<rparr>)" for s
    by (simp add: process_report_data_def get_latest_data_def get_latest_blockstamp_def bindA_def liftA_def
        demo_submitter_fields demo_submitter_member returnA_def)
  ultimately show ?thesis
    by (simp add: process_report_def rep allowed demo_submitter_fields finallyA_def bindA_def[of "process_report_hash _ _ _"])
qed

lemma demo_extra_sent:
  assumes "bs_ref_epoch bs = 0"
  shows "process_extra_data demo_setup (accounting_module demo_setup demo_submitter) bs s =
    (Inr (), s\<lparr>cs_polls := cs_polls s + 2, cs_log := cs_log s @ [Slept 0, TxSent SubmitExtraDataEmpty]\<rparr>)"
proof -
  let ?m = "accounting_module demo_setup demo_submitter"
  obtain x where x: "get_extra_data (as_reads demo_setup bs) bs = Inr x" "extra_data_format x = 0"
    using demo_report_parts(3)[OF assms] by (auto simp: demo_setup_def)
  have delay: "get_slot_delay_before_data_submit ?m (demo_block h) = Inr 0" for h
    by (simp add: get_slot_delay_before_data_submit_def demo_submitter_member split: option.splits)
  have send: "check_and_send_transaction ?m SubmitExtraDataEmpty s = (Inr (Some 1), s\<lparr>cs_log := cs_log s @ [TxSent SubmitExtraDataEmpty]\<rparr>)" for s
    by (simp add: check_and_send_transaction_def build_transaction_params_def check_transaction_def send_transaction_def
        handle_sent_transaction_def estimate_gas_def bindA_def liftA_def log_action_def accounting_module_def demo_submitter_def
        demo_oracle_for_def Let_def)
  have config: "oe_chain_config demo_submitter h = Inr mainnet_chain" for h
    by (simp add: demo_submitter_def demo_oracle_for_def)
  have "extra_data_txs x = [SubmitExtraDataEmpty :: report_tuple tx]" by (simp add: extra_data_txs_def x(2) format_list_value_def)
  then show ?thesis
    by (simp add: process_extra_data_def submit_extra_data_if_possible_def submit_extra_data_def get_latest_blockstamp_def
        bindA_def liftA_def returnA_def demo_submitter_fields delay config x(1) log_action_def send)
qed


end
