(* ===== verification/Duties.thy ===== *)
theory Duties
  imports Chain Lido_Validators
begin

text \<open>
  Duties of validators and the performance computed from them:
  \<open>src/modules/oracles/staking_modules/common/state.py\<close> (accumulators per frame and validator),
  the parameters of \<open>src/providers/execution/contracts/cs_parameters_registry.py\<close> and the strikes
  list of \<open>src/modules/oracles/staking_modules/common/types.py\<close>. A \<open>defaultdict\<close> is an association
  list read with a default.
\<close>

section \<open>Accumulators\<close>

record duty_acc =
  da_assigned :: int
  da_included :: int

definition no_duty :: duty_acc where "no_duty = \<lparr>da_assigned = 0, da_included = 0\<rparr>"

definition perf :: "duty_acc \<Rightarrow> rat" where
  "perf a = (if da_assigned a \<noteq> 0 then truediv (da_included a) (da_assigned a) else 0)"

definition merge_acc :: "duty_acc \<Rightarrow> duty_acc \<Rightarrow> duty_acc" where
  "merge_acc a other = \<lparr>da_assigned = da_assigned a + da_assigned other, da_included = da_included a + da_included other\<rparr>"

record validator_duties =
  vd_attestation :: "duty_acc option"
  vd_proposal :: "duty_acc option"
  vd_sync :: "duty_acc option"

type_synonym duty_map = "(int \<times> duty_acc) list"

record network_duties =
  nd_attestations :: duty_map
  nd_proposals :: duty_map
  nd_syncs :: duty_map

definition empty_duties :: network_duties where
  "empty_duties = \<lparr>nd_attestations = [], nd_proposals = [], nd_syncs = []\<rparr>"

definition add_duty :: "int \<Rightarrow> duty_acc \<Rightarrow> duty_map \<Rightarrow> duty_map" where
  \<comment> \<open>\<open>d[val].merge(duty)\<close> on a \<open>defaultdict(DutyAccumulator)\<close>\<close>
  "add_duty val duty d = AList.update val (merge_acc (al_get no_duty d val) duty) d"

definition merge_map :: "duty_map \<Rightarrow> duty_map \<Rightarrow> duty_map" where
  "merge_map other d = fold (\<lambda>(val, duty). add_duty val duty) other d"

definition merge_duties :: "network_duties \<Rightarrow> network_duties \<Rightarrow> network_duties" where
  "merge_duties n other =
     \<lparr>nd_attestations = merge_map (nd_attestations other) (nd_attestations n),
      nd_proposals = merge_map (nd_proposals other) (nd_proposals n),
      nd_syncs = merge_map (nd_syncs other) (nd_syncs n)\<rparr>"

section \<open>The state of a report\<close>

type_synonym epoch_frame = "epoch \<times> epoch"
type_synonym duties_state = "(epoch_frame \<times> network_duties) list"

definition calculate_frames :: "epoch list \<Rightarrow> int \<Rightarrow> epoch_frame list res" where
  "calculate_frames epochs_to_process frame_len =
     (if frame_len = 0 then Inl ZeroDivisionError
      else if int (length epochs_to_process) mod frame_len \<noteq> 0 then Inl ValueError
      else if frame_len < 1 then Inl ValueError
      else Inr (map (\<lambda>b. (hd b, last b)) (batched (nat frame_len) (sort epochs_to_process))))"

definition new_state :: "epoch \<Rightarrow> epoch \<Rightarrow> int \<Rightarrow> duties_state res" where
  "new_state l_epoch r_epoch frame_len =
     bindR (sequence l_epoch r_epoch) (\<lambda>epochs.
       bindR (calculate_frames epochs frame_len) (\<lambda>frames.
         Inr (dict_of (map (\<lambda>f. (f, empty_duties)) frames))))"

definition state_frames :: "duties_state \<Rightarrow> epoch_frame list" where
  "state_frames st = map fst st"

definition frame_data :: "duties_state \<Rightarrow> epoch_frame \<Rightarrow> network_duties res" where
  "frame_data st f = (case map_of st f of None \<Rightarrow> Inl InvalidState | Some d \<Rightarrow> Inr d)"

definition save_duties :: "epoch_frame \<Rightarrow> network_duties \<Rightarrow> duties_state \<Rightarrow> duties_state res" where
  "save_duties f data st = bindR (frame_data st f) (\<lambda>d. Inr (AList.update f (merge_duties d data) st))"

definition get_validator_duties :: "duties_state \<Rightarrow> epoch_frame \<Rightarrow> int \<Rightarrow> validator_duties res" where
  "get_validator_duties st f vid =
     bindR (frame_data st f) (\<lambda>d.
       Inr \<lparr>vd_attestation = map_of (nd_attestations d) vid, vd_proposal = map_of (nd_proposals d) vid,
            vd_sync = map_of (nd_syncs d) vid\<rparr>)"

definition get_duty_network_aggr :: "duty_map \<Rightarrow> duty_acc res" where
  "get_duty_network_aggr d =
     foldR (\<lambda>(_, acc) aggr.
       if da_included acc > da_assigned acc then Inl InvalidState
       else Inr \<lparr>da_assigned = da_assigned aggr + da_assigned acc, da_included = da_included aggr + da_included acc\<rparr>)
       d no_duty"

definition get_att_network_aggr :: "duties_state \<Rightarrow> epoch_frame \<Rightarrow> duty_acc res" where
  "get_att_network_aggr st f = bindR (frame_data st f) (\<lambda>d. get_duty_network_aggr (nd_attestations d))"

definition get_prop_network_aggr :: "duties_state \<Rightarrow> epoch_frame \<Rightarrow> duty_acc res" where
  "get_prop_network_aggr st f = bindR (frame_data st f) (\<lambda>d. get_duty_network_aggr (nd_proposals d))"

definition get_sync_network_aggr :: "duties_state \<Rightarrow> epoch_frame \<Rightarrow> duty_acc res" where
  "get_sync_network_aggr st f = bindR (frame_data st f) (\<lambda>d. get_duty_network_aggr (nd_syncs d))"

section \<open>Performance\<close>

record perf_coeffs =
  pc_attestations_weight :: int
  pc_blocks_weight :: int
  pc_sync_weight :: int

definition default_perf_coeffs :: perf_coeffs where
  "default_perf_coeffs = \<lparr>pc_attestations_weight = ATTESTATIONS_WEIGHT, pc_blocks_weight = BLOCKS_WEIGHT, pc_sync_weight = SYNC_WEIGHT\<rparr>"

definition weigh :: "duty_acc option \<Rightarrow> int \<Rightarrow> int \<times> rat \<Rightarrow> int \<times> rat" where
  \<comment> \<open>one \<open>if duty:\<close> block; an accumulator object is always true\<close>
  "weigh duty weight so_far =
     (case duty of None \<Rightarrow> so_far
      | Some a \<Rightarrow> (case so_far of (base, performance) \<Rightarrow>
          (base + weight, fl (performance + fl (perf a * float_of_int weight)))))"

definition calc_performance :: "perf_coeffs \<Rightarrow> validator_duties \<Rightarrow> rat res" where
  "calc_performance c duties =
     (case weigh (vd_sync duties) (pc_sync_weight c)
        (weigh (vd_proposal duties) (pc_blocks_weight c)
        (weigh (vd_attestation duties) (pc_attestations_weight c) (0, 0))) of (base, performance) \<Rightarrow>
      if base = 0 then Inl ZeroDivisionError
      else let performance = fl (performance / float_of_int base)
        in if performance > 1 then Inl ValueError else Inr performance)"

record key_number_interval =
  ki_min_key_number :: int
  ki_value :: int

definition interval_value_for :: "key_number_interval list \<Rightarrow> int \<Rightarrow> rat res" where
  "interval_value_for intervals key_number =
     (if key_number < 1 then Inl ValueError
      else case find (\<lambda>i. key_number \<ge> ki_min_key_number i) (sort_desc ki_min_key_number intervals) of
        Some i \<Rightarrow> Inr (truediv (ki_value i) TOTAL_BASIS_POINTS) | None \<Rightarrow> Inl ValueError)"

record strikes_params =
  sp_lifetime :: int
  sp_threshold :: int

record curve_params =
  cp_perf_coeffs :: perf_coeffs
  cp_perf_leeway_data :: "key_number_interval list"
  cp_reward_share_data :: "key_number_interval list"
  cp_strikes_params :: strikes_params

section \<open>Strikes lists\<close>

type_synonym strikes_list = "int list"

definition SENTINEL :: int where "SENTINEL = 0"

definition strikes_resize :: "int \<Rightarrow> strikes_list \<Rightarrow> strikes_list" where
  \<comment> \<open>a negative length cuts from the end, as a slice does\<close>
  "strikes_resize maxlen data =
     (if 0 \<le> maxlen then take (nat maxlen) data else take (nat (int (length data) + maxlen)) data)
      @ replicate (nat (maxlen - int (length data))) SENTINEL"

definition strikes_push :: "int \<Rightarrow> strikes_list \<Rightarrow> strikes_list" where
  "strikes_push item data = item # data"

definition new_strikes_list :: "strikes_list \<Rightarrow> int option \<Rightarrow> strikes_list" where
  "new_strikes_list data maxlen =
     (case maxlen of None \<Rightarrow> data | Some n \<Rightarrow> if n = 0 then data else strikes_resize n data)"

section \<open>The frames of a state tile its epoch range\<close>

lemma take_upto: "take k [i..j] = [i..min j (i + int k - 1)]"
proof (induction k arbitrary: i)
  case (Suc k)
  show ?case
  proof (cases "i \<le> j")
    case True
    then have "[i..j] = i # [i + 1..j]" by (rule upto_rec1)
    moreover have "[i..min j (i + int (Suc k) - 1)] = i # [i + 1..min j (i + int (Suc k) - 1)]"
      using True by (intro upto_rec1) simp
    ultimately show ?thesis using Suc[of "i + 1"] by (simp add: algebra_simps)
  qed simp
qed simp

lemma drop_upto: "drop k [i..j] = [i + int k..j]"
proof (induction k arbitrary: i)
  case (Suc k)
  show ?case
  proof (cases "i \<le> j")
    case True
    then have "[i..j] = i # [i + 1..j]" by (rule upto_rec1)
    then show ?thesis using Suc[of "i + 1"] by (simp add: algebra_simps)
  qed simp
qed simp

lemma hd_last_upto: "i \<le> j \<Longrightarrow> hd [i..j] = i \<and> last [i..j] = j"
  by (metis last_snoc list.sel(1) upto_rec1 upto_rec2)

text \<open>Batches of a range whose length is a multiple of the batch length are consecutive ranges of that length.\<close>

lemma batched_upto:
  assumes "0 < k" "int (nat (j - i + 1)) mod int k = 0"
  shows "list_all (\<lambda>b. b \<noteq> [] \<and> b = [hd b..last b] \<and> last b - hd b + 1 = int k) (batched k [i..j])"
  using assms(2)
proof (induction "nat (j - i + 1)" arbitrary: i rule: less_induct)
  case less
  show ?case
  proof (cases "i \<le> j")
    case False
    then show ?thesis by (simp add: batched.simps)
  next
    case True
    with less.prems have "int k \<le> j - i + 1"
      using assms(1) by (intro zdvd_imp_le) (simp_all add: dvd_eq_mod_eq_0)
    then have b: "take k [i..j] = [i..i + int k - 1]" "i \<le> i + int k - 1"
      using assms(1) by (simp_all add: take_upto min_absorb2)
    have "list_all (\<lambda>b. b \<noteq> [] \<and> b = [hd b..last b] \<and> last b - hd b + 1 = int k) (batched k [i + int k..j])"
    proof (rule less.hyps)
      show "nat (j - (i + int k) + 1) < nat (j - i + 1)" using True assms(1) by simp
      have "nat (j - (i + int k) + 1) = nat (j - i + 1) - k" by simp
      moreover have "int (nat (j - i + 1) - k) mod int k = 0"
        using less.prems \<open>int k \<le> j - i + 1\<close> by (simp add: of_nat_diff mod_diff_eq[symmetric] flip: dvd_eq_mod_eq_0)
      ultimately show "int (nat (j - (i + int k) + 1)) mod int k = 0" by simp
    qed
    moreover have "batched k [i..j] = take k [i..j] # batched k (drop k [i..j])"
      using True assms(1) by (simp add: batched.simps[of k "[i..j]"])
    ultimately show ?thesis
      using b hd_last_upto[OF b(2)] by (simp add: drop_upto)
  qed
qed

text \<open>
  The frames of a report's state tile its epoch range: the first frame starts at the first epoch,
  each frame holds exactly the configured number of epochs, and the frames concatenated are the range,
  in order; so every epoch is counted in exactly one frame.
\<close>

theorem state_frames_tile:
  assumes "new_state l_epoch r_epoch n = Inr st"
  shows "concat (map (\<lambda>(a, b). [a..b]) (state_frames st)) = [l_epoch..r_epoch] \<and>
    (\<forall>(a, b) \<in> set (state_frames st). b - a + 1 = n) \<and> distinct (state_frames st)"
proof -
  from assms have n: "0 < n" "l_epoch \<le> r_epoch" "int (nat (r_epoch - l_epoch + 1)) mod n = 0"
    and st: "st = dict_of (map (\<lambda>f. (f, empty_duties)) (map (\<lambda>b. (hd b, last b)) (batched (nat n) [l_epoch..r_epoch])))"
    by (auto simp: new_state_def calculate_frames_def res_simps sorted_sort_id[OF sorted_upto] split: if_splits)
  let ?bs = "batched (nat n) [l_epoch..r_epoch]"
  have bs: "list_all (\<lambda>b. b \<noteq> [] \<and> b = [hd b..last b] \<and> last b - hd b + 1 = n) ?bs"
    using batched_upto[of "nat n" r_epoch l_epoch] n by simp
  have whole: "concat ?bs = [l_epoch..r_epoch]" using n by (intro concat_batched) simp
  have "removeAll [] ?bs = ?bs" using bs by (intro removeAll_id) (auto simp: list_all_iff)
  then have "distinct ?bs" using distinct_concat_iff[of ?bs] by (simp add: whole)
  moreover have "inj_on (\<lambda>b. (hd b, last b)) (set ?bs)"
    using bs by (auto intro!: inj_onI simp: list_all_iff) metis
  ultimately have d: "distinct (map (\<lambda>b. (hd b, last b)) ?bs)" by (simp add: distinct_map)
  then have frames: "state_frames st = map (\<lambda>b. (hd b, last b)) ?bs"
    unfolding st state_frames_def by (subst dict_of_distinct_keys) (simp_all add: comp_def)
  have "map (\<lambda>b. [hd b..last b]) ?bs = ?bs"
    using bs by (intro map_idI) (auto simp: list_all_iff)
  then show ?thesis
    using bs d whole by (auto simp: frames comp_def list_all_iff)
qed

theorem state_frames_tile_witness:
  "state_frames (dict_of [((0, 2), empty_duties), ((3, 5), empty_duties)]) = [(0, 2), (3, 5)] \<and>
   concat (map (\<lambda>(a, b). [a..b]) (state_frames (dict_of [((0, 2), empty_duties), ((3, 5), empty_duties)]))) = [0..5]"
proof -
  have st: "new_state 0 5 3 = Inr (dict_of [((0, 2), empty_duties), ((3, 5), empty_duties)])" by code_simp
  have "state_frames (dict_of [((0, 2), empty_duties), ((3, 5), empty_duties)]) = [(0, 2), (3, 5)]" by code_simp
  with state_frames_tile[OF st] show ?thesis by blast
qed

section \<open>Performance lies between zero and one\<close>

definition sane :: "duty_acc option \<Rightarrow> bool" where
  "sane d = (case d of None \<Rightarrow> True | Some a \<Rightarrow> 0 \<le> da_included a \<and> da_included a \<le> da_assigned a)"

lemma perf_unit: "0 \<le> da_included a \<Longrightarrow> da_included a \<le> da_assigned a \<Longrightarrow> 0 \<le> perf a \<and> perf a \<le> 1"
  by (auto simp: perf_def intro: truediv_nonneg truediv_le_one)

text \<open>Every block keeps the weighted sum between zero and the integer sum of the weights so far.\<close>

lemma weigh_bounds:
  assumes "weigh d w (base, x) = (base', y)" "sane d" "0 \<le> w" "0 \<le> base" "base + w \<le> 2 ^ 53"
    "0 \<le> x" "x \<le> of_int base"
  shows "base \<le> base' \<and> base' \<le> base + w \<and> 0 \<le> y \<and> y \<le> of_int base'"
proof (cases d)
  case None
  with assms show ?thesis by (simp add: weigh_def)
next
  case (Some a)
  then have r: "base' = base + w" "y = fl (x + fl (perf a * of_int w))"
    using assms float_of_int_exact[of w] by (simp_all add: weigh_def)
  have p: "0 \<le> perf a" "perf a \<le> 1" using perf_unit[of a] assms(2) Some by (simp_all add: sane_def)
  from float53.rnd_scale_le[OF p assms(3)] assms have t: "fl (perf a * of_int w) \<le> of_int w" "0 \<le> fl (perf a * of_int w)"
    by simp_all
  have "fl (x + fl (perf a * of_int w)) \<le> of_int (base + w)"
    using t assms by (intro float53.rnd_le_int) simp_all
  moreover have "0 \<le> fl (x + fl (perf a * of_int w))" using t assms by (intro float53.rnd_nonneg) simp
  ultimately show ?thesis using r assms(3) by simp
qed

text \<open>
  A performance is a number between zero and one, rounding included: for duties with at most as many
  inclusions as assignments and weights that are not negative (and sum below 2^53), the computation
  fails only when no weighted duty is present (a division by zero), and the check that raises on a
  performance above one never fires.
\<close>

theorem performance_in_unit:
  assumes "sane (vd_attestation d)" "sane (vd_proposal d)" "sane (vd_sync d)"
    and "0 \<le> pc_attestations_weight c" "0 \<le> pc_blocks_weight c" "0 \<le> pc_sync_weight c"
    and "pc_attestations_weight c + pc_blocks_weight c + pc_sync_weight c \<le> 2 ^ 53"
  shows "calc_performance c d = Inl ZeroDivisionError \<or> (\<exists>p. calc_performance c d = Inr p \<and> 0 \<le> p \<and> p \<le> 1)"
proof -
  obtain b1 p1 where w1: "weigh (vd_attestation d) (pc_attestations_weight c) (0, 0) = (b1, p1)" by fastforce
  obtain b2 p2 where w2: "weigh (vd_proposal d) (pc_blocks_weight c) (b1, p1) = (b2, p2)" by fastforce
  obtain b3 p3 where w3: "weigh (vd_sync d) (pc_sync_weight c) (b2, p2) = (b3, p3)" by fastforce
  from weigh_bounds[OF w1 assms(1,4)] assms have 1: "0 \<le> b1" "b1 \<le> pc_attestations_weight c" "0 \<le> p1" "p1 \<le> of_int b1"
    by simp_all
  from weigh_bounds[OF w2 assms(2,5) 1(1) _ 1(3,4)] 1 assms
  have 2: "0 \<le> b2" "b2 \<le> b1 + pc_blocks_weight c" "0 \<le> p2" "p2 \<le> of_int b2" by simp_all
  from weigh_bounds[OF w3 assms(3,6) 2(1) _ 2(3,4)] 1 2 assms
  have 3: "0 \<le> b3" "b3 \<le> 2 ^ 53" "0 \<le> p3" "p3 \<le> of_int b3" by simp_all
  have "b3 \<noteq> 0 \<Longrightarrow> p3 / of_int b3 \<le> 1 \<and> 0 \<le> p3 / of_int b3" using 3 by simp
  then have "b3 \<noteq> 0 \<Longrightarrow> fl (p3 / of_int b3) \<le> 1 \<and> 0 \<le> fl (p3 / of_int b3)"
    using float53.rnd_le_one float53.rnd_nonneg by blast
  then show ?thesis
    using 3 by (cases "b3 = 0") (simp_all add: calc_performance_def w1 w2 w3 Let_def float_of_int_exact)
qed

theorem performance_in_unit_witness:
  "\<exists>p. calc_performance default_perf_coeffs
      \<lparr>vd_attestation = Some \<lparr>da_assigned = 3, da_included = 2\<rparr>, vd_proposal = None, vd_sync = None\<rparr> = Inr p \<and>
    0 \<le> p \<and> p \<le> 1"
proof -
  have ok: "is_ok (calc_performance default_perf_coeffs
      \<lparr>vd_attestation = Some \<lparr>da_assigned = 3, da_included = 2\<rparr>, vd_proposal = None, vd_sync = None\<rparr>)" by code_simp
  have "calc_performance default_perf_coeffs d = Inl ZeroDivisionError \<or>
      (\<exists>p. calc_performance default_perf_coeffs d = Inr p \<and> 0 \<le> p \<and> p \<le> 1)"
    if "d = \<lparr>vd_attestation = Some \<lparr>da_assigned = 3, da_included = 2\<rparr>, vd_proposal = None, vd_sync = None\<rparr>" for d
    by (rule performance_in_unit)
      (simp_all add: that sane_def default_perf_coeffs_def ATTESTATIONS_WEIGHT_def BLOCKS_WEIGHT_def SYNC_WEIGHT_def)
  with ok show ?thesis by (auto simp: is_ok_def)
qed

section \<open>Sums of accumulators\<close>

lemma merge_acc_simps [simp]:
  "da_assigned (merge_acc a b) = da_assigned a + da_assigned b" "da_included (merge_acc a b) = da_included a + da_included b"
  by (simp_all add: merge_acc_def)

lemma no_duty_simps [simp]: "da_assigned no_duty = 0" "da_included no_duty = 0"
  by (simp_all add: no_duty_def)

lemma merge_acc_assoc: "merge_acc (merge_acc a b) c = merge_acc a (merge_acc b c)"
  by (simp add: merge_acc_def)

lemma merge_no_duty [simp]: "merge_acc no_duty a = a" "merge_acc a no_duty = a"
  by (simp_all add: merge_acc_def no_duty_def)

lemma al_get_add_duty [simp]:
  "al_get no_duty (add_duty v a d) j = (if j = v then merge_acc (al_get no_duty d v) a else al_get no_duty d j)"
  by (simp add: add_duty_def)

lemma al_get_merge_map:
  "distinct (map fst other) \<Longrightarrow>
     al_get no_duty (merge_map other d) v = merge_acc (al_get no_duty d v) (al_get no_duty other v)"
proof (induction other arbitrary: d)
  case Nil
  then show ?case by (simp add: merge_map_def al_get_def)
next
  case (Cons x other)
  obtain k a where x: "x = (k, a)" by fastforce
  from Cons.prems x have "map_of other k = None" by (simp add: map_of_eq_None_iff)
  then have "al_get no_duty other k = no_duty" by (simp add: al_get_def)
  moreover have "al_get no_duty (merge_map (x # other) d) v = merge_acc (al_get no_duty (add_duty k a d) v) (al_get no_duty other v)"
    using Cons by (simp add: merge_map_def x)
  moreover have "al_get no_duty (x # other) v = (if v = k then a else al_get no_duty other v)"
    by (simp add: al_get_def x)
  ultimately show ?case by simp
qed

end
