(* ===== verification/Duties_DB.thy ===== *)
theory Duties_DB
  imports Duties
begin

text \<open>
  \<open>src/modules/sidecars/performance/common/db.py\<close>: the collector's database of duties per epoch, with
  its retention window and the demands of its consumers. A table is an association list over its primary
  key, in insertion order; SQL leaves the order of a selection open and no property depends on it.
  Sessions commit before they are left, so an operation is a function from tables to tables.
\<close>

section \<open>Tables\<close>

record duty =
  du_epoch :: epoch
  du_missed_attestation_vids :: "int list"
  du_proposals_vids :: "int list"
  du_proposals_flags :: "bool list"
  du_syncs_vids :: "int list"
  du_syncs_misses :: "int list"

record proposal_duty =
  pu_validator_index :: int
  pu_is_proposed :: bool

record sync_duty =
  su_validator_index :: int
  su_missed_count :: int

record epochs_demand =
  dm_consumer :: string
  dm_from_epoch :: epoch
  dm_to_epoch :: epoch
  dm_updated_at :: int

text \<open>A setting is a JSON value; only integers matter to the code.\<close>

datatype setting_value = SettingInt int | SettingOther

record duties_db =
  db_duties :: "(epoch \<times> duty) list"
  db_demands :: "(string \<times> epochs_demand) list"
  db_settings :: "(string \<times> setting_value) list"

definition RETENTION_EPOCHS_KEY :: string where "RETENTION_EPOCHS_KEY = ''retention_epochs''"

definition RETENTION_EPOCHS_DEFAULT :: int where "RETENTION_EPOCHS_DEFAULT = 225 * 30 * 6"

definition seed_settings :: "duties_db \<Rightarrow> duties_db" where
  "seed_settings db =
     (if map_of (db_settings db) RETENTION_EPOCHS_KEY = None
      then db\<lparr>db_settings := AList.update RETENTION_EPOCHS_KEY (SettingInt RETENTION_EPOCHS_DEFAULT) (db_settings db)\<rparr>
      else db)"

definition get_retention_epochs :: "duties_db \<Rightarrow> int res" where
  "get_retention_epochs db =
     (case map_of (db_settings db) RETENTION_EPOCHS_KEY of
        None \<Rightarrow> Inl ValueError
      | Some SettingOther \<Rightarrow> Inl TypeError
      | Some (SettingInt n) \<Rightarrow> if n \<le> 0 then Inl ValueError else Inr n)"

definition set_retention_epochs :: "int \<Rightarrow> duties_db \<Rightarrow> duties_db res" where
  "set_retention_epochs n db =
     (if n \<le> 0 then Inl ValueError
      else Inr (db\<lparr>db_settings := AList.update RETENTION_EPOCHS_KEY (SettingInt n) (db_settings db)\<rparr>))"

section \<open>Demands\<close>

definition store_demand :: "int \<Rightarrow> string \<Rightarrow> epoch \<Rightarrow> epoch \<Rightarrow> duties_db \<Rightarrow> duties_db" where
  \<comment> \<open>\<open>now\<close> is the clock\<close>
  "store_demand now consumer from_epoch to_epoch db =
     db\<lparr>db_demands := AList.update consumer
          \<lparr>dm_consumer = consumer, dm_from_epoch = from_epoch, dm_to_epoch = to_epoch, dm_updated_at = now\<rparr> (db_demands db)\<rparr>"

definition delete_demand :: "epochs_demand \<Rightarrow> duties_db \<Rightarrow> duties_db" where
  "delete_demand demand db = db\<lparr>db_demands := AList.delete (dm_consumer demand) (db_demands db)\<rparr>"

definition get_epochs_demand :: "string \<Rightarrow> duties_db \<Rightarrow> epochs_demand option" where
  "get_epochs_demand consumer db = map_of (db_demands db) consumer"

definition get_epochs_demands :: "duties_db \<Rightarrow> epochs_demand list" where
  "get_epochs_demands db = map snd (db_demands db)"

definition get_epochs_demands_max_updated_at :: "duties_db \<Rightarrow> int option" where
  "get_epochs_demands_max_updated_at db =
     (if db_demands db = [] then None else Some (Max (set (map dm_updated_at (get_epochs_demands db)))))"

definition demands_count :: "duties_db \<Rightarrow> int" where
  "demands_count db = int (length (db_demands db))"

section \<open>Epochs\<close>

definition epochs_count :: "duties_db \<Rightarrow> int" where
  "epochs_count db = int (length (db_duties db))"

definition get_epoch_data :: "epoch \<Rightarrow> duties_db \<Rightarrow> duty option" where
  "get_epoch_data e db = map_of (db_duties db) e"

definition has_epoch :: "epoch \<Rightarrow> duties_db \<Rightarrow> bool" where
  "has_epoch e db \<longleftrightarrow> e \<in> set (map fst (db_duties db))"

text \<open>\<open>if result\<close>: epoch 0 counts as none.\<close>

definition min_epoch :: "duties_db \<Rightarrow> epoch option" where
  "min_epoch db =
     (if db_duties db = [] then None
      else let result = Min (set (map fst (db_duties db))) in if result \<noteq> 0 then Some result else None)"

definition max_epoch :: "duties_db \<Rightarrow> epoch option" where
  "max_epoch db =
     (if db_duties db = [] then None
      else let result = Max (set (map fst (db_duties db))) in if result \<noteq> 0 then Some result else None)"

definition store_data :: "epoch \<Rightarrow> int list \<Rightarrow> proposal_duty list \<Rightarrow> sync_duty list \<Rightarrow> duties_db \<Rightarrow> duties_db" where
  "store_data e att_misses proposals syncs db =
     db\<lparr>db_duties := AList.update e
          \<lparr>du_epoch = e, du_missed_attestation_vids = att_misses,
           du_proposals_vids = map pu_validator_index proposals, du_proposals_flags = map pu_is_proposed proposals,
           du_syncs_vids = map su_validator_index syncs, du_syncs_misses = map su_missed_count syncs\<rparr> (db_duties db)\<rparr>"

definition prune :: "epoch \<Rightarrow> duties_db \<Rightarrow> duties_db res" where
  "prune current_epoch db =
     bindR (get_retention_epochs db) (\<lambda>retention.
       let anchor_epoch = (case max_epoch db of Some e \<Rightarrow> e | None \<Rightarrow> current_epoch);
           min_epoch_to_keep = anchor_epoch - retention + 1
       in if min_epoch_to_keep \<le> 0 then Inr db
          else Inr (db\<lparr>db_duties := filter (\<lambda>(e, _). \<not> e < min_epoch_to_keep) (db_duties db)\<rparr>))"

text \<open>The epoch is committed before pruning, so a failing prune leaves it stored.\<close>

definition store_epoch ::
    "epoch \<Rightarrow> int list \<Rightarrow> proposal_duty list \<Rightarrow> sync_duty list \<Rightarrow> duties_db \<Rightarrow> unit res \<times> duties_db" where
  "store_epoch e att_misses proposals syncs db =
     (let db = store_data e att_misses proposals syncs db
      in case prune e db of Inl err \<Rightarrow> (Inl err, db) | Inr db' \<Rightarrow> (Inr (), db'))"

definition in_range :: "epoch \<Rightarrow> epoch \<Rightarrow> duties_db \<Rightarrow> (epoch \<times> duty) list" where
  "in_range from_epoch to_epoch db = filter (\<lambda>(e, _). from_epoch \<le> e \<and> e \<le> to_epoch) (db_duties db)"

definition get_epochs_data :: "epoch \<Rightarrow> epoch \<Rightarrow> duties_db \<Rightarrow> duty list" where
  "get_epochs_data from_epoch to_epoch db = map snd (in_range from_epoch to_epoch db)"

definition is_range_available :: "epoch \<Rightarrow> epoch \<Rightarrow> duties_db \<Rightarrow> bool res" where
  "is_range_available from_epoch to_epoch db =
     (if from_epoch > to_epoch then Inl ValueError
      else Inr (int (length (in_range from_epoch to_epoch db)) = to_epoch - from_epoch + 1))"

definition count_stored_epochs_in_range :: "epoch \<Rightarrow> epoch \<Rightarrow> duties_db \<Rightarrow> int res" where
  "count_stored_epochs_in_range from_epoch to_epoch db =
     (if from_epoch > to_epoch then Inl ValueError else Inr (int (length (in_range from_epoch to_epoch db))))"

definition missing_epochs_in :: "epoch \<Rightarrow> epoch \<Rightarrow> duties_db \<Rightarrow> epoch list res" where
  "missing_epochs_in from_epoch to_epoch db =
     (if from_epoch > to_epoch then Inl ValueError
      else let present = set (map fst (in_range from_epoch to_epoch db))
        in bindR (sequence from_epoch to_epoch) (\<lambda>epochs. Inr (filter (\<lambda>e. e \<notin> present) epochs)))"

definition get_complete_epochs_data :: "epoch \<Rightarrow> epoch \<Rightarrow> duties_db \<Rightarrow> duty list res" where
  "get_complete_epochs_data from_epoch to_epoch db =
     (if from_epoch > to_epoch then Inl ValueError
      else
        let duties = get_epochs_data from_epoch to_epoch db;
            expected_count = to_epoch - from_epoch + 1
        in if int (length duties) = expected_count then Inr duties
           else
             let present_epochs = set (map du_epoch duties)
             in bindR (sequence from_epoch to_epoch) (\<lambda>epochs.
                  let missing_epochs = filter (\<lambda>e. e \<notin> present_epochs) epochs
                  in if missing_epochs \<noteq> [] then Inl (IncompleteEpochRange missing_epochs) else Inr duties))"

section \<open>Retention\<close>

text \<open>
  A table is well formed when its primary key is one: no epoch twice, and each row filed under its epoch.
\<close>

definition wf_duties :: "duties_db \<Rightarrow> bool" where
  "wf_duties db \<longleftrightarrow> distinct (map fst (db_duties db)) \<and> (\<forall>(e, d) \<in> set (db_duties db). du_epoch d = e \<and> 0 \<le> e)"

lemma store_data_wf:
  assumes "wf_duties db" "0 \<le> e"
  shows "wf_duties (store_data e a p y db)"
  using assms unfolding wf_duties_def store_data_def
  by (fastforce simp: distinct_update dest: set_update_subset[THEN subsetD])

lemma keys_store_data: "set (map fst (db_duties (store_data e a p y db))) = insert e (set (map fst (db_duties db)))"
  by (simp add: store_data_def dom_update)

lemma max_stored:
  assumes "wf_duties db" "db_duties db \<noteq> []" "has_epoch e db"
  shows "(case max_epoch db of Some m \<Rightarrow> m | None \<Rightarrow> e) = Max (set (map fst (db_duties db)))"
proof -
  have nonneg: "x \<in> set (map fst (db_duties db)) \<Longrightarrow> 0 \<le> x" for x
    using assms(1) by (auto simp: wf_duties_def)
  have "e \<le> Max (set (map fst (db_duties db)))" "0 \<le> e" using assms(3) nonneg by (auto simp: has_epoch_def)
  then show ?thesis
    using assms(2) by (auto simp: max_epoch_def Let_def)
qed

lemma store_epoch_row:
  assumes "wf_duties db" "0 \<le> e" "get_retention_epochs db = Inr retention"
    and "store_epoch e a p y db = (r, db')"
  defines "newest \<equiv> Max (insert e (set (map fst (db_duties db))))"
  shows "r = Inr () \<and> wf_duties db' \<and>
    (\<forall>x. get_epoch_data x db' =
      (if newest - retention < x then get_epoch_data x (store_data e a p y db) else None))"
proof -
  let ?db = "store_data e a p y db"
  have keys: "set (map fst (db_duties ?db)) = insert e (set (map fst (db_duties db)))" by (rule keys_store_data)
  then have ne: "db_duties ?db \<noteq> []" "has_epoch e ?db" by (auto simp: has_epoch_def)
  note wf = store_data_wf[OF assms(1,2), of a p y]
  have anchor: "(case max_epoch ?db of Some m \<Rightarrow> m | None \<Rightarrow> e) = newest"
    using max_stored[OF wf ne] keys by (simp add: newest_def)
  have ret: "get_retention_epochs ?db = Inr retention"
    using assms(3) by (simp add: get_retention_epochs_def store_data_def)
  have db': "r = Inr ()" "db' = (if newest - retention + 1 \<le> 0 then ?db
      else ?db\<lparr>db_duties := filter (\<lambda>(x, _). \<not> x < newest - retention + 1) (db_duties ?db)\<rparr>)"
    using assms(4) ret unfolding store_epoch_def prune_def Let_def by (simp_all add: anchor split: if_splits)
  have "wf_duties db'"
    using wf unfolding db' by (auto simp: wf_duties_def distinct_map_filter)
  moreover have "get_epoch_data x db' = (if newest - retention < x then get_epoch_data x ?db else None)" for x
  proof (cases "newest - retention + 1 \<le> 0")
    case True
    have "get_epoch_data x ?db = None" if "x < 0"
      using wf that by (auto simp: get_epoch_data_def wf_duties_def map_of_eq_None_iff)
    then show ?thesis using True db' by auto
  next
    case False
    show ?thesis using False db' map_of_filter_keys[of "\<lambda>x. \<not> x \<le> newest - retention" "db_duties ?db" x]
      by (auto simp: get_epoch_data_def)
  qed
  ultimately show ?thesis using db'(1) by blast
qed

text \<open>
  The database keeps a sliding window: after an epoch is stored, exactly those stored epochs (the new
  one included) remain that are less than the retention away from the newest stored one, each with its
  data, and the primary key stays one. An epoch older than the window is dropped at once.
\<close>

theorem store_epoch_window:
  assumes "wf_duties db" "0 \<le> e" "get_retention_epochs db = Inr retention"
    and "store_epoch e a p y db = (r, db')"
  defines "newest \<equiv> Max (insert e (set (map fst (db_duties db))))"
  shows "r = Inr () \<and> wf_duties db' \<and>
    (\<forall>x. get_epoch_data x db' =
      (if newest - retention < x then get_epoch_data x (store_data e a p y db) else None))"
  using store_epoch_row[OF assms(1-4)] unfolding newest_def .

section \<open>Complete ranges\<close>

lemma in_range_keys:
  "set (map fst (in_range l r db)) = {e. has_epoch e db \<and> l \<le> e \<and> e \<le> r}"
  by (auto simp: in_range_def has_epoch_def)

lemma in_range_full:
  assumes "wf_duties db" "l \<le> r"
  shows "int (length (in_range l r db)) = r - l + 1 \<longleftrightarrow> (\<forall>e \<in> {l..r}. has_epoch e db)"
proof -
  have d: "distinct (map fst (in_range l r db))"
    using assms(1) by (auto simp: wf_duties_def in_range_def distinct_map_filter)
  have sub: "set (map fst (in_range l r db)) \<subseteq> {l..r}" unfolding in_range_keys by auto
  have "length (in_range l r db) = card (set (map fst (in_range l r db)))"
    using distinct_card[OF d] by simp
  then have "int (length (in_range l r db)) = r - l + 1 \<longleftrightarrow> card (set (map fst (in_range l r db))) = card {l..r}"
    using assms(2) by auto
  also have "\<dots> \<longleftrightarrow> set (map fst (in_range l r db)) = {l..r}"
    using card_subset_eq[OF finite_atLeastAtMost_int sub] by metis
  also have "\<dots> \<longleftrightarrow> (\<forall>e \<in> {l..r}. has_epoch e db)" unfolding in_range_keys by auto
  finally show ?thesis .
qed

text \<open>
  A complete range is complete: the query returns rows exactly when every epoch of the range is stored,
  and then it returns each of them once; otherwise it names exactly the epochs that are missing, in
  order. The availability check, the stored count and the list of missing epochs agree with it.
\<close>

theorem complete_range:
  assumes "wf_duties db" "l \<le> r"
  shows "get_complete_epochs_data l r db =
      (if \<forall>e \<in> {l..r}. has_epoch e db then Inr (get_epochs_data l r db)
       else Inl (IncompleteEpochRange (filter (\<lambda>e. \<not> has_epoch e db) [l..r]))) \<and>
    distinct (map du_epoch (get_epochs_data l r db)) \<and>
    set (get_epochs_data l r db) = {d. \<exists>e \<in> {l..r}. get_epoch_data e db = Some d} \<and>
    is_range_available l r db = Inr (\<forall>e \<in> {l..r}. has_epoch e db) \<and>
    missing_epochs_in l r db = Inr (filter (\<lambda>e. \<not> has_epoch e db) [l..r])"
proof -
  have fst_eq: "map du_epoch (get_epochs_data l r db) = map fst (in_range l r db)"
    using assms(1) by (auto simp: get_epochs_data_def in_range_def wf_duties_def)
  have d: "distinct (map fst (db_duties db))" using assms(1) by (simp add: wf_duties_def)
  have missing: "filter (\<lambda>e. e \<notin> set (map fst (in_range l r db))) [l..r] = filter (\<lambda>e. \<not> has_epoch e db) [l..r]"
    unfolding in_range_keys by (intro filter_cong) auto
  have some: "(\<forall>e \<in> {l..r}. has_epoch e db) \<longleftrightarrow> filter (\<lambda>e. \<not> has_epoch e db) [l..r] = []"
    by (auto simp: filter_empty_conv)
  have eq: "set (map du_epoch (get_epochs_data l r db)) = set (map fst (in_range l r db))" unfolding fst_eq ..
  have len: "length (get_epochs_data l r db) = length (in_range l r db)" by (simp add: get_epochs_data_def)
  have "set (get_epochs_data l r db) = {d. \<exists>e \<in> {l..r}. get_epoch_data e db = Some d}"
    using d by (force simp: get_epochs_data_def in_range_def get_epoch_data_def)
  moreover have "distinct (map du_epoch (get_epochs_data l r db))"
    using d unfolding fst_eq by (simp add: in_range_def distinct_map_filter)
  moreover have "get_complete_epochs_data l r db =
      (if \<forall>e \<in> {l..r}. has_epoch e db then Inr (get_epochs_data l r db)
       else Inl (IncompleteEpochRange (filter (\<lambda>e. \<not> has_epoch e db) [l..r])))"
    using assms(2) in_range_full[OF assms] missing some
    by (simp add: get_complete_epochs_data_def Let_def len sequence_def eq del: set_map)
  ultimately show ?thesis
    using assms(2) in_range_full[OF assms] missing
    by (simp add: is_range_available_def missing_epochs_in_def Let_def sequence_def)
qed

section \<open>A concrete database\<close>

definition demo_db :: duties_db where
  "demo_db = \<lparr>db_duties = map (\<lambda>e. (e, \<lparr>du_epoch = e, du_missed_attestation_vids = [7], du_proposals_vids = [],
     du_proposals_flags = [], du_syncs_vids = [], du_syncs_misses = []\<rparr>)) [0, 1, 2], db_demands = [],
     db_settings = [(RETENTION_EPOCHS_KEY, SettingInt 2)]\<rparr>"

lemma demo_db_wf: "wf_duties demo_db"
  by code_simp

theorem store_epoch_window_witness:
  "\<exists>db'. store_epoch 3 [8] [] [] demo_db = (Inr (), db') \<and> get_epoch_data 1 db' = None \<and> get_epoch_data 2 db' \<noteq> None \<and>
     get_epoch_data 3 db' = Some \<lparr>du_epoch = 3, du_missed_attestation_vids = [8], du_proposals_vids = [],
       du_proposals_flags = [], du_syncs_vids = [], du_syncs_misses = []\<rparr>"
proof -
  obtain r db' where s: "store_epoch 3 [8] [] [] demo_db = (r, db')" by fastforce
  have ret: "get_retention_epochs demo_db = Inr 2" by code_simp
  have m: "Max (insert 3 (set (map fst (db_duties demo_db)))) = 3" by code_simp
  from store_epoch_window[OF demo_db_wf _ ret s] s show ?thesis
    by (intro exI[of _ db']) (simp add: m, simp add: demo_db_def get_epoch_data_def store_data_def)
qed

theorem complete_range_witness:
  "get_complete_epochs_data 1 4 demo_db = Inl (IncompleteEpochRange [3, 4])"
proof -
  have "(\<forall>e \<in> {1..4}. has_epoch e demo_db) \<longleftrightarrow> False" "filter (\<lambda>e. \<not> has_epoch e demo_db) [1..4] = [3, 4]"
    by code_simp+
  with complete_range[OF demo_db_wf, of 1 4] show ?thesis by simp
qed

end
