(* ===== verification/Attest_Bits.thy ===== *)
theory Attest_Bits
  imports Json Duties_DB
begin

text \<open>
  The bit fields of \<open>src/modules/sidecars/performance/collector/checkpoint.py\<close>: SSZ bit vectors and bit
  lists in hex, read into lists of booleans, and the two loops that book a block's attestations and its
  sync aggregate. \<open>ssz_bitvector\<close>, \<open>ssz_bitlist\<close> and \<open>attesting_indices\<close> are what the consensus
  specification says, as references the code is compared with.
\<close>

section \<open>Bit fields\<close>

primrec from_le :: "bytes \<Rightarrow> int" where
  "from_le [] = 0"
| "from_le (b # bs) = b + 256 * from_le bs"

text \<open>\<open>int.bit_length\<close> of a natural number.\<close>

function bit_length :: "int \<Rightarrow> nat" where
  "bit_length n = (if n \<le> 0 then 0 else Suc (bit_length (n div 2)))"
  by pat_completeness auto
termination
  by (relation "measure nat") auto

declare bit_length.simps [simp del]

definition bit_at :: "bytes \<Rightarrow> nat \<Rightarrow> bool res" where
  "bit_at bs i = bindR (nthR bs (int (i div 8))) (\<lambda>b. Inr (drop_bit (i mod 8) b mod 2 \<noteq> 0))"

definition bytes_to_bool_list :: "bytes \<Rightarrow> nat \<Rightarrow> bool list res" where
  "bytes_to_bool_list bs n = mapR (bit_at bs) [0..<n]"

definition hex_bitvector_to_list :: "hexstr \<Rightarrow> bool list res" where
  "hex_bitvector_to_list bitvector =
     bindR (hex_str_to_bytes bitvector) (\<lambda>bs. bytes_to_bool_list bs (length bs * 8))"

definition hex_bitlist_to_list :: "hexstr \<Rightarrow> bool list res" where
  "hex_bitlist_to_list bitlist =
     bindR (hex_str_to_bytes bitlist) (\<lambda>bs.
       if bs = [] \<or> last bs = 0 then Inl ValueError
       else bytes_to_bool_list bs (bit_length (from_le bs) - 1))"

definition get_set_indices :: "bool list \<Rightarrow> nat list" where
  "get_set_indices bits = filter (\<lambda>i. bits ! i) [0..<length bits]"

definition get_unset_indices :: "bool list \<Rightarrow> nat list" where
  "get_unset_indices bits = filter (\<lambda>i. \<not> bits ! i) [0..<length bits]"

section \<open>Attestations\<close>

record block_attestation =
  ba_aggregation_bits :: hexstr
  ba_slot :: slot
  ba_committee_bits :: hexstr

type_synonym committees = "((slot \<times> int) \<times> int list) list"

definition get_committee_indices :: "block_attestation \<Rightarrow> int list res" where
  "get_committee_indices attestation =
     bindR (hex_bitvector_to_list (ba_committee_bits attestation)) (\<lambda>bits. Inr (map int (get_set_indices bits)))"

text \<open>A set of validator indices is a list without duplicates, whose order Python leaves open.\<close>

definition clear_miss :: "int list \<Rightarrow> nat \<Rightarrow> int list \<Rightarrow> int list res" where
  "clear_miss committee index_in_committee misses =
     bindR (nthR committee (int index_in_committee)) (\<lambda>vid. Inr (if vid \<in> set misses then remove1 vid misses else misses))"

definition committee_step ::
    "committees \<Rightarrow> bool list \<Rightarrow> slot \<Rightarrow> int \<Rightarrow> nat \<times> int list \<Rightarrow> (nat \<times> int list) res" where
  "committee_step committees att_bits att_slot committee_idx acc =
     (case acc of (committee_offset, misses) \<Rightarrow>
       let committee = al_get [] committees (att_slot, committee_idx) in
       if committee = [] then Inr (committee_offset, misses)
       else
         let att_committee_bits = take (length committee) (drop committee_offset att_bits)
         in bindR (foldR (clear_miss committee) (get_set_indices att_committee_bits) misses) (\<lambda>misses.
              Inr (committee_offset + length committee, misses)))"

definition book_attestation :: "committees \<Rightarrow> block_attestation \<Rightarrow> int list \<Rightarrow> int list res" where
  "book_attestation committees attestation misses =
     bindR (hex_bitlist_to_list (ba_aggregation_bits attestation)) (\<lambda>att_bits.
     bindR (get_committee_indices attestation) (\<lambda>idxs.
     bindR (foldR (committee_step committees att_bits (ba_slot attestation)) idxs (0, misses)) (\<lambda>(_, misses). Inr misses)))"

definition process_attestations :: "block_attestation list \<Rightarrow> committees \<Rightarrow> int list \<Rightarrow> int list res" where
  "process_attestations attestations committees misses = foldR (book_attestation committees) attestations misses"

section \<open>Sync aggregates\<close>

definition count_sync_miss :: "nat \<Rightarrow> sync_duty list \<Rightarrow> sync_duty list res" where
  "count_sync_miss i duties =
     bindR (nthR duties (int i)) (\<lambda>d. Inr (duties[i := d\<lparr>su_missed_count := su_missed_count d + 1\<rparr>]))"

definition process_sync :: "hexstr \<Rightarrow> sync_duty list \<Rightarrow> sync_duty list res" where
  \<comment> \<open>the aggregate is its \<open>sync_committee_bits\<close>\<close>
  "process_sync sync_committee_bits sync_duties =
     bindR (hex_bitvector_to_list sync_committee_bits) (\<lambda>sync_bits.
       foldR count_sync_miss (get_unset_indices sync_bits) sync_duties)"

section \<open>SSZ\<close>

primrec byte_of :: "bool list \<Rightarrow> int" where
  "byte_of [] = 0"
| "byte_of (b # bs) = of_bool b + 2 * byte_of bs"

definition ssz_bitvector :: "bool list \<Rightarrow> bytes" where
  "ssz_bitvector bits = map byte_of (batched 8 bits)"

definition ssz_bitlist :: "bool list \<Rightarrow> bytes" where
  \<comment> \<open>a set bit delimits the list\<close>
  "ssz_bitlist bits = ssz_bitvector (bits @ [True])"

lemma byte_of_range: "0 \<le> byte_of bs \<and> byte_of bs < 2 ^ length bs"
  by (induction bs) auto

lemma byte_of_append: "byte_of (xs @ ys) = byte_of xs + 2 ^ length xs * byte_of ys"
  by (induction xs) (simp_all add: algebra_simps)

lemma byte_of_bit: "drop_bit i (byte_of bs) mod 2 \<noteq> 0 \<longleftrightarrow> i < length bs \<and> bs ! i"
proof (induction i arbitrary: bs)
  case 0
  then show ?case by (cases bs) (auto simp: even_iff_mod_2_eq_zero[symmetric])
next
  case (Suc i)
  show ?case
  proof (cases bs)
    case (Cons b bs')
    have "drop_bit (Suc i) (byte_of bs) = drop_bit i (byte_of bs')"
      by (cases b) (simp_all add: Cons drop_bit_Suc)
    then show ?thesis using Suc[of bs'] by (simp add: Cons)
  qed simp
qed

lemma batched_nth:
  "0 < n \<Longrightarrow> k * n < length xs \<Longrightarrow> k < length (batched n xs) \<and> batched n xs ! k = take n (drop (k * n) xs)"
proof (induction k arbitrary: xs)
  case 0
  then show ?case by (auto simp: batched.simps[of n xs])
next
  case (Suc k)
  then have "xs \<noteq> []" "k * n < length (drop n xs)" by (auto intro: Suc_lessD)
  then show ?case using Suc.prems(1) Suc.IH[of "drop n xs"] by (simp add: batched.simps[of n xs] add.commute)
qed

lemma ssz_bit_at: "i < length bits \<Longrightarrow> bit_at (ssz_bitvector bits) i = Inr (bits ! i)"
proof -
  assume i: "i < length bits"
  have d: "i div 8 * 8 < length bits" "i mod 8 < length (take 8 (drop (i div 8 * 8) bits))"
    "take 8 (drop (i div 8 * 8) bits) ! (i mod 8) = bits ! i"
    using i div_mult_mod_eq[of i 8] by (auto simp del: div_mult_mod_eq; linarith)+
  from batched_nth[OF _ d(1)] show ?thesis
    using byte_of_bit[of "i mod 8" "take 8 (drop (i div 8 * 8) bits)"] d(2,3)
    by (simp add: bit_at_def nthR_def Let_def ssz_bitvector_def)
qed

lemma bytes_to_bool_list_ssz: "n \<le> length bits \<Longrightarrow> bytes_to_bool_list (ssz_bitvector bits) n = Inr (take n bits)"
proof -
  assume n: "n \<le> length bits"
  have "bytes_to_bool_list (ssz_bitvector bits) n = Inr (map ((!) bits) [0..<n])"
    unfolding bytes_to_bool_list_def by (rule mapR_all_ok) (use n in \<open>simp add: ssz_bit_at\<close>)
  then show ?thesis using n by (simp add: nth_map_upt list_eq_iff_nth_eq)
qed

lemma last_batched:
  shows "0 < n \<Longrightarrow> xs \<noteq> [] \<Longrightarrow> batched n xs \<noteq> [] \<and> last (batched n xs) \<noteq> [] \<and> last (last (batched n xs)) = last xs"
proof (induction n xs rule: batched.induct)
  case (1 n xs)
  show ?case
  proof (cases "drop n xs = []")
    case True
    then show ?thesis using 1 by (auto simp: batched.simps[of n xs])
  next
    case False
    then have "last (drop n xs) = last xs" by (metis append_take_drop_id last_append)
    then show ?thesis using 1 False by (auto simp: batched.simps[of n xs])
  qed
qed

lemma byte_of_delimited:
  assumes "bs \<noteq> []" "last bs"
  shows "2 ^ (length bs - 1) \<le> byte_of bs"
proof -
  have "bs = butlast bs @ [True]" using assms by (cases bs rule: rev_cases) auto
  then have "byte_of bs = byte_of (butlast bs) + 2 ^ (length bs - 1)"
    using byte_of_append[of "butlast bs" "[True]"] by simp
  then show ?thesis using byte_of_range[of "butlast bs"] by simp
qed

lemma from_le_ssz: "from_le (ssz_bitvector bits) = byte_of bits"
proof -
  have "from_le (map byte_of (batched n bits)) = byte_of bits" if "n = 8" for n
    using that
  proof (induction n bits rule: batched.induct)
    case (1 n xs)
    have "byte_of xs = byte_of (take n xs) + 2 ^ length (take n xs) * byte_of (drop n xs)"
      using byte_of_append[of "take n xs" "drop n xs"] by simp
    moreover have "byte_of (drop n xs) = 0 \<or> length (take n xs) = 8" using 1(2) by (cases "length xs \<le> n") auto
    moreover have "xs \<noteq> [] \<Longrightarrow> from_le (map byte_of (batched n (drop n xs))) = byte_of (drop n xs)"
      using 1 by simp
    moreover have "xs \<noteq> [] \<Longrightarrow> batched n xs = take n xs # batched n (drop n xs)"
      using 1(2) by (subst batched.simps) simp
    ultimately show ?case by (cases "xs = []") auto
  qed
  then show ?thesis by (simp add: ssz_bitvector_def)
qed

lemma bit_length_byte_of: "bit_length (byte_of (bits @ [True])) = Suc (length bits)"
proof (induction bits)
  case Nil
  then show ?case by (simp add: bit_length.simps)
next
  case (Cons b bits)
  have "2 ^ length bits \<le> byte_of (bits @ [True])" using byte_of_delimited[of "bits @ [True]"] by simp
  then have "1 \<le> byte_of (bits @ [True])" using one_le_power[of "2::int" "length bits"] by linarith
  then have "bit_length (byte_of (b # bits @ [True])) = Suc (bit_length (byte_of (bits @ [True])))"
    by (subst bit_length.simps) simp
  then show ?case using Cons by simp
qed

lemma ssz_bytes: "\<forall>b \<in> set (ssz_bitvector bits). 0 \<le> b \<and> b < 256"
proof -
  have "0 \<le> byte_of c \<and> byte_of c < 256" if "c \<in> set (batched 8 bits)" for c
  proof -
    have "(2::int) ^ length c \<le> 2 ^ 8" using batched_lengths[OF that] by (intro power_increasing) auto
    then show ?thesis using byte_of_range[of c] by auto
  qed
  then show ?thesis by (auto simp: ssz_bitvector_def)
qed

lemma length_batched: "0 < n \<Longrightarrow> length xs = k * n \<Longrightarrow> length (batched n xs) = k"
proof (induction k arbitrary: xs)
  case (Suc k)
  then have "xs \<noteq> []" "length (drop n xs) = k * n" by auto
  then show ?case using Suc by (simp add: batched.simps[of n xs])
qed simp

text \<open>
  Reading back an SSZ bit field from its hex form loses nothing: a bit list of any length (its
  delimiter bit is found and dropped), and a bit vector of whole bytes. A bit list without a delimiter
  is refused.
\<close>

theorem bit_fields_roundtrip:
  "hex_bitlist_to_list (to_0x_hex (ssz_bitlist bits)) = Inr bits \<and>
   (8 dvd length bits \<longrightarrow> hex_bitvector_to_list (to_0x_hex (ssz_bitvector bits)) = Inr bits) \<and>
   hex_bitlist_to_list (to_0x_hex (ssz_bitvector bits @ [0])) = Inl ValueError"
proof (intro conjI impI)
  have ok: "hex_str_to_bytes (to_0x_hex (ssz_bitvector b)) = Inr (ssz_bitvector b)" for b
    by (rule hex_str_roundtrip[OF ssz_bytes])
  have l: "batched 8 (bits @ [True]) \<noteq> []" "last (batched 8 (bits @ [True])) \<noteq> []" "last (last (batched 8 (bits @ [True])))"
    using last_batched[of 8 "bits @ [True]"] by auto
  have "1 \<le> byte_of (last (batched 8 (bits @ [True])))"
    using byte_of_delimited[OF l(2,3)] by (rule order_trans[rotated]) simp
  then have "ssz_bitlist bits \<noteq> []" "last (ssz_bitlist bits) \<noteq> 0"
    using l(1) by (auto simp: ssz_bitlist_def ssz_bitvector_def last_map)
  then show "hex_bitlist_to_list (to_0x_hex (ssz_bitlist bits)) = Inr bits"
    using bytes_to_bool_list_ssz[of "length bits" "bits @ [True]"]
    by (simp add: hex_bitlist_to_list_def ok ssz_bitlist_def from_le_ssz bit_length_byte_of)
  show "hex_bitvector_to_list (to_0x_hex (ssz_bitvector bits)) = Inr bits" if "8 dvd length bits"
  proof -
    from that obtain k where "length bits = k * 8" by (metis dvd_def mult.commute)
    then have "length (ssz_bitvector bits) * 8 = length bits" by (simp add: ssz_bitvector_def length_batched[of 8 bits k])
    then show ?thesis using bytes_to_bool_list_ssz[of "length bits" bits] by (simp add: hex_bitvector_to_list_def ok)
  qed
  have "hex_str_to_bytes (to_0x_hex (ssz_bitvector bits @ [0])) = Inr (ssz_bitvector bits @ [0])"
    using ssz_bytes by (intro hex_str_roundtrip) auto
  then show "hex_bitlist_to_list (to_0x_hex (ssz_bitvector bits @ [0])) = Inl ValueError"
    by (simp add: hex_bitlist_to_list_def)
qed

theorem bit_fields_roundtrip_witness:
  "hex_bitvector_to_list (to_0x_hex (ssz_bitvector [True, False, True, True, False, False, False, True]))
    = Inr [True, False, True, True, False, False, False, True]"
proof -
  have "8 dvd length [True, False, True, True, False, False, False, True]" by code_simp
  then show ?thesis using bit_fields_roundtrip by blast
qed

section \<open>Attesting validators\<close>

text \<open>\<open>get_attesting_indices\<close> of the consensus specification (EIP-7549), for the committees at hand.\<close>

fun attesting_from :: "committees \<Rightarrow> bool list \<Rightarrow> slot \<Rightarrow> nat \<Rightarrow> int list \<Rightarrow> int list" where
  "attesting_from committees bits s committee_offset [] = []"
| "attesting_from committees bits s committee_offset (i # is) =
     (let committee = al_get [] committees (s, i)
      in map snd (filter fst (zip (drop committee_offset bits) committee)) @
         attesting_from committees bits s (committee_offset + length committee) is)"

definition attesting_indices :: "committees \<Rightarrow> block_attestation \<Rightarrow> int list" where
  "attesting_indices committees attestation =
     (case (hex_bitlist_to_list (ba_aggregation_bits attestation), get_committee_indices attestation) of
        (Inr bits, Inr idxs) \<Rightarrow> attesting_from committees bits (ba_slot attestation) 0 idxs
      | _ \<Rightarrow> [])"

definition readable :: "block_attestation \<Rightarrow> bool" where
  "readable a \<longleftrightarrow> is_ok (hex_bitlist_to_list (ba_aggregation_bits a)) \<and> is_ok (get_committee_indices a)"

lemma set_bits_of_committee:
  assumes "length bits \<le> length committee"
  shows "map ((!) committee) (get_set_indices bits) = map snd (filter fst (zip bits committee))"
  using assms
proof (induction bits committee rule: list_induct2')
  case (4 b bits v committee)
  have "get_set_indices (b # bits) = (if b then [0] else []) @ map Suc (get_set_indices bits)"
    by (auto simp: get_set_indices_def upt_conv_Cons map_Suc_upt[symmetric] filter_map comp_def simp del: upt_Suc)
  then show ?case using 4 by (simp add: comp_def)
qed (simp_all add: get_set_indices_def)

lemma remove1_filter:
  "distinct xs \<Longrightarrow> (x \<in> set xs \<longrightarrow> remove1 x xs = filter (\<lambda>y. y \<noteq> x) xs) \<and> (x \<notin> set xs \<longrightarrow> filter (\<lambda>y. y \<noteq> x) xs = xs)"
  by (induction xs) (auto simp: filter_empty_conv intro!: filter_True[symmetric] dest: filter_True)

lemma zip_take_length: "zip (take (length ys) xs) ys = zip xs ys"
  by (induction xs ys rule: list_induct2') auto

lemma clear_misses:
  "(\<forall>i \<in> set is. i < length committee) \<Longrightarrow> distinct misses \<Longrightarrow>
     foldR (clear_miss committee) is misses = Inr (filter (\<lambda>v. v \<notin> (!) committee ` set is) misses)"
proof (induction "is" arbitrary: misses)
  case (Cons i "is")
  have "clear_miss committee i misses = Inr (filter (\<lambda>v. v \<noteq> committee ! i) misses)"
    using Cons.prems by (simp add: clear_miss_def nthR_def Let_def remove1_filter)
  then show ?case using Cons by (auto intro!: filter_cong)
qed simp

lemma committee_step_eq:
  assumes "distinct misses"
  shows "committee_step committees bits s i (off, misses) =
    (let committee = al_get [] committees (s, i)
     in Inr (off + length committee,
          filter (\<lambda>v. v \<notin> set (map snd (filter fst (zip (drop off bits) committee)))) misses))"
proof -
  let ?c = "al_get [] committees (s, i)"
  let ?b = "take (length ?c) (drop off bits)"
  have "foldR (clear_miss ?c) (get_set_indices ?b) misses = Inr (filter (\<lambda>v. v \<notin> (!) ?c ` set (get_set_indices ?b)) misses)"
    using assms by (intro clear_misses) (auto simp: get_set_indices_def)
  moreover have "(!) ?c ` set (get_set_indices ?b) = set (map snd (filter fst (zip (drop off bits) ?c)))"
    using arg_cong[OF set_bits_of_committee[of ?b ?c], of set] by (simp add: zip_take_length)
  ultimately show ?thesis by (simp add: committee_step_def Let_def)
qed

lemma committees_loop:
  "distinct misses \<Longrightarrow> \<exists>off'. foldR (committee_step committees bits s) idxs (off, misses) =
     Inr (off', filter (\<lambda>v. v \<notin> set (attesting_from committees bits s off idxs)) misses)"
proof (induction idxs arbitrary: off misses)
  case (Cons i idxs)
  let ?c = "al_get [] committees (s, i)"
  let ?m = "filter (\<lambda>v. v \<notin> set (map snd (filter fst (zip (drop off bits) ?c)))) misses"
  have "distinct ?m" using Cons.prems by simp
  from Cons.IH[OF this, of "off + length ?c"] obtain off' where
    "foldR (committee_step committees bits s) idxs (off + length ?c, ?m) =
       Inr (off', filter (\<lambda>v. v \<notin> set (attesting_from committees bits s (off + length ?c) idxs)) ?m)" ..
  then show ?case using Cons.prems
    by (intro exI[of _ off']) (auto simp: committee_step_eq Let_def intro!: filter_cong)
qed simp

lemma book_attestation_eq:
  assumes "distinct misses" "readable a"
  shows "book_attestation committees a misses = Inr (filter (\<lambda>v. v \<notin> set (attesting_indices committees a)) misses)"
proof -
  from assms(2) obtain bits idxs where b: "hex_bitlist_to_list (ba_aggregation_bits a) = Inr bits"
    "get_committee_indices a = Inr idxs" by (auto simp: readable_def is_ok_iff)
  obtain off' where "foldR (committee_step committees bits (ba_slot a)) idxs (0, misses) =
     Inr (off', filter (\<lambda>v. v \<notin> set (attesting_from committees bits (ba_slot a) 0 idxs)) misses)"
    using committees_loop[OF assms(1)] by blast
  with b show ?thesis by (simp add: book_attestation_def attesting_indices_def)
qed

lemma attestations_booked:
  "distinct misses \<Longrightarrow> \<forall>a \<in> set atts. readable a \<Longrightarrow> process_attestations atts committees misses =
     Inr (filter (\<lambda>v. \<forall>a \<in> set atts. v \<notin> set (attesting_indices committees a)) misses)"
proof (induction atts arbitrary: misses)
  case (Cons a atts)
  let ?m = "filter (\<lambda>v. v \<notin> set (attesting_indices committees a)) misses"
  have "process_attestations (a # atts) committees misses = process_attestations atts committees ?m"
    using Cons.prems by (simp add: process_attestations_def book_attestation_eq)
  also have "\<dots> = Inr (filter (\<lambda>v. \<forall>a \<in> set atts. v \<notin> set (attesting_indices committees a)) ?m)"
    using Cons by simp
  also have "\<dots> = Inr (filter (\<lambda>v. \<forall>b \<in> set (a # atts). v \<notin> set (attesting_indices committees b)) misses)"
    by (auto intro!: filter_cong)
  finally show ?case .
qed (simp add: process_attestations_def)

lemma attestations_ok_readable:
  "process_attestations atts committees misses = Inr m \<Longrightarrow> \<forall>a \<in> set atts. readable a"
proof (induction atts arbitrary: misses)
  case (Cons a atts)
  then show ?case
    by (auto simp: process_attestations_def book_attestation_def res_simps readable_def)
qed simp

section \<open>Missed sync duties\<close>

lemma count_sync_misses:
  "distinct is \<Longrightarrow> \<forall>i \<in> set is. i < length ds \<Longrightarrow> foldR count_sync_miss is ds =
     Inr (map (\<lambda>(i, d). d\<lparr>su_missed_count := su_missed_count d + of_bool (i \<in> set is)\<rparr>) (enumerate 0 ds))"
proof (induction "is" arbitrary: ds)
  case Nil
  then show ?case by (simp add: list_eq_iff_nth_eq nth_enumerate_eq)
next
  case (Cons i "is")
  let ?ds = "ds[i := (ds ! i)\<lparr>su_missed_count := su_missed_count (ds ! i) + 1\<rparr>]"
  have "count_sync_miss i ds = Inr ?ds" using Cons.prems by (simp add: count_sync_miss_def nthR_def Let_def)
  moreover have "foldR count_sync_miss is ?ds =
      Inr (map (\<lambda>(i, d). d\<lparr>su_missed_count := su_missed_count d + of_bool (i \<in> set is)\<rparr>) (enumerate 0 ?ds))"
    using Cons by simp
  ultimately show ?case using Cons.prems
    by (auto simp: list_eq_iff_nth_eq nth_enumerate_eq nth_list_update)
qed

end
