(* ===== verification/Checkpoint.thy ===== *)
theory Checkpoint
  imports Attest_Bits Slots Effects
begin

text \<open>
  \<open>src/modules/sidecars/performance/collector/checkpoint.py\<close>: the checkpoints of a range of epochs, the
  block roots a checkpoint state gives, and the duties of an epoch that are written to the database.
  The consensus client is \<open>cl_client\<close> with the queries of \<open>collector_env\<close>; a query answers or raises.
  The process keeps the database and the cache of sync committees. The epochs of a checkpoint are
  checked by a pool of threads: \<open>ce_schedule\<close> is the order in which the submitted checks take effect,
  and after a failure the checks that were already running may still finish, so it then names those.
\<close>

section \<open>Checkpoints\<close>

definition MAX_CHECKPOINT_STEP :: nat where "MAX_CHECKPOINT_STEP = 255"
definition CHECKPOINT_SLOT_DELAY_EPOCHS :: int where "CHECKPOINT_SLOT_DELAY_EPOCHS = 2"
definition ZERO_BLOCK_ROOT :: hexstr where "ZERO_BLOCK_ROOT = ''0x'' @ replicate 64 CHR ''0''"

record frame_checkpoint =
  fc_slot :: slot
  fc_duty_epochs :: "epoch list"

definition max_available_epoch :: "epoch \<Rightarrow> epoch \<Rightarrow> epoch" where
  "max_available_epoch r_epoch finalized_epoch = min r_epoch (finalized_epoch - CHECKPOINT_SLOT_DELAY_EPOCHS)"

definition new_frame_checkpoints :: "epoch \<Rightarrow> epoch \<Rightarrow> epoch \<Rightarrow> unit res" where
  "new_frame_checkpoints l_epoch r_epoch finalized_epoch =
     (if l_epoch > r_epoch then Inl ValueError
      else if l_epoch > max_available_epoch r_epoch finalized_epoch then Inl ValueError
      else Inr ())"

definition frame_checkpoints :: "chain_config \<Rightarrow> epoch \<Rightarrow> epoch \<Rightarrow> epoch \<Rightarrow> frame_checkpoint list res" where
  "frame_checkpoints c l_epoch r_epoch finalized_epoch =
     bindR (sequence l_epoch (max_available_epoch r_epoch finalized_epoch)) (\<lambda>epochs.
       Inr (map (\<lambda>checkpoint_epochs.
         \<lparr>fc_slot = get_epoch_first_slot c (Max (set checkpoint_epochs) + CHECKPOINT_SLOT_DELAY_EPOCHS),
          fc_duty_epochs = checkpoint_epochs\<rparr>) (batched MAX_CHECKPOINT_STEP epochs)))"

section \<open>The environment and the state\<close>

record attestation_committee =
  ac_index :: int
  ac_slot :: slot
  ac_validators :: "int list"

record proposer_duties =
  pr_validator_index :: int
  pr_slot :: slot

record collector_env =
  ce_chain :: chain_config
  ce_finalized :: blockstamp
  ce_cl :: cl_client
  get_state_block_roots :: "slot \<Rightarrow> hexstr list res"
  get_block_root :: "slot \<Rightarrow> hexstr res"
  get_block_attestations_and_sync :: "hexstr \<Rightarrow> (block_attestation list \<times> hexstr) res"
  get_attestation_committees :: "blockstamp \<Rightarrow> epoch \<Rightarrow> attestation_committee list res"
  get_sync_committee_of :: "blockstamp \<Rightarrow> epoch \<Rightarrow> int list res"
  get_proposer_duties :: "epoch \<Rightarrow> hexstr \<Rightarrow> proposer_duties list res"
  ce_cache_max_size :: int
  ce_schedule :: "epoch list \<Rightarrow> epoch list"

type_synonym sync_cache = "(int \<times> int list) list"

record collector =
  co_db :: duties_db
  co_sync_cache :: sync_cache

type_synonym slot_block_root = "slot \<times> hexstr option"

section \<open>Block roots\<close>

text \<open>\<open>br[i - 1]\<close> of index 0 is the last entry.\<close>

definition mark_missing_roots :: "int \<Rightarrow> hexstr list \<Rightarrow> hexstr option list" where
  "mark_missing_roots pivot_index br =
     map (\<lambda>i. if br ! i \<noteq> ZERO_BLOCK_ROOT \<and>
                (int i = pivot_index \<or> br ! i \<noteq> br ! (if i = 0 then length br - 1 else i - 1))
              then Some (br ! i) else None) [0..<length br]"

definition get_block_roots :: "collector_env \<Rightarrow> slot \<Rightarrow> hexstr option list res" where
  "get_block_roots env checkpoint_slot =
     bindR (get_state_block_roots env checkpoint_slot) (\<lambda>state_roots.
       let pivot_index = checkpoint_slot mod SLOTS_PER_HISTORICAL_ROOT;
           br = mark_missing_roots pivot_index state_roots;
           calculated_pivot_slot = max (checkpoint_slot - SLOTS_PER_HISTORICAL_ROOT) 0
       in bindR (nthR br pivot_index) (\<lambda>oldest.
          bindR (case oldest of
                   None \<Rightarrow> Inr True
                 | Some block_root \<Rightarrow> bindR (get_block_header_by (ce_cl env) block_root) (\<lambda>header.
                     Inr (h_slot header \<noteq> calculated_pivot_slot))) (\<lambda>is_pivot_missing.
            Inr (if is_pivot_missing then br[nat pivot_index := None] else br))))"

definition select_block_root_by_slot :: "hexstr option list \<Rightarrow> slot \<Rightarrow> slot \<Rightarrow> hexstr option res" where
  "select_block_root_by_slot block_roots checkpoint_slot root_slot =
     (if \<not> (root_slot < checkpoint_slot \<and> checkpoint_slot \<le> root_slot + SLOTS_PER_HISTORICAL_ROOT)
      then Inl SlotOutOfRootsRange
      else nthR block_roots (root_slot mod SLOTS_PER_HISTORICAL_ROOT))"

definition select_block_roots ::
    "chain_config \<Rightarrow> hexstr option list \<Rightarrow> epoch \<Rightarrow> slot \<Rightarrow> (slot_block_root list \<times> slot_block_root list) res" where
  "select_block_roots c block_roots duty_epoch checkpoint_slot =
     bindR (sequence (get_epoch_first_slot c duty_epoch) (get_epoch_last_slot c (duty_epoch + 1))) (\<lambda>slots.
     bindR (mapR (\<lambda>slot_to_check. bindR (select_block_root_by_slot block_roots checkpoint_slot slot_to_check)
                   (\<lambda>block_root. Inr (slot_to_check, block_root))) slots) (\<lambda>roots_to_check.
       let n = nat (slots_per_epoch c) in Inr (take n roots_to_check, drop n roots_to_check)))"

section \<open>Preparing the duties of an epoch\<close>

definition prepare_attestation_duties :: "collector_env \<Rightarrow> epoch \<Rightarrow> (committees \<times> int list) res" where
  "prepare_attestation_duties env e =
     bindR (get_attestation_committees env (ce_finalized env) e) (\<lambda>answer.
       Inr (fold (\<lambda>committee (committees, att_misses).
              (AList.update (ac_slot committee, ac_index committee) (ac_validators committee) committees,
               fold List.insert (ac_validators committee) att_misses)) answer ([], [])))"

definition cache_sync_committee :: "int \<Rightarrow> int \<Rightarrow> int list \<Rightarrow> sync_cache \<Rightarrow> sync_cache" where
  \<comment> \<open>\<open>SyncCommitteesCache.__setitem__\<close>\<close>
  "cache_sync_committee max_size sync_committee_period committee cache =
     AList.update sync_committee_period committee
       (if int (length cache) \<ge> max_size then AList.delete (Min (set (map fst cache))) cache else cache)"

definition get_sync_committee :: "collector_env \<Rightarrow> epoch \<Rightarrow> (collector, int list) act" where
  "get_sync_committee env e s =
     (let sync_committee_period = e div EPOCHS_PER_SYNC_COMMITTEE_PERIOD in
      case map_of (co_sync_cache s) sync_committee_period of
        Some cached \<Rightarrow> (Inr cached, s)
      | None \<Rightarrow>
          (case bindR (get_prev_non_missed_slot (ce_cl env) (get_epoch_first_slot (ce_chain env) e)
                         (bs_slot_number (ce_finalized env))) (\<lambda>details.
                  get_sync_committee_of env (build_blockstamp (ce_cl env) details) e) of
             Inl err \<Rightarrow> (Inl err, s)
           | Inr committee \<Rightarrow>
               (Inr committee, s\<lparr>co_sync_cache :=
                  cache_sync_committee (ce_cache_max_size env) sync_committee_period committee (co_sync_cache s)\<rparr>)))"

definition prepare_sync_committee_duties :: "collector_env \<Rightarrow> epoch \<Rightarrow> (collector, sync_duty list) act" where
  "prepare_sync_committee_duties env e =
     bindA (get_sync_committee env e) (\<lambda>committee.
       returnA (map (\<lambda>vid. \<lparr>su_validator_index = vid, su_missed_count = 0\<rparr>) committee))"

text \<open>
  The walk back to a block: it ends with a root, or with the first slot that the checkpoint state no
  longer knows.
\<close>

function find_dependent_root :: "hexstr option list \<Rightarrow> slot \<Rightarrow> slot \<Rightarrow> (hexstr + slot) res" where
  "find_dependent_root block_roots checkpoint_slot dependent_slot =
     (case select_block_root_by_slot block_roots checkpoint_slot dependent_slot of
        Inl SlotOutOfRootsRange \<Rightarrow> Inr (Inr dependent_slot)
      | Inl err \<Rightarrow> Inl err
      | Inr (Some block_root) \<Rightarrow>
          if block_root \<noteq> [] then Inr (Inl block_root) else find_dependent_root block_roots checkpoint_slot (dependent_slot - 1)
      | Inr None \<Rightarrow> find_dependent_root block_roots checkpoint_slot (dependent_slot - 1))"
  by pat_completeness auto
termination
  by (relation "measure (\<lambda>(br, c, s). nat (s + SLOTS_PER_HISTORICAL_ROOT + 1 - c))")
    (auto simp: select_block_root_by_slot_def split: if_splits)

declare find_dependent_root.simps [simp del]

definition get_dependent_root :: "collector_env \<Rightarrow> epoch \<Rightarrow> hexstr option list \<Rightarrow> slot \<Rightarrow> hexstr res" where
  "get_dependent_root env e block_roots checkpoint_slot =
     bindR (find_dependent_root block_roots checkpoint_slot (get_epoch_last_slot (ce_chain env) (e - 1))) (\<lambda>found.
       case found of
         Inl block_root \<Rightarrow> Inr block_root
       | Inr dependent_slot \<Rightarrow>
           bindR (get_prev_non_missed_slot (ce_cl env) dependent_slot (bs_slot_number (ce_finalized env))) (\<lambda>details.
             get_block_root env (d_slot details)))"

definition prepare_propose_duties ::
    "collector_env \<Rightarrow> epoch \<Rightarrow> hexstr option list \<Rightarrow> slot \<Rightarrow> (slot \<times> proposal_duty) list res" where
  "prepare_propose_duties env e block_roots checkpoint_slot =
     bindR (get_dependent_root env e block_roots checkpoint_slot) (\<lambda>dependent_root.
     bindR (get_proposer_duties env e dependent_root) (\<lambda>duties.
       Inr (fold (\<lambda>d. AList.update (pr_slot d) \<lparr>pu_validator_index = pr_validator_index d, pu_is_proposed = False\<rparr>)
              duties [])))"

section \<open>Checking an epoch\<close>

definition slot_step ::
    "collector_env \<Rightarrow> committees \<Rightarrow> slot_block_root list \<Rightarrow> slot_block_root \<Rightarrow>
     (slot \<times> proposal_duty) list \<times> sync_duty list \<times> int list \<Rightarrow>
     ((slot \<times> proposal_duty) list \<times> sync_duty list \<times> int list) res" where
  "slot_step env att_committees duty_epoch_roots sr acc =
     (case (sr, acc) of ((s, block_root), (propose_duties, sync_duties, att_misses)) \<Rightarrow>
       (case block_root of
          None \<Rightarrow> Inr acc
        | Some r \<Rightarrow>
            bindR (get_block_attestations_and_sync env r) (\<lambda>(attestations, sync_aggregate).
            bindR (if sr \<in> set duty_epoch_roots
                   then bindR (modifyR s (\<lambda>d. d\<lparr>pu_is_proposed := True\<rparr>) propose_duties) (\<lambda>propose_duties.
                        bindR (process_sync sync_aggregate sync_duties) (\<lambda>sync_duties.
                          Inr (propose_duties, sync_duties)))
                   else Inr (propose_duties, sync_duties)) (\<lambda>(propose_duties, sync_duties).
            bindR (process_attestations attestations att_committees att_misses) (\<lambda>att_misses.
              Inr (propose_duties, sync_duties, att_misses))))))"

definition store_row ::
    "epoch \<Rightarrow> int list \<Rightarrow> proposal_duty list \<Rightarrow> sync_duty list \<Rightarrow> (collector, unit) act" where
  "store_row e att_misses proposals syncs s =
     (case store_epoch e att_misses proposals syncs (co_db s) of (r, db) \<Rightarrow> (r, s\<lparr>co_db := db\<rparr>))"

definition check_duties ::
    "collector_env \<Rightarrow> hexstr option list \<Rightarrow> slot \<Rightarrow> epoch \<Rightarrow> slot_block_root list \<Rightarrow> slot_block_root list \<Rightarrow>
     (collector, unit) act" where
  "check_duties env checkpoint_block_roots checkpoint_slot duty_epoch duty_epoch_roots next_epoch_roots =
     bindA (liftA (prepare_propose_duties env duty_epoch checkpoint_block_roots checkpoint_slot)) (\<lambda>propose_duties.
     bindA (liftA (prepare_attestation_duties env duty_epoch)) (\<lambda>(att_committees, att_misses).
     bindA (prepare_sync_committee_duties env duty_epoch) (\<lambda>sync_duties.
     bindA (liftA (foldR (slot_step env att_committees duty_epoch_roots) (duty_epoch_roots @ next_epoch_roots)
                     (propose_duties, sync_duties, att_misses))) (\<lambda>(propose_duties, sync_duties, att_misses).
       if int (length propose_duties) > slots_per_epoch (ce_chain env) then liftA (Inl ValueError)
       else if int (length sync_duties) > SYNC_COMMITTEE_SIZE then liftA (Inl ValueError)
       else store_row duty_epoch att_misses (map snd propose_duties) sync_duties))))"

section \<open>Executing a checkpoint\<close>

definition process_epochs ::
    "collector_env \<Rightarrow> hexstr option list \<Rightarrow> slot \<Rightarrow> epoch list \<Rightarrow>
     (epoch \<times> slot_block_root list \<times> slot_block_root list) list \<Rightarrow> (collector, unit) act" where
  \<comment> \<open>\<open>_process\<close>\<close>
  "process_epochs env block_roots checkpoint_slot unprocessed_epochs epochs_roots_to_check s =
     (case fold (\<lambda>e (failed, s).
              case bindA (liftA (lookupR epochs_roots_to_check e)) (\<lambda>(duty_roots, next_roots).
                     check_duties env block_roots checkpoint_slot e duty_roots next_roots) s of
                (Inl _, s) \<Rightarrow> (True, s)
              | (Inr _, s) \<Rightarrow> (failed, s)) (ce_schedule env unprocessed_epochs) (False, s) of
        (failed, s) \<Rightarrow> (if failed then Inl SystemExit else Inr (), s))"

definition exec_checkpoint :: "collector_env \<Rightarrow> frame_checkpoint \<Rightarrow> (collector, nat) act" where
  "exec_checkpoint env checkpoint s =
     (let unprocessed_epochs = filter (\<lambda>e. \<not> has_epoch e (co_db s)) (fc_duty_epochs checkpoint) in
      if unprocessed_epochs = [] then (Inr 0, s)
      else
        bindA (liftA (get_block_roots env (fc_slot checkpoint))) (\<lambda>block_roots.
        bindA (liftA (mapR (\<lambda>e. bindR (select_block_roots (ce_chain env) block_roots e (fc_slot checkpoint))
                                  (\<lambda>r. Inr (e, r))) unprocessed_epochs)) (\<lambda>duty_epochs_roots.
        bindA (process_epochs env block_roots (fc_slot checkpoint) unprocessed_epochs duty_epochs_roots) (\<lambda>_.
          returnA (length unprocessed_epochs)))) s)"

section \<open>Block roots of an honest state\<close>

text \<open>
  A node's answers for a chain \<open>B\<close> of blocks by slot, as the consensus specification fixes
  \<open>state.block_roots\<close>: entry \<open>s mod 8192\<close> is the root of the closest block at or before \<open>s\<close> for the last
  8192 slots before the state, and zero where no slot has been filed yet; roots name blocks.
\<close>

definition honest_state :: "collector_env \<Rightarrow> (slot \<Rightarrow> header option) \<Rightarrow> slot \<Rightarrow> bool" where
  "honest_state env B S \<longleftrightarrow>
     (\<exists>br. get_state_block_roots env S = Inr br \<and> length br = nat SLOTS_PER_HISTORICAL_ROOT \<and>
       (\<forall>s p. max 0 (S - SLOTS_PER_HISTORICAL_ROOT) \<le> s \<and> s < S \<and> closest_block B s p \<longrightarrow>
          br ! nat (s mod SLOTS_PER_HISTORICAL_ROOT) = h_root (the (B p))) \<and>
       (\<forall>i. S \<le> i \<and> i < SLOTS_PER_HISTORICAL_ROOT \<longrightarrow> br ! nat i = ZERO_BLOCK_ROOT)) \<and>
     (\<forall>s h. B s = Some h \<longrightarrow> 0 \<le> s \<and> h_slot h = s \<and> h_root h \<notin> {[], ZERO_BLOCK_ROOT} \<and>
        get_block_header_by (ce_cl env) (h_root h) = Inr h) \<and>
     B 0 \<noteq> None"

lemma honest_stateD:
  assumes "honest_state env B S" "get_state_block_roots env S = Inr br"
  shows "length br = nat SLOTS_PER_HISTORICAL_ROOT"
    and "\<forall>s p. max 0 (S - SLOTS_PER_HISTORICAL_ROOT) \<le> s \<longrightarrow> s < S \<longrightarrow> closest_block B s p \<longrightarrow>
      br ! nat (s mod SLOTS_PER_HISTORICAL_ROOT) = h_root (the (B p))"
    and "\<forall>i. S \<le> i \<longrightarrow> i < SLOTS_PER_HISTORICAL_ROOT \<longrightarrow> br ! nat i = ZERO_BLOCK_ROOT"
    and "\<forall>s h. B s = Some h \<longrightarrow> 0 \<le> s \<and> h_slot h = s \<and> h_root h \<notin> {[], ZERO_BLOCK_ROOT} \<and>
        get_block_header_by (ce_cl env) (h_root h) = Inr h"
    and "B 0 \<noteq> None"
proof -
  obtain br' where b: "get_state_block_roots env S = Inr br'" "length br' = nat SLOTS_PER_HISTORICAL_ROOT"
    "\<forall>s p. max 0 (S - SLOTS_PER_HISTORICAL_ROOT) \<le> s \<and> s < S \<and> closest_block B s p \<longrightarrow>
      br' ! nat (s mod SLOTS_PER_HISTORICAL_ROOT) = h_root (the (B p))"
    "\<forall>i. S \<le> i \<and> i < SLOTS_PER_HISTORICAL_ROOT \<longrightarrow> br' ! nat i = ZERO_BLOCK_ROOT"
    using assms(1) unfolding honest_state_def by (elim conjE exE)
  have "br' = br" using b(1) assms(2) by simp
  then show "length br = nat SLOTS_PER_HISTORICAL_ROOT"
    and "\<forall>s p. max 0 (S - SLOTS_PER_HISTORICAL_ROOT) \<le> s \<longrightarrow> s < S \<longrightarrow> closest_block B s p \<longrightarrow>
      br ! nat (s mod SLOTS_PER_HISTORICAL_ROOT) = h_root (the (B p))"
    and "\<forall>i. S \<le> i \<longrightarrow> i < SLOTS_PER_HISTORICAL_ROOT \<longrightarrow> br ! nat i = ZERO_BLOCK_ROOT"
    using b(2-4) by blast+
  show "\<forall>s h. B s = Some h \<longrightarrow> 0 \<le> s \<and> h_slot h = s \<and> h_root h \<notin> {[], ZERO_BLOCK_ROOT} \<and>
        get_block_header_by (ce_cl env) (h_root h) = Inr h"
    using assms(1) unfolding honest_state_def by (elim conjE exE)
  show "B 0 \<noteq> None" using assms(1) unfolding honest_state_def by (elim conjE exE)
qed

lemma closest_exists:
  assumes "B 0 \<noteq> None" "0 \<le> (s::int)"
  shows "\<exists>p. closest_block B s p \<and> 0 \<le> p"
  using assms(2)
proof (induction s rule: int_ge_induct)
  case base
  then show ?case using assms(1) by (auto simp: closest_block_def intro!: exI[of _ 0])
next
  case (step s)
  then obtain p where p: "closest_block B s p" "0 \<le> p" by blast
  show ?case
  proof (cases "B (s + 1)")
    case None
    have "closest_block B (s + 1) p" using p(1) None
      unfolding closest_block_def by (metis linorder_not_less order.strict_trans2 order_le_less zle_add1_eq_le zless_add1_eq)
    then show ?thesis using p by blast
  next
    case (Some h)
    then have "closest_block B (s + 1) (s + 1)" by (auto simp: closest_block_def)
    then show ?thesis using step by (intro exI[of _ "s + 1"]) auto
  qed
qed

lemma closest_unique: "closest_block B s p \<Longrightarrow> closest_block B s q \<Longrightarrow> p = q"
  unfolding closest_block_def by (metis linorder_neqE)

lemma closest_step: "closest_block B s p \<Longrightarrow> B s = None \<Longrightarrow> closest_block B (s - 1) p"
  by (auto simp: closest_block_def order_le_less)

lemma closest_here: "B s = Some h \<Longrightarrow> closest_block B s p \<Longrightarrow> p = s"
  unfolding closest_block_def by (metis linorder_neqE order.refl order_less_le_trans not_Some_eq option.distinct(1) linorder_not_less)

lemma mod_window: "0 < (n::int) \<Longrightarrow> S - n \<le> s \<Longrightarrow> s < S \<Longrightarrow> s mod n = S mod n \<longleftrightarrow> s = S - n"
proof
  assume n: "0 < n" "S - n \<le> s" "s < S" and eq: "s mod n = S mod n"
  then have "n dvd S - s" using eq by (metis mod_eq_dvd_iff)
  then have "n \<le> S - s" using n by (intro zdvd_imp_le) auto
  then show "s = S - n" using n by simp
qed simp

lemma prev_index:
  assumes "0 < (n::int)"
  shows "(if nat (s mod n) = 0 then nat n - 1 else nat (s mod n) - 1) = nat ((s - 1) mod n)"
proof (cases "s mod n = 0")
  case True
  then have "(s - 1) mod n = (0 - 1) mod n" by (metis mod_diff_left_eq)
  also have "\<dots> = n - 1" using assms by (simp add: zmod_minus1)
  finally show ?thesis using True assms by simp
next
  case False
  have r: "0 \<le> s mod n" "s mod n < n" using assms by auto
  have "(s - 1) mod n = (s mod n - 1) mod n" by (simp add: mod_diff_left_eq)
  also have "\<dots> = s mod n - 1" using r False by (intro mod_pos_pos_trivial) auto
  finally show ?thesis using r False by auto
qed

lemma mark_missing_nth:
  "i < length br \<Longrightarrow> mark_missing_roots q br ! i =
     (if br ! i \<noteq> ZERO_BLOCK_ROOT \<and> (int i = q \<or> br ! i \<noteq> br ! (if i = 0 then length br - 1 else i - 1))
      then Some (br ! i) else None)"
  by (simp add: mark_missing_roots_def)

lemma marked_root:
  assumes hon: "honest_state env B S" and br: "get_state_block_roots env S = Inr br"
    and s: "max 0 (S - SLOTS_PER_HISTORICAL_ROOT) \<le> s" "s < S" and close: "closest_block B s p"
  shows "mark_missing_roots (S mod SLOTS_PER_HISTORICAL_ROOT) br ! nat (s mod SLOTS_PER_HISTORICAL_ROOT) =
    (if s = S - SLOTS_PER_HISTORICAL_ROOT \<or> B s \<noteq> None then Some (h_root (the (B p))) else None)"
proof -
  let ?N = SLOTS_PER_HISTORICAL_ROOT
  have N: "0 < ?N" by (simp add: constants_defs)
  have len: "length br = nat ?N"
    and roots: "\<And>s p. max 0 (S - ?N) \<le> s \<Longrightarrow> s < S \<Longrightarrow> closest_block B s p \<Longrightarrow> br ! nat (s mod ?N) = h_root (the (B p))"
    and zero: "\<And>i. S \<le> i \<Longrightarrow> i < ?N \<Longrightarrow> br ! nat i = ZERO_BLOCK_ROOT"
    and hdr: "\<And>s h. B s = Some h \<Longrightarrow> 0 \<le> s \<and> h_slot h = s \<and> h_root h \<notin> {[], ZERO_BLOCK_ROOT} \<and>
        get_block_header_by (ce_cl env) (h_root h) = Inr h"
    and gen: "B 0 \<noteq> None"
    using honest_stateD[OF hon br] by blast+
  let ?i = "nat (s mod ?N)" and ?prev = "br ! nat ((s - 1) mod ?N)"
  obtain h where h: "B p = Some h" using close by (auto simp: closest_block_def)
  have here: "br ! ?i = h_root h" using roots[OF s close] h by simp
  have i: "?i < length br" "int ?i = s mod ?N" using N by (simp_all add: len)
  have mark: "mark_missing_roots (S mod ?N) br ! ?i =
      (if s = S - ?N \<or> h_root h \<noteq> ?prev then Some (h_root h) else None)"
  proof -
    have "(if ?i = 0 then length br - 1 else ?i - 1) = nat ((s - 1) mod ?N)" unfolding len by (rule prev_index[OF N])
    moreover have "h_root h \<noteq> ZERO_BLOCK_ROOT" using hdr[OF h] by simp
    moreover have "int ?i = S mod ?N \<longleftrightarrow> s = S - ?N" unfolding i(2) using s by (intro mod_window[OF N]) simp_all
    ultimately show ?thesis unfolding mark_missing_nth[OF i(1)] here by simp
  qed
  have "h_root h \<noteq> ?prev \<longleftrightarrow> B s \<noteq> None" if ne: "s \<noteq> S - ?N"
  proof (cases "s = 0")
    case True
    have "(0 - 1) mod ?N = ?N - 1" using N by (simp add: zmod_minus1)
    then have "?prev = ZERO_BLOCK_ROOT" using zero[of "?N - 1"] True s ne by simp
    then show ?thesis using hdr[OF h] gen True by simp
  next
    case False
    then have s1: "max 0 (S - ?N) \<le> s - 1" "s - 1 < S" "0 \<le> s - 1" using s ne by auto
    obtain q where q: "closest_block B (s - 1) q" using closest_exists[of B, OF gen s1(3)] by blast
    obtain g where g: "B q = Some g" using q by (auto simp: closest_block_def)
    have prev: "?prev = h_root g" using roots[OF s1(1,2) q] g by simp
    show ?thesis
    proof (cases "B s")
      case None
      then have "p = q" using closest_unique[OF closest_step[OF close] q] by simp
      then show ?thesis using None prev g h by simp
    next
      case (Some k)
      then have "p = s" using closest_here close by blast
      moreover have "q \<le> s - 1" using q by (simp add: closest_block_def)
      ultimately have "h \<noteq> g" using hdr[OF h] hdr[OF g] by auto
      then have "h_root h \<noteq> h_root g" using hdr[OF h] hdr[OF g] by auto
      then show ?thesis using Some prev by simp
    qed
  qed
  then show ?thesis using mark h by auto
qed

definition roots_of :: "(slot \<Rightarrow> header option) \<Rightarrow> slot \<Rightarrow> hexstr option" where
  "roots_of B s = map_option h_root (B s)"

definition exact_roots :: "(slot \<Rightarrow> header option) \<Rightarrow> slot \<Rightarrow> hexstr option list \<Rightarrow> bool" where
  "exact_roots B S br \<longleftrightarrow> (\<forall>s. max 0 (S - SLOTS_PER_HISTORICAL_ROOT) \<le> s \<and> s < S \<longrightarrow>
     select_block_root_by_slot br S s = Inr (roots_of B s))"

lemma get_block_roots_pivot:
  assumes "get_state_block_roots env S = Inr br" "mark_missing_roots (S mod SLOTS_PER_HISTORICAL_ROOT) br = marks"
    and "nat (S mod SLOTS_PER_HISTORICAL_ROOT) < length br"
    and "case marks ! nat (S mod SLOTS_PER_HISTORICAL_ROOT) of None \<Rightarrow> missing
      | Some r \<Rightarrow> \<exists>h. get_block_header_by (ce_cl env) r = Inr h \<and>
          missing = (h_slot h \<noteq> max (S - SLOTS_PER_HISTORICAL_ROOT) 0)"
  shows "get_block_roots env S = Inr (if missing then marks[nat (S mod SLOTS_PER_HISTORICAL_ROOT) := None] else marks)"
proof -
  have "length marks = length br" using assms(2) by (auto simp: mark_missing_roots_def)
  moreover have "0 \<le> S mod SLOTS_PER_HISTORICAL_ROOT" by (simp add: constants_defs)
  ultimately have "nthR marks (S mod SLOTS_PER_HISTORICAL_ROOT) = Inr (marks ! nat (S mod SLOTS_PER_HISTORICAL_ROOT))"
    using assms(3) by (simp add: nthR_def Let_def)
  then show ?thesis
    using assms(4) unfolding get_block_roots_def assms(1) Let_def bindR.simps assms(2)
    by (auto split: option.splits)
qed

lemma block_roots_of_honest:
  assumes hon: "honest_state env B S" and S: "0 \<le> S"
  shows "\<exists>br. get_block_roots env S = Inr br \<and> length br = nat SLOTS_PER_HISTORICAL_ROOT \<and> exact_roots B S br"
proof -
  let ?N = SLOTS_PER_HISTORICAL_ROOT
  have N: "0 < ?N" by (simp add: constants_defs)
  obtain br where br: "get_state_block_roots env S = Inr br" using hon unfolding honest_state_def by blast
  note d = honest_stateD[OF hon br]
  let ?m = "mark_missing_roots (S mod ?N) br" and ?p = "nat (S mod ?N)"
  have p: "?p < length br" using d(1) N by simp
  have entry: "?m ! nat (s mod ?N) = (if s = S - ?N then Some (h_root (the (B q))) else roots_of B s)"
    if s: "max 0 (S - ?N) \<le> s" "s < S" and q: "closest_block B s q" for s q
    using marked_root[OF hon br s q] closest_here[of B s _ q] q
    by (cases "B s") (auto simp: roots_of_def)
  have "\<exists>missing. (case ?m ! ?p of None \<Rightarrow> missing | Some r \<Rightarrow> \<exists>h. get_block_header_by (ce_cl env) r = Inr h \<and>
          missing = (h_slot h \<noteq> max (S - ?N) 0)) \<and>
      (?N \<le> S \<longrightarrow> (if missing then None else ?m ! ?p) = roots_of B (S - ?N))"
  proof (cases "?N \<le> S")
    case True
    then have s: "max 0 (S - ?N) \<le> S - ?N" "S - ?N < S" "0 \<le> S - ?N" using N by auto
    obtain q where q: "closest_block B (S - ?N) q" using closest_exists[of B, OF d(5) s(3)] by blast
    obtain h where h: "B q = Some h" using q by (auto simp: closest_block_def)
    have "(S - ?N) mod ?N = S mod ?N" by simp
    then have m: "?m ! ?p = Some (h_root h)" using entry[OF s(1,2) q] h by simp
    have h': "h_slot h = q" "get_block_header_by (ce_cl env) (h_root h) = Inr h" using d(4) h by blast+
    have "q = S - ?N \<longleftrightarrow> B (S - ?N) \<noteq> None" using closest_here[of B "S - ?N" _ q] q h by auto
    then show ?thesis using m h h' s(3) by (intro exI[of _ "q \<noteq> S - ?N"]) (auto simp: roots_of_def)
  next
    case False
    then have "br ! ?p = ZERO_BLOCK_ROOT" using d(3) S by simp
    then have "?m ! ?p = None" unfolding mark_missing_nth[OF p] by simp
    then show ?thesis using False by (intro exI[of _ True]) simp
  qed
  then obtain missing where miss: "case ?m ! ?p of None \<Rightarrow> missing | Some r \<Rightarrow> \<exists>h. get_block_header_by (ce_cl env) r = Inr h \<and>
          missing = (h_slot h \<noteq> max (S - ?N) 0)"
    and oldest: "?N \<le> S \<Longrightarrow> (if missing then None else ?m ! ?p) = roots_of B (S - ?N)" by blast
  let ?br = "if missing then ?m[?p := None] else ?m"
  have len: "length ?br = nat ?N" using d(1) by (simp add: mark_missing_roots_def)
  have "select_block_root_by_slot ?br S s = Inr (roots_of B s)" if s: "max 0 (S - ?N) \<le> s" "s < S" for s
  proof -
    have i: "\<not> s mod ?N < 0" "\<not> ?N \<le> s mod ?N" using N by (simp_all add: not_less not_le)
    have "?br ! nat (s mod ?N) = roots_of B s"
    proof (cases "s = S - ?N")
      case True
      then have "s mod ?N = S mod ?N" "?N \<le> S" using s by auto
      moreover have "length ?m = length br" by (simp add: mark_missing_roots_def)
      ultimately show ?thesis using oldest True p by (auto split: if_splits)
    next
      case False
      have "s mod ?N \<noteq> S mod ?N" using False s mod_window[OF N, of S s] by simp
      then have "nat (s mod ?N) \<noteq> ?p" using N by (simp add: eq_nat_nat_iff)
      moreover obtain q where "closest_block B s q" using closest_exists[of B s, OF d(5)] s by auto
      ultimately show ?thesis using entry[OF s, of q] False by simp
    qed
    then show ?thesis using s i by (simp add: select_block_root_by_slot_def nthR_def Let_def len del: length_list_update)
  qed
  then show ?thesis using get_block_roots_pivot[OF br refl p miss] len unfolding exact_roots_def by blast
qed

text \<open>
  C30. A checkpoint state of an honest node is read exactly: every slot among the last 8192 before it (or
  since genesis) that holds a block is given that block's root, and every missed slot is marked missing,
  the oldest slot included, whose root cannot be told from its predecessor's in the state alone.
\<close>

theorem block_roots_exact:
  assumes "honest_state env B S" and "0 \<le> S"
  shows "\<exists>br. get_block_roots env S = Inr br \<and>
    (\<forall>s. max 0 (S - SLOTS_PER_HISTORICAL_ROOT) \<le> s \<longrightarrow> s < S \<longrightarrow>
      select_block_root_by_slot br S s = Inr (map_option h_root (B s)))"
  using block_roots_of_honest[OF assms] unfolding exact_roots_def roots_of_def by blast

section \<open>The slots of an epoch\<close>

text \<open>The checkpoint state covers an epoch when it knows the slots of the epoch and of the next one.\<close>

definition covers :: "chain_config \<Rightarrow> slot \<Rightarrow> epoch \<Rightarrow> bool" where
  "covers c S e \<longleftrightarrow> get_epoch_last_slot c (e + 1) < S \<and> S \<le> get_epoch_first_slot c e + SLOTS_PER_HISTORICAL_ROOT"

definition slots_of_epoch :: "chain_config \<Rightarrow> epoch \<Rightarrow> slot list" where
  "slots_of_epoch c e = [get_epoch_first_slot c e..get_epoch_last_slot c e]"

lemma epoch_slots_split:
  assumes "wf_chain c"
  shows "[get_epoch_first_slot c e..get_epoch_last_slot c (e + 1)] = slots_of_epoch c e @ slots_of_epoch c (e + 1)"
    and "length (slots_of_epoch c e) = nat (slots_per_epoch c)"
    and "get_epoch_first_slot c e \<le> get_epoch_last_slot c (e + 1)"
proof -
  have f: "get_epoch_first_slot c e \<le> get_epoch_first_slot c (e + 1)" "get_epoch_first_slot c (e + 1) \<le> get_epoch_first_slot c (e + 1 + 1)"
    by (rule epochs.first_mono[OF assms]; simp)+
  have "[a..b - 1] @ [b..d] = [a..d]" if "a \<le> b" "b \<le> d + 1" for a b d :: int
    using that by (intro sorted_distinct_set_unique) (auto simp: sorted_append)
  from this[OF f(1), of "get_epoch_last_slot c (e + 1)"] f(2)
  show "[get_epoch_first_slot c e..get_epoch_last_slot c (e + 1)] = slots_of_epoch c e @ slots_of_epoch c (e + 1)"
    by (simp add: slots_of_epoch_def get_epoch_last_slot_eq)
  show "length (slots_of_epoch c e) = nat (slots_per_epoch c)" "get_epoch_first_slot c e \<le> get_epoch_last_slot c (e + 1)"
    using assms by (simp_all add: slots_of_epoch_def get_epoch_first_slot_def get_epoch_last_slot_def wf_chain_def algebra_simps)
qed

lemma select_block_roots_by:
  assumes c: "wf_chain c"
    and roots: "\<And>s. get_epoch_first_slot c e \<le> s \<Longrightarrow> s \<le> get_epoch_last_slot c (e + 1) \<Longrightarrow>
      select_block_root_by_slot br S s = Inr (r s)"
  shows "select_block_roots c br e S = Inr (map (\<lambda>s. (s, r s)) (slots_of_epoch c e), map (\<lambda>s. (s, r s)) (slots_of_epoch c (e + 1)))"
proof -
  have "mapR (\<lambda>s. bindR (select_block_root_by_slot br S s) (\<lambda>x. Inr (s, x))) [get_epoch_first_slot c e..get_epoch_last_slot c (e + 1)]
      = Inr (map (\<lambda>s. (s, r s)) [get_epoch_first_slot c e..get_epoch_last_slot c (e + 1)])"
    by (intro mapR_all_ok) (simp add: roots)
  then show ?thesis
    using epoch_slots_split[OF c, of e] by (simp add: select_block_roots_def sequence_def Let_def)
qed

lemma batched_ranges:
  assumes "0 < k"
  shows "b \<in> set (batched k [i..j]) \<Longrightarrow> \<exists>l m. b = [l..m] \<and> i \<le> l \<and> l \<le> m \<and> m \<le> j \<and> m - l < int k"
proof (induction "nat (j - i + 1)" arbitrary: i rule: less_induct)
  case less
  show ?case
  proof (cases "i \<le> j")
    case False
    then show ?thesis using less.prems by (simp add: batched.simps)
  next
    case True
    then have split: "batched k [i..j] = [i..min j (i + int k - 1)] # batched k [i + int k..j]"
      using assms by (simp add: batched.simps[of k "[i..j]"] take_upto drop_upto)
    show ?thesis
    proof (cases "b = [i..min j (i + int k - 1)]")
      case True
      then show ?thesis using \<open>i \<le> j\<close> assms by (intro exI[of _ i] exI[of _ "min j (i + int k - 1)"]) auto
    next
      case False
      then have "b \<in> set (batched k [i + int k..j])" using less.prems split by simp
      moreover have "nat (j - (i + int k) + 1) < nat (j - i + 1)" using True assms by simp
      ultimately obtain l m where "b = [l..m]" "i + int k \<le> l" "l \<le> m" "m \<le> j" "m - l < int k"
        using less.hyps[of "i + int k"] by blast
      then show ?thesis using assms by (intro exI[of _ l] exI[of _ m]) auto
    qed
  qed
qed

lemma Max_upto: "l \<le> m \<Longrightarrow> Max (set [l..m]) = (m::int)"
  by (intro Max_eqI) auto

lemma covers_batch:
  assumes c: "wf_chain c" "slots_per_epoch c \<le> 32" and e: "l \<le> e" "e \<le> m" "m - l < int MAX_CHECKPOINT_STEP"
  shows "covers c (get_epoch_first_slot c (m + CHECKPOINT_SLOT_DELAY_EPOCHS)) e"
proof -
  let ?n = "slots_per_epoch c"
  have n: "0 < ?n" using c(1) by (simp add: wf_chain_def)
  have "(e + 2) * ?n \<le> (m + 2) * ?n" using e n by (intro mult_right_mono) auto
  moreover have "(m + 2 - e) * ?n \<le> 256 * 32" using e c(2) n by (intro mult_mono) (auto simp: MAX_CHECKPOINT_STEP_def)
  ultimately show ?thesis
    by (simp add: covers_def get_epoch_first_slot_def get_epoch_last_slot_def CHECKPOINT_SLOT_DELAY_EPOCHS_def
        constants_defs algebra_simps)
qed

lemma covered_roots:
  assumes "wf_chain c" "covers c S e" "length br = nat SLOTS_PER_HISTORICAL_ROOT"
  shows "is_ok (select_block_roots c br e S)"
proof -
  have "select_block_root_by_slot br S s = Inr (br ! nat (s mod SLOTS_PER_HISTORICAL_ROOT))"
    if "get_epoch_first_slot c e \<le> s" "s \<le> get_epoch_last_slot c (e + 1)" for s
  proof -
    have "\<not> s mod SLOTS_PER_HISTORICAL_ROOT < 0" "\<not> SLOTS_PER_HISTORICAL_ROOT \<le> s mod SLOTS_PER_HISTORICAL_ROOT"
      "0 \<le> SLOTS_PER_HISTORICAL_ROOT" by (simp_all add: constants_defs not_less not_le)
    then show ?thesis using that assms(2,3) by (simp add: select_block_root_by_slot_def nthR_def Let_def covers_def)
  qed
  from select_block_roots_by[OF assms(1) this] show ?thesis by simp
qed

lemma frame_checkpoints_all:
  assumes "new_frame_checkpoints l r finalized = Inr ()"
  shows "\<exists>cps. frame_checkpoints c l r finalized = Inr cps \<and> concat (map fc_duty_epochs cps) = [l..min r (finalized - 2)]"
  using assms concat_batched[of MAX_CHECKPOINT_STEP "[l..max_available_epoch r finalized]"]
  by (auto simp: frame_checkpoints_def sequence_def comp_def new_frame_checkpoints_def max_available_epoch_def
      CHECKPOINT_SLOT_DELAY_EPOCHS_def MAX_CHECKPOINT_STEP_def split: if_splits)

text \<open>
  C31. The checkpoints of an accepted range list each of its available epochs once, in order, in batches
  of at most 255; a checkpoint's slot is never beyond the first slot of the finalized epoch, and its state
  still knows the 64 slots every one of its epochs needs, so selecting their roots never runs out of range.
\<close>

theorem checkpoints_cover:
  assumes "wf_chain c" and "slots_per_epoch c \<le> 32" and "new_frame_checkpoints l r finalized = Inr ()"
  shows "\<exists>cps. frame_checkpoints c l r finalized = Inr cps \<and>
    concat (map fc_duty_epochs cps) = [l..min r (finalized - 2)] \<and>
    (\<forall>cp \<in> set cps. fc_duty_epochs cp \<noteq> [] \<and> length (fc_duty_epochs cp) \<le> 255 \<and>
      fc_slot cp \<le> get_epoch_first_slot c finalized \<and>
      (\<forall>e \<in> set (fc_duty_epochs cp). covers c (fc_slot cp) e \<and>
        (\<forall>br. length br = 8192 \<longrightarrow> is_ok (select_block_roots c br e (fc_slot cp)))))"
proof -
  let ?m = "max_available_epoch r finalized"
  have lm: "l \<le> ?m" using assms(3) by (auto simp: new_frame_checkpoints_def split: if_splits)
  let ?cp = "\<lambda>es. \<lparr>fc_slot = get_epoch_first_slot c (Max (set es) + CHECKPOINT_SLOT_DELAY_EPOCHS), fc_duty_epochs = es\<rparr>"
  have cps: "frame_checkpoints c l r finalized = Inr (map ?cp (batched MAX_CHECKPOINT_STEP [l..?m]))"
    using lm by (simp add: frame_checkpoints_def sequence_def)
  have all: "concat (map fc_duty_epochs (map ?cp (batched MAX_CHECKPOINT_STEP [l..?m]))) = [l..min r (finalized - 2)]"
    using concat_batched[of MAX_CHECKPOINT_STEP "[l..?m]"]
    by (simp add: comp_def max_available_epoch_def CHECKPOINT_SLOT_DELAY_EPOCHS_def MAX_CHECKPOINT_STEP_def)
  have "fc_duty_epochs (?cp es) \<noteq> [] \<and> length (fc_duty_epochs (?cp es)) \<le> 255 \<and>
      fc_slot (?cp es) \<le> get_epoch_first_slot c finalized \<and> (\<forall>e \<in> set (fc_duty_epochs (?cp es)). covers c (fc_slot (?cp es)) e)"
    if es: "es \<in> set (batched MAX_CHECKPOINT_STEP [l..?m])" for es
  proof -
    obtain a b where ab: "es = [a..b]" "l \<le> a" "a \<le> b" "b \<le> ?m" "b - a < int MAX_CHECKPOINT_STEP"
      using batched_ranges[OF _ es] by (auto simp: MAX_CHECKPOINT_STEP_def)
    have "get_epoch_first_slot c (b + CHECKPOINT_SLOT_DELAY_EPOCHS) \<le> get_epoch_first_slot c finalized"
      using ab(4) by (intro epochs.first_mono[OF assms(1)]) (simp add: max_available_epoch_def)
    moreover have "Max (set es) = b" using Max_upto[OF ab(3)] ab(1) by simp
    moreover have "length es \<le> 255" "es \<noteq> []" "\<And>e. e \<in> set es \<Longrightarrow> a \<le> e \<and> e \<le> b"
      using ab by (auto simp: MAX_CHECKPOINT_STEP_def)
    ultimately show ?thesis using covers_batch[OF assms(1,2) _ _ ab(5)] by simp
  qed
  moreover have "is_ok (select_block_roots c br e S)" if "covers c S e" "length br = 8192" for br e S
    using covered_roots[OF assms(1) that(1)] that(2) by (simp add: constants_defs)
  ultimately show ?thesis using cps all by (intro exI[of _ "map ?cp (batched MAX_CHECKPOINT_STEP [l..?m])"]) auto
qed

section \<open>The dependent root\<close>

definition honest_collector :: "collector_env \<Rightarrow> (slot \<Rightarrow> header option) \<Rightarrow> (slot \<Rightarrow> block_details) \<Rightarrow> bool" where
  "honest_collector env B D \<longleftrightarrow> honest_node (ce_cl env) B D \<and> B (bs_slot_number (ce_finalized env)) \<noteq> None \<and>
     (\<forall>s h. B s = Some h \<longrightarrow> d_slot (D s) = s \<and> get_block_root env s = Inr (h_root h))"

lemma find_dependent_root_closest:
  "exact_roots B S br \<Longrightarrow> (\<And>s h. B s = Some h \<Longrightarrow> 0 \<le> s \<and> h_root h \<noteq> []) \<Longrightarrow> closest_block B s p \<Longrightarrow> s < S \<Longrightarrow>
     find_dependent_root br S s = Inr (Inl (h_root (the (B p)))) \<or>
     (\<exists>s'. find_dependent_root br S s = Inr (Inr s') \<and> s' \<le> s \<and> closest_block B s' p)"
proof (induction br S s rule: find_dependent_root.induct)
  case (1 br S s)
  show ?case
  proof (cases "S \<le> s + SLOTS_PER_HISTORICAL_ROOT")
    case False
    then show ?thesis using 1(5,6) by (auto simp: find_dependent_root.simps[of br S s] select_block_root_by_slot_def)
  next
    case True
    have "0 \<le> p" "p \<le> s" using 1(4,5) by (auto simp: closest_block_def)
    then have sel: "select_block_root_by_slot br S s = Inr (roots_of B s)"
      using 1(3,6) True by (simp add: exact_roots_def)
    show ?thesis
    proof (cases "B s")
      case (Some h)
      then have "p = s" using closest_here 1(5) by blast
      then show ?thesis using sel Some 1(4)[OF Some] by (simp add: find_dependent_root.simps[of br S s] roots_of_def)
    next
      case None
      then have "find_dependent_root br S s = find_dependent_root br S (s - 1)"
        using sel by (simp add: find_dependent_root.simps[of br S s] roots_of_def)
      moreover have "find_dependent_root br S (s - 1) = Inr (Inl (h_root (the (B p)))) \<or>
          (\<exists>s'. find_dependent_root br S (s - 1) = Inr (Inr s') \<and> s' \<le> s - 1 \<and> closest_block B s' p)"
        by (rule "1.IH"(1)[OF sel]) (use None 1(3,4,6) closest_step[OF 1(5) None] in \<open>auto simp: roots_of_def\<close>)
      ultimately show ?thesis by auto
    qed
  qed
qed

text \<open>
  The root an epoch's proposer duties depend on is that of the closest block at or before the last
  slot of the epoch before it, whether the checkpoint state still knows that block or the search has
  walked past its oldest slot and asks the node.
\<close>

theorem dependent_root_exact:
  assumes "honest_state env B S" and "honest_collector env B D" and "0 \<le> S"
    and "get_block_roots env S = Inr br"
    and "closest_block B (get_epoch_last_slot (ce_chain env) (e - 1)) p"
    and "get_epoch_last_slot (ce_chain env) (e - 1) < S"
    and "get_epoch_last_slot (ce_chain env) (e - 1) \<le> bs_slot_number (ce_finalized env)"
  shows "get_dependent_root env e br S = Inr (h_root (the (B p)))"
proof -
  let ?l = "get_epoch_last_slot (ce_chain env) (e - 1)"
  have blocks: "B s = Some h \<Longrightarrow> 0 \<le> s \<and> h_root h \<noteq> []" for s h
    using assms(1) unfolding honest_state_def by blast
  have "exact_roots B S br" using block_roots_of_honest[OF assms(1,3)] assms(4) by auto
  from find_dependent_root_closest[OF this blocks assms(5,6)]
  consider "find_dependent_root br S ?l = Inr (Inl (h_root (the (B p))))"
    | s where "find_dependent_root br S ?l = Inr (Inr s)" "s \<le> ?l" "closest_block B s p" by blast
  then show ?thesis
  proof cases
    case 1
    then show ?thesis by (simp add: get_dependent_root_def)
  next
    case 2
    have hon: "honest_node (ce_cl env) B D" "B (bs_slot_number (ce_finalized env)) \<noteq> None"
      "\<And>s h. B s = Some h \<Longrightarrow> d_slot (D s) = s \<and> get_block_root env s = Inr (h_root h)"
      using assms(2) unfolding honest_collector_def by blast+
    have "get_prev_non_missed_slot (ce_cl env) s (bs_slot_number (ce_finalized env)) = Inr (D p)"
      using 2 assms(7) by (intro prev_non_missed_slot_honest[OF hon(1) _ hon(2)]) simp_all
    moreover obtain h where "B p = Some h" using 2(3) by (auto simp: closest_block_def)
    ultimately show ?thesis using 2(1) hon(3)[of p h] by (simp add: get_dependent_root_def)
  qed
qed

section \<open>A small chain\<close>

text \<open>Two slots an epoch, blocks at the slots 0, 1, 3, 4 and 8, the last finalized; the checkpoint state is
  that of slot 6.\<close>

definition cp_root :: "slot \<Rightarrow> hexstr" where
  "cp_root s = CHR ''r'' # replicate (nat s) CHR ''x''"

definition cp_chain :: "slot \<Rightarrow> header option" where
  "cp_chain s =
     (if s \<in> {0, 1, 3, 4, 8}
      then Some \<lparr>h_root = cp_root s, h_canonical = True, h_finalized = Some True, h_slot = s,
             h_parent_root = cp_root (if s = 3 then 1 else if s = 8 then 4 else s - 1)\<rparr> else None)"

definition cp_answer :: "header option \<Rightarrow> header res" where
  "cp_answer h = (case h of None \<Rightarrow> Inl (NotOkResponse NOT_FOUND) | Some h \<Rightarrow> Inr h)"

definition cp_details :: "slot \<Rightarrow> block_details" where
  "cp_details s = \<lparr>d_slot = s, d_state_root = ''s'', d_block_number = s, d_block_hash = ''b'', d_timestamp = 12 * s\<rparr>"

definition cp_node :: cl_client where
  "cp_node =
     \<lparr>get_block_header_at = (\<lambda>s. cp_answer (cp_chain s)),
      get_block_header_by = (\<lambda>r. cp_answer (cp_chain (int (length r) - 1))),
      get_block_details = (\<lambda>r. Inr (cp_details (int (length r) - 1))), add_0x_prefix = (\<lambda>x. ''0x'' @ x)\<rparr>"

definition cp_state_roots :: "slot \<Rightarrow> hexstr list res" where
  "cp_state_roots S = Inr (map (\<lambda>i. if i < 6 then cp_root ([0, 1, 1, 3, 4, 4] ! i) else ZERO_BLOCK_ROOT) [0..<8192])"

definition cp_env :: collector_env where
  "cp_env =
     \<lparr>ce_chain = \<lparr>slots_per_epoch = 2, seconds_per_slot = 12, genesis_time = 0\<rparr>,
      ce_finalized = \<lparr>bs_state_root = ''f'', bs_slot_number = 8, bs_block_hash = ''0xb'', bs_block_number = 8,
        bs_block_timestamp = 96\<rparr>,
      ce_cl = cp_node,
      get_state_block_roots = cp_state_roots,
      get_block_root = (\<lambda>s. Inr (cp_root s)),
      get_block_attestations_and_sync = (\<lambda>r. Inr
        (if r = cp_root 3 then [\<lparr>ba_aggregation_bits = ''0x05'', ba_slot = 2, ba_committee_bits = ''0x01''\<rparr>]
         else if r = cp_root 4 then [\<lparr>ba_aggregation_bits = ''0x07'', ba_slot = 3, ba_committee_bits = ''0x01''\<rparr>] else [],
         ''0x7f'')),
      get_attestation_committees = (\<lambda>_ e. Inr [\<lparr>ac_index = 0, ac_slot = 2 * e, ac_validators = [10, 11]\<rparr>,
        \<lparr>ac_index = 0, ac_slot = 2 * e + 1, ac_validators = [12, 13]\<rparr>]),
      get_sync_committee_of = (\<lambda>_ _. Inr [30, 31, 32, 33, 34, 35, 36, 37]),
      get_proposer_duties = (\<lambda>e r. Inr [\<lparr>pr_validator_index = 20, pr_slot = 2 * e\<rparr>, \<lparr>pr_validator_index = 21, pr_slot = 2 * e + 1\<rparr>]),
      ce_cache_max_size = 2, ce_schedule = rev\<rparr>"

lemma cp_closest:
  assumes "closest_block cp_chain s p" "s < 8"
  shows "0 \<le> p \<and> p = [0, 1, 1, 3, 4, 4, 4, 4] ! nat s"
proof -
  have p: "p \<in> {0, 1, 3, 4, 8}" "p \<le> s" and none: "\<forall>q. p < q \<and> q \<le> s \<longrightarrow> q \<notin> {0, 1, 3, 4, 8}"
    using assms(1) by (auto simp: closest_block_def cp_chain_def split: if_splits)
  have "s \<in> {0, 1, 2, 3, 4, 5, 6, 7}" using p assms(2) by auto
  then show ?thesis using p none[rule_format, of 1] none[rule_format, of 3] none[rule_format, of 4] by auto
qed

lemma cp_honest_state: "honest_state cp_env cp_chain 6"
proof -
  let ?br = "map (\<lambda>i. if i < 6 then cp_root ([0, 1, 1, 3, 4, 4] ! i) else ZERO_BLOCK_ROOT) [0..<8192]"
  have roots: "?br ! nat (s mod SLOTS_PER_HISTORICAL_ROOT) = h_root (the (cp_chain p))"
    if "max 0 (6 - SLOTS_PER_HISTORICAL_ROOT) \<le> s \<and> s < 6 \<and> closest_block cp_chain s p" for s p
  proof -
    have s: "0 \<le> s" "s < 6" using that by auto
    have "s mod SLOTS_PER_HISTORICAL_ROOT = s" using s by (simp add: constants_defs)
    moreover have "?br ! nat s = cp_root ([0, 1, 1, 3, 4, 4] ! nat s)" using s by (subst nth_map) auto
    moreover have "p = [0, 1, 1, 3, 4, 4] ! nat s" using cp_closest[of s p] that s by (auto simp: nth_Cons' less_Suc_eq)
    moreover have "h_root (the (cp_chain p)) = cp_root p" using that by (auto simp: closest_block_def cp_chain_def split: if_splits)
    ultimately show ?thesis by simp
  qed
  have zero: "?br ! nat i = ZERO_BLOCK_ROOT" if "6 \<le> i \<and> i < SLOTS_PER_HISTORICAL_ROOT" for i
    using that by (subst nth_map) (auto simp: constants_defs)
  have hdr: "0 \<le> s \<and> h_slot h = s \<and> h_root h \<notin> {[], ZERO_BLOCK_ROOT} \<and> get_block_header_by (ce_cl cp_env) (h_root h) = Inr h"
    if "cp_chain s = Some h" for s h
    using that by (auto simp: cp_chain_def cp_env_def cp_node_def cp_answer_def cp_root_def ZERO_BLOCK_ROOT_def split: if_splits)
  show ?thesis unfolding honest_state_def
  proof (intro conjI exI[of _ ?br])
    show "get_state_block_roots cp_env 6 = Inr ?br" by (simp add: cp_env_def cp_state_roots_def)
    show "length ?br = nat SLOTS_PER_HISTORICAL_ROOT" by (simp add: constants_defs)
  qed (use roots zero hdr in \<open>blast | simp add: cp_chain_def\<close>)+
qed

lemma cp_honest_collector: "honest_collector cp_env cp_chain cp_details"
proof -
  have "get_block_header_by cp_node (h_parent_root h) = Inr (the (cp_chain p))"
    if h: "cp_chain s = Some h" and p: "closest_block cp_chain (s - 1) p" for s h p
  proof -
    have "s - 1 < 8" using h by (auto simp: cp_chain_def split: if_splits)
    then have "0 \<le> p" "p = [0, 1, 1, 3, 4, 4, 4, 4] ! nat (s - 1)" "p \<le> s - 1"
      using cp_closest[OF p] p by (auto simp: closest_block_def)
    then show ?thesis using h
      by (auto simp: cp_chain_def cp_node_def cp_answer_def cp_root_def split: if_splits)
  qed
  moreover have "h_slot h = s \<and> trusted h \<and> get_block_details cp_node (h_root h) = Inr (cp_details s)"
    if "cp_chain s = Some h" for s h
    using that by (auto simp: cp_chain_def trusted_def cp_node_def cp_root_def split: if_splits)
  moreover have "get_block_header_at cp_node s = (case cp_chain s of None \<Rightarrow> Inl (NotOkResponse NOT_FOUND) | Some h \<Rightarrow> Inr h)" for s
    by (simp add: cp_node_def cp_answer_def)
  ultimately have "honest_node cp_node cp_chain cp_details" unfolding honest_node_def by blast
  then show ?thesis unfolding honest_collector_def
    by (auto simp: cp_env_def cp_chain_def cp_details_def split: if_splits)
qed

theorem block_roots_exact_witness:
  "\<exists>br. get_block_roots cp_env 6 = Inr br \<and> select_block_root_by_slot br 6 1 = Inr (Some (cp_root 1)) \<and>
     select_block_root_by_slot br 6 2 = Inr None"
proof -
  obtain br where br: "get_block_roots cp_env 6 = Inr br"
    "\<And>s. max 0 (6 - SLOTS_PER_HISTORICAL_ROOT) \<le> s \<Longrightarrow> s < 6 \<Longrightarrow>
       select_block_root_by_slot br 6 s = Inr (map_option h_root (cp_chain s))"
    using block_roots_exact[OF cp_honest_state] by auto
  then show ?thesis using br(2)[of 1] br(2)[of 2] by (simp add: cp_chain_def constants_defs)
qed

theorem dependent_root_exact_witness:
  "\<exists>br. get_block_roots cp_env 6 = Inr br \<and> get_dependent_root cp_env 2 br 6 = Inr (cp_root 3)"
proof -
  obtain br where br: "get_block_roots cp_env 6 = Inr br" using block_roots_of_honest[OF cp_honest_state] by auto
  have l: "get_epoch_last_slot (ce_chain cp_env) (2 - 1) = 3" by (simp add: cp_env_def get_epoch_last_slot_def)
  have "closest_block cp_chain 3 3" by (auto simp: closest_block_def cp_chain_def)
  then have "get_dependent_root cp_env 2 br 6 = Inr (h_root (the (cp_chain 3)))"
    by (intro dependent_root_exact[OF cp_honest_state cp_honest_collector _ br]) (simp_all only: l, simp_all add: cp_env_def)
  then show ?thesis using br by (simp add: cp_chain_def)
qed

theorem checkpoints_cover_witness:
  "frame_checkpoints \<lparr>slots_per_epoch = 32, seconds_per_slot = 12, genesis_time = 0\<rparr> 1000 1002 2000 =
     Inr [\<lparr>fc_slot = 32128, fc_duty_epochs = [1000, 1001, 1002]\<rparr>] \<and>
   covers \<lparr>slots_per_epoch = 32, seconds_per_slot = 12, genesis_time = 0\<rparr> 32128 1000"
proof -
  let ?c = "\<lparr>slots_per_epoch = 32, seconds_per_slot = 12, genesis_time = 0\<rparr>"
  have cps: "frame_checkpoints ?c 1000 1002 2000 = Inr [\<lparr>fc_slot = 32128, fc_duty_epochs = [1000, 1001, 1002]\<rparr>]" by code_simp
  have "wf_chain ?c" "slots_per_epoch ?c \<le> 32" "new_frame_checkpoints 1000 1002 2000 = Inr ()" by code_simp+
  from checkpoints_cover[OF this] cps show ?thesis by auto
qed

end
