(* ===== verification/Epoch_Rows.thy ===== *)
theory Epoch_Rows
  imports Checkpoint
begin

text \<open>
  What the collector writes: the row of an epoch against the chain it was read from
  (\<open>_check_duties\<close> of \<open>checkpoint.py\<close>), and what a whole checkpoint (\<open>exec\<close>) leaves in the database
  whatever the order and the failures of its threads.
\<close>

section \<open>The duties of an epoch\<close>

text \<open>What the node answers for the blocks of a list of slots.\<close>

definition block_atts :: "collector_env \<Rightarrow> hexstr \<Rightarrow> block_attestation list" where
  "block_atts env r = (case get_block_attestations_and_sync env r of Inr (atts, _) \<Rightarrow> atts | Inl _ \<Rightarrow> [])"

definition block_sync_misses :: "collector_env \<Rightarrow> hexstr \<Rightarrow> nat set" where
  "block_sync_misses env r =
     (case get_block_attestations_and_sync env r of
        Inr (_, bits) \<Rightarrow> (case hex_bitvector_to_list bits of Inr bs \<Rightarrow> set (get_unset_indices bs) | Inl _ \<Rightarrow> {})
      | Inl _ \<Rightarrow> {})"

definition blocks_in :: "slot_block_root list \<Rightarrow> hexstr list" where
  "blocks_in rs = List.map_filter snd rs"

definition book_proposals :: "slot_block_root list \<Rightarrow> (slot \<times> proposal_duty) list \<Rightarrow> (slot \<times> proposal_duty) list" where
  "book_proposals rs = map (\<lambda>(s, d). (s, if s \<in> set (map fst (filter (\<lambda>x. snd x \<noteq> None) rs)) then d\<lparr>pu_is_proposed := True\<rparr> else d))"

definition book_syncs :: "collector_env \<Rightarrow> hexstr list \<Rightarrow> sync_duty list \<Rightarrow> sync_duty list" where
  "book_syncs env blocks ds = map (\<lambda>(i, d). d\<lparr>su_missed_count := su_missed_count d +
     int (length (filter (\<lambda>r. i \<in> block_sync_misses env r) blocks))\<rparr>) (enumerate 0 ds)"

definition book_attestations :: "collector_env \<Rightarrow> committees \<Rightarrow> hexstr list \<Rightarrow> int list \<Rightarrow> int list" where
  "book_attestations env committees blocks =
     filter (\<lambda>v. \<forall>r \<in> set blocks. \<forall>a \<in> set (block_atts env r). v \<notin> set (attesting_indices committees a))"

lemma count_sync_miss_eq:
  "count_sync_miss i ds = Inr ds' \<longleftrightarrow> i < length ds \<and> ds' = ds[i := (ds ! i)\<lparr>su_missed_count := su_missed_count (ds ! i) + 1\<rparr>]"
  by (auto simp: count_sync_miss_def nthR_def Let_def)

lemma slot_step_missed: "slot_step env committees rs (s, None) acc = Inr acc"
  by (cases acc) (simp add: slot_step_def)

lemma count_sync_ok: "foldR count_sync_miss is ds = Inr ds' \<Longrightarrow> \<forall>i \<in> set is. i < length ds"
proof (induction "is" arbitrary: ds)
  case (Cons i "is")
  then have i: "i < length ds" and
    "foldR count_sync_miss is (ds[i := (ds ! i)\<lparr>su_missed_count := su_missed_count (ds ! i) + 1\<rparr>]) = Inr ds'"
    by (auto simp: count_sync_miss_eq res_simps)
  with Cons.IH[OF this(2)] show ?case by simp
qed simp

lemma book_syncs_Cons: "book_syncs env rs (book_syncs env [r] ds) = book_syncs env (r # rs) ds"
  by (auto simp: book_syncs_def list_eq_iff_nth_eq nth_enumerate_eq)

lemma process_sync_booked:
  assumes "get_block_attestations_and_sync env r = Inr (atts, bits)" "process_sync bits ds = Inr ds'"
  shows "ds' = book_syncs env [r] ds"
proof -
  obtain bs where bs: "hex_bitvector_to_list bits = Inr bs" "foldR count_sync_miss (get_unset_indices bs) ds = Inr ds'"
    using assms(2) by (auto simp: process_sync_def res_simps)
  have "distinct (get_unset_indices bs)" by (simp add: get_unset_indices_def)
  from count_sync_misses[OF this count_sync_ok[OF bs(2)]] bs(2) have
    "ds' = map (\<lambda>(i, d). d\<lparr>su_missed_count := su_missed_count d + of_bool (i \<in> set (get_unset_indices bs))\<rparr>) (enumerate 0 ds)"
    by simp
  then show ?thesis using bs(1) assms(1)
    by (simp add: book_syncs_def block_sync_misses_def list_eq_iff_nth_eq nth_enumerate_eq)
qed

lemma modify_map:
  assumes "distinct (map fst d)" "modifyR k f d = Inr d'"
  shows "d' = map (\<lambda>(s, v). (s, if s = k then f v else v)) d"
proof -
  have "distinct (map fst d) \<Longrightarrow> map_of d k = Some v \<Longrightarrow> AList.update k (f v) d = map (\<lambda>(s, v). (s, if s = k then f v else v)) d" for v
  proof (induction d)
    case (Cons x d)
    show ?case
    proof (cases "fst x = k")
      case True
      then have "map (\<lambda>(s, v). (s, if s = k then f v else v)) d = map (\<lambda>x. x) d"
        using Cons.prems(1) by (intro map_cong) (auto simp: image_iff)
      then show ?thesis using True Cons.prems by (cases x) auto
    next
      case False
      then show ?thesis using Cons by (cases x) auto
    qed
  qed simp
  then show ?thesis using assms by (auto simp: modifyR_def res_simps)
qed

lemma slot_step_blockE:
  assumes "slot_step env committees rs (s, Some r) (P, Y, M) = Inr acc"
  obtains atts bits P1 Y1 M1 where "get_block_attestations_and_sync env r = Inr (atts, bits)"
    "(if (s, Some r) \<in> set rs then bindR (modifyR s (\<lambda>d. d\<lparr>pu_is_proposed := True\<rparr>) P) (\<lambda>P.
        bindR (process_sync bits Y) (\<lambda>Y. Inr (P, Y))) else Inr (P, Y)) = Inr (P1, Y1)"
    "process_attestations atts committees M = Inr M1" "acc = (P1, Y1, M1)"
  using assms unfolding slot_step_def by (auto simp: res_simps)

text \<open>
  The loop over the slots: a block of the epoch itself counts for proposals and the sync committee, a
  block of either epoch for attestations.
\<close>

lemma slots_loop:
  assumes "foldR (slot_step env committees rs) xs (P, Y, M) = Inr (P', Y', M')" "distinct (map fst P)" "distinct M"
  shows "P' = book_proposals (filter (\<lambda>x. x \<in> set rs) xs) P \<and>
    Y' = book_syncs env (blocks_in (filter (\<lambda>x. x \<in> set rs) xs)) Y \<and>
    M' = book_attestations env committees (blocks_in xs) M"
  using assms
proof (induction xs arbitrary: P Y M)
  case Nil
  have "Y = book_syncs env [] Y" by (simp add: book_syncs_def list_eq_iff_nth_eq nth_enumerate_eq)
  with Nil show ?case by (simp add: book_proposals_def book_attestations_def blocks_in_def map_filter_simps)
next
  case (Cons x xs)
  obtain s b where x: "x = (s, b)" by fastforce
  show ?case
  proof (cases b)
    case None
    then have "foldR (slot_step env committees rs) xs (P, Y, M) = Inr (P', Y', M')"
      using Cons.prems(1) by (simp add: x slot_step_missed)
    from Cons.IH[OF this Cons.prems(2,3)] None show ?thesis
      by (simp add: x blocks_in_def map_filter_simps book_proposals_def del: set_map set_filter filter_filter)
  next
    case (Some r)
    obtain acc where acc: "slot_step env committees rs (s, Some r) (P, Y, M) = Inr acc"
      "foldR (slot_step env committees rs) xs acc = Inr (P', Y', M')"
      using Cons.prems(1) unfolding x Some foldR.simps bindR_eq_Inr by blast
    obtain atts bits P1 Y1 M1 where r: "get_block_attestations_and_sync env r = Inr (atts, bits)"
      and py: "(if x \<in> set rs then bindR (modifyR s (\<lambda>d. d\<lparr>pu_is_proposed := True\<rparr>) P) (\<lambda>P.
          bindR (process_sync bits Y) (\<lambda>Y. Inr (P, Y))) else Inr (P, Y)) = Inr (P1, Y1)"
      and m: "process_attestations atts committees M = Inr M1"
      and rest: "foldR (slot_step env committees rs) xs (P1, Y1, M1) = Inr (P', Y', M')"
      by (rule slot_step_blockE[OF acc(1)]) (use acc(2) x Some in auto)
    have M1: "M1 = book_attestations env committees [r] M"
      using attestations_booked[OF Cons.prems(3) attestations_ok_readable[OF m], of committees] m r
      by (simp add: book_attestations_def block_atts_def)
    have P1: "P1 = (if x \<in> set rs then map (\<lambda>(s', v). (s', if s' = s then v\<lparr>pu_is_proposed := True\<rparr> else v)) P else P)"
      and Y1: "Y1 = (if x \<in> set rs then book_syncs env [r] Y else Y)"
      using py process_sync_booked[OF r, of Y] modify_map[OF Cons.prems(2), of s]
      by (auto simp: res_simps split: if_splits)
    have "distinct (map fst P1)" using Cons.prems(2) P1 by (auto simp: comp_def case_prod_unfold)
    moreover have "distinct M1" using M1 Cons.prems(3) by (simp add: book_attestations_def)
    ultimately have "P' = book_proposals (filter (\<lambda>x. x \<in> set rs) xs) P1 \<and>
      Y' = book_syncs env (blocks_in (filter (\<lambda>x. x \<in> set rs) xs)) Y1 \<and>
      M' = book_attestations env committees (blocks_in xs) M1"
      using Cons.IH[OF rest] by blast
    moreover have "book_proposals (filter (\<lambda>x. x \<in> set rs) xs) P1 = book_proposals (filter (\<lambda>x. x \<in> set rs) (x # xs)) P"
      unfolding P1 x Some
      by (auto simp: book_proposals_def simp del: set_map set_filter filter_filter)
    moreover have "book_attestations env committees (blocks_in xs) M1 = book_attestations env committees (blocks_in (x # xs)) M"
      unfolding M1 x Some by (auto simp: book_attestations_def blocks_in_def map_filter_simps intro!: filter_cong)
    ultimately show ?thesis using Y1 book_syncs_Cons[of env]
      by (simp add: x Some blocks_in_def map_filter_simps)
  qed
qed

lemma prepared_proposals:
  assumes "prepare_propose_duties env e br S = Inr P"
  shows "distinct (map fst P) \<and> (\<forall>(s, d) \<in> set P. \<not> pu_is_proposed d)"
proof -
  let ?upd = "\<lambda>d. AList.update (pr_slot d) \<lparr>pu_validator_index = pr_validator_index d, pu_is_proposed = False\<rparr>"
  have "distinct (map fst P0) \<Longrightarrow> (\<forall>(s, d) \<in> set P0. \<not> pu_is_proposed d) \<Longrightarrow>
      distinct (map fst (fold ?upd duties P0)) \<and> (\<forall>(s, d) \<in> set (fold ?upd duties P0). \<not> pu_is_proposed d)" for duties P0
  proof (induction duties arbitrary: P0)
    case (Cons d duties)
    have "\<forall>(s, d) \<in> set (?upd d P0). \<not> pu_is_proposed d"
    proof
      fix x assume "x \<in> set (?upd d P0)"
      then have "x = (pr_slot d, \<lparr>pu_validator_index = pr_validator_index d, pu_is_proposed = False\<rparr>) \<or> x \<in> set P0"
        using set_update_subset by fast
      then show "case x of (s, d) \<Rightarrow> \<not> pu_is_proposed d" using Cons.prems(2) by auto
    qed
    then show ?case using Cons.IH[of "?upd d P0"] Cons.prems(1) by (simp add: distinct_update)
  qed simp
  from this[of "[]"] show ?thesis using assms by (auto simp: prepare_propose_duties_def res_simps)
qed

lemma prepared_attestations:
  assumes "prepare_attestation_duties env e = Inr (committees, members)"
  shows "\<exists>answer. get_attestation_committees env (ce_finalized env) e = Inr answer \<and> distinct members \<and>
    set members = (\<Union>c \<in> set answer. set (ac_validators c))"
proof -
  let ?step = "\<lambda>committee (committees, att_misses).
     (AList.update (ac_slot committee, ac_index committee) (ac_validators committee) committees,
      fold List.insert (ac_validators committee) att_misses)"
  have ins: "set (fold List.insert vs m) = set vs \<union> set m \<and> (distinct m \<longrightarrow> distinct (fold List.insert vs m))" for vs m :: "int list"
    by (induction vs arbitrary: m) (auto simp: distinct_insert)
  have "set (snd (fold ?step answer acc)) = (\<Union>c \<in> set answer. set (ac_validators c)) \<union> set (snd acc) \<and>
      (distinct (snd acc) \<longrightarrow> distinct (snd (fold ?step answer acc)))" for answer acc
    by (induction answer arbitrary: acc) (auto simp: ins split: prod.splits)
  note all = this
  obtain answer where a: "get_attestation_committees env (ce_finalized env) e = Inr answer"
    "fold ?step answer ([], []) = (committees, members)"
    using assms by (auto simp: prepare_attestation_duties_def res_simps)
  from all[of answer "([], [])"] show ?thesis unfolding a(2) using a(1) by simp
qed

lemma prepare_sync_db: "prepare_sync_committee_duties env e s = (r, s') \<Longrightarrow> co_db s' = co_db s"
  by (auto simp: prepare_sync_committee_duties_def bindA_def returnA_def get_sync_committee_def Let_def
      split: prod.splits sum.splits option.splits)

lemma check_dutiesE:
  assumes "check_duties env br S e dr nr s = (Inr (), s')"
  obtains P committees members sync0 s1 P' Y' M'
  where "prepare_propose_duties env e br S = Inr P" "prepare_attestation_duties env e = Inr (committees, members)"
    "prepare_sync_committee_duties env e s = (Inr sync0, s1)"
    "foldR (slot_step env committees dr) (dr @ nr) (P, sync0, members) = Inr (P', Y', M')"
    "int (length P') \<le> slots_per_epoch (ce_chain env)" "int (length Y') \<le> SYNC_COMMITTEE_SIZE"
    "store_row e M' (map snd P') Y' s1 = (Inr (), s')"
  using assms unfolding check_duties_def
  by (elim bindA_cases) (auto split: prod.splits if_splits elim!: bindA_cases)

lemma epoch_slots_member: "wf_chain c \<Longrightarrow> s \<in> set (slots_of_epoch c e) \<longleftrightarrow> get_epoch_by_slot c s = e"
  using epochs.idx_unique[of c s e] by (auto simp: slots_of_epoch_def get_epoch_last_slot_eq)

lemma honest_epoch_roots:
  assumes "wf_chain c" "exact_roots B S br" "covers c S e" "0 \<le> e"
  shows "select_block_roots c br e S =
    Inr (map (\<lambda>s. (s, roots_of B s)) (slots_of_epoch c e), map (\<lambda>s. (s, roots_of B s)) (slots_of_epoch c (e + 1)))"
proof (rule select_block_roots_by[OF assms(1)])
  fix s assume s: "get_epoch_first_slot c e \<le> s" "s \<le> get_epoch_last_slot c (e + 1)"
  have "0 \<le> get_epoch_first_slot c e" using assms(1,4) by (simp add: get_epoch_first_slot_def wf_chain_def)
  then show "select_block_root_by_slot br S s = Inr (roots_of B s)"
    using s assms(2,3) by (simp add: exact_roots_def covers_def)
qed

definition epoch_blocks :: "chain_config \<Rightarrow> (slot \<Rightarrow> header option) \<Rightarrow> epoch \<Rightarrow> hexstr list" where
  "epoch_blocks c B e = List.map_filter (roots_of B) (slots_of_epoch c e)"

lemma blocks_in_epoch: "blocks_in (map (\<lambda>s. (s, roots_of B s)) ss) = List.map_filter (roots_of B) ss"
  by (induction ss) (auto simp: blocks_in_def map_filter_simps split: option.splits)

lemma blocks_in_append: "blocks_in (xs @ ys) = blocks_in xs @ blocks_in ys"
  by (induction xs) (auto simp: blocks_in_def map_filter_simps split: option.splits)

text \<open>
  C28. The row written for an epoch is what the chain shows: a proposal duty counts as done exactly when
  its slot lies in the epoch and holds a block; a committee member is listed as missing exactly when no
  attestation in a block of the epoch or of the next one has its bit set, in the sense of the
  specification's attesting indices; and each seat of the sync committee is charged with the blocks of
  the epoch whose sync aggregate leaves its bit unset.
\<close>

theorem epoch_row_exact:
  assumes "wf_chain (ce_chain env)" and "honest_state env B S" and "0 \<le> S" and "0 \<le> e" and "covers (ce_chain env) S e"
    and "get_block_roots env S = Inr br" and "select_block_roots (ce_chain env) br e S = Inr (dr, nr)"
    and "check_duties env br S e dr nr s = (Inr (), s')"
  shows "\<exists>P answer committees members sync0 s1.
    prepare_propose_duties env e br S = Inr P \<and>
    get_attestation_committees env (ce_finalized env) e = Inr answer \<and>
    prepare_attestation_duties env e = Inr (committees, members) \<and>
    set members = (\<Union>c \<in> set answer. set (ac_validators c)) \<and>
    prepare_sync_committee_duties env e s = (Inr sync0, s1) \<and>
    store_epoch e
      (filter (\<lambda>v. \<not> (\<exists>r \<in> set (epoch_blocks (ce_chain env) B e @ epoch_blocks (ce_chain env) B (e + 1)).
          \<exists>a \<in> set (block_atts env r). v \<in> set (attesting_indices committees a))) members)
      (map (\<lambda>(x, d). d\<lparr>pu_is_proposed := get_epoch_by_slot (ce_chain env) x = e \<and> B x \<noteq> None\<rparr>) P)
      (book_syncs env (epoch_blocks (ce_chain env) B e) sync0) (co_db s) = (Inr (), co_db s')"
proof -
  let ?c = "ce_chain env"
  let ?dr = "map (\<lambda>s. (s, roots_of B s)) (slots_of_epoch ?c e)" and ?nr = "map (\<lambda>s. (s, roots_of B s)) (slots_of_epoch ?c (e + 1))"
  have "exact_roots B S br" using block_roots_of_honest[OF assms(2,3)] assms(6) by auto
  then have rs: "dr = ?dr" "nr = ?nr" using honest_epoch_roots[OF assms(1) _ assms(5,4)] assms(7) by auto
  obtain P committees members sync0 s1 P' Y' M' where c: "prepare_propose_duties env e br S = Inr P"
    "prepare_attestation_duties env e = Inr (committees, members)"
    "prepare_sync_committee_duties env e s = (Inr sync0, s1)"
    "foldR (slot_step env committees dr) (dr @ nr) (P, sync0, members) = Inr (P', Y', M')"
    "store_row e M' (map snd P') Y' s1 = (Inr (), s')" using check_dutiesE[OF assms(8)] by metis
  note P = prepared_proposals[OF c(1)]
  obtain answer where a: "get_attestation_committees env (ce_finalized env) e = Inr answer" "distinct members"
    "set members = (\<Union>c \<in> set answer. set (ac_validators c))" using prepared_attestations[OF c(2)] by blast
  have "x \<notin> set dr" if "x \<in> set nr" for x
    using that epoch_slots_member[OF assms(1)] by (auto simp: rs)
  then have own: "filter (\<lambda>x. x \<in> set dr) (dr @ nr) = dr" by (simp add: filter_empty_conv)
  note loop = slots_loop[OF c(4) conjunct1[OF P] a(2), unfolded own]
  have "fst ` {x \<in> set dr. snd x \<noteq> None} = {x. get_epoch_by_slot ?c x = e \<and> B x \<noteq> None}"
    using epoch_slots_member[OF assms(1)] by (auto simp: rs roots_of_def image_iff)
  then have props: "map snd P' = map (\<lambda>(x, d). d\<lparr>pu_is_proposed := get_epoch_by_slot ?c x = e \<and> B x \<noteq> None\<rparr>) P"
    using loop P by (auto simp: book_proposals_def)
  have syncs: "Y' = book_syncs env (epoch_blocks ?c B e) sync0"
    using loop by (simp add: rs blocks_in_epoch epoch_blocks_def)
  have misses: "M' = filter (\<lambda>v. \<not> (\<exists>r \<in> set (epoch_blocks ?c B e @ epoch_blocks ?c B (e + 1)).
          \<exists>a \<in> set (block_atts env r). v \<in> set (attesting_indices committees a))) members"
    using loop by (simp add: rs book_attestations_def epoch_blocks_def blocks_in_epoch blocks_in_append)
  have "store_epoch e M' (map snd P') Y' (co_db s) = (Inr (), co_db s')"
    using c(5) prepare_sync_db[OF c(3)] by (auto simp: store_row_def split: prod.splits)
  from this[unfolded props syncs misses] show ?thesis
    by (intro exI[of _ P] exI[of _ answer] exI[of _ committees] exI[of _ members] exI[of _ sync0] exI[of _ s1] conjI c(1-3) a(1,3))
qed

section \<open>What a checkpoint leaves in the database\<close>

text \<open>
  An epoch is kept when it is stored, or when it has left the retention window of the newest stored one.
  \<open>grows\<close> is what every check does to the database: nothing kept is lost, and no row outside \<open>es\<close>
  changes while it stays.
\<close>

definition kept :: "int \<Rightarrow> duties_db \<Rightarrow> epoch \<Rightarrow> bool" where
  "kept retention db e \<longleftrightarrow> has_epoch e db \<or> (\<exists>newest. has_epoch newest db \<and> e \<le> newest - retention)"

definition grows :: "int \<Rightarrow> epoch set \<Rightarrow> duties_db \<Rightarrow> duties_db \<Rightarrow> bool" where
  "grows retention es db db' \<longleftrightarrow> wf_duties db' \<and> db_settings db' = db_settings db \<and> db_demands db' = db_demands db \<and>
     (\<forall>x. kept retention db x \<longrightarrow> kept retention db' x) \<and>
     (\<forall>x. has_epoch x db' \<longrightarrow> x \<in> es \<or> get_epoch_data x db' = get_epoch_data x db)"

lemma grows_refl: "wf_duties db \<Longrightarrow> grows retention es db db"
  by (simp add: grows_def)

lemma grows_mono: "grows retention es db db' \<Longrightarrow> es \<subseteq> fs \<Longrightarrow> grows retention fs db db'"
  by (auto simp: grows_def)

lemma has_epoch_data: "has_epoch e db \<longleftrightarrow> get_epoch_data e db \<noteq> None"
  by (simp add: has_epoch_def get_epoch_data_def map_of_eq_None_iff image_iff)

lemma grows_trans:
  assumes "grows retention es db db'" "grows retention es db' db''"
  shows "grows retention es db db''"
proof -
  have "x \<in> es \<or> get_epoch_data x db'' = get_epoch_data x db" if "has_epoch x db''" for x
    using assms that unfolding grows_def has_epoch_data by metis
  then show ?thesis using assms unfolding grows_def by simp
qed

lemma get_retention_positive: "get_retention_epochs db = Inr retention \<Longrightarrow> 0 < retention"
  by (auto simp: get_retention_epochs_def split: option.splits setting_value.splits if_splits)

lemma get_retention_settings: "db_settings db' = db_settings db \<Longrightarrow> get_retention_epochs db' = get_retention_epochs db"
  by (simp add: get_retention_epochs_def)

lemma store_epoch_fields:
  assumes "store_epoch e a p y db = (r, db')"
  shows "db_settings db' = db_settings db \<and> db_demands db' = db_demands db"
  using assms by (auto simp: store_epoch_def Let_def prune_def store_data_def res_simps bindR_case
      split: sum.splits if_splits option.splits)

lemma store_epoch_grows:
  assumes "wf_duties db" "0 \<le> e" "get_retention_epochs db = Inr retention" "store_epoch e a p y db = (r, db')"
  shows "r = Inr () \<and> grows retention {e} db db' \<and> kept retention db' e"
proof -
  let ?keys = "insert e (set (map fst (db_duties db)))"
  let ?new = "Max ?keys"
  have row: "r = Inr ()" "wf_duties db'" "\<And>x. get_epoch_data x db' =
      (if ?new - retention < x then get_epoch_data x (store_data e a p y db) else None)"
    using store_epoch_row[OF assms] by blast+
  have data: "get_epoch_data x (store_data e a p y db) = get_epoch_data x db" if "x \<noteq> e" for x
    using that by (simp add: get_epoch_data_def store_data_def map_of_update_iff)
  have key: "has_epoch x (store_data e a p y db) \<longleftrightarrow> x \<in> ?keys" for x
    using keys_store_data[of e a p y db] by (simp add: has_epoch_def)
  then have has: "has_epoch x db' \<longleftrightarrow> x \<in> ?keys \<and> ?new - retention < x" for x
    unfolding has_epoch_data row(3) by (auto simp: has_epoch_data)
  have "?new \<in> ?keys" by (intro Max_in) auto
  then have new: "has_epoch ?new db'" using has get_retention_positive[OF assms(3)] by auto
  have ins: "kept retention db' x" if "x \<in> ?keys \<or> (\<exists>n \<in> ?keys. x \<le> n - retention)" for x
  proof (cases "x \<le> ?new - retention")
    case True
    then show ?thesis using new unfolding kept_def by blast
  next
    case False
    have le: "n \<le> ?new" if "n \<in> ?keys" for n using that by (intro Max_ge) auto
    have "\<not> x \<le> n - retention" if "n \<in> ?keys" for n using le[OF that] False by linarith
    then have "x \<in> ?keys" using \<open>x \<in> ?keys \<or> (\<exists>n \<in> ?keys. x \<le> n - retention)\<close> by blast
    then show ?thesis using False has unfolding kept_def by auto
  qed
  have "kept retention db' x" if "kept retention db x" for x
    using that ins[of x] unfolding kept_def has_epoch_def by blast
  moreover have "x \<in> {e} \<or> get_epoch_data x db' = get_epoch_data x db" if "has_epoch x db'" for x
    using that has row(3)[of x] data[of x] by auto
  ultimately show ?thesis using row(1,2) ins[of e] store_epoch_fields[OF assms(4)] by (simp add: grows_def)
qed

lemma check_duties_grows:
  assumes "wf_duties (co_db s)" "0 \<le> e" "get_retention_epochs (co_db s) = Inr retention"
    and "check_duties env br S e dr nr s = (r, s')"
  shows "grows retention {e} (co_db s) (co_db s') \<and> (r = Inr () \<longrightarrow> kept retention (co_db s') e)"
proof -
  consider "co_db s' = co_db s" "r \<noteq> Inr ()"
    | a p y s1 where "co_db s1 = co_db s" "store_row e a p y s1 = (r, s')"
    using assms(4) unfolding check_duties_def
    by (elim bindA_cases) (auto split: prod.splits if_splits elim!: bindA_cases dest!: prepare_sync_db)
  then show ?thesis
  proof cases
    case 1
    then show ?thesis using grows_refl[OF assms(1)] by simp
  next
    case 2
    then have "store_epoch e a p y (co_db s) = (r, co_db s')" by (auto simp: store_row_def split: prod.splits)
    then show ?thesis using store_epoch_grows[OF assms(1-3)] by blast
  qed
qed

lemma process_epochs_grows:
  assumes "wf_duties (co_db s)" "get_retention_epochs (co_db s) = Inr retention" "\<forall>e \<in> set (ce_schedule env es). 0 \<le> e"
    and "process_epochs env br S es roots s = (r, s')"
  shows "grows retention (set (ce_schedule env es)) (co_db s) (co_db s') \<and>
    (r = Inr () \<longrightarrow> (\<forall>e \<in> set (ce_schedule env es). kept retention (co_db s') e))"
proof -
  let ?check = "\<lambda>e. bindA (liftA (lookupR roots e)) (\<lambda>(duty_roots, next_roots). check_duties env br S e duty_roots next_roots)"
  let ?step = "\<lambda>e (failed, s). case ?check e s of (Inl _, s) \<Rightarrow> (True, s) | (Inr _, s) \<Rightarrow> (failed, s)"
  have one: "grows retention {e} (co_db t) (co_db t') \<and> (c = Inr () \<longrightarrow> kept retention (co_db t') e)"
    if "?check e t = (c, t')" "wf_duties (co_db t)" "get_retention_epochs (co_db t) = Inr retention" "0 \<le> e" for e t c t'
  proof (cases "lookupR roots e")
    case (Inl err)
    then show ?thesis using that(1) grows_refl[OF that(2)] by (auto simp: bindA_def liftA_def)
  next
    case (Inr x)
    then show ?thesis using that check_duties_grows[OF that(2,4,3)] by (cases x) simp
  qed
  have "wf_duties (co_db t) \<Longrightarrow> get_retention_epochs (co_db t) = Inr retention \<Longrightarrow> \<forall>e \<in> set xs. 0 \<le> e \<Longrightarrow>
     fold ?step xs (failed, t) = (failed', t') \<Longrightarrow>
     grows retention (set xs) (co_db t) (co_db t') \<and> (failed \<longrightarrow> failed') \<and>
     (\<not> failed' \<longrightarrow> (\<forall>e \<in> set xs. kept retention (co_db t') e))" for xs failed failed' t t'
  proof (induction xs arbitrary: failed t)
    case Nil
    then show ?case using grows_refl by simp
  next
    case (Cons e xs)
    obtain c t1 where c: "?check e t = (c, t1)" by fastforce
    have g: "grows retention {e} (co_db t) (co_db t1)" "c = Inr () \<longrightarrow> kept retention (co_db t1) e"
      using one[OF c Cons.prems(1,2)] Cons.prems(3) by auto
    define f1 where "f1 = (case c of Inl _ \<Rightarrow> True | Inr _ \<Rightarrow> failed)"
    have rest: "fold ?step xs (f1, t1) = (failed', t')"
      using Cons.prems(4) c by (simp add: f1_def split: sum.splits)
    have ret: "get_retention_epochs (co_db t1) = Inr retention"
      using get_retention_settings[of "co_db t1" "co_db t"] g(1) Cons.prems(2) by (simp add: grows_def)
    have ih: "grows retention (set xs) (co_db t1) (co_db t')" "f1 \<longrightarrow> failed'"
      "\<not> failed' \<longrightarrow> (\<forall>e \<in> set xs. kept retention (co_db t') e)"
      using Cons.IH[OF _ ret _ rest] g(1) Cons.prems(3) by (auto simp: grows_def)
    have "grows retention (set (e # xs)) (co_db t) (co_db t')"
      by (rule grows_trans[OF grows_mono[OF g(1)] grows_mono[OF ih(1)]]) auto
    moreover have "kept retention (co_db t') e" if "\<not> failed'"
      using that ih(1,2) g(2) by (auto simp: f1_def grows_def split: sum.splits)
    ultimately show ?case using ih by (auto simp: f1_def split: sum.splits)
  qed
  note all = this
  obtain failed t where f: "fold ?step (ce_schedule env es) (False, s) = (failed, t)" by fastforce
  have "r = (if failed then Inl SystemExit else Inr ())" "s' = t"
    using assms(4) unfolding process_epochs_def f by simp_all
  then show ?thesis using all[OF assms(1-3) f] by auto
qed

definition fair_schedule :: "collector_env \<Rightarrow> bool" where
  "fair_schedule env \<longleftrightarrow> (\<forall>es. mset (ce_schedule env es) = mset es)"

lemma checkpoint_effect:
  assumes "wf_duties (co_db s)" and "get_retention_epochs (co_db s) = Inr retention"
    and "\<forall>e \<in> set (fc_duty_epochs cp). 0 \<le> e" and "fair_schedule env"
    and "exec_checkpoint env cp s = (r, s')"
  shows "grows retention {e \<in> set (fc_duty_epochs cp). \<not> has_epoch e (co_db s)} (co_db s) (co_db s') \<and>
    (\<forall>n. r = Inr n \<longrightarrow> n = length (filter (\<lambda>e. \<not> has_epoch e (co_db s)) (fc_duty_epochs cp)) \<and>
      (\<forall>e \<in> set (fc_duty_epochs cp). kept retention (co_db s') e))"
proof -
  let ?es = "filter (\<lambda>e. \<not> has_epoch e (co_db s)) (fc_duty_epochs cp)"
  have sched: "set (ce_schedule env ?es) = set ?es"
    using assms(4) unfolding fair_schedule_def by (metis set_mset_mset)
  have old: "kept retention (co_db t) e" if "grows retention F (co_db s) (co_db t)" "has_epoch e (co_db s)" for t e F
    using that by (auto simp: grows_def kept_def)
  show ?thesis
  proof (cases "?es = []")
    case True
    then show ?thesis using assms(5) grows_refl[OF assms(1)]
      by (auto simp: exec_checkpoint_def filter_empty_conv kept_def)
  next
    case False
    consider e where "r = Inl e" "s' = s"
      | br roots u where "process_epochs env br (fc_slot cp) ?es roots s = (u, s')"
        "r = (case u of Inl e \<Rightarrow> Inl e | Inr _ \<Rightarrow> Inr (length ?es))"
      using assms(5) False unfolding exec_checkpoint_def Let_def
      by (auto elim!: bindA_cases simp: returnA_def liftA_def)
    then show ?thesis
    proof cases
      case 1
      then show ?thesis using grows_refl[OF assms(1)] by simp
    next
      case 2
      have "\<forall>e \<in> set (ce_schedule env ?es). 0 \<le> e" using sched assms(3) by simp
      from process_epochs_grows[OF assms(1,2) this 2(1)] show ?thesis
        using 2(2) old unfolding sched by (auto split: sum.splits)
    qed
  qed
qed


definition cp_start :: "(string \<times> epochs_demand) list \<Rightarrow> collector" where
  "cp_start demands = \<lparr>co_db = \<lparr>db_duties = [], db_demands = demands, db_settings = [(RETENTION_EPOCHS_KEY, SettingInt 10)]\<rparr>,
     co_sync_cache = []\<rparr>"

definition cp_rows :: "slot list \<Rightarrow> slot_block_root list" where
  "cp_rows = map (\<lambda>s. (s, roots_of cp_chain s))"

lemma cp_roots:
  "\<exists>br. get_block_roots cp_env 6 = Inr br \<and> exact_roots cp_chain 6 br \<and>
     select_block_roots (ce_chain cp_env) br 1 6 = Inr (cp_rows [2, 3], cp_rows [4, 5]) \<and>
     get_dependent_root cp_env 1 br 6 = Inr (cp_root 1)"
proof -
  obtain br where br: "get_block_roots cp_env 6 = Inr br" "exact_roots cp_chain 6 br"
    using block_roots_of_honest[OF cp_honest_state] by auto
  have c: "wf_chain (ce_chain cp_env)" "covers (ce_chain cp_env) 6 1"
    "slots_of_epoch (ce_chain cp_env) 1 = [2, 3]" "slots_of_epoch (ce_chain cp_env) 2 = [4, 5]"
    "get_epoch_last_slot (ce_chain cp_env) (1 - 1) = 1" by code_simp+
  have "select_block_root_by_slot br 6 1 = Inr (Some (cp_root 1))"
    using br(2) by (simp add: exact_roots_def roots_of_def cp_chain_def constants_defs)
  then have "get_dependent_root cp_env 1 br 6 = Inr (cp_root 1)"
    unfolding get_dependent_root_def c(5) by (simp add: find_dependent_root.simps[of br 6 1] cp_root_def)
  then show ?thesis
    using br honest_epoch_roots[OF c(1) br(2) c(2)] c(3,4) by (auto simp: cp_rows_def)
qed

lemma cp_check:
  assumes "get_dependent_root cp_env 1 br 6 = Inr (cp_root 1)"
  shows "\<exists>s'. check_duties cp_env br 6 1 (cp_rows [2, 3]) (cp_rows [4, 5]) (cp_start demands) = (Inr (), s') \<and>
    get_epoch_data 1 (co_db s') = Some \<lparr>du_epoch = 1, du_missed_attestation_vids = [11], du_proposals_vids = [20, 21],
      du_proposals_flags = [False, True], du_syncs_vids = [30, 31, 32, 33, 34, 35, 36, 37],
      du_syncs_misses = [0, 0, 0, 0, 0, 0, 0, 1]\<rparr>"
proof -
  have p: "prepare_propose_duties cp_env 1 br 6 = Inr [(2, \<lparr>pu_validator_index = 20, pu_is_proposed = False\<rparr>),
      (3, \<lparr>pu_validator_index = 21, pu_is_proposed = False\<rparr>)]"
    unfolding prepare_propose_duties_def assms by (simp add: cp_env_def)
  let ?committees = "[((2, 0), [10, 11]), ((3, 0), [12, 13])]"
  have a: "prepare_attestation_duties cp_env 1 = Inr (?committees, [13, 12, 11, 10])" by code_simp
  have y: "prepare_sync_committee_duties cp_env 1 (cp_start demands) =
      (Inr (map (\<lambda>v. \<lparr>su_validator_index = v, su_missed_count = 0\<rparr>) [30, 31, 32, 33, 34, 35, 36, 37]),
       (cp_start demands)\<lparr>co_sync_cache := [(0, [30, 31, 32, 33, 34, 35, 36, 37])]\<rparr>)" by code_simp
  have l: "foldR (slot_step cp_env ?committees (cp_rows [2, 3])) (cp_rows [2, 3] @ cp_rows [4, 5])
      ([(2, \<lparr>pu_validator_index = 20, pu_is_proposed = False\<rparr>), (3, \<lparr>pu_validator_index = 21, pu_is_proposed = False\<rparr>)],
       map (\<lambda>v. \<lparr>su_validator_index = v, su_missed_count = 0\<rparr>) [30, 31, 32, 33, 34, 35, 36, 37], [13, 12, 11, 10]) =
    Inr ([(2, \<lparr>pu_validator_index = 20, pu_is_proposed = False\<rparr>), (3, \<lparr>pu_validator_index = 21, pu_is_proposed = True\<rparr>)],
      map (\<lambda>v. \<lparr>su_validator_index = v, su_missed_count = 0\<rparr>) [30, 31, 32, 33, 34, 35, 36] @
        [\<lparr>su_validator_index = 37, su_missed_count = 1\<rparr>], [11])" by code_simp
  show ?thesis
    unfolding check_duties_def bindA_def liftA_def p a y sum.case prod.case l
    by (simp add: store_row_def store_epoch_def store_data_def prune_def get_retention_epochs_def cp_start_def
        max_epoch_def get_epoch_data_def cp_env_def SYNC_COMMITTEE_SIZE_def Let_def)
qed

theorem epoch_row_exact_witness:
  "\<exists>br (s' :: collector). get_block_roots cp_env 6 = Inr br \<and>
    get_epoch_data 1 (co_db s') = Some \<lparr>du_epoch = 1, du_missed_attestation_vids = [11], du_proposals_vids = [20, 21],
      du_proposals_flags = [False, True], du_syncs_vids = [30, 31, 32, 33, 34, 35, 36, 37],
      du_syncs_misses = [0, 0, 0, 0, 0, 0, 0, 1]\<rparr> \<and>
    (\<exists>P members committees sync0. store_epoch 1 (filter (\<lambda>v. \<not> (\<exists>r \<in> set (epoch_blocks (ce_chain cp_env) cp_chain 1 @ epoch_blocks (ce_chain cp_env) cp_chain 2).
          \<exists>a \<in> set (block_atts cp_env r). v \<in> set (attesting_indices committees a))) members)
      (map (\<lambda>(x, d). d\<lparr>pu_is_proposed := get_epoch_by_slot (ce_chain cp_env) x = 1 \<and> cp_chain x \<noteq> None\<rparr>) P)
      (book_syncs cp_env (epoch_blocks (ce_chain cp_env) cp_chain 1) sync0) (co_db (cp_start [])) = (Inr (), co_db s'))"
proof -
  obtain br where br: "get_block_roots cp_env 6 = Inr br"
    "select_block_roots (ce_chain cp_env) br 1 6 = Inr (cp_rows [2, 3], cp_rows [4, 5])"
    "get_dependent_root cp_env 1 br 6 = Inr (cp_root 1)" using cp_roots by blast
  obtain s' where s': "check_duties cp_env br 6 1 (cp_rows [2, 3]) (cp_rows [4, 5]) (cp_start []) = (Inr (), s')"
    "get_epoch_data 1 (co_db s') = Some \<lparr>du_epoch = 1, du_missed_attestation_vids = [11], du_proposals_vids = [20, 21],
      du_proposals_flags = [False, True], du_syncs_vids = [30, 31, 32, 33, 34, 35, 36, 37],
      du_syncs_misses = [0, 0, 0, 0, 0, 0, 0, 1]\<rparr>" using cp_check[OF br(3), of "[]"] by blast
  have c: "wf_chain (ce_chain cp_env)" "covers (ce_chain cp_env) 6 1" by code_simp+
  have n: "0 \<le> (6::int)" "0 \<le> (1::int)" "(1::int) + 1 = 2" by simp_all
  from epoch_row_exact[OF c(1) cp_honest_state n(1,2) c(2) br(1,2) s'(1), unfolded n(3)]
  show ?thesis
    by (intro exI[of _ br] exI[of _ s'] conjI br(1) s'(2)) (elim exE conjE, intro exI, assumption)
qed

lemma cp_exec: "\<exists>s'. exec_checkpoint cp_env \<lparr>fc_slot = 6, fc_duty_epochs = [1]\<rparr> (cp_start demands) = (Inr 1, s')"
proof -
  obtain br where br: "get_block_roots cp_env 6 = Inr br"
    "select_block_roots (ce_chain cp_env) br 1 6 = Inr (cp_rows [2, 3], cp_rows [4, 5])"
    "get_dependent_root cp_env 1 br 6 = Inr (cp_root 1)" using cp_roots by blast
  obtain s' where s': "check_duties cp_env br 6 1 (cp_rows [2, 3]) (cp_rows [4, 5]) (cp_start demands) = (Inr (), s')"
    using cp_check[OF br(3)] by blast
  have sch: "ce_schedule cp_env = rev" by (simp add: cp_env_def)
  have new: "filter (\<lambda>e. \<not> has_epoch e (co_db (cp_start demands))) [1] = [1]"
    by (simp add: cp_start_def has_epoch_def)
  have "exec_checkpoint cp_env \<lparr>fc_slot = 6, fc_duty_epochs = [1]\<rparr> (cp_start demands) = (Inr 1, s')"
    unfolding exec_checkpoint_def frame_checkpoint.simps new Let_def
    using br s' by (simp add: bindA_def liftA_def returnA_def process_epochs_def sch lookupR_def)
  then show ?thesis by blast
qed


end
