(* ===== verification/Web_Server.thy ===== *)
theory Web_Server
  imports Duties_DB
begin

text \<open>
  \<open>src/modules/sidecars/performance/web/server.py\<close> and \<open>validation.py\<close>: the HTTP interface of the
  performance database. A request is a constructor with the parameters of its route, an answer a JSON
  value or a status with the exception behind it; FastAPI turns a failed validation of the parameters
  into 422 and an exception the handler lets through into 500. Routing, middleware and the health check
  are the framework's.
\<close>

section \<open>Validation\<close>

definition PG_INTEGER_MAX :: int where "PG_INTEGER_MAX = 2147483647"

definition py_space :: "char \<Rightarrow> bool" where
  \<comment> \<open>what \<open>str.strip\<close> removes, for the characters a HOL string has\<close>
  "py_space c = (let n = of_char c :: int in n \<in> {9, 10, 11, 12, 13, 28, 29, 30, 31, 32, 133, 160})"

definition valid_consumer :: "string \<Rightarrow> bool" where
  "valid_consumer s \<longleftrightarrow> 1 \<le> length s \<and> length s \<le> 255 \<and> dropWhile py_space s \<noteq> []"

definition valid_epoch :: "epoch \<Rightarrow> bool" where
  "valid_epoch e \<longleftrightarrow> \<not> e < 0 \<and> \<not> e > PG_INTEGER_MAX"

definition valid_epoch_range :: "epoch \<Rightarrow> epoch \<Rightarrow> bool" where
  "valid_epoch_range from_epoch to_epoch \<longleftrightarrow> valid_epoch from_epoch \<and> valid_epoch to_epoch \<and> \<not> from_epoch > to_epoch"

definition valid_limited_range :: "int \<Rightarrow> epoch \<Rightarrow> epoch \<Rightarrow> bool" where
  "valid_limited_range max_range from_epoch to_epoch \<longleftrightarrow>
     valid_epoch_range from_epoch to_epoch \<and> \<not> to_epoch - from_epoch + 1 > max_range"

definition valid_demand :: "epochs_demand \<Rightarrow> bool" where
  \<comment> \<open>\<open>EpochsDemandParam\<close> on the way in, \<open>EpochsDemandResponse\<close> on the way out\<close>
  "valid_demand d \<longleftrightarrow> valid_consumer (dm_consumer d) \<and> valid_epoch_range (dm_from_epoch d) (dm_to_epoch d)"

section \<open>Requests and answers\<close>

datatype request =
    EpochsCheck epoch epoch | EpochsMissing epoch epoch | EpochsData epoch epoch | StoredEpochsCount epoch epoch
  | EpochData epoch | EpochsDemands | OneEpochsDemand string | SetEpochsDemand string epoch epoch
  | DeleteEpochsDemand string | GetRetentionEpochs | SetRetentionEpochs int

datatype http_error = HTTPException int | InternalError pyerr | GapsInRange "epoch list"

datatype answer =
    ABool bool | AEpochs "epoch list" | ADuties "duty list" | ACount int | ADuty "duty option"
  | ADemands "epochs_demand list" | ADemand "epochs_demand option" | ARetention int

type_synonym reply = "http_error + answer"

definition internal :: "('a \<Rightarrow> answer) \<Rightarrow> 'a res \<Rightarrow> reply" where
  "internal f r = (case r of Inl e \<Rightarrow> Inl (InternalError e) | Inr a \<Rightarrow> Inr (f a))"

definition checked :: "bool \<Rightarrow> reply \<Rightarrow> reply" where
  "checked ok r = (if ok then r else Inl (HTTPException 422))"

definition demand_reply :: "epochs_demand \<Rightarrow> reply" where
  \<comment> \<open>\<open>response_model\<close> validates what is sent\<close>
  "demand_reply d = (if valid_demand d then Inr (ADemand (Some d)) else Inl (InternalError ValueError))"

definition epochs_data :: "epoch \<Rightarrow> epoch \<Rightarrow> duties_db \<Rightarrow> reply" where
  "epochs_data from_epoch to_epoch db =
     (case get_complete_epochs_data from_epoch to_epoch db of
        Inr duties \<Rightarrow> Inr (ADuties duties)
      | Inl (IncompleteEpochRange missing) \<Rightarrow> Inl (GapsInRange missing)
      | Inl e \<Rightarrow> Inl (InternalError e))"

definition epochs_demands :: "duties_db \<Rightarrow> reply" where
  "epochs_demands db =
     (if list_all valid_demand (get_epochs_demands db) then Inr (ADemands (get_epochs_demands db))
      else Inl (InternalError ValueError))"

definition set_epochs_demand :: "int \<Rightarrow> string \<Rightarrow> epoch \<Rightarrow> epoch \<Rightarrow> duties_db \<Rightarrow> reply \<times> duties_db" where
  "set_epochs_demand now consumer from_epoch to_epoch db =
     (case get_retention_epochs db of
        Inl e \<Rightarrow> (Inl (InternalError e), db)
      | Inr retention \<Rightarrow>
          let demand_span = to_epoch - from_epoch + 1 in
          if demand_span > retention then (Inl (HTTPException 422), db)
          else if (case max_epoch db of
                     None \<Rightarrow> False
                   | Some max_stored_epoch \<Rightarrow>
                       let min_epoch_to_keep = max_stored_epoch - retention + 1
                       in min_epoch_to_keep > 0 \<and> from_epoch < min_epoch_to_keep)
               then (Inl (HTTPException 422), db)
          else
            let db = store_demand now consumer from_epoch to_epoch db
            in (case get_epochs_demand consumer db of None \<Rightarrow> Inl (InternalError KeyError) | Some d \<Rightarrow> demand_reply d, db))"

definition delete_epochs_demand :: "string \<Rightarrow> duties_db \<Rightarrow> reply \<times> duties_db" where
  "delete_epochs_demand consumer db =
     (case get_epochs_demand consumer db of
        None \<Rightarrow> (Inl (HTTPException 404), db)
      | Some to_delete \<Rightarrow> (demand_reply to_delete, delete_demand to_delete db))"

text \<open>One request: \<open>max_range\<close> is the configured limit, \<open>now\<close> the clock.\<close>

definition handle :: "int \<Rightarrow> int \<Rightarrow> request \<Rightarrow> duties_db \<Rightarrow> reply \<times> duties_db" where
  "handle max_range now r db =
     (case r of
        EpochsCheck a b \<Rightarrow> (checked (valid_epoch_range a b) (internal ABool (is_range_available a b db)), db)
      | EpochsMissing a b \<Rightarrow> (checked (valid_limited_range max_range a b) (internal AEpochs (missing_epochs_in a b db)), db)
      | EpochsData a b \<Rightarrow> (checked (valid_limited_range max_range a b) (epochs_data a b db), db)
      | StoredEpochsCount a b \<Rightarrow> (checked (valid_epoch_range a b) (internal ACount (count_stored_epochs_in_range a b db)), db)
      | EpochData e \<Rightarrow> (checked (valid_epoch e) (Inr (ADuty (get_epoch_data e db))), db)
      | EpochsDemands \<Rightarrow> (epochs_demands db, db)
      | OneEpochsDemand consumer \<Rightarrow>
          (checked (valid_consumer consumer)
             (case get_epochs_demand consumer db of None \<Rightarrow> Inr (ADemand None) | Some d \<Rightarrow> demand_reply d), db)
      | SetEpochsDemand consumer a b \<Rightarrow>
          if valid_consumer consumer \<and> valid_epoch_range a b then set_epochs_demand now consumer a b db
          else (Inl (HTTPException 422), db)
      | DeleteEpochsDemand consumer \<Rightarrow>
          if valid_consumer consumer then delete_epochs_demand consumer db else (Inl (HTTPException 422), db)
      | GetRetentionEpochs \<Rightarrow> (internal ARetention (get_retention_epochs db), db)
      | SetRetentionEpochs n \<Rightarrow>
          if \<not> n > 0 then (Inl (HTTPException 422), db)
          else (case set_retention_epochs n db of
                  Inl e \<Rightarrow> (Inl (InternalError e), db)
                | Inr db \<Rightarrow> (Inr (ARetention n), db)))"

section \<open>The store stays well formed\<close>

text \<open>
  \<open>wf_store\<close>: primary keys are unique and name their rows, no negative epoch is stored, every demand is
  one the interface accepts, and the retention is a positive number.
\<close>

definition wf_store :: "duties_db \<Rightarrow> bool" where
  "wf_store db \<longleftrightarrow> wf_duties db \<and> distinct (map fst (db_demands db)) \<and>
     (\<forall>(consumer, d) \<in> set (db_demands db). dm_consumer d = consumer \<and> valid_demand d) \<and>
     is_ok (get_retention_epochs db)"

lemma wf_store_demand:
  assumes "wf_store db" "valid_consumer consumer" "valid_epoch_range a b"
  shows "wf_store (store_demand now consumer a b db)"
proof -
  let ?d = "\<lparr>dm_consumer = consumer, dm_from_epoch = a, dm_to_epoch = b, dm_updated_at = now\<rparr>"
  have "\<forall>(c, d) \<in> set (AList.update consumer ?d (db_demands db)). dm_consumer d = c \<and> valid_demand d"
  proof
    fix x assume "x \<in> set (AList.update consumer ?d (db_demands db))"
    then have "x = (consumer, ?d) \<or> x \<in> set (db_demands db)" using set_update_subset by fast
    then show "case x of (c, d) \<Rightarrow> dm_consumer d = c \<and> valid_demand d"
      using assms by (auto simp: wf_store_def valid_demand_def)
  qed
  then show ?thesis using assms(1)
    by (simp add: wf_store_def store_demand_def wf_duties_def get_retention_epochs_def distinct_update)
qed

lemma wf_delete_demand: "wf_store db \<Longrightarrow> wf_store (delete_demand d db)"
proof -
  assume wf: "wf_store db"
  have sub: "set (AList.delete k xs) \<subseteq> set xs" for k and xs :: "(string \<times> epochs_demand) list"
    by (induction xs) auto
  then show ?thesis using wf
    by (auto simp: wf_store_def delete_demand_def wf_duties_def get_retention_epochs_def distinct_delete dest: subsetD[OF sub])
qed

lemma wf_set_retention: "wf_store db \<Longrightarrow> set_retention_epochs n db = Inr db' \<Longrightarrow> wf_store db'"
  by (auto simp: wf_store_def set_retention_epochs_def wf_duties_def get_retention_epochs_def map_of_update_iff
      split: if_splits)

lemma handle_wf: "wf_store db \<Longrightarrow> handle max_range now r db = (reply, db') \<Longrightarrow> wf_store db'"
  using wf_store_demand[of db] wf_delete_demand[of db] wf_set_retention[of db]
  by (auto simp: handle_def set_epochs_demand_def delete_epochs_demand_def Let_def split: request.splits
      if_splits sum.splits option.splits)

lemma handle_duties: "handle max_range now r db = (reply, db') \<Longrightarrow> db_duties db' = db_duties db"
  by (auto simp: handle_def set_epochs_demand_def delete_epochs_demand_def Let_def store_demand_def delete_demand_def
      set_retention_epochs_def split: request.splits if_splits sum.splits option.splits)

lemma valid_demand_stored: "wf_store db \<Longrightarrow> get_epochs_demand consumer db = Some d \<Longrightarrow> valid_demand d \<and> dm_consumer d = consumer"
  by (auto simp: wf_store_def get_epochs_demand_def dest!: map_of_SomeD)

lemma demands_listed: "wf_store db \<Longrightarrow> list_all valid_demand (get_epochs_demands db)"
  by (auto simp: wf_store_def get_epochs_demands_def list_all_iff)

lemma stored_demand: "get_epochs_demand consumer (store_demand now consumer a b db) =
    Some \<lparr>dm_consumer = consumer, dm_from_epoch = a, dm_to_epoch = b, dm_updated_at = now\<rparr>"
  by (simp add: get_epochs_demand_def store_demand_def map_of_update_iff)

lemma complete_data_errors:
  "a \<le> b \<Longrightarrow> get_complete_epochs_data a b db = Inl e \<Longrightarrow> \<exists>missing. e = IncompleteEpochRange missing"
  by (auto simp: get_complete_epochs_data_def Let_def sequence_def split: if_splits)

text \<open>On a well-formed store a request is answered, or refused with a status of its own.\<close>

lemma requests_safe:
  assumes "wf_store db" and "handle max_range now r db = (reply, db')"
  shows "wf_store db' \<and> db_duties db' = db_duties db \<and> (\<forall>e. reply \<noteq> Inl (InternalError e))"
proof -
  obtain retention where ret: "get_retention_epochs db = Inr retention"
    using assms(1) by (auto simp: wf_store_def is_ok_iff)
  note d = valid_demand_stored[OF assms(1)] demands_listed[OF assms(1)]
  have "fst (handle max_range now r db) \<noteq> Inl (InternalError e)" for e
  proof (cases r)
    case (EpochsCheck a b)
    then show ?thesis by (simp add: handle_def checked_def internal_def is_range_available_def valid_epoch_range_def)
  next
    case (EpochsMissing a b)
    then show ?thesis by (simp add: handle_def checked_def internal_def missing_epochs_in_def valid_limited_range_def
        valid_epoch_range_def sequence_def)
  next
    case (EpochsData a b)
    then show ?thesis using complete_data_errors[of a b db]
      by (cases "get_complete_epochs_data a b db")
        (auto simp: handle_def checked_def epochs_data_def valid_limited_range_def valid_epoch_range_def)
  next
    case (StoredEpochsCount a b)
    then show ?thesis by (simp add: handle_def checked_def internal_def count_stored_epochs_in_range_def valid_epoch_range_def)
  next
    case (OneEpochsDemand c)
    then show ?thesis using d(1)[of c] by (auto simp: handle_def checked_def demand_reply_def split: option.splits)
  next
    case (SetEpochsDemand c a b)
    then show ?thesis
      by (auto simp: handle_def set_epochs_demand_def ret stored_demand demand_reply_def valid_demand_def Let_def)
  next
    case (DeleteEpochsDemand c)
    then show ?thesis using d(1)[of c]
      by (auto simp: handle_def delete_epochs_demand_def demand_reply_def split: option.splits)
  next
    case (SetRetentionEpochs n)
    then show ?thesis by (simp add: handle_def set_retention_epochs_def)
  qed (simp_all add: handle_def checked_def epochs_demands_def d(2) internal_def ret)
  then show ?thesis using handle_wf[OF assms] handle_duties[OF assms(2)] assms(2) by simp
qed

lemma newest_bounds:
  assumes "wf_duties db" "0 < retention" "0 \<le> a"
  shows "(case max_epoch db of None \<Rightarrow> False | Some m \<Rightarrow> m - retention + 1 > 0 \<and> a < m - retention + 1) \<longleftrightarrow>
    (\<exists>n. has_epoch n db \<and> a \<le> n - retention)"
proof (cases "db_duties db = []")
  case True
  then show ?thesis by (simp add: max_epoch_def has_epoch_def)
next
  case False
  let ?keys = "set (map fst (db_duties db))"
  have m: "Max ?keys \<in> ?keys" "\<And>n. n \<in> ?keys \<Longrightarrow> n \<le> Max ?keys" using False by (auto intro!: Max_in)
  have "(\<exists>n. has_epoch n db \<and> a \<le> n - retention) \<longleftrightarrow> a \<le> Max ?keys - retention"
    unfolding has_epoch_def using m by (meson diff_right_mono order_trans)
  then show ?thesis using False assms(2,3) by (auto simp: max_epoch_def Let_def)
qed

text \<open>
  C34. A demand is accepted exactly when its parameters are valid, it is no longer than the retention, and
  none of its epochs has already left the window of any stored epoch; then it replaces the consumer's
  previous demand and no other. A refused demand changes nothing.
\<close>

theorem demand_admission:
  assumes "wf_store db" and "get_retention_epochs db = Inr retention"
    and "handle max_range now (SetEpochsDemand consumer a b) db = (reply, db')"
  shows "if valid_consumer consumer \<and> valid_epoch_range a b \<and> b - a + 1 \<le> retention \<and>
        \<not> (\<exists>n. has_epoch n db \<and> a \<le> n - retention)
    then reply = Inr (ADemand (Some \<lparr>dm_consumer = consumer, dm_from_epoch = a, dm_to_epoch = b, dm_updated_at = now\<rparr>)) \<and>
      get_epochs_demand consumer db' = Some \<lparr>dm_consumer = consumer, dm_from_epoch = a, dm_to_epoch = b, dm_updated_at = now\<rparr> \<and>
      (\<forall>c. c \<noteq> consumer \<longrightarrow> get_epochs_demand c db' = get_epochs_demand c db)
    else reply = Inl (HTTPException 422) \<and> db' = db"
proof -
  have pos: "0 < retention"
    using assms(2) by (auto simp: get_retention_epochs_def split: option.splits setting_value.splits if_splits)
  have wf: "wf_duties db" using assms(1) by (simp add: wf_store_def)
  show ?thesis
  proof (cases "valid_consumer consumer \<and> valid_epoch_range a b")
    case False
    then show ?thesis using assms(3) by (auto simp: handle_def)
  next
    case True
    then have "0 \<le> a" by (auto simp: valid_epoch_range_def valid_epoch_def)
    note old = newest_bounds[OF wf pos this]
    have other: "get_epochs_demand c (store_demand now consumer a b db) = get_epochs_demand c db" if "c \<noteq> consumer" for c
      using that by (simp add: get_epochs_demand_def store_demand_def map_of_update_iff)
    have vd: "valid_demand \<lparr>dm_consumer = consumer, dm_from_epoch = a, dm_to_epoch = b, dm_updated_at = now\<rparr>"
      using True by (simp add: valid_demand_def)
    define aged where "aged \<longleftrightarrow> (\<exists>n. has_epoch n db \<and> a \<le> n - retention)"
    have "handle max_range now (SetEpochsDemand consumer a b) db =
        (if b - a + 1 > retention \<or> aged then (Inl (HTTPException 422), db)
         else (demand_reply \<lparr>dm_consumer = consumer, dm_from_epoch = a, dm_to_epoch = b, dm_updated_at = now\<rparr>,
               store_demand now consumer a b db))"
      using True unfolding handle_def request.case set_epochs_demand_def assms(2) sum.case Let_def old aged_def[symmetric]
      by (simp add: stored_demand)
    then show ?thesis unfolding aged_def[symmetric] using assms(3) True vd other stored_demand[of consumer now a b db]
      by (auto simp: demand_reply_def)
  qed
qed

definition demo_store :: duties_db where
  "demo_store = \<lparr>db_duties = [(100, \<lparr>du_epoch = 100, du_missed_attestation_vids = [7], du_proposals_vids = [],
       du_proposals_flags = [], du_syncs_vids = [], du_syncs_misses = []\<rparr>)],
     db_demands = [], db_settings = [(RETENTION_EPOCHS_KEY, SettingInt 10)]\<rparr>"

text \<open>A range with gaps, and a demand that is accepted.\<close>

lemma demo_requests:
  "fst (handle 50 7 (EpochsData 99 101) demo_store) = Inl (GapsInRange [99, 101]) \<and>
   wf_store (snd (handle 50 7 (SetEpochsDemand ''csm'' 95 104) demo_store))"
proof -
  have wf: "wf_store demo_store" by code_simp
  obtain reply db' where h: "handle 50 7 (SetEpochsDemand ''csm'' 95 104) demo_store = (reply, db')" by fastforce
  have "fst (handle 50 7 (EpochsData 99 101) demo_store) = Inl (GapsInRange [99, 101])" by code_simp
  then show ?thesis using requests_safe[OF wf h] h by simp
qed

theorem demand_admission_witness:
  "fst (handle 50 7 (SetEpochsDemand ''csm'' 95 104) demo_store) =
     Inr (ADemand (Some \<lparr>dm_consumer = ''csm'', dm_from_epoch = 95, dm_to_epoch = 104, dm_updated_at = 7\<rparr>))"
proof -
  have wf: "wf_store demo_store" "get_retention_epochs demo_store = Inr 10" by code_simp+
  have v: "valid_consumer ''csm''" "valid_epoch_range 95 104" by code_simp+
  have n: "has_epoch n demo_store \<longleftrightarrow> n = 100" for n by (auto simp: has_epoch_def demo_store_def)
  obtain reply db' where h: "handle 50 7 (SetEpochsDemand ''csm'' 95 104) demo_store = (reply, db')" by fastforce
  show ?thesis using demand_admission[OF wf h] v n h by simp
qed

end
