(* ===== verification/Collector.thy ===== *)
theory Collector
  imports Epoch_Rows Web_Server Daemon
begin

text \<open>
  \<open>src/modules/sidecars/performance/collector/collector.py\<close>: the daemon that fills the performance
  database: the range of epochs to process, the loop over its checkpoints, and its exception handler.
  Other processes use the database meanwhile: \<open>pe_outside n\<close> is what they have done to it when the
  demands are looked at for the \<open>n\<close>-th time (the web server stores and deletes demands). Metrics and
  the cycle timer are left out.
\<close>

section \<open>State and environment\<close>

record performance_collector =
  pc_collector :: collector
  pc_last_epochs_demand_update :: "int option"
  pc_last_demands_count :: int
  pc_clock :: nat

record performance_env =
  pe_collector :: collector_env
  pe_finalized :: "nat \<Rightarrow> blockstamp res"
  pe_spec :: "(int \<times> int) res" \<comment> \<open>\<open>SLOTS_PER_EPOCH\<close>, \<open>SECONDS_PER_SLOT\<close>\<close>
  pe_genesis_time :: "int res"
  pe_outside :: "nat \<Rightarrow> duties_db \<Rightarrow> duties_db"

definition pc_db :: "performance_collector \<Rightarrow> duties_db" where
  "pc_db s = co_db (pc_collector s)"

definition set_db :: "duties_db \<Rightarrow> performance_collector \<Rightarrow> performance_collector" where
  "set_db db s = s\<lparr>pc_collector := (pc_collector s)\<lparr>co_db := db\<rparr>\<rparr>"

definition new_performance_collector :: "duties_db \<Rightarrow> performance_collector" where
  "new_performance_collector db =
     \<lparr>pc_collector = \<lparr>co_db = seed_settings db, co_sync_cache = []\<rparr>,
      pc_last_epochs_demand_update = get_epochs_demands_max_updated_at db,
      pc_last_demands_count = demands_count db, pc_clock = 0\<rparr>"

definition build_converter :: "performance_env \<Rightarrow> chain_config res" where
  "build_converter env =
     bindR (pe_spec env) (\<lambda>(slots, seconds). bindR (pe_genesis_time env) (\<lambda>genesis.
       Inr \<lparr>slots_per_epoch = slots, seconds_per_slot = seconds, genesis_time = genesis\<rparr>))"

definition collector_exception_handler :: "pyerr \<Rightarrow> unit res" where
  "collector_exception_handler e =
     (if e \<in> {TimeoutError, RequestsConnectionError} then Inr ()
      else if (case e of NotOkResponse _ \<Rightarrow> True | _ \<Rightarrow> False) then Inr ()
      else if e \<in> {NoSlotsAvailable, SlotNotFinalized, InconsistentData} then Inr ()
      else if is_value_error e then Inr ()
      else Inl e)"

section \<open>The range of epochs\<close>

text \<open>A demand that is satisfied is deleted, the others lower the start.\<close>

fun demands_loop :: "epochs_demand list \<Rightarrow> epoch \<Rightarrow> (duties_db, epoch) act" where
  "demands_loop [] start_epoch db = (Inr start_epoch, db)"
| "demands_loop (d # ds) start_epoch db =
     (case is_range_available (dm_from_epoch d) (dm_to_epoch d) db of
        Inl e \<Rightarrow> (Inl e, db)
      | Inr available \<Rightarrow>
          if available then demands_loop ds start_epoch (delete_demand d db)
          else demands_loop ds (min start_epoch (dm_from_epoch d)) db)"

definition choose_start :: "epoch option \<Rightarrow> epoch \<Rightarrow> epoch \<Rightarrow> duties_db \<Rightarrow> epoch res" where
  "choose_start max_epoch_in_db start_epoch end_epoch db =
     bindR (missing_epochs_in start_epoch end_epoch db) (\<lambda>missing_epochs.
       if missing_epochs = [] then (case max_epoch_in_db of None \<Rightarrow> Inl ValueError | Some m \<Rightarrow> Inr (m + 1))
       else Inr (Min (set missing_epochs)))"

definition define_epochs_to_process_range :: "epoch \<Rightarrow> (duties_db, (epoch \<times> epoch) option) act" where
  "define_epochs_to_process_range finalized_epoch db =
     (let max_available = finalized_epoch - CHECKPOINT_SLOT_DELAY_EPOCHS in
      if max_available < 0 then (Inr None, db)
      else
        let min_epoch_in_db = min_epoch db; max_epoch_in_db = max_epoch db in
        if (case max_epoch_in_db of None \<Rightarrow> False | Some m \<Rightarrow> m > max_available) then (Inl ValueError, db)
        else
          let start_epoch = (case min_epoch_in_db of Some m \<Rightarrow> m | None \<Rightarrow> max_available) in
          bindA (demands_loop (get_epochs_demands db) start_epoch) (\<lambda>start_epoch db.
            bindA (liftA (choose_start max_epoch_in_db start_epoch max_available db)) (\<lambda>start_epoch.
              returnA (if start_epoch > max_available then None else Some (start_epoch, max_available))) db) db)"

section \<open>The cycle\<close>

definition has_epochs_demand_changed :: "(performance_collector, bool) act" where
  "has_epochs_demand_changed s =
     (let max_updated_at = get_epochs_demands_max_updated_at (pc_db s); n = demands_count (pc_db s);
          changed = (n \<noteq> pc_last_demands_count s \<or>
            (max_updated_at \<noteq> None \<and> pc_last_epochs_demand_update s \<noteq> max_updated_at))
      in (Inr changed,
          if changed then s\<lparr>pc_last_epochs_demand_update := max_updated_at, pc_last_demands_count := n\<rparr> else s))"

definition outside_step :: "performance_env \<Rightarrow> performance_collector \<Rightarrow> performance_collector" where
  "outside_step env s = set_db (pe_outside env (pc_clock s) (pc_db s)) (s\<lparr>pc_clock := Suc (pc_clock s)\<rparr>)"

fun run_checkpoints :: "performance_env \<Rightarrow> collector_env \<Rightarrow> frame_checkpoint list \<Rightarrow> (performance_collector, module_delay) act" where
  "run_checkpoints env processor [] s = (Inr NEXT_FINALIZED_EPOCH, s)"
| "run_checkpoints env processor (checkpoint # checkpoints) s =
     (case exec_checkpoint processor checkpoint (pc_collector s) of
        (Inl e, c) \<Rightarrow> (Inl e, s\<lparr>pc_collector := c\<rparr>)
      | (Inr _, c) \<Rightarrow>
          (case has_epochs_demand_changed (outside_step env (s\<lparr>pc_collector := c\<rparr>)) of
             (Inl e, s) \<Rightarrow> (Inl e, s)
           | (Inr changed, s) \<Rightarrow>
               if changed then (Inr NEXT_SLOT, s) else run_checkpoints env processor checkpoints s))"

definition collector_execute_module :: "performance_env \<Rightarrow> blockstamp \<Rightarrow> (performance_collector, module_delay) act" where
  "collector_execute_module env last_finalized s =
     (case build_converter env of
        Inl e \<Rightarrow> (Inl e, s)
      | Inr converter \<Rightarrow>
          let finalized_epoch = get_epoch_by_slot converter (bs_slot_number last_finalized) - 1 in
          (case define_epochs_to_process_range finalized_epoch (pc_db s) of
             (Inl e, db) \<Rightarrow> (Inl e, set_db db s)
           | (Inr None, db) \<Rightarrow> (Inr NEXT_FINALIZED_EPOCH, set_db db s)
           | (Inr (Some (start_epoch, end_epoch)), db) \<Rightarrow>
               let processor = (pe_collector env)\<lparr>ce_chain := converter, ce_finalized := last_finalized\<rparr> in
               bindA (liftA (bindR (new_frame_checkpoints start_epoch end_epoch finalized_epoch) (\<lambda>_.
                        frame_checkpoints converter start_epoch end_epoch finalized_epoch)))
                 (run_checkpoints env processor) (set_db db s)))"

definition collector_receive_finalized :: "performance_env \<Rightarrow> (performance_collector, blockstamp) act" where
  "collector_receive_finalized env s = (pe_finalized env (pc_clock s), s\<lparr>pc_clock := Suc (pc_clock s)\<rparr>)"

interpretation performance: daemon_module
  "collector_receive_finalized env" "collector_execute_module env" collector_exception_handler for env
  by unfold_locales (simp add: collector_exception_handler_def split: if_splits)

section \<open>The range serves the demands\<close>

lemma max_available_stored:
  assumes "wf_duties db" "\<not> (case max_epoch db of None \<Rightarrow> False | Some m \<Rightarrow> m > x)" "0 \<le> x" "has_epoch e db"
  shows "e \<le> x"
proof -
  have ne: "db_duties db \<noteq> []" using assms(4) by (auto simp: has_epoch_def)
  have e: "e \<le> Max (set (map fst (db_duties db)))" using assms(4) by (auto simp: has_epoch_def)
  show ?thesis
  proof (cases "Max (set (map fst (db_duties db))) = 0")
    case True
    then show ?thesis using e assms(3) by simp
  next
    case False
    then have "max_epoch db = Some (Max (set (map fst (db_duties db))))" using ne by (simp add: max_epoch_def Let_def)
    then show ?thesis using e assms(2) by simp
  qed
qed

lemma wf_store_sub:
  assumes "wf_store db" "d \<in> set (get_epochs_demands db)"
  shows "0 \<le> dm_from_epoch d \<and> dm_from_epoch d \<le> dm_to_epoch d"
  using assms by (auto simp: wf_store_def get_epochs_demands_def valid_demand_def valid_epoch_range_def valid_epoch_def)

text \<open>What the loop over the demands does: satisfied ones go, the start falls to the earliest of the others.\<close>

lemma delete_demand_fields: "db_duties (delete_demand d db) = db_duties db" "db_settings (delete_demand d db) = db_settings db"
  by (simp_all add: delete_demand_def)

lemma same_duties:
  assumes "db_duties db' = db_duties db"
  shows "has_epoch e db' = has_epoch e db" "wf_duties db' = wf_duties db" "in_range l r db' = in_range l r db"
    "is_range_available l r db' = is_range_available l r db" "missing_epochs_in l r db' = missing_epochs_in l r db"
    "get_epoch_data e db' = get_epoch_data e db"
  using assms by (simp_all add: has_epoch_def wf_duties_def in_range_def is_range_available_def missing_epochs_in_def
      get_epoch_data_def)

lemma demands_loop_effect:
  assumes "\<forall>d \<in> set ds. dm_from_epoch d \<le> dm_to_epoch d" "wf_store db"
  shows "\<exists>start' db'. demands_loop ds start db = (Inr start', db') \<and> wf_store db' \<and> db_duties db' = db_duties db \<and>
    db_settings db' = db_settings db \<and> start' \<le> start \<and>
    (\<forall>d \<in> set ds. (\<forall>e \<in> {dm_from_epoch d..dm_to_epoch d}. has_epoch e db) \<or> start' \<le> dm_from_epoch d) \<and>
    (start' = start \<or> start' \<in> dm_from_epoch ` set ds)"
  using assms
proof (induction ds arbitrary: start db)
  case (Cons d ds)
  have av: "is_range_available (dm_from_epoch d) (dm_to_epoch d) db =
      Inr (\<forall>e \<in> {dm_from_epoch d..dm_to_epoch d}. has_epoch e db)"
    using Cons.prems in_range_full[of db "dm_from_epoch d" "dm_to_epoch d"]
    by (simp add: is_range_available_def wf_store_def)
  show ?case
  proof (cases "\<forall>e \<in> {dm_from_epoch d..dm_to_epoch d}. has_epoch e db")
    case True
    obtain start' db' where ih: "demands_loop ds start (delete_demand d db) = (Inr start', db')" "wf_store db'"
      "db_duties db' = db_duties db" "db_settings db' = db_settings db" "start' \<le> start"
      "\<forall>d \<in> set ds. (\<forall>e \<in> {dm_from_epoch d..dm_to_epoch d}. has_epoch e db) \<or> start' \<le> dm_from_epoch d"
      "start' = start \<or> start' \<in> dm_from_epoch ` set ds"
      using Cons.IH[of "delete_demand d db" start] Cons.prems wf_delete_demand
      by (auto simp: delete_demand_fields same_duties(1)[of "delete_demand d db" db])
    then show ?thesis using True av by (intro exI[of _ start'] exI[of _ db']) auto
  next
    case False
    obtain start' db' where ih: "demands_loop ds (min start (dm_from_epoch d)) db = (Inr start', db')" "wf_store db'"
      "db_duties db' = db_duties db" "db_settings db' = db_settings db" "start' \<le> min start (dm_from_epoch d)"
      "\<forall>d \<in> set ds. (\<forall>e \<in> {dm_from_epoch d..dm_to_epoch d}. has_epoch e db) \<or> start' \<le> dm_from_epoch d"
      "start' = min start (dm_from_epoch d) \<or> start' \<in> dm_from_epoch ` set ds"
      using Cons.IH[of db "min start (dm_from_epoch d)"] Cons.prems by auto
    then show ?thesis using False av
      by (intro exI[of _ start'] exI[of _ db']) (auto simp: min_def split: if_splits)
  qed
qed simp

definition demanded :: "duties_db \<Rightarrow> epoch \<Rightarrow> bool" where
  "demanded db e \<longleftrightarrow> (\<exists>d \<in> set (get_epochs_demands db). dm_from_epoch d \<le> e \<and> e \<le> dm_to_epoch d)"

lemma start_bounds:
  assumes "wf_duties db" "\<not> (case max_epoch db of None \<Rightarrow> False | Some m \<Rightarrow> m > x)" "0 \<le> x"
  shows "0 \<le> (case min_epoch db of Some m \<Rightarrow> m | None \<Rightarrow> x) \<and> (case min_epoch db of Some m \<Rightarrow> m | None \<Rightarrow> x) \<le> x"
proof (cases "min_epoch db")
  case None
  then show ?thesis using assms(3) by simp
next
  case (Some m)
  have ne: "db_duties db \<noteq> []" using Some by (auto simp: min_epoch_def)
  then have m: "m = Min (set (map fst (db_duties db)))" using Some by (auto simp: min_epoch_def Let_def split: if_splits)
  have "m \<in> set (map fst (db_duties db))" unfolding m using ne by (intro Min_in) auto
  then have "has_epoch m db" "0 \<le> m" using assms(1) by (auto simp: has_epoch_def wf_duties_def)
  then show ?thesis using max_available_stored[OF assms] Some by simp
qed

lemma choose_start_first:
  assumes "wf_duties db" "start \<le> x" "0 \<le> start"
  shows "case choose_start (max_epoch db) start x db of
      Inl e \<Rightarrow> e = ValueError
    | Inr l \<Rightarrow> start \<le> l \<and> (\<forall>e. start \<le> e \<and> e < l \<and> e \<le> x \<longrightarrow> has_epoch e db) \<and> (l \<le> x \<longrightarrow> \<not> has_epoch l db)"
proof -
  let ?m = "filter (\<lambda>e. \<not> has_epoch e db) [start..x]"
  have miss: "missing_epochs_in start x db = Inr ?m" using complete_range[OF assms(1,2)] by blast
  show ?thesis
  proof (cases "?m = []")
    case True
    then have all: "has_epoch e db" if "start \<le> e" "e \<le> x" for e using that by (auto simp: filter_empty_conv)
    show ?thesis
    proof (cases "max_epoch db")
      case None
      then show ?thesis using miss True by (simp add: choose_start_def)
    next
      case (Some m)
      have ne: "db_duties db \<noteq> []" using Some by (auto simp: max_epoch_def)
      then have "m = Max (set (map fst (db_duties db)))" using Some by (auto simp: max_epoch_def Let_def split: if_splits)
      moreover have "x \<in> set (map fst (db_duties db))" using all[of x] assms(2) by (simp add: has_epoch_def)
      ultimately have "x \<le> m" by auto
      then show ?thesis using miss True Some all assms(2) by (auto simp: choose_start_def)
    qed
  next
    case False
    let ?l = "Min (set ?m)"
    have l: "?l \<in> set ?m" using False by (intro Min_in finite_set) (simp only: set_empty not_False_eq_True)
    have "has_epoch e db" if "start \<le> e" "e < ?l" for e
    proof (rule ccontr)
      assume "\<not> has_epoch e db"
      then have "e \<in> set ?m" using that l by auto
      then have "?l \<le> e" by (intro Min_le finite_set)
      then show False using that by simp
    qed
    moreover have "choose_start (max_epoch db) start x db = Inr ?l"
      unfolding choose_start_def miss using False by simp
    moreover have "start \<le> ?l" "\<not> has_epoch ?l db" using l by simp_all
    ultimately show ?thesis by simp
  qed
qed

lemma choose_start_same: "db_duties db' = db_duties db \<Longrightarrow> choose_start m a b db' = choose_start m a b db"
  by (simp add: choose_start_def same_duties(5)[of db' db])

lemma range_effect:
  assumes "wf_store db" and "define_epochs_to_process_range finalized db = (r, db')"
  shows "wf_store db' \<and> db_duties db' = db_duties db \<and> db_settings db' = db_settings db \<and>
    (case r of
       Inl e \<Rightarrow> e = ValueError
     | Inr None \<Rightarrow> (\<forall>e. demanded db e \<and> e \<le> finalized - 2 \<longrightarrow> has_epoch e db)
     | Inr (Some (l, x)) \<Rightarrow> x = finalized - 2 \<and> 0 \<le> l \<and> l \<le> x \<and> \<not> has_epoch l db \<and>
         (\<forall>e. demanded db e \<and> e < l \<longrightarrow> has_epoch e db))"
proof -
  let ?x = "finalized - 2"
  have wf: "wf_duties db" using assms(1) by (simp add: wf_store_def)
  have nonneg: "0 \<le> e" if "demanded db e" for e
    using that wf_store_sub[OF assms(1)] by (auto simp: demanded_def intro: order_trans)
  consider (early) "?x < 0" | (ahead) "0 \<le> ?x" "case max_epoch db of None \<Rightarrow> False | Some m \<Rightarrow> m > ?x"
    | (go) "0 \<le> ?x" "\<not> (case max_epoch db of None \<Rightarrow> False | Some m \<Rightarrow> m > ?x)" by linarith
  then show ?thesis
  proof cases
    case early
    then have "r = Inr None" "db' = db"
      using assms(2) by (simp_all add: define_epochs_to_process_range_def CHECKPOINT_SLOT_DELAY_EPOCHS_def)
    then show ?thesis using assms(1) early by (auto dest: nonneg)
  next
    case ahead
    then have "r = Inl ValueError" "db' = db"
      using assms(2) by (simp_all add: define_epochs_to_process_range_def CHECKPOINT_SLOT_DELAY_EPOCHS_def Let_def)
    then show ?thesis using assms(1) by simp
  next
    case go
    define start where "start = (case min_epoch db of Some m \<Rightarrow> m | None \<Rightarrow> ?x)"
    note sb = start_bounds[OF wf go(2,1), folded start_def]
    obtain start' db1 where dl: "demands_loop (get_epochs_demands db) start db = (Inr start', db1)" "wf_store db1"
      "db_duties db1 = db_duties db" "db_settings db1 = db_settings db" "start' \<le> start"
      "\<forall>d \<in> set (get_epochs_demands db). (\<forall>e \<in> {dm_from_epoch d..dm_to_epoch d}. has_epoch e db) \<or> start' \<le> dm_from_epoch d"
      "start' = start \<or> start' \<in> dm_from_epoch ` set (get_epochs_demands db)"
      using demands_loop_effect[of "get_epochs_demands db" db start] wf_store_sub[OF assms(1)] assms(1) by blast
    have s0: "0 \<le> start'" "start' \<le> ?x" using dl(5,7) sb wf_store_sub[OF assms(1)] by auto
    have res: "db' = db1" "r = (case choose_start (max_epoch db) start' ?x db of Inl e \<Rightarrow> Inl e
        | Inr l \<Rightarrow> Inr (if l > ?x then None else Some (l, ?x)))"
      using assms(2) go dl(1) choose_start_same[OF dl(3)]
      by (auto simp: define_epochs_to_process_range_def CHECKPOINT_SLOT_DELAY_EPOCHS_def Let_def start_def[symmetric]
          bindA_def liftA_def returnA_def split: sum.splits)
    have dem: "start' \<le> e \<or> has_epoch e db" if "demanded db e" for e
      using that dl(6) unfolding demanded_def by fastforce
    note cs = choose_start_first[OF wf s0(2,1)]
    show ?thesis
    proof (cases "choose_start (max_epoch db) start' ?x db")
      case (Inl e)
      then show ?thesis using res dl(2-4) cs by simp
    next
      case (Inr l)
      have "has_epoch e db" if "demanded db e" "e < l" "e \<le> ?x" for e using dem[OF that(1)] cs Inr that by auto
      then show ?thesis using res dl(2-4) cs Inr s0 by auto
    qed
  qed
qed

text \<open>
  The range the collector takes on misses nothing it could do: if it starts at an epoch, that epoch is
  not stored, and every demanded epoch below it is; it ends at the last epoch whose attestations are final.
  If it takes nothing on, every demanded epoch up to there is stored already. The rows are untouched, the
  store stays well formed, and the only exception is the ValueError its handler swallows.
\<close>

theorem range_serves_demands:
  assumes "wf_store db" and "define_epochs_to_process_range finalized db = (r, db')"
  shows "wf_store db' \<and> db_duties db' = db_duties db \<and> db_settings db' = db_settings db \<and>
    (case r of
       Inl e \<Rightarrow> e = ValueError
     | Inr None \<Rightarrow> (\<forall>e. demanded db e \<and> e \<le> finalized - 2 \<longrightarrow> has_epoch e db)
     | Inr (Some (l, x)) \<Rightarrow> x = finalized - 2 \<and> 0 \<le> l \<and> l \<le> x \<and> \<not> has_epoch l db \<and>
         (\<forall>e. demanded db e \<and> e < l \<longrightarrow> has_epoch e db))"
  by (rule range_effect[OF assms])

section \<open>A cycle serves the demands\<close>

text \<open>
  What other processes may do between two looks at the demands: keep the store well formed and leave the
  rows alone, as every request of the web server does.
\<close>

definition polite :: "performance_env \<Rightarrow> bool" where
  "polite env \<longleftrightarrow> (\<forall>n db. db_duties (pe_outside env n db) = db_duties db \<and> (wf_store db \<longrightarrow> wf_store (pe_outside env n db)))"

definition retention_fixed :: "performance_env \<Rightarrow> bool" where
  "retention_fixed env \<longleftrightarrow> (\<forall>n db. db_settings (pe_outside env n db) = db_settings db)"

lemma pc_db_simps [simp]:
  "pc_db (set_db db s) = db" "pc_db (s\<lparr>pc_collector := c\<rparr>) = co_db c" "pc_db (s\<lparr>pc_clock := n\<rparr>) = pc_db s"
  by (simp_all add: pc_db_def set_db_def)

lemma demand_change_db: "has_epochs_demand_changed s = (r, s') \<Longrightarrow> pc_db s' = pc_db s \<and> (\<exists>b. r = Inr b)"
  by (auto simp: has_epochs_demand_changed_def Let_def pc_db_def split: if_splits)

lemma outside_db: "pc_db (outside_step env s) = pe_outside env (pc_clock s) (pc_db s)"
  by (simp add: outside_step_def)

lemma kept_same: "db_duties db' = db_duties db \<Longrightarrow> kept retention db' e = kept retention db e"
  by (simp add: kept_def same_duties(1)[of db' db])

lemma wf_store_grows: "wf_store db \<Longrightarrow> grows retention es db db' \<Longrightarrow> wf_store db'"
  using get_retention_settings[of db' db] by (auto simp: wf_store_def grows_def)

lemma run_checkpoints_effect:
  assumes "polite env" "fair_schedule processor" "wf_store (pc_db s)"
    and "\<forall>cp \<in> set cps. \<forall>e \<in> set (fc_duty_epochs cp). 0 \<le> e"
    and "run_checkpoints env processor cps s = (r, s')"
  shows "wf_store (pc_db s') \<and>
    (retention_fixed env \<and> get_retention_epochs (pc_db s) = Inr retention \<longrightarrow>
      (\<forall>e. kept retention (pc_db s) e \<longrightarrow> kept retention (pc_db s') e) \<and>
      (r = Inr NEXT_FINALIZED_EPOCH \<longrightarrow> (\<forall>cp \<in> set cps. \<forall>e \<in> set (fc_duty_epochs cp). kept retention (pc_db s') e)))"
  using assms(3-5)
proof (induction cps arbitrary: s)
  case (Cons cp cps)
  obtain q c where q: "exec_checkpoint processor cp (pc_collector s) = (q, c)" by fastforce
  obtain now where now: "get_retention_epochs (pc_db s) = Inr now"
    using Cons.prems(1) by (auto simp: wf_store_def is_ok_iff)
  have "wf_duties (co_db (pc_collector s))" "get_retention_epochs (co_db (pc_collector s)) = Inr now"
    using Cons.prems(1) now by (simp_all add: wf_store_def pc_db_def)
  from checkpoint_effect[OF this _ assms(2) q] Cons.prems(2)
  have g: "grows now {e \<in> set (fc_duty_epochs cp). \<not> has_epoch e (pc_db s)} (pc_db s) (co_db c)"
    "\<And>n. q = Inr n \<Longrightarrow> \<forall>e \<in> set (fc_duty_epochs cp). kept now (co_db c) e" by (auto simp: pc_db_def)
  have keep: "kept now (pc_db s) e \<Longrightarrow> kept now (co_db c) e" for e using g(1) by (simp add: grows_def)
  have wfc: "wf_store (co_db c)" using wf_store_grows[OF Cons.prems(1) g(1)] .
  show ?case
  proof (cases q)
    case (Inl e)
    then show ?thesis using Cons.prems(3) q wfc keep now by auto
  next
    case (Inr n)
    let ?t = "outside_step env (s\<lparr>pc_collector := c\<rparr>)"
    obtain b u where u: "has_epochs_demand_changed ?t = (Inr b, u)" "pc_db u = pc_db ?t"
      using demand_change_db by (metis surj_pair)
    have wfu: "wf_store (pc_db u)" and rows: "db_duties (pc_db u) = db_duties (co_db c)"
      using assms(1) wfc unfolding u(2) outside_db polite_def by simp_all
    have ret: "get_retention_epochs (pc_db u) = Inr now" if "retention_fixed env"
      using that now g(1) unfolding u(2) outside_db retention_fixed_def
      by (simp add: get_retention_epochs_def grows_def)
    have ku: "kept now (pc_db u) e = kept now (co_db c) e" for e by (rule kept_same[OF rows])
    show ?thesis
    proof (cases b)
      case True
      then have "r = Inr NEXT_SLOT" "s' = u" using Cons.prems(3) q Inr u(1) by simp_all
      then show ?thesis using wfu keep ku now by auto
    next
      case False
      then have "run_checkpoints env processor cps u = (r, s')" using Cons.prems(3) q Inr u(1) by simp
      from Cons.IH[OF wfu _ this] Cons.prems(2) show ?thesis
        using keep ku g(2)[OF Inr] ret now by auto
    qed
  qed
qed simp

lemma execute_module_effect:
  assumes "polite env" "fair_schedule (pe_collector env)" "wf_store (pc_db s)"
    and "collector_execute_module env bs s = (r, s')"
  shows "wf_store (pc_db s') \<and>
    (\<forall>c retention e. build_converter env = Inr c \<longrightarrow> wf_chain c \<longrightarrow> slots_per_epoch c \<le> 32 \<longrightarrow>
      retention_fixed env \<longrightarrow> get_retention_epochs (pc_db s) = Inr retention \<longrightarrow> r = Inr NEXT_FINALIZED_EPOCH \<longrightarrow>
      demanded (pc_db s) e \<longrightarrow> e \<le> get_epoch_by_slot c (bs_slot_number bs) - 3 \<longrightarrow> kept retention (pc_db s') e)"
proof (cases "build_converter env")
  case (Inl e)
  then show ?thesis using assms(3,4) by (auto simp: collector_execute_module_def)
next
  case (Inr c)
  let ?fin = "get_epoch_by_slot c (bs_slot_number bs) - 1"
  obtain q db where q: "define_epochs_to_process_range ?fin (pc_db s) = (q, db)" by fastforce
  note d = range_effect[OF assms(3) q]
  have kdb: "kept retention db e = kept retention (pc_db s) e" for retention e using d by (intro kept_same) simp
  have fin: "?fin - 2 = get_epoch_by_slot c (bs_slot_number bs) - 3" by simp
  show ?thesis
  proof (cases "\<exists>l x. q = Inr (Some (l, x))")
    case False
    then have s': "s' = set_db db s" using assms(4) Inr q
      by (cases q) (auto simp: collector_execute_module_def Let_def split: option.splits)
    have "\<forall>e. demanded (pc_db s) e \<and> e \<le> ?fin - 2 \<longrightarrow> has_epoch e db" if "r = Inr NEXT_FINALIZED_EPOCH"
    proof (cases q)
      case (Inl e)
      then show ?thesis using that assms(4) Inr q by (simp add: collector_execute_module_def Let_def)
    next
      case (Inr o')
      then show ?thesis using d False same_duties(1)[of db "pc_db s"] by (cases o') auto
    qed
    then show ?thesis using d s' Inr fin by (auto simp: kept_def)
  next
    case True
    then obtain l x where lx: "q = Inr (Some (l, x))" by blast
    have rng: "x = ?fin - 2" "0 \<le> l" "l \<le> x" "\<forall>e. demanded (pc_db s) e \<and> e < l \<longrightarrow> has_epoch e (pc_db s)"
      "wf_store db" "db_settings db = db_settings (pc_db s)" using d lx by auto
    let ?p = "(pe_collector env)\<lparr>ce_chain := c, ce_finalized := bs\<rparr>"
    have fair: "fair_schedule ?p" using assms(2) by (simp add: fair_schedule_def)
    have new: "new_frame_checkpoints l x ?fin = Inr ()" using rng
      by (simp add: new_frame_checkpoints_def max_available_epoch_def CHECKPOINT_SLOT_DELAY_EPOCHS_def)
    obtain cps where cps: "frame_checkpoints c l x ?fin = Inr cps" "concat (map fc_duty_epochs cps) = [l..x]"
      using frame_checkpoints_all[OF new] rng(1) by auto
    have run: "run_checkpoints env ?p cps (set_db db s) = (r, s')"
      using assms(4) Inr q lx new cps(1) by (simp add: collector_execute_module_def Let_def)
    have es: "e \<in> {l..x} \<longleftrightarrow> (\<exists>cp \<in> set cps. e \<in> set (fc_duty_epochs cp))" for e
      using arg_cong[OF cps(2), of set] by auto
    have "\<forall>cp \<in> set cps. \<forall>e \<in> set (fc_duty_epochs cp). e \<in> {l..x}" using es by blast
    then have "\<forall>cp \<in> set cps. \<forall>e \<in> set (fc_duty_epochs cp). 0 \<le> e" using rng(2) by (auto intro: order_trans)
    from run_checkpoints_effect[OF assms(1) fair _ this run] rng(5)
    have eff: "wf_store (pc_db s')" "\<And>retention. retention_fixed env \<Longrightarrow> get_retention_epochs db = Inr retention \<Longrightarrow>
      (\<forall>e. kept retention db e \<longrightarrow> kept retention (pc_db s') e) \<and>
      (r = Inr NEXT_FINALIZED_EPOCH \<longrightarrow> (\<forall>e \<in> {l..x}. kept retention (pc_db s') e))" using es by auto
    have "kept retention (pc_db s') e" if "retention_fixed env" "get_retention_epochs (pc_db s) = Inr retention"
      "r = Inr NEXT_FINALIZED_EPOCH" "demanded (pc_db s) e" "e \<le> ?fin - 2" for retention e
    proof (cases "e < l")
      case True
      then have "kept retention (pc_db s) e" using rng(4) that(4) by (simp add: kept_def)
      then have "kept retention db e" using kdb by simp
      then show ?thesis using eff(2)[OF that(1)] that(2) get_retention_settings[OF rng(6)] by simp
    next
      case False
      then show ?thesis using eff(2)[OF that(1)] that get_retention_settings[OF rng(6)] rng(1) by simp
    qed
    then show ?thesis using eff(1) Inr fin by simp
  qed
qed


section \<open>The store under its two processes\<close>

text \<open>
  What can become of a new database: requests of the web server and cycles of the collector in any order,
  a cycle ending with a result or an exception.
\<close>

inductive store_reachable :: "performance_env \<Rightarrow> int \<Rightarrow> performance_collector \<Rightarrow> bool"
  for env max_range where
  new: "store_reachable env max_range
     (new_performance_collector \<lparr>db_duties = [], db_demands = [], db_settings = []\<rparr>)"
| request: "store_reachable env max_range s \<Longrightarrow> handle max_range now r (pc_db s) = (reply, db') \<Longrightarrow>
     store_reachable env max_range (set_db db' s)"
| cycle: "store_reachable env max_range s \<Longrightarrow> collector_execute_module env bs s = (r, s') \<Longrightarrow>
     store_reachable env max_range s'"

inductive_cases store_reachableE: "store_reachable env max_range s"

lemma store_reachable_wf:
  assumes "polite env" "fair_schedule (pe_collector env)"
  shows "store_reachable env max_range s \<Longrightarrow> wf_store (pc_db s)"
proof (induction rule: store_reachable.induct)
  case new
  then show ?case by (simp add: new_performance_collector_def pc_db_def wf_store_def wf_duties_def seed_settings_def
        get_retention_epochs_def RETENTION_EPOCHS_DEFAULT_def)
next
  case (request s now r reply db')
  then show ?case using handle_wf by simp
next
  case (cycle s bs r s')
  then show ?case using execute_module_effect[OF assms cycle.IH cycle.hyps(2)] by simp
qed


text \<open>
  A running collector finishes with increasing finalized slots only, like every daemon; its handler lets
  through what it does not know, such as the SystemExit of a failed checkpoint.
\<close>

lemma collector_slots_once:
  assumes "daemon_runs (collector_receive_finalized env) (collector_execute_module env) collector_exception_handler d slots d'"
  shows "sorted_wrt (<) (da_slot_threshold d # slots) \<and> da_slot_threshold d' = last (da_slot_threshold d # slots)"
  by (rule performance.runs_completed_once[OF assms])

section \<open>A cycle on a small chain\<close>

text \<open>The chain of \<open>Checkpoint\<close>: at the finalized slot 8 epoch 1 is the last that can be checked.\<close>

definition demo_performance :: performance_env where
  "demo_performance =
     \<lparr>pe_collector = cp_env, pe_finalized = (\<lambda>n. Inr (ce_finalized cp_env)),
      pe_spec = Inr (2, 12), pe_genesis_time = Inr 0, pe_outside = (\<lambda>_ db. db)\<rparr>"

definition demo_collector :: performance_collector where
  "demo_collector =
     \<lparr>pc_collector = cp_start [(''csm'', \<lparr>dm_consumer = ''csm'', dm_from_epoch = 1, dm_to_epoch = 1, dm_updated_at = 5\<rparr>)],
      pc_last_epochs_demand_update = Some 5, pc_last_demands_count = 1, pc_clock = 0\<rparr>"

lemma demo_polite: "polite demo_performance" "retention_fixed demo_performance" "fair_schedule (pe_collector demo_performance)"
  by (simp_all add: polite_def retention_fixed_def fair_schedule_def demo_performance_def cp_env_def)

lemma demo_wf: "wf_store (pc_db demo_collector)" "get_retention_epochs (pc_db demo_collector) = Inr 10"
  by code_simp+

lemma demo_range: "define_epochs_to_process_range 3 (pc_db demo_collector) = (Inr (Some (1, 1)), pc_db demo_collector)"
  by (simp add: define_epochs_to_process_range_def demo_collector_def pc_db_def cp_start_def
      CHECKPOINT_SLOT_DELAY_EPOCHS_def min_epoch_def max_epoch_def get_epochs_demands_def is_range_available_def in_range_def
      bindA_def liftA_def returnA_def choose_start_def missing_epochs_in_def sequence_def)

theorem range_serves_demands_witness:
  "fst (define_epochs_to_process_range 3 (pc_db demo_collector)) = Inr (Some (1, 1)) \<and>
     \<not> has_epoch 1 (pc_db demo_collector)"
  using range_serves_demands[OF demo_wf(1) demo_range] demo_range by simp

lemma demo_cycle:
  "\<exists>s'. collector_execute_module demo_performance (ce_finalized cp_env) demo_collector = (Inr NEXT_FINALIZED_EPOCH, s')"
proof -
  let ?c = "ce_chain cp_env" and ?ds = "[(''csm'', \<lparr>dm_consumer = ''csm'', dm_from_epoch = 1, dm_to_epoch = 1, dm_updated_at = 5\<rparr>)]"
  have conv: "build_converter demo_performance = Inr ?c" by (simp add: build_converter_def demo_performance_def cp_env_def)
  have fin: "get_epoch_by_slot ?c (bs_slot_number (ce_finalized cp_env)) - 1 = 3" by code_simp
  have proc: "(pe_collector demo_performance)\<lparr>ce_chain := ?c, ce_finalized := ce_finalized cp_env\<rparr> = cp_env"
    by (simp add: demo_performance_def)
  have cps: "bindR (new_frame_checkpoints 1 1 3) (\<lambda>_. frame_checkpoints ?c 1 1 3) =
      Inr [\<lparr>fc_slot = 6, fc_duty_epochs = [1]\<rparr>]" by code_simp
  have col: "pc_collector (set_db (pc_db demo_collector) demo_collector) = cp_start ?ds"
    by (simp add: set_db_def pc_db_def demo_collector_def)
  obtain k where k: "exec_checkpoint cp_env \<lparr>fc_slot = 6, fc_duty_epochs = [1]\<rparr> (cp_start ?ds) = (Inr 1, k)"
    using cp_exec by blast
  have "wf_duties (co_db (cp_start ?ds))" "get_retention_epochs (co_db (cp_start ?ds)) = Inr 10"
    "fair_schedule cp_env" by (simp_all add: cp_start_def wf_duties_def get_retention_epochs_def fair_schedule_def cp_env_def)
  then have dem: "db_demands (co_db k) = ?ds"
    using checkpoint_effect[OF _ _ _ _ k, of 10] by (simp add: grows_def cp_start_def)
  let ?t = "outside_step demo_performance ((set_db (pc_db demo_collector) demo_collector)\<lparr>pc_collector := k\<rparr>)"
  have "has_epochs_demand_changed ?t = (Inr False, ?t)"
    using dem by (simp add: has_epochs_demand_changed_def outside_step_def set_db_def pc_db_def demo_performance_def
        demands_count_def get_epochs_demands_max_updated_at_def get_epochs_demands_def demo_collector_def Let_def)
  then have "run_checkpoints demo_performance cp_env [\<lparr>fc_slot = 6, fc_duty_epochs = [1]\<rparr>]
      (set_db (pc_db demo_collector) demo_collector) = (Inr NEXT_FINALIZED_EPOCH, ?t)"
    using k col by simp
  then show ?thesis
    unfolding collector_execute_module_def conv sum.case Let_def fin demo_range prod.case option.case proc cps
    by simp
qed



end
