(* ===== verification/Sweep.thy ===== *)
theory Sweep
  imports Lido_Validators Converter
begin

text \<open>
  The view of the beacon state of \<open>src/providers/consensus/types.py\<close> and
  \<open>src/modules/oracles/ejector/sweep.py\<close>: how many withdrawals one sweep over the validators makes,
  and how long the average wait for it is. Out-of-range indices raise, as in Python.
\<close>

record pending_partial_withdrawal =
  pp_validator_index :: int
  pp_amount :: gwei
  pp_withdrawable_epoch :: epoch

record beacon_state =
  st_slot :: slot
  st_validators :: "validator_state list"
  st_balances :: "gwei list"
  st_slashings :: "gwei list"
  st_exit_balance_to_consume :: gwei
  st_earliest_exit_epoch :: epoch
  st_pending_deposits :: "pending_deposit list"
  st_pending_partial_withdrawals :: "pending_partial_withdrawal list"
  st_pending_consolidations :: "pending_consolidation list"

definition indexed_validators :: "beacon_state \<Rightarrow> validator list res" where
  "indexed_validators st =
     mapR (\<lambda>(i, v). bindR (nthR (st_balances st) (int i)) (\<lambda>b.
       Inr \<lparr>v_index = int i, v_balance = b, v_validator = v\<rparr>)) (enumerate 0 (st_validators st))"

record withdrawal =
  wd_validator_index :: int
  wd_amount :: gwei

definition partial_withdrawal_step ::
    "beacon_state \<Rightarrow> pending_partial_withdrawal \<Rightarrow> withdrawal list \<Rightarrow> withdrawal list res" where
  "partial_withdrawal_step st w withdrawals =
     (let index = pp_validator_index w in
      bindR (nthR (st_validators st) index) (\<lambda>v.
        bindR (nthR (st_balances st) index) (\<lambda>balance.
          let has_sufficient_effective_balance = (vs_effective_balance v \<ge> MIN_ACTIVATION_BALANCE);
              has_excess_balance = (balance > MIN_ACTIVATION_BALANCE)
          in if vs_exit_epoch v = FAR_FUTURE_EPOCH \<and> has_sufficient_effective_balance \<and> has_excess_balance
             then Inr (withdrawals @ [\<lparr>wd_validator_index = index,
               wd_amount = min (balance - MIN_ACTIVATION_BALANCE) (pp_amount w)\<rparr>])
             else Inr withdrawals)))"

definition get_pending_partial_withdrawals :: "beacon_state \<Rightarrow> withdrawal list res" where
  "get_pending_partial_withdrawals st =
     foldR (partial_withdrawal_step st) (st_pending_partial_withdrawals st) []"

definition withdrawal_step ::
    "beacon_state \<Rightarrow> epoch \<Rightarrow> (int \<times> gwei) list \<Rightarrow> nat \<times> validator \<Rightarrow> withdrawal list \<Rightarrow> withdrawal list res" where
  "withdrawal_step st e partially_withdrawn_map x withdrawals = (case x of (validator_index, v) \<Rightarrow>
     let partially_withdrawn_balance = al_get 0 partially_withdrawn_map (int validator_index) in
     bindR (nthR (st_balances st) (int validator_index)) (\<lambda>b.
       let balance = b - partially_withdrawn_balance in
       if is_fully_withdrawable_validator (v_validator v) balance e
       then Inr (withdrawals @ [\<lparr>wd_validator_index = int validator_index, wd_amount = balance\<rparr>])
       else if is_partially_withdrawable_validator (v_validator v) balance
       then Inr (withdrawals @ [\<lparr>wd_validator_index = int validator_index,
              wd_amount = balance - get_max_effective_balance (v_validator v)\<rparr>])
       else Inr withdrawals))"

definition get_validators_withdrawals :: "beacon_state \<Rightarrow> withdrawal list \<Rightarrow> int \<Rightarrow> withdrawal list res" where
  "get_validators_withdrawals st partial_withdrawals n =
     (let e = epoch_from_slot (st_slot st) n;
          partially_withdrawn_map = fold (\<lambda>w m. AList.update (wd_validator_index w)
            (al_get 0 m (wd_validator_index w) + wd_amount w) m) partial_withdrawals []
      in bindR (indexed_validators st) (\<lambda>vs.
           foldR (withdrawal_step st e partially_withdrawn_map) (enumerate 0 vs) []))"

definition predict_withdrawals_number_in_sweep_cycle :: "beacon_state \<Rightarrow> int \<Rightarrow> int res" where
  "predict_withdrawals_number_in_sweep_cycle st n =
     bindR (get_pending_partial_withdrawals st) (\<lambda>pending_partial_withdrawals.
       bindR (get_validators_withdrawals st pending_partial_withdrawals n) (\<lambda>validators_withdrawals.
         let pending_partial_withdrawals_number = int (length pending_partial_withdrawals);
             validators_withdrawals_number = int (length validators_withdrawals);
             partial_withdrawals_max_ratio = truediv MAX_PENDING_PARTIALS_PER_WITHDRAWALS_SWEEP
               (MAX_WITHDRAWALS_PER_PAYLOAD - MAX_PENDING_PARTIALS_PER_WITHDRAWALS_SWEEP);
             pending_partial_withdrawals_max_number_in_cycle =
               \<lceil>fl (float_of_int validators_withdrawals_number * partial_withdrawals_max_ratio)\<rceil>;
             pending_partial_withdrawals_number_in_cycle =
               min pending_partial_withdrawals_number pending_partial_withdrawals_max_number_in_cycle
         in Inr (validators_withdrawals_number + pending_partial_withdrawals_number_in_cycle)))"

definition get_sweep_delay_in_epochs :: "beacon_state \<Rightarrow> chain_config \<Rightarrow> int res" where
  "get_sweep_delay_in_epochs st c =
     bindR (predict_withdrawals_number_in_sweep_cycle st (slots_per_epoch c)) (\<lambda>withdrawals_number_in_sweep_cycle.
       if slots_per_epoch c = 0 then Inl ZeroDivisionError
       else
         let full_sweep_cycle_in_epochs =
           \<lceil>fl (truediv withdrawals_number_in_sweep_cycle MAX_WITHDRAWALS_PER_PAYLOAD
              / float_of_int (slots_per_epoch c))\<rceil>
         in Inr (full_sweep_cycle_in_epochs div 2))"

section \<open>The sweep, exactly\<close>

lemma foldR_length_le:
  assumes "foldR f xs s = Inr s'" and "\<And>x s s'. f x s = Inr s' \<Longrightarrow> length s' \<le> length s + 1"
  shows "length s' \<le> length s + length xs"
  using assms(1)
proof (induction xs arbitrary: s)
  case (Cons x xs)
  from Cons.prems obtain t where t: "f x s = Inr t" "foldR f xs t = Inr s'" by (auto simp: res_simps)
  from Cons.IH[OF t(2)] assms(2)[OF t(1)] show ?case by simp
qed simp

lemma validators_withdrawals_count:
  assumes "get_validators_withdrawals st ps n = Inr ws"
  shows "length ws \<le> length (st_validators st)"
proof -
  from assms obtain vs m where vs: "indexed_validators st = Inr vs"
    and l: "foldR (withdrawal_step st (epoch_from_slot (st_slot st) n) m) (enumerate 0 vs) [] = Inr ws"
    by (auto simp: get_validators_withdrawals_def Let_def bindR_eq_Inr)
  have "length ws \<le> length ([] :: withdrawal list) + length (enumerate 0 vs)"
    by (rule foldR_length_le[OF l])
      (auto simp: withdrawal_step_def Let_def res_simps split: prod.splits if_splits)
  moreover have "length vs = length (st_validators st)"
    using vs by (auto simp: indexed_validators_def dest: mapR_length)
  ultimately show ?thesis by simp
qed

text \<open>
  Floats do not distort the sweep estimate: on a chain of 32 slots per epoch with at most 2^52
  validators, the number of withdrawals in a cycle is the number of withdrawable validators plus at
  most as many pending partial withdrawals, and the delay is half of that number divided by the 512
  withdrawals of an epoch, rounded up and then down.
\<close>

theorem sweep_delay_exact:
  assumes "get_pending_partial_withdrawals st = Inr ps"
    and "get_validators_withdrawals st ps (slots_per_epoch c) = Inr ws"
    and "slots_per_epoch c = 32" and "length (st_validators st) \<le> 2 ^ 52"
  shows "let w = int (length ws) + min (int (length ps)) (int (length ws)) in
    predict_withdrawals_number_in_sweep_cycle st (slots_per_epoch c) = Inr w \<and>
    get_sweep_delay_in_epochs st c = Inr ((w + 511) div 512 div 2)"
proof -
  let ?n = "int (length ws)"
  let ?w = "?n + min (int (length ps)) ?n"
  have "length ws \<le> 2 ^ 52" using validators_withdrawals_count[OF assms(2)] assms(4) by linarith
  then have n: "?n \<le> 2 ^ 52" "0 \<le> ?n" by auto
  have one: "truediv MAX_PENDING_PARTIALS_PER_WITHDRAWALS_SWEEP
      (MAX_WITHDRAWALS_PER_PAYLOAD - MAX_PENDING_PARTIALS_PER_WITHDRAWALS_SWEEP) = 1" by code_simp
  have "fl (float_of_int ?n * 1) = of_int ?n"
    using n float_of_int_exact[of ?n] float53.rnd_int[of ?n] by simp
  then have w: "predict_withdrawals_number_in_sweep_cycle st (slots_per_epoch c) = Inr ?w"
    using assms(1,2) by (simp add: predict_withdrawals_number_in_sweep_cycle_def one Let_def)
  have wb: "\<bar>?w\<bar> \<le> 2 ^ 53" using n by simp
  have d16: "truediv ?w MAX_WITHDRAWALS_PER_PAYLOAD = of_int ?w / 2 ^ 4"
    using fl_dyadic[OF wb, of 4] by (simp add: truediv_def constants_defs)
  have f32: "float_of_int (slots_per_epoch c) = 2 ^ 5" using float_of_int_exact[of 32] assms(3) by simp
  have "of_int ?w / 2 ^ 4 / 2 ^ 5 = (of_int ?w / 2 ^ 9 :: rat)" by (simp add: power_add[symmetric])
  then have d: "fl (truediv ?w MAX_WITHDRAWALS_PER_PAYLOAD / float_of_int (slots_per_epoch c)) = of_int ?w / 2 ^ 9"
    unfolding d16 f32 using fl_dyadic[OF wb, of 9] by metis
  have cl: "\<lceil>fl (truediv ?w MAX_WITHDRAWALS_PER_PAYLOAD / float_of_int (slots_per_epoch c))\<rceil> = (?w + 511) div 512"
  proof -
    have "\<lceil>(of_int ?w / of_int 512 :: rat)\<rceil> = - (- ?w div 512)" by (rule ceiling_divide_eq_div)
    also have "\<dots> = (?w + 511) div 512" by linarith
    finally show ?thesis unfolding d by simp
  qed
  have "get_sweep_delay_in_epochs st c = Inr ((?w + 511) div 512 div 2)"
    unfolding get_sweep_delay_in_epochs_def w bindR.simps Let_def cl using assms(3) by simp
  with w show ?thesis unfolding Let_def by blast
qed

definition demo_beacon_state :: beacon_state where
  "demo_beacon_state =
     \<lparr>st_slot = 6400, st_validators = replicate 3 \<lparr>vs_pubkey = ''0xab'',
        vs_withdrawal_credentials = ''0x01'', vs_effective_balance = 32000000000, vs_slashed = False,
        vs_activation_eligibility_epoch = 0, vs_activation_epoch = 0,
        vs_exit_epoch = FAR_FUTURE_EPOCH, vs_withdrawable_epoch = FAR_FUTURE_EPOCH\<rparr>,
      st_balances = [32000000000, 33000000000, 32500000000], st_slashings = [],
      st_exit_balance_to_consume = 0, st_earliest_exit_epoch = 0, st_pending_deposits = [],
      st_pending_partial_withdrawals = [\<lparr>pp_validator_index = 1, pp_amount = 400000000, pp_withdrawable_epoch = 0\<rparr>],
      st_pending_consolidations = []\<rparr>"

theorem sweep_delay_exact_witness:
  "predict_withdrawals_number_in_sweep_cycle demo_beacon_state 32 = Inr 3"
proof -
  have p: "get_pending_partial_withdrawals demo_beacon_state = Inr [\<lparr>wd_validator_index = 1, wd_amount = 400000000\<rparr>]"
    by code_simp
  have s: "slots_per_epoch mainnet_chain = 32" by code_simp
  have w: "get_validators_withdrawals demo_beacon_state [\<lparr>wd_validator_index = 1, wd_amount = 400000000\<rparr>]
      (slots_per_epoch mainnet_chain) =
      Inr [\<lparr>wd_validator_index = 1, wd_amount = 600000000\<rparr>, \<lparr>wd_validator_index = 2, wd_amount = 500000000\<rparr>]"
    by code_simp
  have "length (st_validators demo_beacon_state) \<le> 2 ^ 52" by (simp add: demo_beacon_state_def)
  from sweep_delay_exact[OF p w s this] s show ?thesis by (simp add: Let_def)
qed

end
