(* ===== verification/Responses.thy ===== *)
theory Responses
  imports Checkpoint Lido_Validators Sweep
begin

text \<open>
  Decoding of responses: the two base classes of \<open>src/utils/dataclass.py\<close> and the classes of
  \<open>src/providers/consensus/types.py\<close> and \<open>src/providers/keys/types.py\<close>. A response is a \<open>json\<close> value, the
  decoded classes are the records the other theories compute with. \<open>construct\<close> is the call of a class with
  keyword arguments, \<open>from_response\<close> drops the unknown ones first, and \<open>__post_init__\<close> turns numbers given
  as text into integers and nested dicts into classes, field by field. The code does not check that a
  field annotated as text or flag holds one; here a document where it does not is refused.
\<close>

section \<open>Dataclasses\<close>

type_synonym kwargs = "(string \<times> json) list"

fun kwargs_of :: "json \<Rightarrow> kwargs res" where
  \<comment> \<open>\<open>f(**x)\<close>\<close>
  "kwargs_of (JObj kvs) = Inr kvs"
| "kwargs_of _ = Inl TypeError"

definition construct :: "string list \<Rightarrow> string list \<Rightarrow> kwargs \<Rightarrow> kwargs res" where
  \<comment> \<open>a missing field without default, or an unexpected keyword, is a \<open>TypeError\<close>\<close>
  "construct required optional kw =
     (if list_all (\<lambda>f. f \<in> set (map fst kw)) required \<and> list_all (\<lambda>k. k \<in> set (required @ optional)) (map fst kw)
      then Inr kw else Inl TypeError)"

definition from_response :: "string list \<Rightarrow> string list \<Rightarrow> kwargs \<Rightarrow> kwargs res" where
  "from_response required optional kw = construct required optional (filter (\<lambda>(k, _). k \<in> set (required @ optional)) kw)"

definition int_field :: "kwargs \<Rightarrow> string \<Rightarrow> int res" where
  "int_field kw f = bindR (lookupR kw f) json_to_int"

definition int_field_or :: "int \<Rightarrow> kwargs \<Rightarrow> string \<Rightarrow> int res" where
  "int_field_or d kw f = (case map_of kw f of None \<Rightarrow> Inr d | Some v \<Rightarrow> json_to_int v)"

definition text_field :: "kwargs \<Rightarrow> string \<Rightarrow> string res" where
  "text_field kw f = bindR (lookupR kw f) (\<lambda>v. case v of JStr s \<Rightarrow> Inr s | _ \<Rightarrow> Inl TypeError)"

definition bool_field :: "kwargs \<Rightarrow> string \<Rightarrow> bool res" where
  "bool_field kw f = bindR (lookupR kw f) (\<lambda>v. case v of JBool b \<Rightarrow> Inr b | _ \<Rightarrow> Inl TypeError)"

definition raw_int_field :: "kwargs \<Rightarrow> string \<Rightarrow> int res" where
  \<comment> \<open>a number that is not converted\<close>
  "raw_int_field kw f = bindR (lookupR kw f) (\<lambda>v. case v of JInt n \<Rightarrow> Inr n | _ \<Rightarrow> Inl TypeError)"

definition optional_bool_field :: "kwargs \<Rightarrow> string \<Rightarrow> bool option res" where
  "optional_bool_field kw f =
     (case map_of kw f of
        None \<Rightarrow> Inr None | Some JNull \<Rightarrow> Inr None | Some (JBool b) \<Rightarrow> Inr (Some b) | Some _ \<Rightarrow> Inl TypeError)"

definition class_field :: "(kwargs \<Rightarrow> 'a res) \<Rightarrow> kwargs \<Rightarrow> string \<Rightarrow> 'a res" where
  "class_field factory kw f = bindR (lookupR kw f) (\<lambda>v. bindR (kwargs_of v) factory)"

definition list_of :: "(json \<Rightarrow> 'a res) \<Rightarrow> json \<Rightarrow> 'a list res" where
  "list_of f v = bindR (json_iter v) (mapR f)"

definition list_field :: "(json \<Rightarrow> 'a res) \<Rightarrow> kwargs \<Rightarrow> string \<Rightarrow> 'a list res" where
  "list_field f kw name = bindR (lookupR kw name) (list_of f)"

definition list_field_or_empty :: "(json \<Rightarrow> 'a res) \<Rightarrow> kwargs \<Rightarrow> string \<Rightarrow> 'a list res" where
  "list_field_or_empty f kw name = (case map_of kw name of None \<Rightarrow> Inr [] | Some v \<Rightarrow> list_of f v)"

definition transform :: "(kwargs \<Rightarrow> 'a res) \<Rightarrow> json \<Rightarrow> 'a res" where
  \<comment> \<open>\<open>_transform\<close> of a dict\<close>
  "transform factory x = bindR (kwargs_of x) factory"

definition list_of_dataclasses :: "(kwargs \<Rightarrow> 'a res) \<Rightarrow> json \<Rightarrow> 'a list res" where
  "list_of_dataclasses factory x =
     (case x of
        JList [] \<Rightarrow> Inr []
      | JList (JObj kw # xs) \<Rightarrow> mapR (transform factory) (JObj kw # xs)
      | _ \<Rightarrow> Inl DecodeToDataclassException)"

section \<open>Chain specification\<close>

record beacon_spec =
  sp_DEPOSIT_CHAIN_ID :: int
  sp_SLOTS_PER_EPOCH :: int
  sp_DEPOSIT_CONTRACT_ADDRESS :: string
  sp_SLOTS_PER_HISTORICAL_ROOT :: int
  sp_SLOT_DURATION_MS :: int
  sp_SECONDS_PER_SLOT :: int

definition slot_duration :: "int \<Rightarrow> int \<Rightarrow> (int \<times> int) res" where
  \<comment> \<open>both fields after \<open>BeaconSpecResponse.__post_init__\<close>\<close>
  "slot_duration ms seconds =
     (if ms = 0 \<and> seconds = 0 then Inl NeitherSlotDurationFieldPresent
      else if ms \<noteq> 0 \<and> ms mod 1000 \<noteq> 0 then Inl UnsupportedSlotDuration
      else if ms \<noteq> 0 \<and> seconds \<noteq> 0 \<and> ms \<noteq> seconds * 1000 then Inl InconsistentSlotDuration
      else
        let ms' = (if ms = 0 then seconds * 1000 else ms)
        in Inr (ms', if seconds = 0 then ms' div 1000 else seconds))"

definition beacon_spec_response :: "kwargs \<Rightarrow> beacon_spec res" where
  "beacon_spec_response kw =
     bindR (from_response [''DEPOSIT_CHAIN_ID'', ''SLOTS_PER_EPOCH'', ''DEPOSIT_CONTRACT_ADDRESS'', ''SLOTS_PER_HISTORICAL_ROOT'']
       [''SLOT_DURATION_MS'', ''SECONDS_PER_SLOT''] kw) (\<lambda>kw.
     bindR (int_field kw ''DEPOSIT_CHAIN_ID'') (\<lambda>chain_id.
     bindR (int_field kw ''SLOTS_PER_EPOCH'') (\<lambda>slots.
     bindR (text_field kw ''DEPOSIT_CONTRACT_ADDRESS'') (\<lambda>address.
     bindR (int_field kw ''SLOTS_PER_HISTORICAL_ROOT'') (\<lambda>historical.
     bindR (int_field_or 0 kw ''SLOT_DURATION_MS'') (\<lambda>ms.
     bindR (int_field_or 0 kw ''SECONDS_PER_SLOT'') (\<lambda>seconds.
     bindR (slot_duration ms seconds) (\<lambda>(ms, seconds).
       Inr \<lparr>sp_DEPOSIT_CHAIN_ID = chain_id, sp_SLOTS_PER_EPOCH = slots, sp_DEPOSIT_CONTRACT_ADDRESS = address,
            sp_SLOTS_PER_HISTORICAL_ROOT = historical, sp_SLOT_DURATION_MS = ms, sp_SECONDS_PER_SLOT = seconds\<rparr>))))))))"

record genesis =
  ge_genesis_time :: int
  ge_genesis_validators_root :: hexstr
  ge_genesis_fork_version :: hexstr

definition genesis_response :: "kwargs \<Rightarrow> genesis res" where
  "genesis_response kw =
     bindR (from_response [''genesis_time'', ''genesis_validators_root'', ''genesis_fork_version''] [] kw) (\<lambda>kw.
     bindR (int_field kw ''genesis_time'') (\<lambda>t.
     bindR (text_field kw ''genesis_validators_root'') (\<lambda>r.
     bindR (text_field kw ''genesis_fork_version'') (\<lambda>v.
       Inr \<lparr>ge_genesis_time = t, ge_genesis_validators_root = r, ge_genesis_fork_version = v\<rparr>))))"

section \<open>Blocks\<close>

definition block_root_response :: "kwargs \<Rightarrow> hexstr res" where
  "block_root_response kw = bindR (from_response [''root''] [] kw) (\<lambda>kw. text_field kw ''root'')"

definition block_header_message :: "kwargs \<Rightarrow> (slot \<times> hexstr) res" where
  \<comment> \<open>slot and parent root\<close>
  "block_header_message kw =
     bindR (from_response [''slot'', ''proposer_index'', ''parent_root'', ''state_root'', ''body_root''] [] kw) (\<lambda>kw.
     bindR (int_field kw ''slot'') (\<lambda>s.
     bindR (int_field kw ''proposer_index'') (\<lambda>_.
     bindR (text_field kw ''parent_root'') (\<lambda>parent_root. Inr (s, parent_root)))))"

definition block_header :: "kwargs \<Rightarrow> (slot \<times> hexstr) res" where
  "block_header kw =
     bindR (from_response [''message'', ''signature''] [] kw) (\<lambda>kw. class_field block_header_message kw ''message'')"

definition block_header_response_data :: "kwargs \<Rightarrow> (hexstr \<times> bool \<times> slot \<times> hexstr) res" where
  "block_header_response_data kw =
     bindR (from_response [''root'', ''canonical'', ''header''] [] kw) (\<lambda>kw.
     bindR (class_field block_header kw ''header'') (\<lambda>(s, parent_root).
     bindR (text_field kw ''root'') (\<lambda>r.
     bindR (bool_field kw ''canonical'') (\<lambda>canonical. Inr (r, canonical, s, parent_root)))))"

definition block_header_full_response :: "kwargs \<Rightarrow> kwargs \<Rightarrow> header res" where
  \<comment> \<open>\<open>BlockHeaderFullResponse.from_response(data=BlockHeaderResponseData.from_response(**data), **meta)\<close>\<close>
  "block_header_full_response data meta =
     bindR (block_header_response_data data) (\<lambda>(r, canonical, s, parent_root).
     bindR (from_response [''execution_optimistic''] [''finalized''] meta) (\<lambda>kw.
     bindR (optional_bool_field kw ''finalized'') (\<lambda>finalized.
       Inr \<lparr>h_root = r, h_canonical = canonical, h_finalized = finalized, h_slot = s, h_parent_root = parent_root\<rparr>)))"

definition execution_payload :: "kwargs \<Rightarrow> (int \<times> int \<times> hexstr) res" where
  \<comment> \<open>block number, timestamp and block hash\<close>
  "execution_payload kw =
     bindR (from_response [''parent_hash'', ''block_number'', ''timestamp'', ''block_hash''] [] kw) (\<lambda>kw.
     bindR (int_field kw ''block_number'') (\<lambda>n.
     bindR (int_field kw ''timestamp'') (\<lambda>t.
     bindR (text_field kw ''block_hash'') (\<lambda>h. Inr (n, t, h)))))"

definition checkpoint_of :: "kwargs \<Rightarrow> epoch res" where
  "checkpoint_of kw = bindR (construct [''epoch'', ''root''] [] kw) (\<lambda>kw. int_field kw ''epoch'')"

definition attestation_data :: "kwargs \<Rightarrow> slot res" where
  "attestation_data kw =
     bindR (from_response [''slot'', ''index'', ''beacon_block_root'', ''source'', ''target''] [] kw) (\<lambda>kw.
     bindR (int_field kw ''slot'') (\<lambda>s.
     bindR (int_field kw ''index'') (\<lambda>_.
     bindR (class_field checkpoint_of kw ''source'') (\<lambda>_.
     bindR (class_field checkpoint_of kw ''target'') (\<lambda>_. Inr s)))))"

definition block_attestation_response :: "kwargs \<Rightarrow> block_attestation res" where
  "block_attestation_response kw =
     bindR (from_response [''aggregation_bits'', ''data''] [''committee_bits''] kw) (\<lambda>kw.
     bindR (class_field attestation_data kw ''data'') (\<lambda>s.
     bindR (text_field kw ''aggregation_bits'') (\<lambda>bits.
     bindR (if ''committee_bits'' \<in> set (map fst kw) then text_field kw ''committee_bits'' else Inr []) (\<lambda>committee_bits.
       Inr \<lparr>ba_aggregation_bits = bits, ba_slot = s, ba_committee_bits = committee_bits\<rparr>))))"

definition sync_aggregate :: "kwargs \<Rightarrow> hexstr res" where
  "sync_aggregate kw = bindR (from_response [''sync_committee_bits''] [] kw) (\<lambda>kw. text_field kw ''sync_committee_bits'')"

definition beacon_block_body :: "kwargs \<Rightarrow> (int \<times> int \<times> hexstr) res" where
  "beacon_block_body kw =
     bindR (from_response [''execution_payload'', ''attestations'', ''sync_aggregate''] [] kw) (\<lambda>kw.
     bindR (class_field execution_payload kw ''execution_payload'') (\<lambda>payload.
     bindR (list_field (transform block_attestation_response) kw ''attestations'') (\<lambda>_.
     bindR (class_field sync_aggregate kw ''sync_aggregate'') (\<lambda>_. Inr payload))))"

definition block_message :: "kwargs \<Rightarrow> block_details res" where
  "block_message kw =
     bindR (from_response [''slot'', ''proposer_index'', ''parent_root'', ''state_root'', ''body''] [] kw) (\<lambda>kw.
     bindR (int_field kw ''slot'') (\<lambda>s.
     bindR (int_field kw ''proposer_index'') (\<lambda>_.
     bindR (class_field beacon_block_body kw ''body'') (\<lambda>(n, t, h).
     bindR (text_field kw ''state_root'') (\<lambda>state_root.
       Inr \<lparr>d_slot = s, d_state_root = state_root, d_block_number = n, d_block_hash = h, d_timestamp = t\<rparr>)))))"

definition block_details_response :: "kwargs \<Rightarrow> block_details res" where
  "block_details_response kw =
     bindR (from_response [''message'', ''signature''] [] kw) (\<lambda>kw. class_field block_message kw ''message'')"

section \<open>Committees and duties\<close>

definition slot_attestation_committee :: "kwargs \<Rightarrow> attestation_committee res" where
  "slot_attestation_committee kw =
     bindR (from_response [''index'', ''slot'', ''validators''] [] kw) (\<lambda>kw.
     bindR (int_field kw ''index'') (\<lambda>i.
     bindR (int_field kw ''slot'') (\<lambda>s.
     bindR (list_field json_to_int kw ''validators'') (\<lambda>vs.
       Inr \<lparr>ac_index = i, ac_slot = s, ac_validators = vs\<rparr>))))"

definition sync_committee :: "kwargs \<Rightarrow> int list res" where
  "sync_committee kw = bindR (from_response [''validators''] [] kw) (\<lambda>kw. list_field json_to_int kw ''validators'')"

definition proposer_duties_response :: "kwargs \<Rightarrow> proposer_duties res" where
  "proposer_duties_response kw =
     bindR (from_response [''pubkey'', ''validator_index'', ''slot''] [] kw) (\<lambda>kw.
     bindR (int_field kw ''validator_index'') (\<lambda>i.
     bindR (int_field kw ''slot'') (\<lambda>s. Inr \<lparr>pr_validator_index = i, pr_slot = s\<rparr>)))"

section \<open>The beacon state\<close>

definition lower :: "string \<Rightarrow> string" where
  "lower = map lower_char"

definition validator_state_response :: "kwargs \<Rightarrow> validator_state res" where
  "validator_state_response kw =
     bindR (from_response [''pubkey'', ''withdrawal_credentials'', ''effective_balance'', ''slashed'',
       ''activation_eligibility_epoch'', ''activation_epoch'', ''exit_epoch'', ''withdrawable_epoch''] [] kw) (\<lambda>kw.
     bindR (text_field kw ''pubkey'') (\<lambda>pubkey.
     bindR (text_field kw ''withdrawal_credentials'') (\<lambda>credentials.
     bindR (int_field kw ''effective_balance'') (\<lambda>effective_balance.
     bindR (bool_field kw ''slashed'') (\<lambda>slashed.
     bindR (int_field kw ''activation_eligibility_epoch'') (\<lambda>eligibility.
     bindR (int_field kw ''activation_epoch'') (\<lambda>activation.
     bindR (int_field kw ''exit_epoch'') (\<lambda>exit_epoch.
     bindR (int_field kw ''withdrawable_epoch'') (\<lambda>withdrawable.
       let v = \<lparr>vs_pubkey = pubkey, vs_withdrawal_credentials = credentials, vs_effective_balance = effective_balance,
                vs_slashed = slashed, vs_activation_eligibility_epoch = eligibility, vs_activation_epoch = activation,
                vs_exit_epoch = exit_epoch, vs_withdrawable_epoch = withdrawable\<rparr>
       in if vs_effective_balance v > get_max_effective_balance v then Inl ValueError else Inr v)))))))))"

definition validator_response :: "kwargs \<Rightarrow> validator res" where
  "validator_response kw =
     bindR (from_response [''index'', ''balance'', ''validator''] [] kw) (\<lambda>kw.
     bindR (int_field kw ''index'') (\<lambda>i.
     bindR (int_field kw ''balance'') (\<lambda>b.
     bindR (class_field validator_state_response kw ''validator'') (\<lambda>v.
       Inr \<lparr>v_index = i, v_balance = b, v_validator = v\<rparr>))))"

definition pending_deposit_of :: "kwargs \<Rightarrow> pending_deposit res" where
  "pending_deposit_of kw =
     bindR (construct [''pubkey'', ''withdrawal_credentials'', ''amount'', ''signature'', ''slot''] [] kw) (\<lambda>kw.
     bindR (text_field kw ''pubkey'') (\<lambda>pubkey.
     bindR (text_field kw ''withdrawal_credentials'') (\<lambda>credentials.
     bindR (int_field kw ''amount'') (\<lambda>amount.
     bindR (text_field kw ''signature'') (\<lambda>sig.
     bindR (int_field kw ''slot'') (\<lambda>s.
       Inr \<lparr>pd_pubkey = lower pubkey, pd_withdrawal_credentials = lower credentials, pd_amount = amount,
            pd_signature = sig, pd_slot = s\<rparr>))))))"

definition pending_partial_withdrawal_of :: "kwargs \<Rightarrow> pending_partial_withdrawal res" where
  "pending_partial_withdrawal_of kw =
     bindR (construct [''validator_index'', ''amount'', ''withdrawable_epoch''] [] kw) (\<lambda>kw.
     bindR (int_field kw ''validator_index'') (\<lambda>i.
     bindR (int_field kw ''amount'') (\<lambda>a.
     bindR (int_field kw ''withdrawable_epoch'') (\<lambda>e.
       Inr \<lparr>pp_validator_index = i, pp_amount = a, pp_withdrawable_epoch = e\<rparr>))))"

definition pending_consolidation_of :: "kwargs \<Rightarrow> pending_consolidation res" where
  "pending_consolidation_of kw =
     bindR (construct [''source_index'', ''target_index''] [] kw) (\<lambda>kw.
     bindR (int_field kw ''source_index'') (\<lambda>s.
     bindR (int_field kw ''target_index'') (\<lambda>t.
       Inr \<lparr>pc_source_index = s, pc_target_index = t\<rparr>)))"

definition beacon_state_view :: "kwargs \<Rightarrow> beacon_state res" where
  "beacon_state_view kw =
     bindR (from_response [''slot'', ''validators'', ''balances'', ''slashings'']
       [''exit_balance_to_consume'', ''earliest_exit_epoch'', ''pending_deposits'', ''pending_partial_withdrawals'',
        ''pending_consolidations''] kw) (\<lambda>kw.
     bindR (int_field kw ''slot'') (\<lambda>s.
     bindR (list_field (transform validator_state_response) kw ''validators'') (\<lambda>validators.
     bindR (list_field json_to_int kw ''balances'') (\<lambda>balances.
     bindR (list_field json_to_int kw ''slashings'') (\<lambda>slashings.
     bindR (int_field_or 0 kw ''exit_balance_to_consume'') (\<lambda>exit_balance_to_consume.
     bindR (int_field_or 0 kw ''earliest_exit_epoch'') (\<lambda>earliest_exit_epoch.
     bindR (list_field_or_empty (transform pending_deposit_of) kw ''pending_deposits'') (\<lambda>deposits.
     bindR (list_field_or_empty (transform pending_partial_withdrawal_of) kw ''pending_partial_withdrawals'') (\<lambda>partials.
     bindR (list_field_or_empty (transform pending_consolidation_of) kw ''pending_consolidations'') (\<lambda>consolidations.
       Inr \<lparr>st_slot = s, st_validators = validators, st_balances = balances, st_slashings = slashings,
            st_exit_balance_to_consume = exit_balance_to_consume, st_earliest_exit_epoch = earliest_exit_epoch,
            st_pending_deposits = deposits, st_pending_partial_withdrawals = partials,
            st_pending_consolidations = consolidations\<rparr>))))))))))"

section \<open>Keys\<close>

definition word_char :: "char \<Rightarrow> bool" where
  "word_char c = (let n = of_char c :: nat in 97 \<le> n \<and> n \<le> 122 \<or> 48 \<le> n \<and> n \<le> 57)"

definition lower_letter :: "char \<Rightarrow> bool" where
  "lower_letter c = (let n = of_char c :: nat in 97 \<le> n \<and> n \<le> 122)"

definition upper_letter :: "char \<Rightarrow> bool" where
  "upper_letter c = (let n = of_char c :: nat in 65 \<le> n \<and> n \<le> 90)"

text \<open>The two substitutions \<open>(.)([A-Z][a-z]+)\<close> and \<open>([a-z0-9])([A-Z])\<close> by \<open>\1_\2\<close>.\<close>

function split_words :: "string \<Rightarrow> string" where
  "split_words [] = []"
| "split_words [c] = [c]"
| "split_words (c # d # cs) =
     (if c \<noteq> char_of (10 :: nat) \<and> upper_letter d \<and> takeWhile lower_letter cs \<noteq> []
      then [c, CHR ''_'', d] @ takeWhile lower_letter cs @ split_words (dropWhile lower_letter cs)
      else c # split_words (d # cs))"
  by pat_completeness auto
termination
  by (relation "measure length") (auto simp: le_imp_less_Suc length_dropWhile_le le_SucI)

fun split_capitals :: "string \<Rightarrow> string" where
  "split_capitals [] = []"
| "split_capitals [c] = [c]"
| "split_capitals (c # d # cs) =
     (if word_char c \<and> upper_letter d then [c, CHR ''_'', d] @ split_capitals cs else c # split_capitals (d # cs))"

definition camel_to_snake :: "string \<Rightarrow> string" where
  "camel_to_snake name = lower (split_capitals (split_words name))"

definition snake_kwargs :: "kwargs \<Rightarrow> kwargs" where
  "snake_kwargs kw = fold (\<lambda>(k, v). AList.update (camel_to_snake k) v) kw []"

record kapi_key = lido_key +
  kk_deposit_signature :: hexstr
  kk_used :: bool

definition lido_key_response :: "kwargs \<Rightarrow> kapi_key res" where
  "lido_key_response kw =
     bindR (from_response [''index'', ''key'', ''deposit_signature'', ''operator_index'', ''used'', ''module_address''] []
       (snake_kwargs kw)) (\<lambda>kw.
     bindR (raw_int_field kw ''index'') (\<lambda>index.
     bindR (text_field kw ''key'') (\<lambda>key.
     bindR (text_field kw ''deposit_signature'') (\<lambda>sig.
     bindR (raw_int_field kw ''operator_index'') (\<lambda>operator_index.
     bindR (bool_field kw ''used'') (\<lambda>used.
     bindR (text_field kw ''module_address'') (\<lambda>address.
       Inr \<lparr>lk_index = index, lk_key = lower key, lk_operator_index = operator_index, lk_module_address = address,
            kk_deposit_signature = sig, kk_used = used\<rparr>)))))))"

record kapi_status =
  ks_app_version :: string
  ks_chain_id :: int

definition kapi_status_response :: "kwargs \<Rightarrow> kapi_status res" where
  "kapi_status_response kw =
     bindR (from_response [''app_version'', ''chain_id''] [] (snake_kwargs kw)) (\<lambda>kw.
     bindR (text_field kw ''app_version'') (\<lambda>v.
     bindR (raw_int_field kw ''chain_id'') (\<lambda>n. Inr \<lparr>ks_app_version = v, ks_chain_id = n\<rparr>)))"

section \<open>What a decoded response is\<close>

lemma slot_duration_iff:
  "slot_duration ms seconds = Inr (ms', seconds') \<longleftrightarrow>
     ms' = 1000 * seconds' \<and> seconds' \<noteq> 0 \<and> ms \<in> {0, ms'} \<and> seconds \<in> {0, seconds'} \<and> (ms, seconds) \<noteq> (0, 0)"
  by (auto simp: slot_duration_def Let_def mod_eq_0_iff_dvd)

lemma fits_max_balance:
  "validator_state_response kw = Inr v \<Longrightarrow> vs_effective_balance v \<le> get_max_effective_balance v"
  by (auto simp: validator_state_response_def bindR_eq_Inr Let_def split: if_splits)

lemma lower_idem [simp]: "lower (lower s) = lower s"
  by (auto simp: lower_def lower_char_def Let_def)

lemma deposit_lower: "pending_deposit_of kw = Inr d \<Longrightarrow> lower (pd_pubkey d) = pd_pubkey d \<and>
    lower (pd_withdrawal_credentials d) = pd_withdrawal_credentials d"
  by (auto simp: pending_deposit_of_def bindR_eq_Inr)

lemma list_of_all:
  assumes "list_of f v = Inr xs" "\<And>j x. f j = Inr x \<Longrightarrow> P x"
  shows "\<forall>x \<in> set xs. P x"
proof -
  have "mapR f js = Inr xs \<Longrightarrow> \<forall>x \<in> set xs. P x" for js
    using assms(2) by (induction js arbitrary: xs) (auto simp: bindR_eq_Inr)
  then show ?thesis using assms(1) by (auto simp: list_of_def bindR_eq_Inr)
qed

lemma filtered_lookup: "map_of (filter (\<lambda>(k, _). k \<in> A) kw) k = (if k \<in> A then map_of kw k else None)"
  by (induction kw) auto

lemma from_response_lookup:
  "from_response required optional kw = Inr kw' \<Longrightarrow> k \<in> set (required @ optional) \<Longrightarrow> map_of kw' k = map_of kw k"
proof -
  assume "from_response required optional kw = Inr kw'" and k: "k \<in> set (required @ optional)"
  then have "kw' = filter (\<lambda>(k, _). k \<in> set (required @ optional)) kw"
    by (simp only: from_response_def construct_def split: if_splits) simp_all
  then show ?thesis using k by (simp only: filtered_lookup if_True)
qed

lemma spec_durations:
  assumes "beacon_spec_response kw = Inr sp"
  shows "\<exists>ms seconds. int_field_or 0 kw ''SLOT_DURATION_MS'' = Inr ms \<and> int_field_or 0 kw ''SECONDS_PER_SLOT'' = Inr seconds \<and>
    slot_duration ms seconds = Inr (sp_SLOT_DURATION_MS sp, sp_SECONDS_PER_SLOT sp)"
proof -
  let ?f = "[''DEPOSIT_CHAIN_ID'', ''SLOTS_PER_EPOCH'', ''DEPOSIT_CONTRACT_ADDRESS'', ''SLOTS_PER_HISTORICAL_ROOT'']"
    and ?d = "[''SLOT_DURATION_MS'', ''SECONDS_PER_SLOT'']"
  obtain kw' ms seconds where r: "from_response ?f ?d kw = Inr kw'" and
    f: "int_field_or 0 kw' ''SLOT_DURATION_MS'' = Inr ms" "int_field_or 0 kw' ''SECONDS_PER_SLOT'' = Inr seconds"
      "slot_duration ms seconds = Inr (sp_SLOT_DURATION_MS sp, sp_SECONDS_PER_SLOT sp)"
    using assms by (auto simp: beacon_spec_response_def bindR_eq_Inr)
  have "int_field_or 0 kw' k = int_field_or 0 kw k" if "k \<in> set ?d" for k
    using from_response_lookup[OF r, of k] that by (simp only: int_field_or_def set_append Un_iff simp_thms)
  then have "int_field_or 0 kw' ''SLOT_DURATION_MS'' = int_field_or 0 kw ''SLOT_DURATION_MS''"
    "int_field_or 0 kw' ''SECONDS_PER_SLOT'' = int_field_or 0 kw ''SECONDS_PER_SLOT''" by (simp_all only: list.set insert_iff simp_thms)
  then show ?thesis using f by (intro exI[of _ ms] exI[of _ seconds]) simp
qed

lemma state_view_bounds:
  assumes "beacon_state_view kw = Inr st"
  shows "(\<forall>v \<in> set (st_validators st). vs_effective_balance v \<le> get_max_effective_balance v) \<and>
    (\<forall>d \<in> set (st_pending_deposits st). lower (pd_pubkey d) = pd_pubkey d \<and>
       lower (pd_withdrawal_credentials d) = pd_withdrawal_credentials d)"
proof -
  obtain kw' where v: "list_field (transform validator_state_response) kw' ''validators'' = Inr (st_validators st)"
    and d: "list_field_or_empty (transform pending_deposit_of) kw' ''pending_deposits'' = Inr (st_pending_deposits st)"
    using assms by (auto simp: beacon_state_view_def bindR_eq_Inr)
  obtain j where "list_of (transform validator_state_response) j = Inr (st_validators st)"
    using v by (auto simp: list_field_def bindR_eq_Inr)
  then have "\<forall>v \<in> set (st_validators st). vs_effective_balance v \<le> get_max_effective_balance v"
    by (rule list_of_all) (auto simp: transform_def bindR_eq_Inr dest: fits_max_balance)
  moreover have "\<forall>d \<in> set (st_pending_deposits st). lower (pd_pubkey d) = pd_pubkey d \<and>
      lower (pd_withdrawal_credentials d) = pd_withdrawal_credentials d"
  proof (cases "map_of kw' ''pending_deposits''")
    case (Some j)
    then have "list_of (transform pending_deposit_of) j = Inr (st_pending_deposits st)"
      using d by (simp add: list_field_or_empty_def)
    then show ?thesis by (rule list_of_all) (auto simp: transform_def bindR_eq_Inr dest: deposit_lower)
  qed (use d in \<open>simp add: list_field_or_empty_def\<close>)
  ultimately show ?thesis by simp
qed

text \<open>
  C36. Whatever a node answers: a chain specification that is accepted gives both forms of the slot duration,
  equal and not zero, and none of the two that the node sent is changed; a state view that is accepted has
  no validator above its maximal effective balance and only lower-case keys and credentials among its
  pending deposits.
\<close>

theorem responses_well_formed:
  assumes "beacon_spec_response kw = Inr sp" and "beacon_state_view kw' = Inr st"
  shows "sp_SLOT_DURATION_MS sp = 1000 * sp_SECONDS_PER_SLOT sp \<and> sp_SECONDS_PER_SLOT sp \<noteq> 0 \<and>
    int_field_or 0 kw ''SLOT_DURATION_MS'' \<in> {Inr 0, Inr (sp_SLOT_DURATION_MS sp)} \<and>
    int_field_or 0 kw ''SECONDS_PER_SLOT'' \<in> {Inr 0, Inr (sp_SECONDS_PER_SLOT sp)} \<and>
    (\<forall>v \<in> set (st_validators st). vs_effective_balance v \<le> get_max_effective_balance v) \<and>
    (\<forall>d \<in> set (st_pending_deposits st). lower (pd_pubkey d) = pd_pubkey d \<and>
       lower (pd_withdrawal_credentials d) = pd_withdrawal_credentials d)"
  using spec_durations[OF assms(1)] state_view_bounds[OF assms(2)] by (auto simp: slot_duration_iff)

section \<open>Reading back a state\<close>

text \<open>A state as the Beacon API sends it: numbers are decimal text.\<close>

abbreviation num :: "int \<Rightarrow> json" where "num n \<equiv> JStr (str_of_int n)"

definition validator_state_json :: "validator_state \<Rightarrow> json" where
  "validator_state_json v = JObj
     [(''pubkey'', JStr (vs_pubkey v)), (''withdrawal_credentials'', JStr (vs_withdrawal_credentials v)),
      (''effective_balance'', num (vs_effective_balance v)), (''slashed'', JBool (vs_slashed v)),
      (''activation_eligibility_epoch'', num (vs_activation_eligibility_epoch v)),
      (''activation_epoch'', num (vs_activation_epoch v)), (''exit_epoch'', num (vs_exit_epoch v)),
      (''withdrawable_epoch'', num (vs_withdrawable_epoch v))]"

definition pending_deposit_json :: "pending_deposit \<Rightarrow> json" where
  "pending_deposit_json d = JObj
     [(''pubkey'', JStr (pd_pubkey d)), (''withdrawal_credentials'', JStr (pd_withdrawal_credentials d)),
      (''amount'', num (pd_amount d)), (''signature'', JStr (pd_signature d)), (''slot'', num (pd_slot d))]"

definition partial_withdrawal_json :: "pending_partial_withdrawal \<Rightarrow> json" where
  "partial_withdrawal_json w = JObj
     [(''validator_index'', num (pp_validator_index w)), (''amount'', num (pp_amount w)),
      (''withdrawable_epoch'', num (pp_withdrawable_epoch w))]"

definition consolidation_json :: "pending_consolidation \<Rightarrow> json" where
  "consolidation_json c = JObj [(''source_index'', num (pc_source_index c)), (''target_index'', num (pc_target_index c))]"

definition state_fields :: "string list" where
  "state_fields = [''slot'', ''validators'', ''balances'', ''slashings'', ''exit_balance_to_consume'',
     ''earliest_exit_epoch'', ''pending_deposits'', ''pending_partial_withdrawals'', ''pending_consolidations'']"

definition state_kwargs :: "beacon_state \<Rightarrow> kwargs" where
  "state_kwargs st =
     [(''slot'', num (st_slot st)), (''validators'', JList (map validator_state_json (st_validators st))),
      (''balances'', JList (map num (st_balances st))), (''slashings'', JList (map num (st_slashings st))),
      (''exit_balance_to_consume'', num (st_exit_balance_to_consume st)),
      (''earliest_exit_epoch'', num (st_earliest_exit_epoch st)),
      (''pending_deposits'', JList (map pending_deposit_json (st_pending_deposits st))),
      (''pending_partial_withdrawals'', JList (map partial_withdrawal_json (st_pending_partial_withdrawals st))),
      (''pending_consolidations'', JList (map consolidation_json (st_pending_consolidations st)))]"

lemma list_of_map:
  assumes "\<And>x. x \<in> set xs \<Longrightarrow> f (g x) = Inr x"
  shows "list_of f (JList (map g xs)) = Inr xs"
proof -
  have "mapR f (map g xs) = Inr xs" using assms by (induction xs) auto
  then show ?thesis by (simp add: list_of_def)
qed

lemma validator_state_back:
  "vs_effective_balance v \<le> get_max_effective_balance v \<Longrightarrow>
     transform validator_state_response (validator_state_json v) = Inr v"
  by (cases v) (simp add: transform_def validator_state_json_def validator_state_response_def from_response_def construct_def
      text_field_def int_field_def bool_field_def lookupR_def Let_def)

lemma pending_deposit_back:
  "lower (pd_pubkey d) = pd_pubkey d \<Longrightarrow> lower (pd_withdrawal_credentials d) = pd_withdrawal_credentials d \<Longrightarrow>
     transform pending_deposit_of (pending_deposit_json d) = Inr d"
  by (simp add: transform_def pending_deposit_json_def pending_deposit_of_def construct_def
      text_field_def int_field_def lookupR_def)

lemma partial_withdrawal_back: "transform pending_partial_withdrawal_of (partial_withdrawal_json w) = Inr w"
  by (simp add: transform_def partial_withdrawal_json_def pending_partial_withdrawal_of_def construct_def
      int_field_def lookupR_def)

lemma consolidation_back: "transform pending_consolidation_of (consolidation_json c) = Inr c"
  by (simp add: transform_def consolidation_json_def pending_consolidation_of_def construct_def
      int_field_def lookupR_def)

lemma from_response_extra:
  assumes "\<forall>k \<in> set (map fst extra). k \<notin> set (required @ optional)"
  shows "from_response required optional (extra @ kw) = from_response required optional kw"
proof -
  have "filter (\<lambda>(k, _). k \<in> set (required @ optional)) extra = []" using assms by (auto simp: filter_empty_conv)
  then show ?thesis by (simp only: from_response_def filter_append append_Nil)
qed

text \<open>
  A state a node sends is what the oracle computes with: decoding the document of a state gives back
  every field the view keeps, whatever further fields the document has, provided no validator exceeds its
  maximal effective balance and the keys of its pending deposits are in lower case.
\<close>

theorem state_view_roundtrip:
  assumes "\<forall>v \<in> set (st_validators st). vs_effective_balance v \<le> get_max_effective_balance v"
    and "\<forall>d \<in> set (st_pending_deposits st). lower (pd_pubkey d) = pd_pubkey d \<and>
          lower (pd_withdrawal_credentials d) = pd_withdrawal_credentials d"
    and "\<forall>k \<in> set (map fst extra). k \<notin> set state_fields"
  shows "beacon_state_view (extra @ state_kwargs st) = Inr st"
proof -
  let ?f = "[''slot'', ''validators'', ''balances'', ''slashings'']"
    and ?d = "[''exit_balance_to_consume'', ''earliest_exit_epoch'', ''pending_deposits'', ''pending_partial_withdrawals'',
        ''pending_consolidations'']"
  have "from_response ?f ?d (extra @ state_kwargs st) = from_response ?f ?d (state_kwargs st)"
    using assms(3) by (intro from_response_extra) (simp add: state_fields_def)
  also have "\<dots> = Inr (state_kwargs st)"
    by (simp add: from_response_def construct_def state_kwargs_def)
  finally have kw: "from_response ?f ?d (extra @ state_kwargs st) = Inr (state_kwargs st)" .
  have "list_of (transform validator_state_response) (JList (map validator_state_json (st_validators st))) = Inr (st_validators st)"
    using assms(1) by (intro list_of_map validator_state_back) auto
  moreover have "list_of (transform pending_deposit_of) (JList (map pending_deposit_json (st_pending_deposits st))) =
      Inr (st_pending_deposits st)"
    using assms(2) by (intro list_of_map pending_deposit_back) auto
  moreover have "list_of (transform pending_partial_withdrawal_of)
      (JList (map partial_withdrawal_json (st_pending_partial_withdrawals st))) = Inr (st_pending_partial_withdrawals st)"
    by (intro list_of_map partial_withdrawal_back)
  moreover have "list_of (transform pending_consolidation_of)
      (JList (map consolidation_json (st_pending_consolidations st))) = Inr (st_pending_consolidations st)"
    by (intro list_of_map consolidation_back)
  moreover have "list_of json_to_int (JList (map num ns)) = Inr ns" for ns by (intro list_of_map) simp
  ultimately show ?thesis unfolding beacon_state_view_def kw
    by (simp add: state_kwargs_def int_field_def int_field_or_def list_field_def list_field_or_empty_def lookupR_def)
qed

definition demo_state :: beacon_state where
  "demo_state = \<lparr>st_slot = 64,
     st_validators = [\<lparr>vs_pubkey = ''0xa1'', vs_withdrawal_credentials = ''0x01'', vs_effective_balance = 32000000000,
       vs_slashed = False, vs_activation_eligibility_epoch = 0, vs_activation_epoch = 1,
       vs_exit_epoch = 18446744073709551615, vs_withdrawable_epoch = 18446744073709551615\<rparr>],
     st_balances = [32000000001], st_slashings = [0, 7], st_exit_balance_to_consume = 5, st_earliest_exit_epoch = 6,
     st_pending_deposits = [\<lparr>pd_pubkey = ''0xb2'', pd_withdrawal_credentials = ''0x02'', pd_amount = 1000000000,
       pd_signature = ''0xc3'', pd_slot = 60\<rparr>],
     st_pending_partial_withdrawals = [], st_pending_consolidations = [\<lparr>pc_source_index = 0, pc_target_index = 0\<rparr>]\<rparr>"

theorem state_view_roundtrip_witness:
  "beacon_state_view ([(''fork'', JNull), (''eth1_data'', JInt 3)] @ state_kwargs demo_state) = Inr demo_state"
proof (rule state_view_roundtrip)
  show "\<forall>v \<in> set (st_validators demo_state). vs_effective_balance v \<le> get_max_effective_balance v" by code_simp
  show "\<forall>d \<in> set (st_pending_deposits demo_state). lower (pd_pubkey d) = pd_pubkey d \<and>
      lower (pd_withdrawal_credentials d) = pd_withdrawal_credentials d" by code_simp
  show "\<forall>k \<in> set (map fst [(''fork'', JNull), (''eth1_data'', JInt 3)]). k \<notin> set state_fields" by code_simp
qed

definition demo_spec_kwargs :: kwargs where
  "demo_spec_kwargs = [(''SLOTS_PER_EPOCH'', num 32), (''CONFIG_NAME'', JStr ''mainnet''), (''SLOT_DURATION_MS'', num 12000),
     (''DEPOSIT_CHAIN_ID'', num 1), (''DEPOSIT_CONTRACT_ADDRESS'', JStr ''0x00''), (''SLOTS_PER_HISTORICAL_ROOT'', num 8192)]"

theorem responses_well_formed_witness:
  "\<exists>sp. beacon_spec_response demo_spec_kwargs = Inr sp \<and> sp_SECONDS_PER_SLOT sp = 12 \<and>
    sp_SLOT_DURATION_MS sp = 1000 * sp_SECONDS_PER_SLOT sp \<and>
    (\<forall>v \<in> set (st_validators demo_state). vs_effective_balance v \<le> get_max_effective_balance v)"
proof -
  let ?sp = "\<lparr>sp_DEPOSIT_CHAIN_ID = 1, sp_SLOTS_PER_EPOCH = 32, sp_DEPOSIT_CONTRACT_ADDRESS = ''0x00'',
     sp_SLOTS_PER_HISTORICAL_ROOT = 8192, sp_SLOT_DURATION_MS = 12000, sp_SECONDS_PER_SLOT = 12\<rparr>"
  have "beacon_spec_response demo_spec_kwargs = Inr ?sp"
    by (simp add: beacon_spec_response_def demo_spec_kwargs_def from_response_def construct_def text_field_def int_field_def
        int_field_or_def lookupR_def slot_duration_def)
  moreover have "beacon_state_view (state_kwargs demo_state) = Inr demo_state" by code_simp
  ultimately show ?thesis using responses_well_formed[of demo_spec_kwargs ?sp "state_kwargs demo_state" demo_state]
    by (intro exI[of _ ?sp]) simp
qed

end
