(* ===== verification/Http.thy ===== *)
theory Http
  imports Responses
begin

text \<open>
  \<open>src/providers/http_provider.py\<close> and \<open>src/providers/consistency.py\<close>: a request is tried on one host
  after the other. \<open>network\<close> is what the session answers (its own retries included): a response, or \<open>None\<close>
  when the request raised. Joining host and path is left to the session, so a request carries the endpoint
  and its parameters. Exceptions carry the text of the response, which the consensus client looks at, so
  this layer has an error type of its own; \<open>to_res\<close> is the view its users have. Of a streamed body,
  \<open>stream\<close> is what \<open>json_stream\<close> yields while it is read, which may be an exception at any point.
\<close>

section \<open>Requests and responses\<close>

datatype http_err = NotOk int string | Raised pyerr

type_synonym 'a hres = "http_err + 'a"

fun bindH :: "'a hres \<Rightarrow> ('a \<Rightarrow> 'b hres) \<Rightarrow> 'b hres" where
  "bindH (Inl e) f = Inl e"
| "bindH (Inr a) f = f a"

fun liftH :: "'a res \<Rightarrow> 'a hres" where
  "liftH (Inl e) = Inl (Raised e)"
| "liftH (Inr a) = Inr a"

fun to_pyerr :: "http_err \<Rightarrow> pyerr" where
  "to_pyerr (NotOk status _) = NotOkResponse status"
| "to_pyerr (Raised e) = e"

fun to_res :: "'a hres \<Rightarrow> 'a res" where
  "to_res (Inl e) = Inl (to_pyerr e)"
| "to_res (Inr a) = Inr a"

datatype stream = SObject "string \<Rightarrow> pyerr + stream" | SArray "json list res" | SScalar json

datatype payload = Plain json | Transient stream

datatype http_method = GET | POST | DELETE

record http_request =
  rq_method :: http_method
  rq_endpoint :: string
  rq_path_params :: "json list"
  rq_query_params :: kwargs
  rq_body :: json

record http_response =
  hr_status :: int
  hr_text :: string
  hr_json :: "json option" \<comment> \<open>\<open>None\<close>: no JSON text\<close>
  hr_stream :: stream

type_synonym network = "string \<Rightarrow> http_request \<Rightarrow> http_response option"

definition OK :: int where "OK = 200"

definition new_http_provider :: "string list \<Rightarrow> string list res" where
  "new_http_provider hosts = (if hosts = [] then Inl NoHostsProvided else Inr hosts)"

section \<open>Validators\<close>

type_synonym return_value_validator = "payload \<Rightarrow> kwargs \<Rightarrow> unit res"

definition data_is_any :: return_value_validator where
  "data_is_any data meta = Inr ()"

definition data_is_bool :: return_value_validator where
  "data_is_bool data meta = (case data of Plain (JBool _) \<Rightarrow> Inr () | _ \<Rightarrow> Inl ValueError)"

definition data_is_dict :: return_value_validator where
  "data_is_dict data meta = (case data of Plain (JObj _) \<Rightarrow> Inr () | _ \<Rightarrow> Inl ValueError)"

definition data_is_list :: return_value_validator where
  "data_is_list data meta = (case data of Plain (JList _) \<Rightarrow> Inr () | _ \<Rightarrow> Inl ValueError)"

definition data_is_int :: return_value_validator where
  "data_is_int data meta = (case data of Plain (JInt _) \<Rightarrow> Inr () | _ \<Rightarrow> Inl ValueError)"

definition data_is_transient_dict :: return_value_validator where
  "data_is_transient_dict data meta = (case data of Transient (SObject _) \<Rightarrow> Inr () | _ \<Rightarrow> Inl ValueError)"

section \<open>One host\<close>

fun payload_get :: "payload \<Rightarrow> string \<Rightarrow> payload res" where
  "payload_get (Plain j) k = bindR (json_get j k) (\<lambda>v. Inr (Plain v))"
| "payload_get (Transient (SObject f)) k = bindR (f k) (\<lambda>v. Inr (Transient v))"
| "payload_get (Transient _) k = Inl TypeError"

text \<open>The part after decoding of a GET: \<open>data\<close> and the rest, or the document itself.\<close>

definition split_data :: "payload \<Rightarrow> (payload \<times> kwargs) res" where
  "split_data json_response =
     (case payload_get json_response ''data'' of
        Inr data \<Rightarrow> Inr (data, case json_response of Plain (JObj kvs) \<Rightarrow> AList.delete ''data'' kvs | _ \<Rightarrow> [])
      | Inl e \<Rightarrow> if e = KeyError \<or> e = TypeError then Inr (json_response, []) else Inl e)"

definition get_without_fallbacks ::
    "network \<Rightarrow> http_request \<Rightarrow> bool \<Rightarrow> return_value_validator \<Rightarrow> (payload \<Rightarrow> payload res) option \<Rightarrow> string \<Rightarrow>
     (payload \<times> kwargs) hres" where
  "get_without_fallbacks net rq stream validate_response stream_consumer host =
     (case net host rq of
        None \<Rightarrow> Inl (NotOk 0 ''Response error.'')
      | Some response \<Rightarrow>
          if hr_status response \<noteq> OK then Inl (NotOk (hr_status response) (hr_text response))
          else
            bindH (if stream then Inr (Transient (hr_stream response))
                   else case hr_json response of
                          None \<Rightarrow> Inl (NotOk 0 ''JSON decode error.'')
                        | Some j \<Rightarrow> Inr (Plain j)) (\<lambda>json_response.
            bindH (liftH (split_data json_response)) (\<lambda>(data, meta).
            bindH (liftH (validate_response data meta)) (\<lambda>_.
            bindH (liftH (case stream_consumer of None \<Rightarrow> Inr data | Some consume \<Rightarrow> consume data)) (\<lambda>data.
              Inr (data, meta))))))"

text \<open>POST and DELETE: only a missing key is forgiven.\<close>

definition split_body :: "json \<Rightarrow> (payload \<times> kwargs) res" where
  "split_body json_response =
     (case json_get json_response ''data'' of
        Inr data \<Rightarrow> Inr (Plain data, case json_response of JObj kvs \<Rightarrow> AList.delete ''data'' kvs | _ \<Rightarrow> [])
      | Inl KeyError \<Rightarrow> Inr (Plain json_response, [])
      | Inl e \<Rightarrow> Inl e)"

definition post_without_fallbacks ::
    "network \<Rightarrow> http_request \<Rightarrow> return_value_validator \<Rightarrow> string \<Rightarrow> (payload \<times> kwargs) hres" where
  "post_without_fallbacks net rq validate_response host =
     (case net host rq of
        None \<Rightarrow> Inl (NotOk 0 ''Response error.'')
      | Some response \<Rightarrow>
          if hr_status response \<noteq> OK then Inl (NotOk (hr_status response) (hr_text response))
          else case hr_json response of
                 None \<Rightarrow> Inl (NotOk 0 ''JSON decode error.'')
               | Some j \<Rightarrow> bindH (liftH (split_body j)) (\<lambda>(data, meta).
                   bindH (liftH (validate_response data meta)) (\<lambda>_. Inr (data, meta))))"

definition delete_without_fallbacks ::
    "network \<Rightarrow> http_request \<Rightarrow> return_value_validator \<Rightarrow> string \<Rightarrow> (payload \<times> kwargs) hres" where
  \<comment> \<open>an answer without content counts as an empty dict\<close>
  "delete_without_fallbacks net rq validate_response host =
     (case net host rq of
        None \<Rightarrow> Inl (NotOk 0 ''Response error.'')
      | Some response \<Rightarrow>
          if hr_status response \<noteq> OK then Inl (NotOk (hr_status response) (hr_text response))
          else case (if hr_text response = [] then Some (JObj []) else hr_json response) of
                 None \<Rightarrow> Inl (NotOk 0 ''JSON decode error.'')
               | Some j \<Rightarrow> bindH (liftH (split_body j)) (\<lambda>(data, meta).
                   bindH (liftH (validate_response data meta)) (\<lambda>_. Inr (data, meta))))"

section \<open>All hosts\<close>

type_synonym force_raise = "http_err list \<Rightarrow> http_err option"

definition never_force :: force_raise where
  "never_force errors = None"

fun fallback_loop :: "pyerr \<Rightarrow> force_raise \<Rightarrow> (string \<Rightarrow> 'a hres) \<Rightarrow> string list \<Rightarrow> http_err list \<Rightarrow> 'a hres" where
  "fallback_loop no_hosts force_raise attempt [] errors =
     (if errors = [] then Inl (Raised no_hosts) else Inl (last errors))"
| "fallback_loop no_hosts force_raise attempt (host # hosts) errors =
     (case attempt host of
        Inr a \<Rightarrow> Inr a
      | Inl e \<Rightarrow>
          (case force_raise (errors @ [e]) of
             Some forced \<Rightarrow> Inl forced
           | None \<Rightarrow> fallback_loop no_hosts force_raise attempt hosts (errors @ [e])))"

definition http_get ::
    "network \<Rightarrow> string list \<Rightarrow> http_request \<Rightarrow> force_raise \<Rightarrow> return_value_validator \<Rightarrow> (payload \<times> kwargs) hres" where
  "http_get net hosts rq force_raise validate_response =
     fallback_loop IndexError force_raise (get_without_fallbacks net rq False validate_response None) hosts []"

definition http_get_stream ::
    "network \<Rightarrow> string list \<Rightarrow> http_request \<Rightarrow> force_raise \<Rightarrow> return_value_validator \<Rightarrow> (payload \<Rightarrow> payload res) \<Rightarrow>
     (payload \<times> kwargs) hres" where
  "http_get_stream net hosts rq force_raise validate_response stream_consumer =
     fallback_loop IndexError force_raise (get_without_fallbacks net rq True validate_response (Some stream_consumer)) hosts []"

definition http_post ::
    "network \<Rightarrow> string list \<Rightarrow> http_request \<Rightarrow> force_raise \<Rightarrow> return_value_validator \<Rightarrow> (payload \<times> kwargs) hres" where
  "http_post net hosts rq force_raise validate_response =
     fallback_loop IndexError force_raise (post_without_fallbacks net rq validate_response) hosts []"

definition http_delete ::
    "network \<Rightarrow> string list \<Rightarrow> http_request \<Rightarrow> force_raise \<Rightarrow> return_value_validator \<Rightarrow> (payload \<times> kwargs) hres" where
  "http_delete net hosts rq force_raise validate_response =
     fallback_loop RuntimeError force_raise (delete_without_fallbacks net rq validate_response) hosts []"

section \<open>Provider consistency\<close>

text \<open>The chain ids the providers answer, in order.\<close>

fun consistency_loop :: "int option \<Rightarrow> int hres list \<Rightarrow> int option res" where
  "consistency_loop chain_id [] = Inr chain_id"
| "consistency_loop chain_id (Inl _ # answers) = Inl NotHealthyProvider"
| "consistency_loop chain_id (Inr curr_chain_id # answers) =
     (case chain_id of
        None \<Rightarrow> consistency_loop (Some curr_chain_id) answers
      | Some c \<Rightarrow> if c \<noteq> curr_chain_id then Inl InconsistentProviders else consistency_loop chain_id answers)"

definition check_providers_consistency :: "int hres list \<Rightarrow> int option res" where
  "check_providers_consistency answers = consistency_loop None answers"

definition check_providers_chain_ids :: "int hres list \<Rightarrow> int hres list \<Rightarrow> int hres list \<Rightarrow> unit res" where
  "check_providers_chain_ids keys_api consensus execution =
     bindR (check_providers_consistency keys_api) (\<lambda>keys_api_chain_id.
     bindR (check_providers_consistency consensus) (\<lambda>consensus_chain_id.
     bindR (check_providers_consistency execution) (\<lambda>execution_chain_id.
       if execution_chain_id = consensus_chain_id \<and> consensus_chain_id = keys_api_chain_id then Inr ()
       else Inl IncompatibleException)))"

section \<open>Which answer a fallback gives\<close>

lemma bindH_eq_Inr: "bindH r f = Inr b \<longleftrightarrow> (\<exists>a. r = Inr a \<and> f a = Inr b)"
  by (cases r) auto

lemma bindH_eq_Inl: "bindH r f = Inl e \<longleftrightarrow> r = Inl e \<or> (\<exists>a. r = Inr a \<and> f a = Inl e)"
  by (cases r) auto

lemma liftH_eq_Inr [simp]: "liftH r = Inr a \<longleftrightarrow> r = Inr a"
  by (cases r) auto

lemma liftH_eq_Inl [simp]: "liftH r = Inl e \<longleftrightarrow> (\<exists>x. r = Inl x \<and> e = Raised x)"
  by (cases r) auto

text \<open>The first success; without one, the forced error or the last.\<close>

definition failures :: "'a hres list \<Rightarrow> http_err list" where
  "failures rs = concat (map (\<lambda>r. case r of Inl e \<Rightarrow> [e] | Inr _ \<Rightarrow> []) rs)"

definition first_success :: "'a hres list \<Rightarrow> 'a option" where
  "first_success rs = (case filter (\<lambda>r. case r of Inr _ \<Rightarrow> True | Inl _ \<Rightarrow> False) rs of Inr a # _ \<Rightarrow> Some a | _ \<Rightarrow> None)"

lemma first_success_simps [simp]:
  "first_success [] = None"
  "first_success (Inr a # rs) = Some a"
  "first_success (Inl e # rs) = first_success rs"
  by (simp_all add: first_success_def)

lemma failures_simps [simp]:
  "failures [] = []" "failures (Inl e # rs) = e # failures rs" "failures (Inr a # rs) = failures rs"
  by (simp_all add: failures_def)

lemma first_success_in: "first_success rs = Some a \<Longrightarrow> Inr a \<in> set rs"
proof (induction rs)
  case (Cons r rs)
  then show ?case by (cases r) auto
qed simp

lemma no_success: "first_success rs = None \<longleftrightarrow> (\<forall>r \<in> set rs. \<exists>e. r = Inl e)"
proof (induction rs)
  case (Cons r rs)
  then show ?case by (cases r) auto
qed simp

lemma length_failures: "first_success rs = None \<Longrightarrow> length (failures rs) = length rs"
proof (induction rs)
  case (Cons r rs)
  then show ?case by (cases r) auto
qed simp

text \<open>An exception that is forced only once every host has failed.\<close>

lemma fallback_late:
  assumes "\<And>es. length es < n \<Longrightarrow> force es = None" and "length errors + length hosts = n"
  shows "fallback_loop no_hosts force attempt hosts errors =
    (case first_success (map attempt hosts) of
       Some a \<Rightarrow> Inr a
     | None \<Rightarrow>
         let es = errors @ failures (map attempt hosts)
         in if es = [] then Inl (Raised no_hosts)
            else if hosts = [] then Inl (last es)
            else case force es of Some forced \<Rightarrow> Inl forced | None \<Rightarrow> Inl (last es))"
  using assms(2)
proof (induction hosts arbitrary: errors)
  case (Cons host hosts)
  show ?case
  proof (cases "attempt host")
    case (Inl e)
    have ih: "length (errors @ [e]) + length hosts = n" using Cons.prems by simp
    show ?thesis
    proof (cases "hosts = []")
      case True
      then show ?thesis by (simp add: Inl Let_def split: option.splits)
    next
      case False
      then have "force (errors @ [e]) = None" using assms(1) Cons.prems by (cases hosts) auto
      then have "fallback_loop no_hosts force attempt (host # hosts) errors =
          fallback_loop no_hosts force attempt hosts (errors @ [e])" by (simp add: Inl)
      also note Cons.IH[OF ih]
      finally show ?thesis using False by (simp add: Inl split: option.split)
    qed
  qed simp
qed simp

lemma fallback_never:
  "hosts \<noteq> [] \<Longrightarrow> fallback_loop no_hosts never_force attempt hosts [] =
    (case first_success (map attempt hosts) of Some a \<Rightarrow> Inr a | None \<Rightarrow> Inl (last (failures (map attempt hosts))))"
  using fallback_late[of "length hosts" never_force "[]" hosts no_hosts attempt] length_failures[of "map attempt hosts"]
  by (auto simp: never_force_def Let_def split: option.splits)

lemma fallback_success: "fallback_loop no_hosts force attempt hosts errors = Inr a \<Longrightarrow> \<exists>host \<in> set hosts. attempt host = Inr a"
  by (induction hosts arbitrary: errors) (auto split: sum.splits option.splits if_splits)

lemma fallback_patient:
  "hosts \<noteq> [] \<Longrightarrow> fallback_loop no_hosts never_force attempt hosts [] = Inl e \<Longrightarrow>
     \<forall>host \<in> set hosts. \<exists>e. attempt host = Inl e"
  using no_success[of "map attempt hosts"] by (simp add: fallback_never split: option.splits)

section \<open>A pool of hosts\<close>

text \<open>
  What a client relies on, whichever method it sends: an answer is the answer of some host, and without
  forced exceptions a request fails only if every host fails.
\<close>

locale host_pool =
  fixes send :: "string list \<Rightarrow> force_raise \<Rightarrow> 'a hres" and attempt :: "string \<Rightarrow> 'a hres"
  assumes some_host: "send hosts force = Inr a \<Longrightarrow> \<exists>host \<in> set hosts. attempt host = Inr a"
    and patient: "hosts \<noteq> [] \<Longrightarrow> send hosts never_force = Inl e \<Longrightarrow> \<forall>host \<in> set hosts. \<exists>e. attempt host = Inl e"
begin

lemma answers_iff:
  "hosts \<noteq> [] \<Longrightarrow> (\<exists>a. send hosts never_force = Inr a) \<longleftrightarrow> (\<exists>host \<in> set hosts. \<exists>a. attempt host = Inr a)"
  using some_host[of hosts never_force] patient[of hosts] by (cases "send hosts never_force") force+

text \<open>Hosts that answer alike, some of which may fail, answer as one.\<close>

lemma agreed:
  assumes "\<forall>host \<in> set hosts. attempt host = answer \<or> (\<exists>e. attempt host = Inl e)" and "\<exists>host \<in> set hosts. attempt host = answer"
  shows "case answer of Inr a \<Rightarrow> send hosts never_force = Inr a | Inl _ \<Rightarrow> \<exists>e. send hosts never_force = Inl e"
proof (cases answer)
  case (Inl e)
  then have "\<not> (\<exists>host \<in> set hosts. \<exists>a. attempt host = Inr a)" using assms(1) by force
  then show ?thesis using Inl some_host[of hosts never_force] by (cases "send hosts never_force") auto
next
  case (Inr a)
  then obtain b where b: "send hosts never_force = Inr b" using assms(2) answers_iff[of hosts] by force
  then have "b = a" using some_host[OF b] assms(1) Inr by force
  then show ?thesis using b Inr by simp
qed

end

interpretation gets: host_pool "\<lambda>hosts force. http_get net hosts rq force validate"
    "get_without_fallbacks net rq False validate None" for net rq validate
  by unfold_locales (auto simp: http_get_def dest: fallback_success fallback_patient)

interpretation streams: host_pool "\<lambda>hosts force. http_get_stream net hosts rq force validate consumer"
    "get_without_fallbacks net rq True validate (Some consumer)" for net rq validate consumer
  by unfold_locales (auto simp: http_get_stream_def dest: fallback_success fallback_patient)

interpretation posts: host_pool "\<lambda>hosts force. http_post net hosts rq force validate" "post_without_fallbacks net rq validate"
  for net rq validate
  by unfold_locales (auto simp: http_post_def dest: fallback_success fallback_patient)

interpretation deletes: host_pool "\<lambda>hosts force. http_delete net hosts rq force validate" "delete_without_fallbacks net rq validate"
  for net rq validate
  by unfold_locales (auto simp: http_delete_def dest: fallback_success fallback_patient)

section \<open>One chain\<close>

lemma consistency_loop_ok:
  "consistency_loop chain_id answers = Inr r \<Longrightarrow>
     (\<forall>x \<in> set answers. \<exists>c. x = Inr c \<and> r = Some c) \<and> (chain_id \<noteq> None \<longrightarrow> r = chain_id) \<and> (answers = [] \<longrightarrow> r = chain_id)"
  by (induction chain_id answers rule: consistency_loop.induct) (auto split: option.splits if_splits)

lemma consistency_loop_same:
  "\<forall>x \<in> set answers. x = Inr c \<Longrightarrow> chain_id \<in> {None, Some c} \<Longrightarrow> consistency_loop chain_id answers =
     Inr (if answers = [] then chain_id else Some c)"
  by (induction chain_id answers rule: consistency_loop.induct) (auto split: option.splits if_splits)

text \<open>
  The start-up check lets the oracle run exactly when every configured provider of the keys API, of the
  consensus layer and of the execution layer answers, and all of them answer the same chain id.
\<close>

lemma one_chain:
  assumes "keys_api \<noteq> []" and "consensus \<noteq> []" and "execution \<noteq> []"
  shows "check_providers_chain_ids keys_api consensus execution = Inr () \<longleftrightarrow>
    (\<exists>c. \<forall>x \<in> set (keys_api @ consensus @ execution). x = Inr c)"
proof
  assume "check_providers_chain_ids keys_api consensus execution = Inr ()"
  then obtain r where "consistency_loop None keys_api = Inr r" "consistency_loop None consensus = Inr r"
    "consistency_loop None execution = Inr r"
    by (auto simp: check_providers_chain_ids_def check_providers_consistency_def bindR_eq_Inr split: if_splits)
  note this[THEN consistency_loop_ok]
  moreover obtain c where "r = Some c" using calculation(1) assms(1) by (cases keys_api) auto
  ultimately show "\<exists>c. \<forall>x \<in> set (keys_api @ consensus @ execution). x = Inr c" by (intro exI[of _ c]) auto
next
  assume "\<exists>c. \<forall>x \<in> set (keys_api @ consensus @ execution). x = Inr c"
  then obtain c where "\<forall>x \<in> set keys_api. x = Inr c" "\<forall>x \<in> set consensus. x = Inr c" "\<forall>x \<in> set execution. x = Inr c"
    by auto
  then show "check_providers_chain_ids keys_api consensus execution = Inr ()"
    using assms by (simp add: check_providers_chain_ids_def check_providers_consistency_def consistency_loop_same[of _ c])
qed

end
