(* ===== verification/Consensus_Client.thy ===== *)
theory Consensus_Client
  imports Http
begin

text \<open>
  \<open>src/providers/consensus/client.py\<close>: the queries to the consensus layer. \<open>cl_of\<close> and \<open>collector_env_of\<close>
  hand them to the theories that state what they need of a node as a record of answers. The least recently
  used caches are transparent: a network answers a request always the same way. The session manager that
  counts requests is left out.
\<close>

section \<open>The client\<close>

record consensus_client =
  cc_hosts :: "string list"
  cc_net :: network

definition API_GET_BLOCK_ROOT :: string where "API_GET_BLOCK_ROOT = ''eth/v1/beacon/blocks/{}/root''"
definition API_GET_BLOCK_HEADER :: string where "API_GET_BLOCK_HEADER = ''eth/v1/beacon/headers/{}''"
definition API_GET_BLOCK_DETAILS :: string where "API_GET_BLOCK_DETAILS = ''eth/v2/beacon/blocks/{}''"
definition API_GET_ATTESTATION_COMMITTEES :: string where
  "API_GET_ATTESTATION_COMMITTEES = ''eth/v1/beacon/states/{}/committees''"
definition API_GET_SYNC_COMMITTEE :: string where "API_GET_SYNC_COMMITTEE = ''eth/v1/beacon/states/{}/sync_committees''"
definition API_GET_PROPOSER_DUTIES :: string where "API_GET_PROPOSER_DUTIES = ''eth/v1/validator/duties/proposer/{}''"
definition API_GET_STATE :: string where "API_GET_STATE = ''eth/v2/debug/beacon/states/{}''"
definition API_GET_SPEC :: string where "API_GET_SPEC = ''eth/v1/config/spec''"
definition API_GET_GENESIS :: string where "API_GET_GENESIS = ''eth/v1/beacon/genesis''"
definition API_GET_VALIDATOR :: string where "API_GET_VALIDATOR = ''eth/v1/beacon/states/{}/validators/{}''"
definition PRYSM_STATE_NOT_FOUND_ERROR :: string where "PRYSM_STATE_NOT_FOUND_ERROR = ''State not found''"

definition contains :: "string \<Rightarrow> string \<Rightarrow> bool" where
  \<comment> \<open>\<open>needle in text\<close>\<close>
  "contains needle text = list_ex (\<lambda>i. take (length needle) (drop i text) = needle) [0..<Suc (length text)]"

definition cl_request :: "string \<Rightarrow> json list \<Rightarrow> kwargs \<Rightarrow> http_request" where
  "cl_request endpoint path_params query_params =
     \<lparr>rq_method = GET, rq_endpoint = endpoint, rq_path_params = path_params, rq_query_params = query_params, rq_body = JNull\<rparr>"

definition cl_get ::
    "consensus_client \<Rightarrow> http_request \<Rightarrow> force_raise \<Rightarrow> return_value_validator \<Rightarrow> (payload \<times> kwargs) hres" where
  "cl_get cc rq force_raise validate_response = http_get (cc_net cc) (cc_hosts cc) rq force_raise validate_response"

definition raise_last_missed_slot_error :: "consensus_client \<Rightarrow> force_raise" where
  "raise_last_missed_slot_error cc errors =
     (if length errors = length (cc_hosts cc)
      then find (\<lambda>e. case e of NotOk status _ \<Rightarrow> status = NOT_FOUND | Raised _ \<Rightarrow> False) errors
      else None)"

definition raise_on_prysm_error :: force_raise where
  "raise_on_prysm_error errors =
     (case last errors of
        NotOk status text \<Rightarrow> if contains PRYSM_STATE_NOT_FOUND_ERROR text then Some (NotOk status text) else None
      | Raised _ \<Rightarrow> None)"

definition prysm_fallback :: "'a hres \<Rightarrow> 'a hres \<Rightarrow> 'a hres" where
  \<comment> \<open>\<open>except NotOkResponse\<close>: by slot number when the state root is not known\<close>
  "prysm_fallback by_root by_slot =
     (case by_root of
        Inl (NotOk _ text) \<Rightarrow> if contains PRYSM_STATE_NOT_FOUND_ERROR text then by_slot else by_root
      | _ \<Rightarrow> by_root)"

fun payload_json :: "payload \<Rightarrow> json res" where
  "payload_json (Plain j) = Inr j"
| "payload_json (Transient _) = Inl TypeError"

definition decoded :: "(kwargs \<Rightarrow> 'a res) \<Rightarrow> (payload \<times> kwargs) hres \<Rightarrow> 'a hres" where
  \<comment> \<open>\<open>cls.from_response(**data)\<close>\<close>
  "decoded cls r = bindH r (\<lambda>(data, _). liftH (bindR (payload_json data) (transform cls)))"

section \<open>Chain, blocks\<close>

definition cc_get_config_spec :: "consensus_client \<Rightarrow> beacon_spec hres" where
  "cc_get_config_spec cc =
     decoded beacon_spec_response (cl_get cc (cl_request API_GET_SPEC [] []) never_force data_is_dict)"

definition cc_get_genesis :: "consensus_client \<Rightarrow> genesis hres" where
  "cc_get_genesis cc =
     decoded genesis_response (cl_get cc (cl_request API_GET_GENESIS [] []) never_force data_is_dict)"

definition cc_get_block_root :: "consensus_client \<Rightarrow> json \<Rightarrow> hexstr hres" where
  "cc_get_block_root cc state_id =
     decoded block_root_response
       (cl_get cc (cl_request API_GET_BLOCK_ROOT [state_id] []) (raise_last_missed_slot_error cc) data_is_dict)"

definition cc_get_block_header :: "consensus_client \<Rightarrow> json \<Rightarrow> header hres" where
  "cc_get_block_header cc state_id =
     bindH (cl_get cc (cl_request API_GET_BLOCK_HEADER [state_id] []) (raise_last_missed_slot_error cc) data_is_dict)
       (\<lambda>(data, meta_data). liftH (bindR (payload_json data) (\<lambda>j. bindR (kwargs_of j) (\<lambda>kw.
          block_header_full_response kw meta_data))))"

definition cc_get_block_details :: "consensus_client \<Rightarrow> json \<Rightarrow> block_details hres" where
  "cc_get_block_details cc state_id =
     decoded block_details_response
       (cl_get cc (cl_request API_GET_BLOCK_DETAILS [state_id] []) (raise_last_missed_slot_error cc) data_is_dict)"

definition cc_get_block_attestations_and_sync ::
    "consensus_client \<Rightarrow> json \<Rightarrow> (block_attestation list \<times> hexstr) hres" where
  "cc_get_block_attestations_and_sync cc state_id =
     bindH (cl_get cc (cl_request API_GET_BLOCK_DETAILS [state_id] []) (raise_last_missed_slot_error cc) data_is_dict)
       (\<lambda>(data, _). liftH (
          bindR (payload_json data) (\<lambda>j.
          bindR (json_get j ''message'') (\<lambda>message.
          bindR (json_get message ''body'') (\<lambda>body.
          bindR (json_get body ''attestations'') (\<lambda>attestations.
          bindR (list_of (transform block_attestation_response) attestations) (\<lambda>attestations.
          bindR (json_get body ''sync_aggregate'') (\<lambda>aggregate.
          bindR (transform sync_aggregate aggregate) (\<lambda>sync. Inr (attestations, sync))))))))))"

section \<open>Committees and duties\<close>

definition committees_query :: "json \<Rightarrow> epoch option \<Rightarrow> int option \<Rightarrow> slot option \<Rightarrow> http_request" where
  "committees_query state_id e committee_index s =
     (let param = (\<lambda>x. case x of None \<Rightarrow> JNull | Some n \<Rightarrow> JInt n)
      in cl_request API_GET_ATTESTATION_COMMITTEES [state_id]
           [(''epoch'', param e), (''index'', param committee_index), (''slot'', param s)])"

definition cc_get_attestation_committees ::
    "consensus_client \<Rightarrow> blockstamp \<Rightarrow> epoch option \<Rightarrow> int option \<Rightarrow> slot option \<Rightarrow> attestation_committee list hres" where
  "cc_get_attestation_committees cc bs e committee_index s =
     bindH (prysm_fallback
         (cl_get cc (committees_query (JStr (bs_state_root bs)) e committee_index s) raise_on_prysm_error data_is_list)
         (cl_get cc (committees_query (JInt (bs_slot_number bs)) e committee_index s) never_force data_is_list))
       (\<lambda>(data, _). liftH (bindR (payload_json data) (list_of_dataclasses slot_attestation_committee)))"

definition cc_get_sync_committee :: "consensus_client \<Rightarrow> blockstamp \<Rightarrow> epoch \<Rightarrow> int list hres" where
  "cc_get_sync_committee cc bs e =
     decoded sync_committee (prysm_fallback
       (cl_get cc (cl_request API_GET_SYNC_COMMITTEE [JStr (bs_state_root bs)] [(''epoch'', JInt e)])
          raise_on_prysm_error data_is_dict)
       (cl_get cc (cl_request API_GET_SYNC_COMMITTEE [JInt (bs_slot_number bs)] [(''epoch'', JInt e)])
          never_force data_is_dict))"

definition data_is_list_and_dependent_root_matches :: "hexstr \<Rightarrow> return_value_validator" where
  "data_is_list_and_dependent_root_matches expected_dependent_root data meta =
     bindR (data_is_list data meta) (\<lambda>_.
     bindR (lookupR meta ''dependent_root'') (\<lambda>dependent_root.
       if dependent_root \<noteq> JStr expected_dependent_root then Inl ValueError else Inr ()))"

definition cc_get_proposer_duties :: "consensus_client \<Rightarrow> epoch \<Rightarrow> hexstr \<Rightarrow> proposer_duties list hres" where
  "cc_get_proposer_duties cc e expected_dependent_root =
     bindH (cl_get cc (cl_request API_GET_PROPOSER_DUTIES [JInt e] []) never_force
              (data_is_list_and_dependent_root_matches expected_dependent_root))
       (\<lambda>(data, _). liftH (bindR (payload_json data) (list_of_dataclasses proposer_duties_response)))"

section \<open>States\<close>

definition consume_block_roots :: "payload \<Rightarrow> payload res" where
  \<comment> \<open>\<open>list(d["block_roots"])\<close> of a streamed array\<close>
  "consume_block_roots d =
     bindR (payload_get d ''block_roots'') (\<lambda>roots.
       case roots of Transient (SArray items) \<Rightarrow> bindR items (\<lambda>xs. Inr (Plain (JList xs))) | _ \<Rightarrow> Inl TypeError)"

definition cc_get_state_block_roots :: "consensus_client \<Rightarrow> slot \<Rightarrow> hexstr list hres" where
  "cc_get_state_block_roots cc s =
     bindH (http_get_stream (cc_net cc) (cc_hosts cc) (cl_request API_GET_STATE [JInt s] []) never_force
              data_is_transient_dict consume_block_roots)
       (\<lambda>(data, _). liftH (bindR (payload_json data)
          (list_of (\<lambda>j. case j of JStr r \<Rightarrow> Inr r | _ \<Rightarrow> Inl TypeError))))"

definition get_state_by_state_id :: "consensus_client \<Rightarrow> json \<Rightarrow> (payload \<times> kwargs) hres" where
  "get_state_by_state_id cc state_id =
     cl_get cc (cl_request API_GET_STATE [state_id] []) raise_on_prysm_error data_is_dict"

definition cc_get_state_view :: "consensus_client \<Rightarrow> blockstamp \<Rightarrow> beacon_state hres" where
  "cc_get_state_view cc bs =
     decoded beacon_state_view (prysm_fallback (get_state_by_state_id cc (JStr (bs_state_root bs)))
       (get_state_by_state_id cc (JInt (bs_slot_number bs))))"

definition cc_get_validators :: "consensus_client \<Rightarrow> blockstamp \<Rightarrow> validator list hres" where
  "cc_get_validators cc bs = bindH (cc_get_state_view cc bs) (\<lambda>st. liftH (indexed_validators st))"

definition cc_get_pending_deposits :: "consensus_client \<Rightarrow> blockstamp \<Rightarrow> pending_deposit list hres" where
  "cc_get_pending_deposits cc bs = bindH (cc_get_state_view cc bs) (\<lambda>st. Inr (st_pending_deposits st))"

definition cc_get_pending_consolidations :: "consensus_client \<Rightarrow> blockstamp \<Rightarrow> pending_consolidation list hres" where
  "cc_get_pending_consolidations cc bs = bindH (cc_get_state_view cc bs) (\<lambda>st. Inr (st_pending_consolidations st))"

definition cc_get_validators_by_indexes :: "consensus_client \<Rightarrow> blockstamp \<Rightarrow> (int \<times> validator) list hres" where
  "cc_get_validators_by_indexes cc bs =
     bindH (cc_get_validators cc bs) (\<lambda>vs. Inr (fold (\<lambda>v. AList.update (v_index v) v) vs []))"

definition cc_get_validator_state :: "consensus_client \<Rightarrow> slot \<Rightarrow> int \<Rightarrow> validator hres" where
  "cc_get_validator_state cc s validator_id =
     bindH (cl_get cc (cl_request API_GET_VALIDATOR [JInt s, JInt validator_id] []) (raise_last_missed_slot_error cc) data_is_any)
       (\<lambda>(data, _). liftH (case data of Plain (JObj kw) \<Rightarrow> validator_response kw | _ \<Rightarrow> Inl ValueError))"

definition cc_get_chain_id :: "consensus_client \<Rightarrow> string \<Rightarrow> int hres" where
  "cc_get_chain_id cc host =
     bindH (decoded beacon_spec_response
         (get_without_fallbacks (cc_net cc) (cl_request API_GET_SPEC [] []) False data_is_dict None host))
       (\<lambda>sp. Inr (sp_DEPOSIT_CHAIN_ID sp))"

section \<open>What the services see\<close>

definition cl_of :: "consensus_client \<Rightarrow> (hexstr \<Rightarrow> hexstr) \<Rightarrow> cl_client" where
  "cl_of cc add_prefix =
     \<lparr>get_block_header_at = (\<lambda>s. to_res (cc_get_block_header cc (JInt s))),
      get_block_header_by = (\<lambda>r. to_res (cc_get_block_header cc (JStr r))),
      get_block_details = (\<lambda>r. to_res (cc_get_block_details cc (JStr r))),
      add_0x_prefix = add_prefix\<rparr>"

definition collector_env_of ::
    "consensus_client \<Rightarrow> (hexstr \<Rightarrow> hexstr) \<Rightarrow> chain_config \<Rightarrow> blockstamp \<Rightarrow> int \<Rightarrow> (epoch list \<Rightarrow> epoch list) \<Rightarrow> collector_env" where
  "collector_env_of cc add_prefix c finalized cache_size schedule =
     \<lparr>ce_chain = c, ce_finalized = finalized, ce_cl = cl_of cc add_prefix,
      get_state_block_roots = (\<lambda>s. to_res (cc_get_state_block_roots cc s)),
      get_block_root = (\<lambda>s. to_res (cc_get_block_root cc (JInt s))),
      get_block_attestations_and_sync = (\<lambda>r. to_res (cc_get_block_attestations_and_sync cc (JStr r))),
      get_attestation_committees = (\<lambda>bs e. to_res (cc_get_attestation_committees cc bs (Some e) None None)),
      get_sync_committee_of = (\<lambda>bs e. to_res (cc_get_sync_committee cc bs e)),
      get_proposer_duties = (\<lambda>e r. to_res (cc_get_proposer_duties cc e r)),
      ce_cache_max_size = cache_size, ce_schedule = schedule\<rparr>"

section \<open>Missed slots\<close>

text \<open>Decoding never fails with a status, so a status is always one a host answered.\<close>

lemma decode_errors:
  "json_to_int j = Inl e \<Longrightarrow> e \<in> {TypeError, ValueError}"
  "int_field kw f = Inl e \<Longrightarrow> e \<in> {TypeError, ValueError, KeyError}"
  "text_field kw f = Inl e \<Longrightarrow> e \<in> {TypeError, ValueError, KeyError}"
  "bool_field kw f = Inl e \<Longrightarrow> e \<in> {TypeError, ValueError, KeyError}"
  "from_response required optional kw = Inl e \<Longrightarrow> e \<in> {TypeError, ValueError, KeyError}"
proof -
  have digits: "read_digits acc s = Inl e \<Longrightarrow> e = ValueError" for acc s e
  proof (induction acc s rule: read_digits.induct)
    case (2 acc c cs)
    show ?case
    proof (cases "digit_value c")
      case (Some d)
      show ?thesis
      proof (cases cs)
        case (Cons c' cs')
        have "(if c' = CHR ''_'' then read_digits (acc * 10 + d) cs' else read_digits (acc * 10 + d) cs) = Inl e"
          using 2(3) unfolding read_digits.simps(2)[of acc c cs] by (simp add: Some Cons del: read_digits.simps)
        then show ?thesis using 2(1)[OF Some Cons] 2(2)[OF Some Cons] by (auto split: if_splits simp del: read_digits.simps)
      qed (use 2(3) Some in simp)
    qed (use 2(3) in simp)
  qed simp
  have str: "int_of_str s = Inl e \<Longrightarrow> e = ValueError" for s e
    unfolding int_of_str_def bindR_eq_Inl
    by (cases "rev (dropWhile ascii_space (rev (dropWhile ascii_space s)))")
      (simp_all only: list.case bindR_eq_Inl sum.inject sum.distinct simp_thms split: if_splits, auto dest: digits simp del: read_digits.simps)
  show i: "json_to_int j = Inl e \<Longrightarrow> e \<in> {TypeError, ValueError}" for j e
    using str by (cases j) auto
  show "int_field kw f = Inl e \<Longrightarrow> e \<in> {TypeError, ValueError, KeyError}"
    using i by (auto simp: int_field_def bindR_eq_Inl lookupR_def split: option.splits)
  show "text_field kw f = Inl e \<Longrightarrow> e \<in> {TypeError, ValueError, KeyError}"
    by (auto simp: text_field_def bindR_eq_Inl lookupR_def split: option.splits json.splits)
  show "bool_field kw f = Inl e \<Longrightarrow> e \<in> {TypeError, ValueError, KeyError}"
    by (auto simp: bool_field_def bindR_eq_Inl lookupR_def split: option.splits json.splits)
  show "from_response required optional kw = Inl e \<Longrightarrow> e \<in> {TypeError, ValueError, KeyError}"
    by (simp only: from_response_def construct_def split: if_splits) simp_all
qed

lemma class_field_errors:
  assumes "class_field cls kw f = Inl e" "\<forall>kw e. cls kw = Inl e \<longrightarrow> e \<in> {TypeError, ValueError, KeyError}"
  shows "e \<in> {TypeError, ValueError, KeyError}"
proof -
  have "kwargs_of v = Inl e \<Longrightarrow> e = TypeError" for v e by (cases v) auto
  then show ?thesis using assms by (fastforce simp: class_field_def bindR_eq_Inl lookupR_def split: option.splits)
qed

lemma header_errors:
  "block_header_full_response data meta = Inl e \<Longrightarrow> e \<in> {TypeError, ValueError, KeyError}"
proof -
  have m: "\<forall>kw e. block_header_message kw = Inl e \<longrightarrow> e \<in> {TypeError, ValueError, KeyError}"
    unfolding block_header_message_def bindR_eq_Inl by (auto dest!: decode_errors)
  have h: "\<forall>kw e. block_header kw = Inl e \<longrightarrow> e \<in> {TypeError, ValueError, KeyError}"
    unfolding block_header_def bindR_eq_Inl by (auto dest!: decode_errors class_field_errors[OF _ m])
  have d: "block_header_response_data kw = Inl e \<Longrightarrow> e \<in> {TypeError, ValueError, KeyError}" for kw e
    unfolding block_header_response_data_def bindR_eq_Inl
    by (auto split: prod.splits dest!: decode_errors class_field_errors[OF _ h] simp: bindR_eq_Inl)
  have f: "optional_bool_field kw k = Inl e \<Longrightarrow> e = TypeError" for kw k e
    by (cases "map_of kw k") (auto simp: optional_bool_field_def split: json.splits)
  show "block_header_full_response data meta = Inl e \<Longrightarrow> ?thesis"
    unfolding block_header_full_response_def bindR_eq_Inl
    by (auto split: prod.splits dest!: decode_errors d f simp: bindR_eq_Inl)
qed

text \<open>A request that forces the first 404 once all hosts have failed.\<close>

lemma find_none_last: "find P es = None \<Longrightarrow> es \<noteq> [] \<Longrightarrow> \<not> P (last es)"
  by (auto simp: find_None_iff)

lemma cl_get_missed:
  fixes rq validate
  assumes "cc_hosts cc \<noteq> []"
  defines "rs \<equiv> map (get_without_fallbacks (cc_net cc) rq False validate None) (cc_hosts cc)"
  shows "cl_get cc rq (raise_last_missed_slot_error cc) validate =
    (case first_success rs of
       Some a \<Rightarrow> Inr a
     | None \<Rightarrow> (case find (\<lambda>e. case e of NotOk status _ \<Rightarrow> status = NOT_FOUND | Raised _ \<Rightarrow> False) (failures rs) of
                 Some e \<Rightarrow> Inl e | None \<Rightarrow> Inl (last (failures rs))))"
proof (cases "first_success rs")
  case None
  have "length (failures rs) = length (cc_hosts cc)" using length_failures[OF None] by (simp add: rs_def)
  then show ?thesis using fallback_late[of "length (cc_hosts cc)" "raise_last_missed_slot_error cc" "[]" "cc_hosts cc" IndexError
      "get_without_fallbacks (cc_net cc) rq False validate None"] None assms(1)
    unfolding cl_get_def http_get_def rs_def[symmetric]
    by (auto simp: raise_last_missed_slot_error_def Let_def split: option.splits)
next
  case (Some a)
  then show ?thesis using fallback_late[of "length (cc_hosts cc)" "raise_last_missed_slot_error cc" "[]" "cc_hosts cc" IndexError
      "get_without_fallbacks (cc_net cc) rq False validate None"]
    unfolding cl_get_def http_get_def rs_def[symmetric] by (simp add: raise_last_missed_slot_error_def)
qed

lemma attempt_status:
  "get_without_fallbacks net rq False validate None host = Inl (NotOk NOT_FOUND t) \<longleftrightarrow>
     (\<exists>r. net host rq = Some r \<and> hr_status r = NOT_FOUND \<and> hr_text r = t)"
  by (auto simp: get_without_fallbacks_def OK_def NOT_FOUND_def bindH_eq_Inl split: option.splits if_splits prod.splits)

definition header_request :: "slot \<Rightarrow> http_request" where
  "header_request s = cl_request API_GET_BLOCK_HEADER [JInt s] []"

definition answers :: "consensus_client \<Rightarrow> http_request \<Rightarrow> string \<Rightarrow> bool" where
  \<comment> \<open>the host gives a JSON document whose data is an object\<close>
  "answers cc rq host = (case get_without_fallbacks (cc_net cc) rq False data_is_dict None host of Inr _ \<Rightarrow> True | Inl _ \<Rightarrow> False)"

lemma not_answers:
  "\<not> answers cc rq host \<longleftrightarrow> (\<exists>e. get_without_fallbacks (cc_net cc) rq False data_is_dict None host = Inl e)"
  by (cases "get_without_fallbacks (cc_net cc) rq False data_is_dict None host") (auto simp: answers_def)

lemma missed_status:
  assumes "cc_hosts cc \<noteq> []"
  shows "(\<exists>t. cl_get cc rq (raise_last_missed_slot_error cc) data_is_dict = Inl (NotOk NOT_FOUND t)) \<longleftrightarrow>
    (\<forall>host \<in> set (cc_hosts cc). \<not> answers cc rq host) \<and>
    (\<exists>host \<in> set (cc_hosts cc). \<exists>r. cc_net cc host rq = Some r \<and> hr_status r = NOT_FOUND)"
proof -
  let ?rs = "map (get_without_fallbacks (cc_net cc) rq False data_is_dict None) (cc_hosts cc)"
    and ?P = "\<lambda>e. case e of NotOk status _ \<Rightarrow> status = NOT_FOUND | Raised _ \<Rightarrow> False"
  have none: "first_success ?rs = None \<longleftrightarrow> (\<forall>host \<in> set (cc_hosts cc). \<not> answers cc rq host)"
    by (simp add: no_success not_answers)
  have is404: "?P e \<longleftrightarrow> (\<exists>t. e = NotOk NOT_FOUND t)" for e by (cases e) auto
  have found: "(\<exists>e \<in> set (failures ?rs). ?P e) \<longleftrightarrow>
      (\<exists>host \<in> set (cc_hosts cc). \<exists>r. cc_net cc host rq = Some r \<and> hr_status r = NOT_FOUND)"
  proof -
    have "e \<in> set (failures ?rs) \<longleftrightarrow>
        (\<exists>host \<in> set (cc_hosts cc). get_without_fallbacks (cc_net cc) rq False data_is_dict None host = Inl e)" for e
      by (force simp: failures_def split: sum.splits)
    then show ?thesis using is404 attempt_status[of "cc_net cc" rq data_is_dict] by metis
  qed
  show ?thesis
  proof (cases "first_success ?rs")
    case None
    have ne: "failures ?rs \<noteq> []" using length_failures[OF None] assms by auto
    show ?thesis
    proof (cases "find ?P (failures ?rs)")
      case n: None
      then have "\<not> ?P (last (failures ?rs))" using find_none_last ne by blast
      moreover have "\<not> (\<exists>e \<in> set (failures ?rs). ?P e)" using n by (auto simp: find_None_iff)
      ultimately show ?thesis using cl_get_missed[OF assms, of rq data_is_dict] None n found is404 by auto
    next
      case (Some e)
      then have "?P e" "e \<in> set (failures ?rs)" by (auto simp: find_Some_iff)
      then show ?thesis using cl_get_missed[OF assms, of rq data_is_dict] None Some found none is404 by auto
    qed
  next
    case (Some a)
    then show ?thesis using cl_get_missed[OF assms, of rq data_is_dict] none by auto
  qed
qed

lemma fallback_error:
  assumes "\<And>es x. force es = Some x \<Longrightarrow> x \<in> set es"
  shows "fallback_loop no_hosts force attempt hosts errors = Inl e \<Longrightarrow>
    e = Raised no_hosts \<or> e \<in> set errors \<or> (\<exists>host \<in> set hosts. attempt host = Inl e)"
proof (induction hosts arbitrary: errors)
  case (Cons host hosts)
  then show ?case using assms by (auto split: sum.splits option.splits) (fastforce | blast)+
qed (auto split: if_splits)

lemma attempt_raised:
  "get_without_fallbacks net rq False data_is_dict None host = Inl (Raised e) \<Longrightarrow> e = ValueError"
proof -
  have g: "json_get j k = Inl e \<Longrightarrow> e = KeyError \<or> e = TypeError" for j k e
    by (cases j) (auto simp: lookupR_def split: option.splits)
  have s: "split_data (Plain j) = Inl e \<Longrightarrow> False" for j e
    by (auto simp: split_data_def bindR_eq_Inl bindR_eq_Inr split: sum.splits if_splits dest: g)
  have d: "data_is_dict d m = Inl e \<Longrightarrow> e = ValueError" for d m e
    by (auto simp: data_is_dict_def split: payload.splits json.splits)
  show "get_without_fallbacks net rq False data_is_dict None host = Inl (Raised e) \<Longrightarrow> ?thesis"
    by (auto simp: get_without_fallbacks_def bindH_eq_Inl split: option.splits if_splits prod.splits dest: s d)
qed

lemma missed_error_in: "raise_last_missed_slot_error cc es = Some x \<Longrightarrow> x \<in> set es"
  by (auto simp: raise_last_missed_slot_error_def find_Some_iff split: if_splits)

lemma header_missed:
  "get_block_header_at (cl_of cc add_prefix) s = Inl (NotOkResponse NOT_FOUND) \<longleftrightarrow>
     (\<exists>t. cl_get cc (header_request s) (raise_last_missed_slot_error cc) data_is_dict = Inl (NotOk NOT_FOUND t))"
proof -
  let ?r = "cl_get cc (header_request s) (raise_last_missed_slot_error cc) data_is_dict"
  have k: "kwargs_of j = Inl e \<Longrightarrow> e = TypeError" for j e by (cases j) auto
  have p: "payload_json d = Inl e \<Longrightarrow> e = TypeError" for d e by (cases d) auto
  have "to_pyerr e = NotOkResponse NOT_FOUND \<longleftrightarrow> (\<exists>t. e = NotOk NOT_FOUND t) \<or> e = Raised (NotOkResponse NOT_FOUND)" for e
    by (cases e) auto
  moreover have "to_res r = Inl x \<longleftrightarrow> (\<exists>e. r = Inl e \<and> to_pyerr e = x)" for r :: "header hres" and x by (cases r) auto
  ultimately have "get_block_header_at (cl_of cc add_prefix) s = Inl (NotOkResponse NOT_FOUND) \<longleftrightarrow>
      (\<exists>t. cc_get_block_header cc (JInt s) = Inl (NotOk NOT_FOUND t)) \<or>
      cc_get_block_header cc (JInt s) = Inl (Raised (NotOkResponse NOT_FOUND))" by (auto simp: cl_of_def)
  moreover have "cc_get_block_header cc (JInt s) = Inl (NotOk NOT_FOUND t) \<longleftrightarrow> ?r = Inl (NotOk NOT_FOUND t)" for t
    by (auto simp: cc_get_block_header_def header_request_def bindH_eq_Inl split: prod.splits)
  moreover have "cc_get_block_header cc (JInt s) = Inl (Raised (NotOkResponse NOT_FOUND)) \<longleftrightarrow>
      ?r = Inl (Raised (NotOkResponse NOT_FOUND))"
    by (auto simp: cc_get_block_header_def header_request_def bindH_eq_Inl bindR_eq_Inl split: prod.splits
        dest!: k p header_errors)
  moreover have "?r \<noteq> Inl (Raised (NotOkResponse NOT_FOUND))"
    unfolding cl_get_def http_get_def
    by (auto dest!: fallback_error[OF missed_error_in, rotated] dest: attempt_raised)
  ultimately show ?thesis by blast
qed

text \<open>
  The oracle takes a slot for missed exactly when none of its consensus hosts gives a header for it and
  at least one of them answers 404. One host that has the block outweighs any number of hosts that deny
  it, and without a 404 a failure is never taken for a missed slot.
\<close>

theorem slot_missed_iff:
  assumes "cc_hosts cc \<noteq> []"
  shows "get_block_header_at (cl_of cc add_prefix) s = Inl (NotOkResponse NOT_FOUND) \<longleftrightarrow>
    (\<forall>host \<in> set (cc_hosts cc). \<not> answers cc (header_request s) host) \<and>
    (\<exists>host \<in> set (cc_hosts cc). \<exists>r. cc_net cc host (header_request s) = Some r \<and> hr_status r = NOT_FOUND)"
  unfolding header_missed using missed_status[OF assms] by blast

section \<open>Unreliable hosts\<close>

text \<open>
  Hosts over a chain \<open>B\<close> of blocks by slot with details \<open>D\<close>. A host that does not lie gives a document only
  for a block of the chain, and the right one; it may fail or deny a block at any time, with any status. A
  synced host gives every block, by slot and by root, and 404 for a slot without one.
\<close>

definition header_of :: "payload \<times> kwargs \<Rightarrow> header hres" where
  "header_of = (\<lambda>(data, meta_data). liftH (bindR (payload_json data) (\<lambda>j. bindR (kwargs_of j) (\<lambda>kw.
     block_header_full_response kw meta_data))))"

definition details_of :: "payload \<times> kwargs \<Rightarrow> block_details hres" where
  "details_of = (\<lambda>(data, _). liftH (bindR (payload_json data) (transform block_details_response)))"

definition block_request :: "string \<Rightarrow> json \<Rightarrow> http_request" where
  "block_request endpoint state_id = cl_request endpoint [state_id] []"

definition host_answer :: "consensus_client \<Rightarrow> string \<Rightarrow> http_request \<Rightarrow> (payload \<times> kwargs) hres" where
  "host_answer cc host rq = get_without_fallbacks (cc_net cc) rq False data_is_dict None host"

definition no_lies :: "consensus_client \<Rightarrow> (slot \<Rightarrow> header option) \<Rightarrow> (slot \<Rightarrow> block_details) \<Rightarrow> string \<Rightarrow> bool" where
  "no_lies cc B D host \<longleftrightarrow>
     (\<forall>state_id x. host_answer cc host (block_request API_GET_BLOCK_HEADER state_id) = Inr x \<longrightarrow>
        (\<exists>s h. B s = Some h \<and> state_id \<in> {JInt s, JStr (h_root h)} \<and> header_of x = Inr h)) \<and>
     (\<forall>r x. host_answer cc host (block_request API_GET_BLOCK_DETAILS (JStr r)) = Inr x \<longrightarrow>
        (\<exists>s h. B s = Some h \<and> r = h_root h \<and> details_of x = Inr (D s)))"

definition synced :: "consensus_client \<Rightarrow> (slot \<Rightarrow> header option) \<Rightarrow> string \<Rightarrow> bool" where
  "synced cc B host \<longleftrightarrow>
     (\<forall>s h. B s = Some h \<longrightarrow>
        answers cc (block_request API_GET_BLOCK_HEADER (JInt s)) host \<and>
        answers cc (block_request API_GET_BLOCK_HEADER (JStr (h_root h))) host \<and>
        answers cc (block_request API_GET_BLOCK_DETAILS (JStr (h_root h))) host) \<and>
     (\<forall>s. B s = None \<longrightarrow> (\<exists>r. cc_net cc host (header_request s) = Some r \<and> hr_status r = NOT_FOUND))"

definition wf_blocks :: "(slot \<Rightarrow> header option) \<Rightarrow> bool" where
  "wf_blocks B \<longleftrightarrow>
     (\<forall>s h. B s = Some h \<longrightarrow> h_slot h = s \<and> trusted h \<and>
        (\<forall>p. closest_block B (s - 1) p \<longrightarrow> h_parent_root h = h_root (the (B p)))) \<and>
     (\<forall>s t h g. B s = Some h \<and> B t = Some g \<and> h_root h = h_root g \<longrightarrow> s = t)"

lemma fetched:
  assumes "\<forall>host \<in> set (cc_hosts cc). \<forall>x. host_answer cc host rq = Inr x \<longrightarrow> decode x = Inr v"
    and "host \<in> set (cc_hosts cc)" and "answers cc rq host"
  shows "bindH (cl_get cc rq (raise_last_missed_slot_error cc) data_is_dict) decode = Inr v"
proof -
  let ?rs = "map (get_without_fallbacks (cc_net cc) rq False data_is_dict None) (cc_hosts cc)"
  have "first_success ?rs \<noteq> None" using assms(2,3) not_answers[of cc rq host] by (auto simp: no_success)
  then obtain x where x: "first_success ?rs = Some x" by auto
  moreover have "decode x = Inr v"
  proof -
    obtain g where "g \<in> set (cc_hosts cc)" "host_answer cc g rq = Inr x"
      using first_success_in[OF x] by (auto simp: host_answer_def)
    then show ?thesis using assms(1) by blast
  qed
  moreover have "cc_hosts cc \<noteq> []" using assms(2) by auto
  ultimately show ?thesis using cl_get_missed[of cc rq data_is_dict] by simp
qed

lemma no_liesD:
  assumes "no_lies cc B D g"
  shows "host_answer cc g (block_request API_GET_BLOCK_HEADER state_id) = Inr x \<Longrightarrow>
      \<exists>s h. B s = Some h \<and> (state_id = JInt s \<or> state_id = JStr (h_root h)) \<and> header_of x = Inr h"
    and "host_answer cc g (block_request API_GET_BLOCK_DETAILS (JStr r)) = Inr x \<Longrightarrow>
      \<exists>s h. B s = Some h \<and> r = h_root h \<and> details_of x = Inr (D s)"
  using assms unfolding no_lies_def by blast+

lemma unreliable_hosts:
  assumes wf: "wf_blocks B" and lies: "\<forall>host \<in> set (cc_hosts cc). no_lies cc B D host"
    and host: "host \<in> set (cc_hosts cc)" "synced cc B host"
  shows "honest_node (cl_of cc add_prefix) B D"
proof -
  have inj: "s = t" if "B s = Some h" "B t = Some g" "h_root h = h_root g" for s t h g
    using wf that unfolding wf_blocks_def by blast
  have by_slot: "get_block_header_at (cl_of cc add_prefix) s = Inr h" if b: "B s = Some h" for s h
  proof -
    have "header_of x = Inr h" if "g \<in> set (cc_hosts cc)"
        "host_answer cc g (block_request API_GET_BLOCK_HEADER (JInt s)) = Inr x" for g x
      using no_liesD(1)[OF bspec[OF lies that(1)] that(2)] b by auto
    then have "bindH (cl_get cc (block_request API_GET_BLOCK_HEADER (JInt s)) (raise_last_missed_slot_error cc) data_is_dict)
        header_of = Inr h"
      using host b by (intro fetched[of _ _ _ _ host]) (auto simp: synced_def)
    then show ?thesis by (simp add: cl_of_def cc_get_block_header_def block_request_def header_of_def)
  qed
  have by_root: "get_block_header_by (cl_of cc add_prefix) (h_root h) = Inr h" if b: "B s = Some h" for s h
  proof -
    have "header_of x = Inr h" if "g \<in> set (cc_hosts cc)"
        "host_answer cc g (block_request API_GET_BLOCK_HEADER (JStr (h_root h))) = Inr x" for g x
    proof -
      from no_liesD(1)[OF bspec[OF lies that(1)] that(2)]
      obtain t k where "B t = Some k" "h_root h = h_root k" "header_of x = Inr k" by auto
      then show ?thesis using inj[OF b, of t k] b by auto
    qed
    then have "bindH (cl_get cc (block_request API_GET_BLOCK_HEADER (JStr (h_root h))) (raise_last_missed_slot_error cc) data_is_dict)
        header_of = Inr h"
      using host b by (intro fetched[of _ _ _ _ host]) (auto simp: synced_def)
    then show ?thesis by (simp add: cl_of_def cc_get_block_header_def block_request_def header_of_def)
  qed
  have details: "get_block_details (cl_of cc add_prefix) (h_root h) = Inr (D s)" if b: "B s = Some h" for s h
  proof -
    have "details_of x = Inr (D s)" if "g \<in> set (cc_hosts cc)"
        "host_answer cc g (block_request API_GET_BLOCK_DETAILS (JStr (h_root h))) = Inr x" for g x
    proof -
      from no_liesD(2)[OF bspec[OF lies that(1)] that(2)]
      obtain t k where "B t = Some k" "h_root h = h_root k" "details_of x = Inr (D t)" by auto
      then show ?thesis using inj[OF b, of t k] by auto
    qed
    then have "bindH (cl_get cc (block_request API_GET_BLOCK_DETAILS (JStr (h_root h))) (raise_last_missed_slot_error cc) data_is_dict)
        details_of = Inr (D s)"
      using host b by (intro fetched[of _ _ _ _ host]) (auto simp: synced_def)
    then show ?thesis by (simp add: cl_of_def cc_get_block_details_def block_request_def decoded_def details_of_def)
  qed
  have missed: "get_block_header_at (cl_of cc add_prefix) s = Inl (NotOkResponse NOT_FOUND)" if b: "B s = None" for s
  proof -
    have deny: "\<not> answers cc (header_request s) g" if g: "g \<in> set (cc_hosts cc)" for g
    proof
      assume "answers cc (header_request s) g"
      then obtain x where "host_answer cc g (block_request API_GET_BLOCK_HEADER (JInt s)) = Inr x"
        by (auto simp: answers_def host_answer_def header_request_def block_request_def split: sum.splits)
      then show False using no_liesD(1)[OF bspec[OF lies g]] b by fastforce
    qed
    have "\<exists>t. cl_get cc (header_request s) (raise_last_missed_slot_error cc) data_is_dict = Inl (NotOk NOT_FOUND t)"
    proof -
      have "cc_hosts cc \<noteq> []" using host(1) by auto
      moreover have "\<exists>r. cc_net cc host (header_request s) = Some r \<and> hr_status r = NOT_FOUND"
        using host(2) b by (simp add: synced_def)
      ultimately show ?thesis using missed_status[of cc "header_request s"] deny host(1) by blast
    qed
    then show ?thesis by (simp add: header_missed)
  qed
  have parent: "get_block_header_by (cl_of cc add_prefix) (h_parent_root h) = Inr (the (B p))"
    if "B s = Some h" "closest_block B (s - 1) p" for s h p
  proof -
    have "h_parent_root h = h_root (the (B p))" using wf that unfolding wf_blocks_def by blast
    moreover from that(2) obtain g where "B p = Some g" by (auto simp: closest_block_def)
    ultimately show ?thesis using by_root by auto
  qed
  have "h_slot h = s \<and> trusted h" if "B s = Some h" for s h using wf that unfolding wf_blocks_def by blast
  then show ?thesis unfolding honest_node_def using by_slot missed details parent by (auto split: option.split)
qed


text \<open>
  Proposer duties come from a host that computed them for the block the collector took them to depend
  on: a host whose answer names another dependent root, or none, is passed over.
\<close>

theorem proposer_duties_checked:
  assumes "get_proposer_duties (collector_env_of cc add_prefix c finalized n schedule) e dependent_root = Inr duties"
  shows "\<exists>host \<in> set (cc_hosts cc). \<exists>response kvs xs.
    cc_net cc host (cl_request API_GET_PROPOSER_DUTIES [JInt e] []) = Some response \<and> hr_status response = 200 \<and>
    hr_json response = Some (JObj kvs) \<and> map_of kvs ''dependent_root'' = Some (JStr dependent_root) \<and>
    map_of kvs ''data'' = Some (JList xs) \<and> list_of_dataclasses proposer_duties_response (JList xs) = Inr duties"
proof -
  let ?rq = "cl_request API_GET_PROPOSER_DUTIES [JInt e] []" and ?v = "data_is_list_and_dependent_root_matches dependent_root"
  have "to_res (cc_get_proposer_duties cc e dependent_root) = Inr duties" using assms by (simp add: collector_env_of_def)
  then have "cc_get_proposer_duties cc e dependent_root = Inr duties" by (cases "cc_get_proposer_duties cc e dependent_root") auto
  then obtain data meta where get: "cl_get cc ?rq never_force ?v = Inr (data, meta)"
    and dec: "bindR (payload_json data) (list_of_dataclasses proposer_duties_response) = Inr duties"
    by (auto simp: cc_get_proposer_duties_def bindH_eq_Inr)
  obtain host where host: "host \<in> set (cc_hosts cc)"
    and got: "get_without_fallbacks (cc_net cc) ?rq False ?v None host = Inr (data, meta)"
    using gets.some_host[OF get[unfolded cl_get_def]] by blast
  obtain response j where r: "cc_net cc host ?rq = Some response" "hr_status response = 200" "hr_json response = Some j"
    and sp: "split_data (Plain j) = Inr (data, meta)" and v: "?v data meta = Inr ()"
    using got by (auto simp: get_without_fallbacks_def bindH_eq_Inr OK_def split: option.splits if_splits)
  from v obtain xs where xs: "data = Plain (JList xs)" and m: "map_of meta ''dependent_root'' = Some (JStr dependent_root)"
    by (auto simp: data_is_list_and_dependent_root_matches_def data_is_list_def bindR_eq_Inr lookupR_def
        split: payload.splits json.splits option.splits if_splits)
  from sp m obtain kvs where kvs: "j = JObj kvs" "map_of kvs ''data'' = Some (JList xs)" "meta = AList.delete ''data'' kvs"
    by (cases j) (auto simp: split_data_def xs lookupR_def bindR_eq_Inr split: option.splits sum.splits if_splits)
  have "map_of kvs ''dependent_root'' = Some (JStr dependent_root)" using m by (simp add: kvs(3) delete_conv)
  then show ?thesis using host r kvs dec xs by (intro bexI[of _ host] exI[of _ response] exI[of _ kvs] exI[of _ xs]) auto
qed

section \<open>Two hosts, one of them down\<close>

text \<open>The chain of \<open>Slots\<close> behind a host that answers 503 to everything and one that is synced.\<close>

definition header_message_json :: "header \<Rightarrow> json" where
  "header_message_json h = JObj
     [(''slot'', num (h_slot h)), (''proposer_index'', num 7), (''parent_root'', JStr (h_parent_root h)),
      (''state_root'', JStr ''s''), (''body_root'', JStr ''b'')]"

definition header_data_json :: "header \<Rightarrow> json" where
  "header_data_json h = JObj
     [(''root'', JStr (h_root h)), (''canonical'', JBool (h_canonical h)),
      (''header'', JObj [(''message'', header_message_json h), (''signature'', JStr ''x'')])]"

definition header_json :: "header \<Rightarrow> json" where
  "header_json h = JObj
     [(''execution_optimistic'', JBool False), (''finalized'', JBool True), (''data'', header_data_json h)]"

definition payload_of_details :: "block_details \<Rightarrow> json" where
  "payload_of_details d = JObj
     [(''parent_hash'', JStr ''p''), (''block_number'', num (d_block_number d)),
      (''timestamp'', num (d_timestamp d)), (''block_hash'', JStr (d_block_hash d))]"

definition message_of_details :: "block_details \<Rightarrow> json" where
  "message_of_details d = JObj
     [(''slot'', num (d_slot d)), (''proposer_index'', num 7), (''parent_root'', JStr ''p''),
      (''state_root'', JStr (d_state_root d)),
      (''body'', JObj
        [(''execution_payload'', payload_of_details d), (''attestations'', JList []),
         (''sync_aggregate'', JObj [(''sync_committee_bits'', JStr ''0x'')])])]"

definition details_json :: "block_details \<Rightarrow> json" where
  "details_json d = JObj
     [(''version'', JStr ''electra''),
      (''data'', JObj [(''message'', message_of_details d), (''signature'', JStr ''x'')])]"

lemmas decode_defs = from_response_def construct_def text_field_def int_field_def bool_field_def optional_bool_field_def
  class_field_def lookupR_def

lemma header_message_back: "bindR (kwargs_of (header_message_json h)) block_header_message = Inr (h_slot h, h_parent_root h)"
  by (simp add: header_message_json_def block_header_message_def decode_defs)

lemma header_data_back:
  "bindR (kwargs_of (header_data_json h)) block_header_response_data = Inr (h_root h, h_canonical h, h_slot h, h_parent_root h)"
  by (simp add: header_data_json_def block_header_response_data_def block_header_def decode_defs header_message_back)

lemma payload_back:
  "bindR (kwargs_of (payload_of_details d)) execution_payload = Inr (d_block_number d, d_timestamp d, d_block_hash d)"
  by (simp add: payload_of_details_def execution_payload_def decode_defs)

lemma message_back: "bindR (kwargs_of (message_of_details d)) block_message = Inr d"
  by (cases d) (simp add: message_of_details_def block_message_def beacon_block_body_def sync_aggregate_def decode_defs
      payload_back list_field_def list_of_def)

definition demo_lookup :: "json \<Rightarrow> header option" where
  "demo_lookup state_id =
     (case state_id of
        JInt s \<Rightarrow> demo_chain s
      | JStr r \<Rightarrow> if r = replicate (length r) CHR ''r'' then demo_chain (int (length r)) else None
      | _ \<Rightarrow> None)"

definition demo_reply :: "json option \<Rightarrow> http_response" where
  "demo_reply j = \<lparr>hr_status = (case j of None \<Rightarrow> 404 | Some _ \<Rightarrow> 200), hr_text = ''t'', hr_json = j, hr_stream = SScalar JNull\<rparr>"

definition demo_net :: network where
  "demo_net host rq =
     (if host = ''down'' then Some \<lparr>hr_status = 503, hr_text = ''unavailable'', hr_json = None, hr_stream = SScalar JNull\<rparr>
      else case rq_path_params rq of
        [state_id] \<Rightarrow>
          if rq_endpoint rq = API_GET_BLOCK_HEADER then Some (demo_reply (map_option header_json (demo_lookup state_id)))
          else if rq_endpoint rq = API_GET_BLOCK_DETAILS then
            Some (demo_reply (map_option (\<lambda>h. details_json (demo_details (h_slot h))) (demo_lookup state_id)))
          else if rq_endpoint rq = API_GET_PROPOSER_DUTIES then
            Some (demo_reply (Some (JObj [(''dependent_root'', JStr ''0xd''), (''data'', JList [JObj
              [(''pubkey'', JStr ''0xa''), (''validator_index'', num 5), (''slot'', num 33)]])])))
          else None
      | _ \<Rightarrow> None)"

definition demo_cc :: consensus_client where
  "demo_cc = \<lparr>cc_hosts = [''down'', ''good''], cc_net = demo_net\<rparr>"

lemma demo_chain_cases:
  "demo_chain s = Some h \<Longrightarrow> \<exists>parent. h = demo_header s parent \<and>
     (s, parent) \<in> {(17, 0), (18, 17), (23, 18), (24, 23)}"
  by (auto simp: demo_chain_def split: if_splits)

lemma demo_blocks_wf: "wf_blocks demo_chain"
proof -
  have "h_parent_root h = h_root (the (demo_chain p))" if "demo_chain s = Some h" "closest_block demo_chain (s - 1) p" for s h p
    using that demo_closest[of p] by (auto simp: demo_chain_def demo_header_def split: if_splits)
  then show ?thesis unfolding wf_blocks_def
    by (auto dest!: demo_chain_cases simp: demo_header_def trusted_def)
qed

lemma header_back:
  assumes "h_finalized h = Some True"
  shows "split_data (Plain (header_json h)) =
      Inr (Plain (header_data_json h), [(''execution_optimistic'', JBool False), (''finalized'', JBool True)]) \<and>
    header_of (Plain (header_data_json h), [(''execution_optimistic'', JBool False), (''finalized'', JBool True)]) = Inr h"
proof
  show "split_data (Plain (header_json h)) =
      Inr (Plain (header_data_json h), [(''execution_optimistic'', JBool False), (''finalized'', JBool True)])"
    by (simp add: split_data_def header_json_def lookupR_def)
  obtain kw where kw: "header_data_json h = JObj kw" by (simp add: header_data_json_def)
  have "block_header_response_data kw = Inr (h_root h, h_canonical h, h_slot h, h_parent_root h)"
    using header_data_back[of h] kw by simp
  then show "header_of (Plain (header_data_json h), [(''execution_optimistic'', JBool False), (''finalized'', JBool True)]) = Inr h"
    using assms by (simp add: header_of_def kw block_header_full_response_def decode_defs del: set_map set_filter)
qed

lemma details_back:
  "\<exists>data. split_data (Plain (details_json d)) = Inr (data, [(''version'', JStr ''electra'')]) \<and>
    details_of (data, [(''version'', JStr ''electra'')]) = Inr d"
proof -
  have "split_data (Plain (details_json d)) =
      Inr (Plain (JObj [(''message'', message_of_details d), (''signature'', JStr ''x'')]), [(''version'', JStr ''electra'')])"
    by (simp add: split_data_def details_json_def lookupR_def)
  moreover have "block_details_response [(''message'', message_of_details d), (''signature'', JStr ''x'')] = Inr d"
    by (simp add: block_details_response_def decode_defs message_back)
  ultimately show ?thesis by (simp add: details_of_def transform_def)
qed

lemma demo_answer:
  "host_answer demo_cc ''down'' rq = Inl (NotOk 503 ''unavailable'')"
  "host_answer demo_cc ''good'' (block_request API_GET_BLOCK_HEADER state_id) =
     (case demo_lookup state_id of None \<Rightarrow> Inl (NotOk 404 ''t'') | Some h \<Rightarrow> liftH (split_data (Plain (header_json h))))"
  "host_answer demo_cc ''good'' (block_request API_GET_BLOCK_DETAILS state_id) =
     (case demo_lookup state_id of None \<Rightarrow> Inl (NotOk 404 ''t'')
      | Some h \<Rightarrow> liftH (split_data (Plain (details_json (demo_details (h_slot h))))))"
proof -
  show "host_answer demo_cc ''down'' rq = Inl (NotOk 503 ''unavailable'')"
    by (simp add: host_answer_def demo_cc_def get_without_fallbacks_def demo_net_def OK_def)
  show "host_answer demo_cc ''good'' (block_request API_GET_BLOCK_HEADER state_id) =
     (case demo_lookup state_id of None \<Rightarrow> Inl (NotOk 404 ''t'') | Some h \<Rightarrow> liftH (split_data (Plain (header_json h))))"
    by (auto simp: host_answer_def demo_cc_def get_without_fallbacks_def demo_net_def OK_def block_request_def cl_request_def
        demo_reply_def data_is_dict_def split_data_def header_json_def header_data_json_def lookupR_def split: option.split)
  show "host_answer demo_cc ''good'' (block_request API_GET_BLOCK_DETAILS state_id) =
     (case demo_lookup state_id of None \<Rightarrow> Inl (NotOk 404 ''t'')
      | Some h \<Rightarrow> liftH (split_data (Plain (details_json (demo_details (h_slot h))))))"
    by (auto simp: host_answer_def demo_cc_def get_without_fallbacks_def demo_net_def OK_def block_request_def cl_request_def
        demo_reply_def data_is_dict_def split_data_def details_json_def lookupR_def API_GET_BLOCK_HEADER_def
        API_GET_BLOCK_DETAILS_def split: option.split)
qed

lemma demo_chain_fields: "demo_chain s = Some h \<Longrightarrow> h_slot h = s \<and> h_root h = replicate (nat s) CHR ''r'' \<and> h_finalized h = Some True"
  by (auto dest!: demo_chain_cases simp: demo_header_def)

lemma demo_lookup_block:
  assumes "demo_lookup state_id = Some h"
  shows "demo_chain (h_slot h) = Some h \<and> (state_id = JInt (h_slot h) \<or> state_id = JStr (h_root h)) \<and> h_finalized h = Some True"
proof (cases state_id)
  case (JInt s)
  then have "demo_chain s = Some h" using assms by (simp add: demo_lookup_def)
  then show ?thesis using demo_chain_fields[of s h] JInt by simp
next
  case (JStr r)
  then have r: "r = replicate (length r) CHR ''r''" "demo_chain (int (length r)) = Some h"
    using assms by (simp_all add: demo_lookup_def split: if_splits)
  then have "h_root h = r" "h_slot h = int (length r)" using demo_chain_fields[OF r(2)] by simp_all
  then show ?thesis using demo_chain_fields[OF r(2)] r(2) JStr by simp
qed (use assms in \<open>simp_all add: demo_lookup_def\<close>)

lemma demo_lookup_has:
  assumes "demo_chain s = Some h"
  shows "demo_lookup (JInt s) = Some h \<and> demo_lookup (JStr (h_root h)) = Some h"
proof -
  have "0 \<le> s" using demo_chain_cases[OF assms] by auto
  then show ?thesis using demo_chain_fields[OF assms] assms by (simp add: demo_lookup_def)
qed

lemma demo_no_lies: "no_lies demo_cc demo_chain demo_details ''down'' \<and> no_lies demo_cc demo_chain demo_details ''good''"
proof
  show "no_lies demo_cc demo_chain demo_details ''down''" by (simp add: no_lies_def demo_answer)
  have "\<exists>s h. demo_chain s = Some h \<and> state_id \<in> {JInt s, JStr (h_root h)} \<and> header_of x = Inr h"
    if a: "host_answer demo_cc ''good'' (block_request API_GET_BLOCK_HEADER state_id) = Inr x" for state_id x
  proof -
    obtain h where h: "demo_lookup state_id = Some h" "split_data (Plain (header_json h)) = Inr x"
      using a by (auto simp: demo_answer split: option.splits)
    show ?thesis using demo_lookup_block[OF h(1)] header_back[of h] h(2)
      by (intro exI[of _ "h_slot h"] exI[of _ h]) auto
  qed
  moreover have "\<exists>s h. demo_chain s = Some h \<and> r = h_root h \<and> details_of x = Inr (demo_details s)"
    if a: "host_answer demo_cc ''good'' (block_request API_GET_BLOCK_DETAILS (JStr r)) = Inr x" for r x
  proof -
    obtain h where h: "demo_lookup (JStr r) = Some h" "split_data (Plain (details_json (demo_details (h_slot h)))) = Inr x"
      using a by (auto simp: demo_answer split: option.splits)
    show ?thesis using demo_lookup_block[OF h(1)] details_back[of "demo_details (h_slot h)"] h(2)
      by (intro exI[of _ "h_slot h"] exI[of _ h]) auto
  qed
  ultimately show "no_lies demo_cc demo_chain demo_details ''good''" unfolding no_lies_def by blast
qed

lemma json_has_data:
  "is_ok (split_data (Plain (header_json h)))" "is_ok (split_data (Plain (details_json d)))"
  by (simp_all add: split_data_def header_json_def details_json_def lookupR_def)

lemma demo_synced: "synced demo_cc demo_chain ''good''"
proof -
  have h: "answers demo_cc (block_request API_GET_BLOCK_HEADER state_id) ''good''" if "demo_lookup state_id = Some h" for state_id h
    using that json_has_data(1)[of h] demo_answer(2)[of state_id, unfolded host_answer_def]
    by (auto simp: answers_def is_ok_iff)
  have d: "answers demo_cc (block_request API_GET_BLOCK_DETAILS state_id) ''good''" if "demo_lookup state_id = Some h" for state_id h
    using that json_has_data(2)[of "demo_details (h_slot h)"] demo_answer(3)[of state_id, unfolded host_answer_def]
    by (auto simp: answers_def is_ok_iff)
  have "\<exists>r. cc_net demo_cc ''good'' (header_request s) = Some r \<and> hr_status r = NOT_FOUND" if "demo_chain s = None" for s
    using that by (simp add: demo_cc_def demo_net_def header_request_def cl_request_def demo_lookup_def demo_reply_def NOT_FOUND_def)
  then show ?thesis unfolding synced_def using h d demo_lookup_has by blast
qed


theorem slot_missed_iff_witness:
  "get_block_header_at (cl_of demo_cc id) 19 = Inl (NotOkResponse NOT_FOUND) \<and>
   get_block_header_at (cl_of demo_cc id) 18 \<noteq> Inl (NotOkResponse NOT_FOUND)"
proof -
  have ne: "cc_hosts demo_cc \<noteq> []" by (simp add: demo_cc_def)
  have "\<not> answers demo_cc (header_request 19) ''down''" "\<not> answers demo_cc (header_request 19) ''good''"
    "answers demo_cc (header_request 18) ''good''" by code_simp+
  moreover have "cc_net demo_cc ''good'' (header_request 19) = Some (demo_reply None)" "hr_status (demo_reply None) = NOT_FOUND"
    by (simp_all add: demo_cc_def demo_net_def header_request_def cl_request_def demo_lookup_def demo_chain_def
        demo_reply_def NOT_FOUND_def)
  ultimately show ?thesis using slot_missed_iff[OF ne, of id 19] slot_missed_iff[OF ne, of id 18]
    by (simp add: demo_cc_def)
qed

theorem proposer_duties_checked_witness:
  "\<exists>host \<in> set (cc_hosts demo_cc). \<exists>response kvs.
    cc_net demo_cc host (cl_request API_GET_PROPOSER_DUTIES [JInt 1] []) = Some response \<and>
    hr_json response = Some (JObj kvs) \<and> map_of kvs ''dependent_root'' = Some (JStr ''0xd'')"
proof -
  have "get_proposer_duties (collector_env_of demo_cc id \<lparr>slots_per_epoch = 32, seconds_per_slot = 12, genesis_time = 0\<rparr>
      (build_blockstamp demo_node (demo_details 24)) 2 id) 1 ''0xd'' = Inr [\<lparr>pr_validator_index = 5, pr_slot = 33\<rparr>]"
    by code_simp
  from proposer_duties_checked[OF this] show ?thesis by blast
qed

end
