(* ===== verification/Contracts.thy ===== *)
theory Contracts
  imports Daemon
begin

text \<open>
  \<open>src/web3py/extensions/contracts.py\<close> and the contract loading of \<open>src/web3py/extensions/staking_module.py\<close>:
  which contract addresses the oracle works with, and how it notices that one has changed
  (\<open>refresh_contracts_if_address_change\<close> of \<open>oracle_module.py\<close>). The module's attributes are a dict from
  names to addresses. \<open>address_of\<close> is what the locator answers for an attribute, and a query may fail
  half-way through, so the operations are actions on the dict.
\<close>

section \<open>The contracts of the protocol\<close>

type_synonym contracts = "(string \<times> hexstr) list"

definition contract_names :: "string list" where
  "contract_names =
     [''lido_locator'', ''lido'', ''accounting_oracle'', ''validators_exit_bus_oracle'', ''withdrawal_queue_nft'',
      ''oracle_report_sanity_checker'', ''oracle_daemon_config'', ''burner'', ''staking_router'', ''accounting'',
      ''lazy_oracle'', ''vault_hub'']"

fun load_names :: "(string \<Rightarrow> hexstr res) \<Rightarrow> string list \<Rightarrow> (contracts, unit) act" where
  "load_names address_of [] cs = (Inr (), cs)"
| "load_names address_of (n # ns) cs =
     (case address_of n of
        Inl e \<Rightarrow> (Inl e, cs)
      | Inr a \<Rightarrow> load_names address_of ns (AList.update n a cs))"

definition load_contracts :: "(string \<Rightarrow> hexstr res) \<Rightarrow> (contracts, unit) act" where
  "load_contracts address_of = load_names address_of contract_names"

definition has_contract_address_changed :: "(string \<Rightarrow> hexstr res) \<Rightarrow> (contracts, bool) act" where
  "has_contract_address_changed address_of cs =
     bindA (load_contracts address_of) (\<lambda>_ cs'. (Inr (map snd cs \<noteq> map snd cs'), cs')) cs"

text \<open>The module with the contract it reports to; \<open>report_name\<close> is the attribute \<open>refresh_contracts\<close> takes.\<close>

record oracle_contracts =
  oc_contracts :: contracts
  oc_report_contract :: hexstr

definition refresh_contracts_if_address_change ::
    "string \<Rightarrow> (string \<Rightarrow> hexstr res) \<Rightarrow> (oracle_contracts, unit) act" where
  "refresh_contracts_if_address_change report_name address_of s =
     (case has_contract_address_changed address_of (oc_contracts s) of
        (Inl e, cs) \<Rightarrow> (Inl e, s\<lparr>oc_contracts := cs\<rparr>)
      | (Inr changed, cs) \<Rightarrow>
          if changed then (Inr (), s\<lparr>oc_contracts := cs, oc_report_contract := the (map_of cs report_name)\<rparr>)
          else (Inr (), s\<lparr>oc_contracts := cs\<rparr>))"

lemma load_names_ok:
  "load_names address_of ns cs = (Inr u, cs') \<Longrightarrow> map fst cs = names \<Longrightarrow> set ns \<subseteq> set names \<Longrightarrow>
     map fst cs' = names \<and> (\<forall>n. map_of cs' n = (if n \<in> set ns then Some (projr (address_of n)) else map_of cs n)) \<and>
     (\<forall>n \<in> set ns. is_ok (address_of n))"
proof (induction ns arbitrary: cs)
  case (Cons n ns)
  then obtain a where a: "address_of n = Inr a" "load_names address_of ns (AList.update n a cs) = (Inr u, cs')"
    by (auto split: sum.splits)
  have k: "map fst (AList.update n a cs) = names" using Cons.prems(2,3) by (auto simp: update_keys)
  note ih = Cons.IH[OF a(2) k]
  have "set ns \<subseteq> set names" using Cons.prems(3) by simp
  note ih = ih[OF this]
  have "map_of cs' m = (if m \<in> set (n # ns) then Some (projr (address_of m)) else map_of cs m)" for m
    using ih a(1) by (simp add: map_of_update_iff)
  then show ?case using ih a(1) by simp
qed auto

lemma load_names_fails:
  "load_names address_of ns cs = (Inl e, cs') \<Longrightarrow> \<exists>n \<in> set ns. address_of n = Inl e"
  by (induction ns arbitrary: cs) (auto split: sum.splits)

text \<open>
  C40. When the check of the contract addresses comes through, the oracle holds the current address of every
  contract, and the check says "changed" exactly when some address differs from the one it held before. The
  report contract then is the current one, or none has changed.
\<close>

theorem address_change_detected:
  assumes "map fst (oc_contracts s) = contract_names" and "report_name \<in> set contract_names"
    and "refresh_contracts_if_address_change report_name address_of s = (Inr (), s')"
  shows "(\<forall>n \<in> set contract_names. \<exists>a. address_of n = Inr a \<and> map_of (oc_contracts s') n = Some a) \<and>
    (if oc_contracts s' = oc_contracts s then s' = s
     else Inr (oc_report_contract s') = address_of report_name)"
proof -
  obtain changed cs where h: "has_contract_address_changed address_of (oc_contracts s) = (Inr changed, cs)"
    and s': "s' = (if changed then s\<lparr>oc_contracts := cs, oc_report_contract := the (map_of cs report_name)\<rparr> else s\<lparr>oc_contracts := cs\<rparr>)"
    using assms(3) by (auto simp: refresh_contracts_if_address_change_def split: prod.splits sum.splits if_splits)
  then obtain u where l: "load_names address_of contract_names (oc_contracts s) = (Inr u, cs)"
    and changed: "changed \<longleftrightarrow> map snd (oc_contracts s) \<noteq> map snd cs"
    by (auto simp: has_contract_address_changed_def load_contracts_def bindA_def split: prod.splits sum.splits)
  have keys: "map fst cs = contract_names" and vals: "\<forall>n. map_of cs n = (if n \<in> set contract_names
      then Some (projr (address_of n)) else map_of (oc_contracts s) n)" and ok: "\<forall>n \<in> set contract_names. is_ok (address_of n)"
    using load_names_ok[OF l assms(1)] by auto
  have cur: "\<exists>a. address_of n = Inr a \<and> map_of cs n = Some a" if "n \<in> set contract_names" for n
    using vals ok that by (auto simp: is_ok_iff)
  have "changed \<longleftrightarrow> cs \<noteq> oc_contracts s"
    using changed keys assms(1) by (metis zip_map_fst_snd)
  moreover have "oc_contracts s' = cs" using s' by simp
  ultimately show ?thesis using cur cur[OF assms(2)] s' by auto
qed

section \<open>The contracts of a staking module\<close>

text \<open>One attempt of loading asks each contract for the next; an attempt that meets a web3 exception is repeated.\<close>

record sm_chain =
  q_parameters_registry :: "hexstr \<Rightarrow> hexstr res"
  q_accounting :: "hexstr \<Rightarrow> hexstr res"
  q_fee_distributor :: "hexstr \<Rightarrow> hexstr res"
  q_oracle :: "hexstr \<Rightarrow> hexstr res"
  q_strikes :: "hexstr \<Rightarrow> hexstr res"

record sm_contracts =
  sc_module :: hexstr
  sc_params :: hexstr
  sc_accounting :: hexstr
  sc_fee_distributor :: hexstr
  sc_oracle :: hexstr
  sc_strikes :: hexstr
  sc_contract_addresses :: "hexstr list option"

definition CONTRACT_LOAD_MAX_RETRIES :: nat where "CONTRACT_LOAD_MAX_RETRIES = 100"

definition get_contract_addresses :: "sm_chain \<Rightarrow> sm_contracts \<Rightarrow> hexstr list res" where
  "get_contract_addresses q s =
     bindR (q_accounting q (sc_module s)) (\<lambda>accounting.
     bindR (q_parameters_registry q (sc_module s)) (\<lambda>parameters_registry.
     bindR (q_fee_distributor q (sc_accounting s)) (\<lambda>fee_distributor.
     bindR (q_oracle q (sc_fee_distributor s)) (\<lambda>oracle.
     bindR (q_strikes q (sc_oracle s)) (\<lambda>strikes.
       Inr [sc_module s, accounting, parameters_registry, fee_distributor, oracle, strikes])))))"

definition asking :: "hexstr res \<Rightarrow> (hexstr \<Rightarrow> sm_contracts \<Rightarrow> sm_contracts) \<Rightarrow> (sm_contracts, unit) act" where
  "asking answer setter s = (case answer of Inl e \<Rightarrow> (Inl e, s) | Inr a \<Rightarrow> (Inr (), setter a s))"

definition load_once :: "sm_chain \<Rightarrow> hexstr \<Rightarrow> (sm_contracts, unit) act" where
  "load_once q module_address s =
     bindA (\<lambda>s. (Inr (), s\<lparr>sc_module := module_address\<rparr>)) (\<lambda>_.
     bindA (\<lambda>s. asking (q_parameters_registry q (sc_module s)) (\<lambda>a s. s\<lparr>sc_params := a\<rparr>) s) (\<lambda>_.
     bindA (\<lambda>s. asking (q_accounting q (sc_module s)) (\<lambda>a s. s\<lparr>sc_accounting := a\<rparr>) s) (\<lambda>_.
     bindA (\<lambda>s. asking (q_fee_distributor q (sc_accounting s)) (\<lambda>a s. s\<lparr>sc_fee_distributor := a\<rparr>) s) (\<lambda>_.
     bindA (\<lambda>s. asking (q_oracle q (sc_fee_distributor s)) (\<lambda>a s. s\<lparr>sc_oracle := a\<rparr>) s) (\<lambda>_.
     bindA (\<lambda>s. asking (q_strikes q (sc_oracle s)) (\<lambda>a s. s\<lparr>sc_strikes := a\<rparr>) s) (\<lambda>_ s.
       case get_contract_addresses q s of
         Inl e \<Rightarrow> (Inl e, s)
       | Inr addresses \<Rightarrow> (Inr (), s\<lparr>sc_contract_addresses := Some addresses\<rparr>))))))) s"

fun load_attempts :: "(nat \<Rightarrow> sm_chain) \<Rightarrow> hexstr \<Rightarrow> nat list \<Rightarrow> (sm_contracts, unit) act" where
  "load_attempts chain module_address [] s = (Inl Web3Exception, s)"
| "load_attempts chain module_address (i # is) s =
     (case load_once (chain i) module_address s of
        (Inr u, s) \<Rightarrow> (Inr u, s)
      | (Inl e, s) \<Rightarrow> if is_web3_exception e then load_attempts chain module_address is s else (Inl e, s))"

definition sm_load_contracts :: "(nat \<Rightarrow> sm_chain) \<Rightarrow> hexstr \<Rightarrow> (sm_contracts, unit) act" where
  "sm_load_contracts chain module_address = load_attempts chain module_address [0..<CONTRACT_LOAD_MAX_RETRIES]"

definition sm_has_contract_address_changed :: "sm_chain \<Rightarrow> (sm_contracts, bool) act" where
  "sm_has_contract_address_changed q s =
     (case get_contract_addresses q s of
        Inl e \<Rightarrow> (Inl e, s)
      | Inr current \<Rightarrow>
          if sc_contract_addresses s \<noteq> Some current then (Inr True, s\<lparr>sc_contract_addresses := Some current\<rparr>)
          else (Inr False, s))"

definition linked :: "sm_chain \<Rightarrow> sm_contracts \<Rightarrow> bool" where
  "linked q s \<longleftrightarrow> q_parameters_registry q (sc_module s) = Inr (sc_params s) \<and> q_accounting q (sc_module s) = Inr (sc_accounting s) \<and>
     q_fee_distributor q (sc_accounting s) = Inr (sc_fee_distributor s) \<and> q_oracle q (sc_fee_distributor s) = Inr (sc_oracle s) \<and>
     q_strikes q (sc_oracle s) = Inr (sc_strikes s)"

lemma load_once_linked:
  assumes "load_once q module_address s = (Inr u, s')"
  shows "linked q s' \<and> sc_module s' = module_address \<and> get_contract_addresses q s' = Inr (the (sc_contract_addresses s')) \<and>
    sc_contract_addresses s' \<noteq> None"
  using assms
  by (auto simp: load_once_def bindA_def asking_def linked_def get_contract_addresses_def bindR_eq_Inr
      split: sum.splits prod.splits)

text \<open>
  Loading the contracts of a staking module ends after at most 100 attempts; when it succeeds, the
  contracts are those one attempt saw, each named by the one before it starting from the configured module,
  and as long as the chain keeps these answers the check reports no change.
\<close>

theorem sm_contracts_current:
  assumes "sm_load_contracts chain module_address s = (Inr (), s')"
  shows "\<exists>i < 100. linked (chain i) s' \<and> sc_module s' = module_address \<and>
    sm_has_contract_address_changed (chain i) s' = (Inr False, s')"
proof -
  have "\<exists>i \<in> set is. linked (chain i) s' \<and> sc_module s' = module_address \<and>
      get_contract_addresses (chain i) s' = Inr (the (sc_contract_addresses s')) \<and> sc_contract_addresses s' \<noteq> None"
    if "load_attempts chain module_address is s = (Inr (), s')" for "is" s
    using that
  proof (induction "is" arbitrary: s)
    case (Cons i "is")
    then show ?case using load_once_linked[of "chain i" module_address s] by (auto split: prod.splits sum.splits if_splits)
  qed simp
  from this[OF assms[unfolded sm_load_contracts_def]] show ?thesis
    by (auto simp: CONTRACT_LOAD_MAX_RETRIES_def sm_has_contract_address_changed_def)
qed

section \<open>Concrete runs\<close>

definition demo_contracts :: "string \<Rightarrow> oracle_contracts" where
  "demo_contracts oracle = \<lparr>oc_contracts = map (\<lambda>n. (n, if n = ''accounting_oracle'' then oracle else ''0xa'')) contract_names,
     oc_report_contract = oracle\<rparr>"

definition demo_locator :: "string \<Rightarrow> bool \<Rightarrow> string \<Rightarrow> hexstr res" where
  "demo_locator oracle up n =
     (if n = ''accounting_oracle'' then Inr oracle else if n = ''burner'' \<and> \<not> up then Inl Web3Exception else Inr ''0xa'')"

theorem address_change_detected_witness:
  "\<exists>s'. refresh_contracts_if_address_change ''accounting_oracle'' (demo_locator ''0xc'' True) (demo_contracts ''0xb'') = (Inr (), s') \<and>
     oc_report_contract s' = ''0xc''"
proof -
  have run: "refresh_contracts_if_address_change ''accounting_oracle'' (demo_locator ''0xc'' True) (demo_contracts ''0xb'') =
      (Inr (), demo_contracts ''0xc'')" by code_simp
  have pre: "map fst (oc_contracts (demo_contracts ''0xb'')) = contract_names" "''accounting_oracle'' \<in> set contract_names"
    by code_simp+
  have "oc_contracts (demo_contracts ''0xc'') \<noteq> oc_contracts (demo_contracts ''0xb'')" by code_simp
  then have "Inr (oc_report_contract (demo_contracts ''0xc'')) = demo_locator ''0xc'' True ''accounting_oracle''"
    using address_change_detected[OF pre run] by simp
  then show ?thesis using run by (auto simp: demo_locator_def)
qed

text \<open>
  A check that is interrupted hides a change: the accounting oracle moves, the query of a later contract
  fails once, and the next check, which comes through, finds the moved address already in the dict. The
  module goes on reporting to the old contract.
\<close>

lemma interrupted_check_hides_change:
  "case refresh_contracts_if_address_change ''accounting_oracle'' (demo_locator ''0xc'' False) (demo_contracts ''0xb'') of
     (Inl e, s1) \<Rightarrow>
       e = Web3Exception \<and>
       (case refresh_contracts_if_address_change ''accounting_oracle'' (demo_locator ''0xc'' True) s1 of
          (Inr _, s2) \<Rightarrow> oc_report_contract s2 = ''0xb'' \<and> map_of (oc_contracts s2) ''accounting_oracle'' = Some ''0xc''
        | (Inl _, _) \<Rightarrow> False)
   | (Inr _, _) \<Rightarrow> False"
  by code_simp

definition demo_sm_chain :: "nat \<Rightarrow> sm_chain" where
  "demo_sm_chain i =
     \<lparr>q_parameters_registry = (\<lambda>_. Inr ''p''), q_accounting = (\<lambda>a. Inr (a @ ''a'')),
      q_fee_distributor = (\<lambda>_. if i = 0 then Inl Web3Exception else Inr ''f''), q_oracle = (\<lambda>_. Inr ''o''), q_strikes = (\<lambda>_. Inr ''s'')\<rparr>"

theorem sm_contracts_current_witness:
  "\<exists>i < 100. \<exists>s'. linked (demo_sm_chain i) s' \<and> sc_accounting s' = ''ma''"
proof -
  let ?s = "\<lparr>sc_module = [], sc_params = [], sc_accounting = [], sc_fee_distributor = [], sc_oracle = [], sc_strikes = [],
    sc_contract_addresses = None\<rparr>" and ?s' = "\<lparr>sc_module = ''m'', sc_params = ''p'', sc_accounting = ''ma'',
    sc_fee_distributor = ''f'', sc_oracle = ''o'', sc_strikes = ''s'',
    sc_contract_addresses = Some [''m'', ''ma'', ''p'', ''f'', ''o'', ''s'']\<rparr>"
  have "sm_load_contracts demo_sm_chain ''m'' ?s = (Inr (), ?s')" by code_simp
  from sm_contracts_current[OF this] obtain i where i: "i < 100" "linked (demo_sm_chain i) ?s'" by blast
  show ?thesis by (intro exI[of _ i] exI[of _ ?s'] conjI) (use i in simp_all)
qed

end
