(* ===== verification/Data_Encode.thy ===== *)
theory Data_Encode
  imports Bytes
begin

text \<open>
  \<open>src/modules/oracles/ejector/data_encode.py\<close>: the packed exit requests of an ejector report. An
  exit request is a node operator and a Lido validator. \<open>read_request\<close> reads the layout in the
  function's documentation back, as the Exit Bus contract does.
\<close>

type_synonym exit_request = "gid \<times> linked_validator"

definition DATA_FORMAT_LIST_WITH_KEY_INDEX :: int where "DATA_FORMAT_LIST_WITH_KEY_INDEX = 2"
definition MODULE_ID_LENGTH :: nat where "MODULE_ID_LENGTH = 3"
definition NODE_OPERATOR_ID_LENGTH :: nat where "NODE_OPERATOR_ID_LENGTH = 5"
definition VALIDATOR_INDEX_LENGTH :: nat where "VALIDATOR_INDEX_LENGTH = 8"
definition KEY_INDEX_LENGTH :: nat where "KEY_INDEX_LENGTH = 8"
definition VALIDATOR_PUB_KEY_LENGTH :: nat where "VALIDATOR_PUB_KEY_LENGTH = 48"

lemmas encode_lengths =
  MODULE_ID_LENGTH_def NODE_OPERATOR_ID_LENGTH_def VALIDATOR_INDEX_LENGTH_def KEY_INDEX_LENGTH_def
  VALIDATOR_PUB_KEY_LENGTH_def

definition nog_validator_key :: "exit_request \<Rightarrow> int \<times> int \<times> int" where
  "nog_validator_key r = (case r of ((module_id, no_id), v) \<Rightarrow> (module_id, no_id, v_index v))"

definition sort_validators_to_eject :: "exit_request list \<Rightarrow> exit_request list" where
  "sort_validators_to_eject rs = sort_key nog_validator_key rs"

text \<open>The body of the loop: what one exit request adds to the data.\<close>

definition encode_request :: "exit_request \<Rightarrow> bytes res" where
  "encode_request r = (case r of ((module_id, op_id), v) \<Rightarrow>
     bindR (to_bytes module_id MODULE_ID_LENGTH) (\<lambda>m.
       bindR (to_bytes op_id NODE_OPERATOR_ID_LENGTH) (\<lambda>no.
         bindR (to_bytes (v_index v) VALIDATOR_INDEX_LENGTH) (\<lambda>i.
           bindR (to_bytes (lk_index (lido_id v)) KEY_INDEX_LENGTH) (\<lambda>k.
             bindR (hex_str_to_bytes (vs_pubkey (v_validator v))) (\<lambda>p.
               if length p \<noteq> VALIDATOR_PUB_KEY_LENGTH then Inl ValueError
               else Inr (m @ no @ i @ k @ p)))))))"

definition encode_data :: "exit_request list \<Rightarrow> (bytes \<times> int) res" where
  "encode_data validators_to_eject =
     bindR (encode_all encode_request (sort_validators_to_eject validators_to_eject) [])
       (\<lambda>result. Inr (result, DATA_FORMAT_LIST_WITH_KEY_INDEX))"

section \<open>Reading the data back\<close>

definition read_request :: "bytes \<Rightarrow> int \<times> int \<times> int \<times> int \<times> bytes" where
  "read_request bs =
     (from_be (take 3 bs), from_be (take 5 (drop 3 bs)), from_be (take 8 (drop 8 bs)),
      from_be (take 8 (drop 16 bs)), drop 24 bs)"

definition request_view :: "exit_request \<Rightarrow> int \<times> int \<times> int \<times> int \<times> bytes" where
  "request_view r =
     (fst (fst r), snd (fst r), v_index (snd r), lk_index (lido_id (snd r)),
      case hex_str_to_bytes (vs_pubkey (v_validator (snd r))) of Inl _ \<Rightarrow> [] | Inr p \<Rightarrow> p)"

definition fits :: "exit_request \<Rightarrow> bool" where
  "fits r \<longleftrightarrow>
     0 \<le> fst (fst r) \<and> fst (fst r) < 2 ^ 24 \<and> 0 \<le> snd (fst r) \<and> snd (fst r) < 2 ^ 40 \<and>
     0 \<le> v_index (snd r) \<and> v_index (snd r) < 2 ^ 64 \<and>
     0 \<le> lk_index (lido_id (snd r)) \<and> lk_index (lido_id (snd r)) < 2 ^ 64 \<and>
     (\<exists>p. hex_str_to_bytes (vs_pubkey (v_validator (snd r))) = Inr p \<and> length p = 48)"

lemma encode_request_Inr:
  "encode_request r = Inr b \<longleftrightarrow>
     fits r \<and> b = be 3 (fst (fst r)) @ be 5 (snd (fst r)) @ be 8 (v_index (snd r))
       @ be 8 (lk_index (lido_id (snd r))) @ snd (snd (snd (snd (request_view r))))"
  by (cases r rule: prod.exhaust[case_product prod.exhaust])
    (auto simp: encode_request_def fits_def request_view_def res_simps encode_lengths
      split: prod.splits if_splits)

lemma encode_request_ok: "is_ok (encode_request r) \<longleftrightarrow> fits r"
  unfolding is_ok_iff encode_request_Inr by blast

interpretation requests: fixed_codec encode_request read_request request_view 72
proof unfold_locales
  fix r b assume "encode_request r = Inr b"
  then have f: "fits r" and b: "b = be 3 (fst (fst r)) @ be 5 (snd (fst r)) @ be 8 (v_index (snd r))
       @ be 8 (lk_index (lido_id (snd r))) @ snd (snd (snd (snd (request_view r))))"
    unfolding encode_request_Inr by blast+
  show "length b = 72" using f by (auto simp: b fits_def request_view_def)
  show "read_request b = request_view r"
    using f by (simp add: b read_request_def fits_def from_be_be) (simp add: request_view_def)
qed simp

text \<open>
  C6. Encoding succeeds exactly on requests that fit their fields (a 3 byte module, a 5 byte node
  operator, 8 byte indices, a public key of 48 bytes); the data then holds 72 bytes per request and
  reads back, 72 bytes at a time, as the requests sorted by module, node operator and validator.
\<close>

theorem encode_data_roundtrip:
  "(is_ok (encode_data rs) \<longleftrightarrow> (\<forall>r \<in> set rs. fits r)) \<and>
   (\<forall>bs fmt. encode_data rs = Inr (bs, fmt) \<longrightarrow>
      length bs = 72 * length rs \<and> fmt = DATA_FORMAT_LIST_WITH_KEY_INDEX \<and>
      map read_request (batched 72 bs) = map request_view (sort_validators_to_eject rs) \<and>
      sorted (map nog_validator_key (sort_validators_to_eject rs)) \<and>
      mset (sort_validators_to_eject rs) = mset rs)"
proof (intro conjI allI impI)
  have "is_ok (encode_data rs) \<longleftrightarrow> is_ok (encode_all encode_request (sort_validators_to_eject rs) [])"
    by (cases "encode_all encode_request (sort_validators_to_eject rs) []")
      (auto simp: encode_data_def)
  then show "is_ok (encode_data rs) \<longleftrightarrow> (\<forall>r \<in> set rs. fits r)"
    by (simp add: encode_all_ok_iff encode_request_ok sort_validators_to_eject_def)
next
  fix bs fmt assume "encode_data rs = Inr (bs, fmt)"
  then have e: "encode_all encode_request (sort_validators_to_eject rs) [] = Inr bs"
    and f: "fmt = DATA_FORMAT_LIST_WITH_KEY_INDEX"
    by (auto simp: encode_data_def res_simps)
  show "length bs = 72 * length rs"
    using requests.items_length[OF e] by (simp add: sort_validators_to_eject_def)
  show "map read_request (batched 72 bs) = map request_view (sort_validators_to_eject rs)"
    by (rule requests.items_roundtrip[OF e])
  show "fmt = DATA_FORMAT_LIST_WITH_KEY_INDEX" by (rule f)
qed (simp_all add: sort_validators_to_eject_def)

definition demo_key :: string where "demo_key = concat (replicate 48 ''ab'')"

definition demo_request :: "int \<Rightarrow> int \<Rightarrow> int \<Rightarrow> exit_request" where
  "demo_request m no i =
     ((m, no),
      \<lparr>v_index = i, v_balance = 32000000000,
       v_validator = \<lparr>vs_pubkey = ''0x'' @ demo_key, vs_withdrawal_credentials = ''0x01'',
         vs_effective_balance = 32000000000, vs_slashed = False, vs_activation_eligibility_epoch = 0,
         vs_activation_epoch = 0, vs_exit_epoch = FAR_FUTURE_EPOCH, vs_withdrawable_epoch = FAR_FUTURE_EPOCH\<rparr>,
       lido_id = \<lparr>lk_index = 7, lk_key = ''0x'' @ demo_key, lk_operator_index = no, lk_module_address = ''0xm''\<rparr>,
       pending_topups = [], consolidating_as_source = None, consolidating_as_target = []\<rparr>)"

theorem encode_data_roundtrip_witness:
  "\<exists>bs. encode_data [demo_request 2 1 5, demo_request 1 3 300] = Inr (bs, 2) \<and> length bs = 144"
proof -
  have "\<forall>r \<in> set [demo_request 2 1 5, demo_request 1 3 300]. fits r"
  proof -
    have "hex_str_to_bytes (''0x'' @ demo_key) = Inr (replicate 48 171)" by code_simp
    then show ?thesis by (simp add: fits_def demo_request_def)
  qed
  with encode_data_roundtrip[of "[demo_request 2 1 5, demo_request 1 3 300]"]
  have "is_ok (encode_data [demo_request 2 1 5, demo_request 1 3 300])" by blast
  then obtain bs fmt where "encode_data [demo_request 2 1 5, demo_request 1 3 300] = Inr (bs, fmt)"
    unfolding is_ok_iff by auto
  with encode_data_roundtrip[of "[demo_request 2 1 5, demo_request 1 3 300]"] show ?thesis
    by (simp add: DATA_FORMAT_LIST_WITH_KEY_INDEX_def)
qed

end
