(* ===== verification/Distribution.thy ===== *)
theory Distribution
  imports Duties Slots Bytes
begin

text \<open>
  \<open>src/modules/oracles/staking_modules/common/distribution.py\<close>: how the fee shares of a staking module
  are split between its node operators, frame by frame. Contract, Keys API and node answers are the
  functions of \<open>distribution_env\<close>. The performance log of \<open>log.py\<close> is written only and not modelled.
  The lookup of a validator missing from a \<open>defaultdict\<close> inserts a zero accumulator; every reader of
  the frame treats it like a missing one, so the model reads with a default instead.
\<close>

section \<open>Data\<close>

type_synonym strikes_validator = "operator_id \<times> bytes"

record duties_outcome =
  do_participation_share :: int
  do_rebate_share :: int
  do_strikes :: int

record distribution_result =
  dr_total_rewards :: int
  dr_total_rebate :: int
  dr_total_rewards_map :: "(operator_id \<times> int) list"
  dr_strikes :: "(strikes_validator \<times> strikes_list) list"

record kapi_response =
  ka_operators :: "(hexstr \<times> operator_id) list"
  ka_keys :: "lido_key list"

record distribution_env =
  de_client :: cl_client
  de_chain :: chain_config
  de_module_address :: hexstr
  de_operators_keys :: "ref_blockstamp \<Rightarrow> kapi_response res"
  de_validators :: "ref_blockstamp \<Rightarrow> validator list res"
  de_shares_to_distribute :: "hexstr \<Rightarrow> int res"
  de_curve_params :: "operator_id \<Rightarrow> ref_blockstamp \<Rightarrow> curve_params res"
  de_hexbytes :: "hexstr \<Rightarrow> bytes"

section \<open>Validators of the module\<close>

definition frame_blockstamp :: "distribution_env \<Rightarrow> ref_blockstamp \<Rightarrow> epoch \<Rightarrow> ref_blockstamp res" where
  "frame_blockstamp env bs to_epoch =
     (if to_epoch \<noteq> bs_ref_epoch bs
      then get_reference_blockstamp (de_client env) (get_epoch_last_slot (de_chain env) to_epoch) (bs_slot_number bs) to_epoch
      else Inr bs)"

definition add_module_validator ::
    "hexstr \<Rightarrow> (hexstr \<times> lido_key) list \<Rightarrow> validator \<Rightarrow> (operator_id \<times> lido_validator list) list \<Rightarrow>
     (operator_id \<times> lido_validator list) list res" where
  "add_module_validator module_address keys v no_validators =
     (case map_of keys (vs_pubkey (v_validator v)) of
        None \<Rightarrow> Inr no_validators
      | Some key \<Rightarrow>
          if lk_module_address key \<noteq> module_address then Inl KAPIInconsistentData
          else modifyR (lk_operator_index key) (\<lambda>vs. vs @ [as_lido_validator key v]) no_validators)"

definition get_module_validators ::
    "distribution_env \<Rightarrow> ref_blockstamp \<Rightarrow> (operator_id \<times> lido_validator list) list res" where
  "get_module_validators env bs =
     bindR (de_operators_keys env bs) (\<lambda>kapi.
       bindR (foldR (\<lambda>(address, index) d.
           if address \<noteq> de_module_address env then Inl KAPIInconsistentData else Inr (AList.update index [] d))
           (ka_operators kapi) []) (\<lambda>no_validators.
         bindR (de_validators env bs) (\<lambda>validators.
           let keys = dict_of (map (\<lambda>k. (lk_key k, k)) (ka_keys kapi))
           in foldR (add_module_validator (de_module_address env) keys) validators no_validators)))"

section \<open>Shares of a validator\<close>

definition get_validator_duties_outcome ::
    "lido_validator \<Rightarrow> validator_duties \<Rightarrow> rat \<Rightarrow> rat \<Rightarrow> perf_coeffs \<Rightarrow> duties_outcome res" where
  "get_validator_duties_outcome v duties threshold reward_share coeffs =
     (case vd_attestation duties of
        None \<Rightarrow> Inr \<lparr>do_participation_share = 0, do_rebate_share = 0, do_strikes = 0\<rparr>
      | Some attestation \<Rightarrow>
          if da_assigned attestation = 0 then Inr \<lparr>do_participation_share = 0, do_rebate_share = 0, do_strikes = 0\<rparr>
          else if vs_slashed (v_validator v)
          then Inr \<lparr>do_participation_share = 0, do_rebate_share = 0, do_strikes = (if threshold > 0 then 1 else 0)\<rparr>
          else bindR (calc_performance coeffs duties) (\<lambda>performance.
            let effective_balance = max MIN_ACTIVATION_BALANCE (vs_effective_balance (v_validator v));
                multiplier = effective_balance div EFFECTIVE_BALANCE_INCREMENT
            in if performance \<ge> threshold
               then let assigned_att = da_assigned attestation * multiplier;
                        participation_share = \<lceil>fl (float_of_int assigned_att * reward_share)\<rceil>;
                        rebate_share = assigned_att - participation_share
                 in if rebate_share < 0 then Inl ValueError
                    else Inr \<lparr>do_participation_share = participation_share, do_rebate_share = rebate_share, do_strikes = 0\<rparr>
               else Inr \<lparr>do_participation_share = 0, do_rebate_share = 0, do_strikes = 1\<rparr>))"

section \<open>Rewards of a frame\<close>

type_synonym shares_map = "(operator_id \<times> (int \<times> int) list) list"

definition operator_shares :: "shares_map \<Rightarrow> (operator_id \<times> int) list" where
  \<comment> \<open>operators with no participation are skipped\<close>
  "operator_shares ps = filter (\<lambda>(_, share). share \<noteq> 0) (map (\<lambda>(no, vs). (no, sum_list (map snd vs))) ps)"

definition calc_rewards_distribution_in_frame :: "shares_map \<Rightarrow> int \<Rightarrow> int \<Rightarrow> (operator_id \<times> int) list res" where
  "calc_rewards_distribution_in_frame participation_shares rebate_share rewards_to_distribute =
     (if rewards_to_distribute < 0 then Inl ValueError
      else
        let per_operator = operator_shares participation_shares;
            total_shares = rebate_share + sum_list (map snd per_operator)
        in bindR (mapR (\<lambda>(no, share). bindR (floordivR (rewards_to_distribute * share) total_shares)
                   (\<lambda>r. Inr (no, r))) per_operator) (\<lambda>rewards.
             if sum_list (map snd rewards) > rewards_to_distribute then Inl ValueError else Inr rewards))"

definition get_network_performance :: "duties_state \<Rightarrow> epoch_frame \<Rightarrow> rat res" where
  "get_network_performance st f =
     bindR (get_att_network_aggr st f) (\<lambda>att.
       bindR (get_prop_network_aggr st f) (\<lambda>prop.
         bindR (get_sync_network_aggr st f) (\<lambda>sync.
           calc_performance default_perf_coeffs
             \<lparr>vd_attestation = Some att, vd_proposal = Some prop, vd_sync = Some sync\<rparr>)))"

record frame_shares =
  fs_rebate :: int
  fs_participation :: shares_map
  fs_strikes :: "(strikes_validator \<times> int) list"

definition add_participation :: "operator_id \<Rightarrow> int \<Rightarrow> int \<Rightarrow> shares_map \<Rightarrow> shares_map" where
  \<comment> \<open>a missing or empty entry is (re)created, then the validator's share is set\<close>
  "add_participation no vid share m = AList.update no (AList.update vid share (al_get [] m no)) m"

definition validator_step ::
    "distribution_env \<Rightarrow> duties_state \<Rightarrow> epoch_frame \<Rightarrow> rat \<Rightarrow> operator_id \<Rightarrow> curve_params \<Rightarrow>
     int \<times> lido_validator \<Rightarrow> frame_shares \<Rightarrow> frame_shares res" where
  "validator_step env st f network_perf no cp nv s = (case nv of (key_number, v) \<Rightarrow>
     bindR (interval_value_for (cp_perf_leeway_data cp) key_number) (\<lambda>leeway.
       bindR (interval_value_for (cp_reward_share_data cp) key_number) (\<lambda>key_reward_share.
         bindR (get_validator_duties st f (v_index v)) (\<lambda>duties.
           bindR (get_validator_duties_outcome v duties (max (fl (network_perf - leeway)) 0) key_reward_share
               (cp_perf_coeffs cp)) (\<lambda>outcome.
             Inr \<lparr>fs_rebate = fs_rebate s + do_rebate_share outcome,
                  fs_participation = add_participation no (v_index v) (do_participation_share outcome) (fs_participation s),
                  fs_strikes = (if do_strikes outcome \<noteq> 0
                    then AList.update (no, de_hexbytes env (vs_pubkey (v_validator v))) (do_strikes outcome) (fs_strikes s)
                    else fs_strikes s)\<rparr>)))))"

definition operator_step ::
    "distribution_env \<Rightarrow> duties_state \<Rightarrow> epoch_frame \<Rightarrow> ref_blockstamp \<Rightarrow> rat \<Rightarrow>
     operator_id \<times> lido_validator list \<Rightarrow> frame_shares \<Rightarrow> frame_shares res" where
  "operator_step env st f bs network_perf nv s = (case nv of (no, validators) \<Rightarrow>
     bindR (filterR (\<lambda>v. bindR (lookupR st f)
         (\<lambda>d. Inr (da_assigned (al_get no_duty (nd_attestations d) (v_index v)) > 0))) validators) (\<lambda>active.
       if active = [] then Inr s
       else bindR (de_curve_params env no bs) (\<lambda>cp.
         let ordered = sort_key (\<lambda>v. (- min (vs_effective_balance (v_validator v)) MAX_EFFECTIVE_BALANCE_ELECTRA, v_index v)) active
         in foldR (validator_step env st f network_perf no cp) (zip [1..int (length ordered)] ordered) s)))"

definition calculate_distribution_in_frame ::
    "distribution_env \<Rightarrow> duties_state \<Rightarrow> epoch_frame \<Rightarrow> ref_blockstamp \<Rightarrow> int \<Rightarrow>
     (operator_id \<times> lido_validator list) list \<Rightarrow>
     ((operator_id \<times> int) list \<times> int \<times> int \<times> (strikes_validator \<times> int) list) res" where
  "calculate_distribution_in_frame env st f bs rewards_to_distribute operators_to_validators =
     bindR (get_network_performance st f) (\<lambda>network_perf.
       bindR (foldR (operator_step env st f bs network_perf) operators_to_validators
           \<lparr>fs_rebate = 0, fs_participation = [], fs_strikes = []\<rparr>) (\<lambda>s.
         bindR (calc_rewards_distribution_in_frame (fs_participation s) (fs_rebate s) rewards_to_distribute) (\<lambda>rewards.
           let distributed = sum_list (map snd rewards)
           in Inr (rewards, distributed, rewards_to_distribute - distributed, fs_strikes s))))"

section \<open>Strikes\<close>

definition process_strikes_key ::
    "distribution_env \<Rightarrow> (strikes_validator \<times> int) list \<Rightarrow> ref_blockstamp \<Rightarrow> strikes_validator \<Rightarrow>
     (strikes_validator \<times> strikes_list) list \<Rightarrow> (strikes_validator \<times> strikes_list) list res" where
  "process_strikes_key env strikes_in_frame bs key merged =
     bindR (lookupR merged key) (\<lambda>old.
       let shifted = (if map_of strikes_in_frame key = None then strikes_push SENTINEL old else old)
       in bindR (de_curve_params env (fst key) bs) (\<lambda>cp.
            let resized = strikes_resize (sp_lifetime (cp_strikes_params cp)) shifted
            in Inr (if sum_list resized = 0 then AList.delete key merged else AList.update key resized merged)))"

definition process_strikes ::
    "distribution_env \<Rightarrow> (strikes_validator \<times> strikes_list) list \<Rightarrow> (strikes_validator \<times> int) list \<Rightarrow>
     ref_blockstamp \<Rightarrow> (strikes_validator \<times> strikes_list) list res" where
  "process_strikes env acc strikes_in_frame bs =
     (let merged = fold (\<lambda>(key, n) m. AList.update key (strikes_push n (al_get [] m key)) m) strikes_in_frame acc
      in foldR (process_strikes_key env strikes_in_frame bs) (map fst merged) merged)"

section \<open>The whole distribution\<close>

definition validate_distribution :: "int \<Rightarrow> int \<Rightarrow> int \<Rightarrow> unit res" where
  "validate_distribution total_distributed total_rebate total_to_distribute =
     (if total_distributed + total_rebate > total_to_distribute then Inl ValueError
      else if total_to_distribute \<noteq> 0 \<and> total_distributed = 0 \<and> total_rebate = 0 then Inl ValueError
      else Inr ())"

definition add_rewards_to :: "(operator_id \<times> int) list \<Rightarrow> (operator_id \<times> int) list \<Rightarrow> (operator_id \<times> int) list" where
  "add_rewards_to rewards m = fold (\<lambda>(no, r) m. AList.update no (al_get 0 m no + r) m) rewards m"

definition frame_step ::
    "distribution_env \<Rightarrow> duties_state \<Rightarrow> ref_blockstamp \<Rightarrow> epoch_frame \<Rightarrow> distribution_result \<times> int \<Rightarrow>
     (distribution_result \<times> int) res" where
  "frame_step env st bs f s = (case s of (result, distributed_so_far) \<Rightarrow>
     bindR (frame_blockstamp env bs (snd f)) (\<lambda>fbs.
     bindR (get_module_validators env fbs) (\<lambda>validators.
     bindR (de_shares_to_distribute env (bs_block_hash fbs)) (\<lambda>total_to_distribute.
     bindR (calculate_distribution_in_frame env st f fbs (total_to_distribute - distributed_so_far) validators)
       (\<lambda>(rewards, distributed, rebate, strikes_in_frame).
     bindR (process_strikes env (dr_strikes result) strikes_in_frame fbs) (\<lambda>strikes.
     let total_rewards = dr_total_rewards result + distributed;
         total_rebate = dr_total_rebate result + rebate
     in bindR (validate_distribution total_rewards total_rebate total_to_distribute) (\<lambda>_.
          Inr (\<lparr>dr_total_rewards = total_rewards, dr_total_rebate = total_rebate,
                dr_total_rewards_map = add_rewards_to rewards (dr_total_rewards_map result),
                dr_strikes = strikes\<rparr>, total_rewards + total_rebate))))))))"

definition calculate_distribution ::
    "distribution_env \<Rightarrow> duties_state \<Rightarrow> ref_blockstamp \<Rightarrow> (strikes_validator \<times> strikes_list) list res \<Rightarrow>
     (operator_id \<times> int) list res \<Rightarrow> distribution_result res" where
  "calculate_distribution env st bs last_strikes last_rewards =
     bindR last_strikes (\<lambda>strikes.
     bindR (foldR (frame_step env st bs) (state_frames st)
         (\<lparr>dr_total_rewards = 0, dr_total_rebate = 0, dr_total_rewards_map = [], dr_strikes = strikes\<rparr>, 0)) (\<lambda>(result, _).
     if dr_total_rewards result \<noteq> sum_list (map snd (dr_total_rewards_map result)) then Inl InconsistentData
     else bindR last_rewards (\<lambda>rewards.
       Inr (result\<lparr>dr_total_rewards_map := add_rewards_to rewards (dr_total_rewards_map result)\<rparr>))))"

section \<open>Nothing is lost\<close>

lemma sum_update_add: "sum_list (map snd (AList.update k (al_get 0 m k + r) m)) = sum_list (map snd m) + (r :: int)"
  by (induction m) (auto simp: al_get_def)

lemma sum_add_rewards_to: "sum_list (map snd (add_rewards_to rewards m)) = sum_list (map snd m) + sum_list (map snd rewards)"
  unfolding add_rewards_to_def
  by (induction rewards arbitrary: m) (auto simp: sum_update_add)

lemma calc_rewards_Inr:
  assumes "calc_rewards_distribution_in_frame ps rebate rewards = Inr m"
  shows "0 \<le> rewards \<and> sum_list (map snd m) \<le> rewards"
  using assms by (auto simp: calc_rewards_distribution_in_frame_def Let_def res_simps split: if_splits)

lemma distribution_in_frame_Inr:
  assumes "calculate_distribution_in_frame env st f bs rewards vals = Inr (m, distributed, rebate, strikes)"
  shows "distributed = sum_list (map snd m) \<and> distributed + rebate = rewards \<and> 0 \<le> rebate"
  using assms by (auto simp: calculate_distribution_in_frame_def Let_def res_simps dest: calc_rewards_Inr)

lemma frame_stepE:
  assumes "frame_step env st bs f (r, so_far) = Inr (r', so_far')"
  obtains fbs T where "frame_blockstamp env bs (snd f) = Inr fbs" "de_shares_to_distribute env (bs_block_hash fbs) = Inr T"
    "so_far' = dr_total_rewards r' + dr_total_rebate r'"
    "so_far' = dr_total_rewards r + dr_total_rebate r + (T - so_far)"
    "dr_total_rebate r \<le> dr_total_rebate r'"
    "sum_list (map snd (dr_total_rewards_map r')) - dr_total_rewards r' =
       sum_list (map snd (dr_total_rewards_map r)) - dr_total_rewards r"
proof -
  from assms obtain fbs T vals m distributed rebate sif strikes where
    b: "frame_blockstamp env bs (snd f) = Inr fbs" "de_shares_to_distribute env (bs_block_hash fbs) = Inr T"
    and c: "calculate_distribution_in_frame env st f fbs (T - so_far) vals = Inr (m, distributed, rebate, sif)"
    and r: "r' = \<lparr>dr_total_rewards = dr_total_rewards r + distributed, dr_total_rebate = dr_total_rebate r + rebate,
        dr_total_rewards_map = add_rewards_to m (dr_total_rewards_map r), dr_strikes = strikes\<rparr>"
      "so_far' = dr_total_rewards r + distributed + (dr_total_rebate r + rebate)"
    unfolding frame_step_def Let_def by (auto simp: bindR_eq_Inr)
  from distribution_in_frame_Inr[OF c] b r show ?thesis
    by (intro that[of fbs T]) (simp_all add: sum_add_rewards_to)
qed


section \<open>Rewards are proportional\<close>

lemma div_sum_bounds:
  fixes f :: "'a \<Rightarrow> int"
  assumes "0 < t"
  shows "(\<Sum>x\<leftarrow>xs. f x) - int (length xs) * (t - 1) \<le> t * (\<Sum>x\<leftarrow>xs. f x div t) \<and> t * (\<Sum>x\<leftarrow>xs. f x div t) \<le> (\<Sum>x\<leftarrow>xs. f x)"
proof (induction xs)
  case (Cons x xs)
  have "f x - (t - 1) \<le> t * (f x div t)" "t * (f x div t) \<le> f x"
    using pos_mod_bound[OF assms, of "f x"] pos_mod_sign[OF assms, of "f x"] mult_div_mod_eq[of t "f x"] by linarith+
  with Cons show ?case by (simp add: algebra_simps)
qed simp

text \<open>
  The split of a frame is proportional and always succeeds: with shares that are not negative, every
  operator with a share gets its part of the rewards by its share of the total (operators' shares plus
  rebate shares), rounded down; together they never get more than the rewards, and what is left for the
  protocol differs from the rebate's own proportional part by less than one share per operator.
\<close>

theorem rewards_proportional:
  assumes "0 \<le> rewards" "0 \<le> rebate" and "\<forall>(no, vs) \<in> set ps. \<forall>(vid, share) \<in> set vs. 0 \<le> share"
  defines "whole \<equiv> rebate + sum_list (map snd (operator_shares ps))"
  shows "calc_rewards_distribution_in_frame ps rebate rewards =
      Inr (map (\<lambda>(no, share). (no, rewards * share div whole)) (operator_shares ps)) \<and>
    (operator_shares ps \<noteq> [] \<longrightarrow>
      (let left = rewards - (\<Sum>(no, share)\<leftarrow>operator_shares ps. rewards * share div whole)
       in rewards * rebate \<le> whole * left \<and>
          whole * left \<le> rewards * rebate + int (length (operator_shares ps)) * (whole - 1)))"
proof -
  let ?os = "operator_shares ps"
  have nonneg: "0 < share" if "(no, share) \<in> set ?os" for no share
  proof -
    from that obtain vs where "(no, vs) \<in> set ps" "share = sum_list (map snd vs)" "share \<noteq> 0"
      by (auto simp: operator_shares_def)
    moreover have "0 \<le> sum_list (map snd vs)" using assms(3) calculation(1) by (intro sum_list_nonneg) fastforce
    ultimately show ?thesis by simp
  qed
  have tot: "0 < whole" if ne: "?os \<noteq> []"
  proof -
    obtain no share xs where "?os = (no, share) # xs" using ne by (cases ?os) auto
    moreover have "0 \<le> sum_list (map snd xs)" using nonneg calculation by (intro sum_list_nonneg) fastforce
    ultimately show ?thesis using nonneg[of no share] assms(2) by (simp add: whole_def)
  qed
  have sum: "(\<Sum>(no, share)\<leftarrow>?os. rewards * share) = rewards * (whole - rebate)"
    by (simp add: whole_def sum_list_const_mult case_prod_beta')
  have left: "rewards * rebate \<le> whole * (rewards - (\<Sum>(no, share)\<leftarrow>?os. rewards * share div whole)) \<and>
      whole * (rewards - (\<Sum>(no, share)\<leftarrow>?os. rewards * share div whole)) \<le> rewards * rebate + int (length ?os) * (whole - 1)"
    if "?os \<noteq> []"
    using div_sum_bounds[OF tot[OF that], of "\<lambda>(no, share). rewards * share" ?os] sum
    by (simp add: case_prod_beta' algebra_simps)
  have le: "(\<Sum>(no, share)\<leftarrow>?os. rewards * share div whole) \<le> rewards"
  proof (cases "?os = []")
    case False
    from left[OF False] have "0 \<le> whole * (rewards - (\<Sum>(no, share)\<leftarrow>?os. rewards * share div whole))"
      using assms(1,2) by (meson mult_nonneg_nonneg order_trans)
    with tot[OF False] show ?thesis by (simp add: zero_le_mult_iff)
  qed (use assms(1) in simp)
  have nz: "whole \<noteq> 0" if "x \<in> set ?os" for x using tot that by (cases "?os = []") auto
  have "mapR (\<lambda>(no, share). bindR (floordivR (rewards * share) whole) (\<lambda>r. Inr (no, r))) ?os =
      Inr (map (\<lambda>(no, share). (no, rewards * share div whole)) ?os)"
    by (rule mapR_all_ok) (use nz in \<open>fastforce simp: floordivR_def\<close>)
  then have "calc_rewards_distribution_in_frame ps rebate rewards =
      Inr (map (\<lambda>(no, share). (no, rewards * share div whole)) ?os)"
    using assms(1) le
    by (simp add: calc_rewards_distribution_in_frame_def Let_def whole_def[symmetric]
        comp_def case_prod_beta' not_less)
  with left show ?thesis by (simp add: Let_def)
qed

section \<open>No rebate is negative\<close>

lemma interval_value_unit:
  assumes "interval_value_for intervals k = Inr x" and "\<forall>i \<in> set intervals. 0 \<le> ki_value i \<and> ki_value i \<le> TOTAL_BASIS_POINTS"
  shows "0 \<le> x \<and> x \<le> 1"
proof -
  from assms(1) obtain i where "find (\<lambda>i. k \<ge> ki_min_key_number i) (sort_desc ki_min_key_number intervals) = Some i"
    and x: "x = truediv (ki_value i) TOTAL_BASIS_POINTS"
    by (auto simp: interval_value_for_def split: if_splits option.splits)
  then have "i \<in> set intervals" by (auto simp: find_Some_iff dest: nth_mem)
  with assms(2) have "0 \<le> ki_value i" "ki_value i \<le> TOTAL_BASIS_POINTS" by auto
  then show ?thesis
    unfolding x by (auto intro!: truediv_nonneg truediv_le_one simp: TOTAL_BASIS_POINTS_def)
qed

text \<open>
  C14. The rebate check never fires: for a validator that met the threshold, with a reward share read
  from contract intervals of at most 10000 basis points and participation within the exact range of a
  double, the rounded-up share of the operator is at most the whole, and share and rebate add up to
  the assigned attestations times the balance multiplier.
\<close>

theorem rebate_never_negative:
  assumes "vd_attestation duties = Some a" "0 < da_assigned a" "\<not> vs_slashed (v_validator v)"
    and "calc_performance coeffs duties = Inr p" "threshold \<le> p"
    and "interval_value_for intervals k = Inr reward_share"
    and "\<forall>i \<in> set intervals. 0 \<le> ki_value i \<and> ki_value i \<le> TOTAL_BASIS_POINTS"
  defines "n \<equiv> da_assigned a * (max MIN_ACTIVATION_BALANCE (vs_effective_balance (v_validator v)) div EFFECTIVE_BALANCE_INCREMENT)"
  assumes "n \<le> 2 ^ 53"
  shows "\<exists>r. get_validator_duties_outcome v duties threshold reward_share coeffs = Inr r \<and> do_strikes r = 0 \<and>
    do_participation_share r + do_rebate_share r = n \<and> 0 \<le> do_participation_share r \<and> 0 \<le> do_rebate_share r"
proof -
  have n: "0 \<le> n"
    using assms(2) unfolding n_def
    by (intro mult_nonneg_nonneg) (simp_all add: EFFECTIVE_BALANCE_INCREMENT_def MIN_ACTIVATION_BALANCE_def pos_imp_zdiv_nonneg_iff)
  note share = interval_value_unit[OF assms(6,7)]
  from float53.rnd_scale_le[of reward_share n] share n assms(9)
  have f: "0 \<le> fl (of_int n * reward_share)" "fl (of_int n * reward_share) \<le> of_int n"
    by (simp_all add: mult.commute)
  have "float_of_int n = of_int n" using n assms(9) by (intro float_of_int_exact) simp
  moreover have "\<lceil>fl (of_int n * reward_share)\<rceil> \<le> n" "0 \<le> \<lceil>fl (of_int n * reward_share)\<rceil>"
    using f by (simp_all add: ceiling_le_iff)
  ultimately show ?thesis
    using assms(1-5) by (simp add: get_validator_duties_outcome_def Let_def n_def[symmetric])
qed

section \<open>Strikes shift by one entry per frame\<close>

lemma foldR_keywise:
  assumes "\<And>k m m'. f k m = Inr m' \<Longrightarrow> k \<in> set ks \<Longrightarrow> distinct (map fst m) \<Longrightarrow>
      distinct (map fst m') \<and> map_of m' = (map_of m)(k := g k (map_of m k))"
    and "distinct ks" "distinct (map fst m)" "foldR f ks m = Inr m'"
  shows "map_of m' j = (if j \<in> set ks then g j (map_of m j) else map_of m j)"
  using assms
proof (induction ks arbitrary: m)
  case (Cons k ks)
  from Cons.prems(4) obtain t where t: "f k m = Inr t" "foldR f ks t = Inr m'" by (auto simp: bindR_eq_Inr)
  have "distinct (map fst t) \<and> map_of t = (map_of m)(k := g k (map_of m k))"
    by (rule Cons.prems(1)[OF t(1) _ Cons.prems(3)]) simp
  with Cons.IH[of t] Cons.prems t(2) show ?case by auto
qed simp

definition shifted_strikes :: "strikes_list \<Rightarrow> int option \<Rightarrow> int \<Rightarrow> strikes_list option" where
  \<comment> \<open>the specification: the frame's strike count (or a zero) in front, cut or padded, dropped when all zero\<close>
  "shifted_strikes old in_frame lifetime =
     (let new = strikes_resize lifetime (strikes_push (case in_frame of None \<Rightarrow> 0 | Some n \<Rightarrow> n) old)
      in if sum_list new = 0 then None else Some new)"

lemma merge_strikes:
  fixes sif :: "('k \<times> int) list" and acc :: "('k \<times> strikes_list) list"
  assumes "distinct (map fst sif)"
  defines "merged \<equiv> fold (\<lambda>(key, n) m. AList.update key (strikes_push n (al_get [] m key)) m) sif acc"
  shows "map_of merged key = (case map_of sif key of None \<Rightarrow> map_of acc key | Some n \<Rightarrow> Some (n # al_get [] acc key))"
    and "distinct (map fst acc) \<Longrightarrow> distinct (map fst merged)"
  using assms(1) unfolding merged_def
proof (induction sif arbitrary: acc)
  case Nil
  { case 1 show ?case by simp }
  { case 2 then show ?case by simp }
next
  case (Cons x sif)
  obtain k n where x: "x = (k, n)" by fastforce
  { case 1
    from 1 x have "map_of sif k = None" by (simp add: map_of_eq_None_iff)
    with Cons.IH(1)[of "AList.update k (strikes_push n (al_get [] acc k)) acc"] 1 x show ?case
      by (auto simp: map_of_update_iff strikes_push_def split: option.splits) }
  { case 2
    with Cons.IH(2)[of "AList.update k (strikes_push n (al_get [] acc k)) acc"] x show ?case
      by (simp add: distinct_update) }
qed

text \<open>
  Strikes are a sliding window: after a frame, the strikes of a validator are its old ones shifted by
  the frame's count (zero if it had none), cut or padded to the lifetime of its operator's curve, and
  an entry that is all zeros is dropped. No other validator gets strikes.
\<close>

theorem strikes_sliding_window:
  assumes "process_strikes env acc sif bs = Inr m" "distinct (map fst acc)" "distinct (map fst sif)"
  shows "map_of m key =
    (if map_of acc key = None \<and> map_of sif key = None then None
     else case de_curve_params env (fst key) bs of Inl _ \<Rightarrow> None
       | Inr cp \<Rightarrow> shifted_strikes (al_get [] acc key) (map_of sif key) (sp_lifetime (cp_strikes_params cp)))"
proof -
  define merged where "merged = fold (\<lambda>(key, n) m. AList.update key (strikes_push n (al_get [] m key)) m) sif acc"
  from assms(1) have f: "foldR (process_strikes_key env sif bs) (map fst merged) merged = Inr m"
    by (simp add: process_strikes_def Let_def merged_def)
  note merged = merge_strikes[OF assms(3), of acc, folded merged_def]
  define g where "g = (\<lambda>key :: strikes_validator. \<lambda>old. case de_curve_params env (fst key) bs of Inl _ \<Rightarrow> None
     | Inr cp \<Rightarrow> (let new = strikes_resize (sp_lifetime (cp_strikes_params cp))
           (if map_of sif key = None then 0 # the old else the old) in if sum_list new = 0 then None else Some new))"
  have step: "distinct (map fst t') \<and> map_of t' = (map_of t)(k := g k (map_of t k))"
    if "process_strikes_key env sif bs k t = Inr t'" "distinct (map fst t)" for k t t'
  proof -
    from that(1) obtain old cp where o: "map_of t k = Some old" "de_curve_params env (fst k) bs = Inr cp"
      and t': "t' = (let new = strikes_resize (sp_lifetime (cp_strikes_params cp))
          (if map_of sif k = None then 0 # old else old) in if sum_list new = 0 then AList.delete k t else AList.update k new t)"
      by (auto simp: process_strikes_key_def bindR_eq_Inr lookupR_eq_Inr Let_def SENTINEL_def strikes_push_def)
    then show ?thesis
      using that(2) by (simp add: g_def Let_def update_conv' delete_conv' distinct_update distinct_delete)
  qed
  have "map_of m key = (if key \<in> set (map fst merged) then g key (map_of merged key) else map_of merged key)"
    by (rule foldR_keywise[OF _ merged(2)[OF assms(2)] merged(2)[OF assms(2)] f]) (rule step)
  moreover have "key \<in> set (map fst merged) \<longleftrightarrow> map_of merged key \<noteq> None" by (simp add: map_of_eq_None_iff)
  ultimately show ?thesis
    by (auto simp: merged(1) g_def shifted_strikes_def strikes_push_def al_get_def split: option.splits sum.splits)
qed

section \<open>A concrete distribution\<close>

text \<open>One frame and one node operator with one validator that always attested.\<close>

definition demo_blockstamp_at :: "epoch \<Rightarrow> ref_blockstamp" where
  "demo_blockstamp_at e =
     \<lparr>bs_state_root = ''s'', bs_slot_number = 32 * e + 31, bs_block_hash = ''b'', bs_block_number = 100,
      bs_block_timestamp = 0, bs_ref_slot = 32 * e + 31, bs_ref_epoch = e\<rparr>"

definition demo_duties :: duties_state where
  "demo_duties = [((0, 1), \<lparr>nd_attestations = [(7, \<lparr>da_assigned = 2, da_included = 2\<rparr>)],
      nd_proposals = [], nd_syncs = []\<rparr>)]"

definition demo_curve :: curve_params where
  "demo_curve = \<lparr>cp_perf_coeffs = default_perf_coeffs, cp_perf_leeway_data = [\<lparr>ki_min_key_number = 1, ki_value = 1250\<rparr>],
     cp_reward_share_data = [\<lparr>ki_min_key_number = 1, ki_value = 7500\<rparr>],
     cp_strikes_params = \<lparr>sp_lifetime = 2, sp_threshold = 3\<rparr>\<rparr>"

definition demo_distribution_env :: distribution_env where
  "demo_distribution_env =
     \<lparr>de_client = demo_node, de_chain = mainnet_chain, de_module_address = ''m'',
      de_operators_keys = (\<lambda>_. Inr \<lparr>ka_operators = [(''m'', 0)],
        ka_keys = [\<lparr>lk_index = 0, lk_key = ''a'', lk_operator_index = 0, lk_module_address = ''m''\<rparr>]\<rparr>),
      de_validators = (\<lambda>_. Inr [demo_chain_validator 7 ''a'']),
      de_shares_to_distribute = (\<lambda>_. Inr 1000), de_curve_params = (\<lambda>_ _. Inr demo_curve),
      de_hexbytes = map of_char\<rparr>"

lemma demo_distribution_ok:
  "is_ok (calculate_distribution demo_distribution_env demo_duties (demo_blockstamp_at 1) (Inr []) (Inr [(0, 10)]))"
  by code_simp


theorem rewards_proportional_witness:
  "calc_rewards_distribution_in_frame [(0, [(7, 30)]), (1, [(8, 60)])] 10 1000 = Inr [(0, 300), (1, 600)]"
  using rewards_proportional[of 1000 10 "[(0, [(7, 30)]), (1, [(8, 60)])]"] by (simp add: operator_shares_def)

theorem rebate_never_negative_witness:
  "\<exists>r. get_validator_duties_outcome
      (as_lido_validator \<lparr>lk_index = 0, lk_key = ''a'', lk_operator_index = 0, lk_module_address = ''m''\<rparr> (demo_chain_validator 7 ''a''))
      \<lparr>vd_attestation = Some \<lparr>da_assigned = 2, da_included = 2\<rparr>, vd_proposal = None, vd_sync = None\<rparr>
      (1 / 2) (3 / 4) default_perf_coeffs = Inr r \<and> do_participation_share r + do_rebate_share r = 64"
proof -
  let ?d = "\<lparr>vd_attestation = Some \<lparr>da_assigned = 2, da_included = 2\<rparr>, vd_proposal = None, vd_sync = None\<rparr>"
  let ?v = "as_lido_validator \<lparr>lk_index = 0, lk_key = ''a'', lk_operator_index = 0, lk_module_address = ''m''\<rparr> (demo_chain_validator 7 ''a'')"
  have p: "calc_performance default_perf_coeffs ?d = Inr 1" by code_simp
  have s: "interval_value_for (cp_reward_share_data demo_curve) 1 = Inr (3 / 4)" by code_simp
  have m: "max MIN_ACTIVATION_BALANCE (vs_effective_balance (v_validator ?v)) div EFFECTIVE_BALANCE_INCREMENT = 32" by code_simp
  have n: "\<not> vs_slashed (v_validator ?v)" by code_simp
  show ?thesis
    using rebate_never_negative[of ?d "\<lparr>da_assigned = 2, da_included = 2\<rparr>" ?v default_perf_coeffs 1 "1 / 2"
        "cp_reward_share_data demo_curve" 1 "3 / 4"] p s m n
    by (auto simp: demo_curve_def TOTAL_BASIS_POINTS_def)
qed

theorem strikes_sliding_window_witness:
  "\<exists>m. process_strikes demo_distribution_env [((1, [2]), [0, 1]), ((1, [3]), [1, 1])] [((1, [3]), 1)] (demo_blockstamp_at 1) = Inr m \<and>
     map_of m (1, [2]) = None \<and> map_of m (1, [3]) = Some [1, 1]"
proof -
  have "is_ok (process_strikes demo_distribution_env [((1, [2]), [0, 1]), ((1, [3]), [1, 1])] [((1, [3]), 1)] (demo_blockstamp_at 1))"
    by code_simp
  then obtain m where m: "process_strikes demo_distribution_env [((1, [2]), [0, 1]), ((1, [3]), [1, 1])] [((1, [3]), 1)] (demo_blockstamp_at 1) = Inr m"
    by (auto simp: is_ok_iff)
  from strikes_sliding_window[OF m, of "(1, [2])"] strikes_sliding_window[OF m, of "(1, [3])"] m show ?thesis
    by (simp add: demo_distribution_env_def demo_curve_def shifted_strikes_def strikes_resize_def strikes_push_def
        al_get_def Let_def SENTINEL_def)
qed

end
