(* ===== verification/Exit_Order.thy ===== *)
theory Exit_Order
  imports Lido_Validators
begin

text \<open>
  \<open>src/services/exit_order_iterator.py\<close>: the order in which Lido validators are asked to exit. The
  iterator's attributes are the record \<open>exit_state\<close>, what it reads from contracts and services the
  record \<open>exit_env\<close>. A node operator's \<open>module_stats\<close> is an alias of the entry of the module in
  \<open>module_stats\<close>, so it is looked up there by the module's id. Stakes and weights are ints until
  they meet a float (\<open>pynum\<close>).
\<close>

section \<open>Data\<close>

record sub_node_operator =
  so_node_operator_id :: operator_id
  so_share :: int

record operator_group =
  og_name :: string
  og_sub_node_operators :: "sub_node_operator list"
  og_external_operators :: "bytes list"

definition get_external_gid :: "bytes \<Rightarrow> gid res" where
  "get_external_gid data =
     (if length data \<noteq> 10 then Inl ValueError
      else Inr (data ! 1, from_be (take 8 (drop 2 data))))"

definition has_connection :: "operator_group \<Rightarrow> bool" where
  "has_connection g \<longleftrightarrow> length (og_sub_node_operators g) > 0 \<and> length (og_external_operators g) > 0"

record sm_stats =
  ms_staking_module :: staking_module
  ms_predictable_balance :: gwei
  ms_total_stake :: pynum
  ms_total_weight :: pynum

record no_stats =
  ns_node_operator :: node_operator
  ns_predictable_validators :: int
  ns_predictable_balance :: gwei
  ns_total_stake :: pynum
  ns_internal_operator_group :: "operator_group option"
  ns_external_operator_group :: "operator_group option"
  ns_weight :: pynum
  ns_force_exit_to :: "int option"
  ns_soft_exit_to :: "int option"

record exit_state =
  x_max_current_exit_balance :: gwei
  x_exit_limit_in_gwei :: gwei
  x_total_lido_predictable_balance :: gwei
  x_module_stats :: "(module_id \<times> sm_stats) list"
  x_node_operators_stats :: "(gid \<times> no_stats) list"
  x_exitable_validators :: "(gid \<times> linked_validator list) list"
  x_cm_v2_id :: module_id

record exit_env =
  xe_modules :: "staking_module list"
  xe_operators_by_modules :: "(module_id \<times> node_operator list) list"
  xe_recently_requested :: "(gid \<times> int set) list"
  xe_validators_by_operators :: "(gid \<times> linked_validator list) list"
  xe_pending_validators :: "(hexstr \<times> (lido_key \<times> pending_deposit list)) list"
  xe_module_type :: "hexstr \<Rightarrow> bytes"
  xe_deposit_info_to_update_count :: int
  xe_operator_weights :: "operator_id list \<Rightarrow> int list"
  xe_groups :: "operator_group list"
  xe_max_balance_exit_requested_in_eth :: int

definition stats_gid :: "no_stats \<Rightarrow> gid" where
  "stats_gid ns = no_gid (ns_node_operator ns)"

section \<open>Initialization\<close>

definition reset_iterator_data :: "exit_state \<Rightarrow> exit_state" where
  "reset_iterator_data s =
     s\<lparr>x_total_lido_predictable_balance := 0, x_module_stats := [], x_node_operators_stats := [],
       x_exitable_validators := []\<rparr>"

definition prepare_module_stats :: "exit_env \<Rightarrow> exit_state \<Rightarrow> exit_state" where
  "prepare_module_stats env s =
     s\<lparr>x_module_stats := fold (\<lambda>m. AList.update (sm_id m)
         \<lparr>ms_staking_module = m, ms_predictable_balance = 0, ms_total_stake = PInt 0, ms_total_weight = PInt 0\<rparr>)
         (xe_modules env) (x_module_stats s)\<rparr>"

definition new_no_stats :: "node_operator \<Rightarrow> no_stats" where
  "new_no_stats operator =
     \<lparr>ns_node_operator = operator, ns_predictable_validators = 0, ns_predictable_balance = 0,
      ns_total_stake = PInt 0, ns_internal_operator_group = None, ns_external_operator_group = None,
      ns_weight = PInt (10 * TOTAL_BASIS_POINTS),
      ns_force_exit_to = (if no_is_target_limit_active operator = FORCE
        then Some (no_target_validators_count operator) else None),
      ns_soft_exit_to = (if no_is_target_limit_active operator = SOFT
        then Some (no_target_validators_count operator) else None)\<rparr>"

definition prepare_node_operator_stats :: "exit_env \<Rightarrow> exit_state \<Rightarrow> exit_state res" where
  "prepare_node_operator_stats env s =
     foldR (\<lambda>operator s.
       bindR (lookupR (x_module_stats s) (sm_id (no_staking_module operator))) (\<lambda>_.
         Inr (s\<lparr>x_node_operators_stats := AList.update (no_gid operator) (new_no_stats operator) (x_node_operators_stats s)\<rparr>)))
       (concat (map snd (xe_operators_by_modules env))) s"

definition is_validator_exitable :: "gid \<Rightarrow> (gid \<times> int set) list \<Rightarrow> linked_validator \<Rightarrow> bool res" where
  "is_validator_exitable g indexes v =
     (if is_on_exit v then Inr False
      else bindR (lookupR indexes g) (\<lambda>requested.
        Inr (v_index v \<notin> requested \<and> consolidating_as_source v = None)))"

definition prepare_validator_stats :: "exit_env \<Rightarrow> exit_state \<Rightarrow> exit_state res" where
  "prepare_validator_stats env s =
     foldR (\<lambda>(g, validators_list) s.
       bindR (filterR (is_validator_exitable g (xe_recently_requested env)) validators_list) (\<lambda>vs.
         Inr (s\<lparr>x_exitable_validators := AList.update g (sort_key v_index vs) (x_exitable_validators s)\<rparr>)))
       (xe_validators_by_operators env) s"

text \<open>The five \<open>+=\<close> (or \<open>-=\<close>) of a validator's predictable balance.\<close>

definition add_module_balance :: "module_id \<Rightarrow> gwei \<Rightarrow> exit_state \<Rightarrow> exit_state res" where
  "add_module_balance m b s =
     bindR (modifyR m (\<lambda>x. x\<lparr>ms_predictable_balance := ms_predictable_balance x + b\<rparr>) (x_module_stats s))
       (\<lambda>ms. Inr (s\<lparr>x_module_stats := ms\<rparr>))"

definition add_module_stake :: "module_id \<Rightarrow> (pynum \<Rightarrow> pynum) \<Rightarrow> exit_state \<Rightarrow> exit_state res" where
  "add_module_stake m f s =
     bindR (modifyR m (\<lambda>x. x\<lparr>ms_total_stake := f (ms_total_stake x)\<rparr>) (x_module_stats s))
       (\<lambda>ms. Inr (s\<lparr>x_module_stats := ms\<rparr>))"

definition add_no_balance :: "gid \<Rightarrow> int \<Rightarrow> gwei \<Rightarrow> exit_state \<Rightarrow> exit_state res" where
  "add_no_balance g n b s =
     bindR (modifyR g (\<lambda>x. x\<lparr>ns_predictable_validators := ns_predictable_validators x + n,
                              ns_predictable_balance := ns_predictable_balance x + b\<rparr>) (x_node_operators_stats s))
       (\<lambda>ns. Inr (s\<lparr>x_node_operators_stats := ns\<rparr>))"

definition add_no_stake :: "gid \<Rightarrow> (pynum \<Rightarrow> pynum) \<Rightarrow> exit_state \<Rightarrow> exit_state res" where
  "add_no_stake g f s =
     bindR (modifyR g (\<lambda>x. x\<lparr>ns_total_stake := f (ns_total_stake x)\<rparr>) (x_node_operators_stats s))
       (\<lambda>ns. Inr (s\<lparr>x_node_operators_stats := ns\<rparr>))"

definition add_predictable :: "gid \<Rightarrow> int \<Rightarrow> gwei \<Rightarrow> exit_state \<Rightarrow> exit_state res" where
  "add_predictable g n b s =
     bindR (add_module_stake (fst g) (\<lambda>t. nadd t (PInt b))
              (s\<lparr>x_total_lido_predictable_balance := x_total_lido_predictable_balance s + b\<rparr>)) (\<lambda>s.
       bindR (add_module_balance (fst g) b s) (\<lambda>s.
         bindR (add_no_balance g n b s) (\<lambda>s.
           add_no_stake g (\<lambda>t. nadd t (PInt b)) s)))"

definition calculate_current_cl_balance :: "exit_state \<Rightarrow> exit_state res" where
  "calculate_current_cl_balance s =
     foldR (\<lambda>(g, vs) s.
       bindR (add_no_balance g (int (length vs)) 0 s) (\<lambda>s.
         foldR (\<lambda>v. add_predictable g 0 (get_predictable_inbound_balance v)) vs s))
       (x_exitable_validators s) s"

definition pending_balance :: "pending_deposit list \<Rightarrow> gwei res" where
  "pending_balance deposits =
     bindR (headR deposits) (\<lambda>d.
       Inr (min (sum_list (map pd_amount deposits))
         (if take 4 (pd_withdrawal_credentials d) = ETH1_ADDRESS_WITHDRAWAL_PREFIX
          then MAX_EFFECTIVE_BALANCE else MAX_EFFECTIVE_BALANCE_ELECTRA)))"

definition calculate_pending_validator_cl_balance :: "exit_env \<Rightarrow> exit_state \<Rightarrow> exit_state res" where
  "calculate_pending_validator_cl_balance env s =
     (let sm_by_address = dict_of (map (\<lambda>m. (sm_staking_module_address m, m)) (xe_modules env)) in
      foldR (\<lambda>(_, (lido_key, deposits)) s.
        bindR (lookupR sm_by_address (lk_module_address lido_key)) (\<lambda>m.
          bindR (pending_balance deposits) (\<lambda>b.
            add_predictable (sm_id m, lk_operator_index lido_key) 1 b s)))
        (xe_pending_validators env) s)"

definition CURATED_V1_MODULE_NAME :: string where "CURATED_V1_MODULE_NAME = ''curated-onchain-v1''"
definition CURATED_V2_MODULE_NAME :: string where "CURATED_V2_MODULE_NAME = ''curated-onchain-v2''"
definition CURATED_V1_TYPE :: bytes where
  "CURATED_V1_TYPE = map of_char CURATED_V1_MODULE_NAME @ replicate 14 0"
definition CURATED_V2_TYPE :: bytes where
  "CURATED_V2_TYPE = map of_char CURATED_V2_MODULE_NAME @ replicate 14 0"

definition fetch_curated_modules :: "exit_env \<Rightarrow> exit_state \<Rightarrow> (module_id \<times> module_id) res" where
  "fetch_curated_modules env s =
     (let ms = map (\<lambda>(_, x). ms_staking_module x) (x_module_stats s);
          typ = (\<lambda>m. xe_module_type env (sm_staking_module_address m));
          is_v1 = (\<lambda>m. typ m = CURATED_V1_TYPE \<and> sm_name m = CURATED_V1_MODULE_NAME);
          is_v2 = (\<lambda>m. typ m = CURATED_V2_TYPE \<and> sm_name m = CURATED_V2_MODULE_NAME);
          cm_v1_modules = map sm_id (filter is_v1 ms);
          cm_v2_modules = map sm_id (filter (\<lambda>m. \<not> is_v1 m \<and> is_v2 m) ms)
      in if length cm_v1_modules \<noteq> 1 \<or> length cm_v2_modules \<noteq> 1 then Inl InvalidCuratedModuleConfigError
         else Inr (hd cm_v1_modules, hd cm_v2_modules))"

definition setup_weights :: "exit_env \<Rightarrow> module_id \<Rightarrow> exit_state \<Rightarrow> exit_state res" where
  "setup_weights env staking_module_id s =
     (let no_ids = map (\<lambda>(_, ns). no_id (ns_node_operator ns))
            (filter (\<lambda>(_, ns). sm_id (no_staking_module (ns_node_operator ns)) = staking_module_id)
              (x_node_operators_stats s))
      in if xe_deposit_info_to_update_count env \<noteq> 0 then Inl WeightsNotUpdatedError
         else
           let weights = xe_operator_weights env no_ids in
           foldR (\<lambda>(index, nid) s.
             bindR (nthR weights (int index)) (\<lambda>w.
               bindR (modifyR (staking_module_id, nid) (\<lambda>x. x\<lparr>ns_weight := PInt w\<rparr>) (x_node_operators_stats s))
                 (\<lambda>ns. Inr (s\<lparr>x_node_operators_stats := ns\<rparr>))))
             (enumerate 0 no_ids) s)"

definition check_not_grouped :: "gid \<Rightarrow> exit_state \<Rightarrow> no_stats res" where
  "check_not_grouped g s =
     bindR (lookupR (x_node_operators_stats s) g) (\<lambda>ns.
       if ns_internal_operator_group ns \<noteq> None \<or> ns_external_operator_group ns \<noteq> None
       then Inl NodeOperatorAlreadyGroupedError else Inr ns)"

definition group_external ::
    "module_id \<Rightarrow> operator_group \<Rightarrow> bytes \<Rightarrow> exit_state \<times> gid list \<times> gwei \<Rightarrow> (exit_state \<times> gid list \<times> gwei) res" where
  "group_external cm_v1_id grp no acc = (case acc of (s, external_gids, external_balance) \<Rightarrow>
     bindR (get_external_gid no) (\<lambda>g.
       if fst g \<noteq> cm_v1_id then Inl NodeOperatorExpectedToBeInCMv1Error
       else bindR (check_not_grouped g s) (\<lambda>ns.
         Inr (s\<lparr>x_node_operators_stats := AList.update g (ns\<lparr>ns_external_operator_group := Some grp\<rparr>) (x_node_operators_stats s)\<rparr>,
              external_gids @ [g], external_balance + ns_predictable_balance ns))))"

definition group_internal ::
    "module_id \<Rightarrow> operator_group \<Rightarrow> sub_node_operator \<Rightarrow> exit_state \<times> pynum \<times> gwei \<Rightarrow> (exit_state \<times> pynum \<times> gwei) res" where
  "group_internal cm_v2_id grp no acc = (case acc of (s, internal_weight, internal_balance) \<Rightarrow>
     let g = (cm_v2_id, so_node_operator_id no) in
     bindR (check_not_grouped g s) (\<lambda>ns.
       Inr (s\<lparr>x_node_operators_stats := AList.update g (ns\<lparr>ns_internal_operator_group := Some grp\<rparr>) (x_node_operators_stats s)\<rparr>,
            nadd internal_weight (ns_weight ns), internal_balance + ns_predictable_balance ns)))"

definition add_external_stake ::
    "module_id \<Rightarrow> sub_node_operator list \<Rightarrow> gwei \<Rightarrow> pynum \<Rightarrow> exit_state \<Rightarrow> exit_state res" where
  "add_external_stake cm_v2_id subs external_balance internal_weight s =
     foldR (\<lambda>no s.
       let g = (cm_v2_id, so_node_operator_id no) in
       bindR (lookupR (x_node_operators_stats s) g) (\<lambda>ns.
         bindR (ndivR (nmul (PInt external_balance) (ns_weight ns)) internal_weight) (\<lambda>d.
           add_no_stake g (\<lambda>t. nadd t d) s))) subs s"

definition add_internal_stake :: "gid list \<Rightarrow> gwei \<Rightarrow> pynum \<Rightarrow> exit_state \<Rightarrow> exit_state res" where
  "add_internal_stake external_gids internal_balance internal_weight s =
     foldR (\<lambda>g s.
       bindR (ndivR (PInt internal_balance) (PInt (int (length external_gids)))) (\<lambda>d.
         bindR (add_no_stake g (\<lambda>t. nadd t d) s) (\<lambda>s.
           bindR (ndivR internal_weight (PInt (int (length external_gids)))) (\<lambda>w.
             bindR (modifyR g (\<lambda>x. x\<lparr>ns_weight := w\<rparr>) (x_node_operators_stats s)) (\<lambda>ns.
               Inr (s\<lparr>x_node_operators_stats := ns\<rparr>)))))) external_gids s"

definition process_group :: "module_id \<Rightarrow> module_id \<Rightarrow> operator_group \<Rightarrow> exit_state \<Rightarrow> exit_state res" where
  "process_group cm_v1_id cm_v2_id grp s =
     bindR (foldR (group_external cm_v1_id grp) (og_external_operators grp) (s, [], 0))
       (\<lambda>(s, external_gids, external_balance).
     bindR (foldR (group_internal cm_v2_id grp) (og_sub_node_operators grp) (s, PInt 0, 0))
       (\<lambda>(s, internal_weight, internal_balance).
     if \<not> has_connection grp then Inr s
     else
       bindR (add_external_stake cm_v2_id (og_sub_node_operators grp) external_balance internal_weight s) (\<lambda>s.
       bindR (add_internal_stake external_gids internal_balance internal_weight s) (\<lambda>s.
       bindR (add_module_stake cm_v1_id (\<lambda>t. nadd t (PInt internal_balance)) s) (\<lambda>s.
         add_module_stake cm_v2_id (\<lambda>t. nadd t (PInt external_balance)) s)))))"

definition setup_meta_connections :: "exit_env \<Rightarrow> module_id \<Rightarrow> module_id \<Rightarrow> exit_state \<Rightarrow> exit_state res" where
  "setup_meta_connections env cm_v1_id cm_v2_id s = foldR (process_group cm_v1_id cm_v2_id) (xe_groups env) s"

definition finalize_cm_v1_and_cm_v2_stats :: "exit_env \<Rightarrow> exit_state \<Rightarrow> exit_state res" where
  "finalize_cm_v1_and_cm_v2_stats env s =
     bindR (fetch_curated_modules env s) (\<lambda>(cm_v1, cm_v2).
       bindR (setup_weights env cm_v2 s) (\<lambda>s.
         bindR (setup_meta_connections env cm_v1 cm_v2 s) (\<lambda>s.
           Inr (s\<lparr>x_cm_v2_id := cm_v2\<rparr>))))"

definition calculate_sm_weights :: "exit_state \<Rightarrow> exit_state res" where
  "calculate_sm_weights s =
     foldR (\<lambda>(g, ns) s.
       bindR (modifyR (fst g) (\<lambda>x. x\<lparr>ms_total_weight := nadd (ms_total_weight x) (ns_weight ns)\<rparr>) (x_module_stats s))
         (\<lambda>ms. Inr (s\<lparr>x_module_stats := ms\<rparr>)))
       (x_node_operators_stats s) s"

definition get_report_limits :: "exit_env \<Rightarrow> exit_state \<Rightarrow> exit_state" where
  "get_report_limits env s = s\<lparr>x_exit_limit_in_gwei := xe_max_balance_exit_requested_in_eth env * 10 ^ 9\<rparr>"

definition prepare_data_structure :: "exit_env \<Rightarrow> exit_state \<Rightarrow> exit_state res" where
  "prepare_data_structure env s =
     bindR (prepare_node_operator_stats env (prepare_module_stats env s)) (prepare_validator_stats env)"

definition calculate_lido_stats :: "exit_env \<Rightarrow> exit_state \<Rightarrow> exit_state res" where
  "calculate_lido_stats env s =
     bindR (calculate_current_cl_balance s) (\<lambda>s.
       bindR (calculate_pending_validator_cl_balance env s) (\<lambda>s.
         bindR (finalize_cm_v1_and_cm_v2_stats env s) calculate_sm_weights))"

definition exit_iter :: "exit_env \<Rightarrow> exit_state \<Rightarrow> exit_state res" where
  "exit_iter env s =
     bindR (prepare_data_structure env (reset_iterator_data (s\<lparr>x_max_current_exit_balance := 0\<rparr>))) (\<lambda>s.
       bindR (calculate_lido_stats env s) (\<lambda>s. Inr (get_report_limits env s)))"

end
