(* ===== verification/Exit_Iterator.thy ===== *)
theory Exit_Iterator
  imports Exit_Order
begin

text \<open>
  The iteration of \<open>src/services/exit_order_iterator.py\<close>: the sort keys, \<open>__next__\<close>, the ejection of
  a validator with its effect on every statistic, and the loop for forced exits. \<open>exit_trace\<close> is the
  step relation of a consumer that calls \<open>__next__\<close> and passes of the forced loop in any order; the
  invariants of the iterator are proved by rule induction on it.
\<close>

section \<open>Sort keys\<close>

definition get_expected_validators_diff :: "int \<Rightarrow> int option \<Rightarrow> int" where
  "get_expected_validators_diff current expected =
     (case expected of Some e \<Rightarrow> (if current > e then current - e else 0) | None \<Rightarrow> 0)"

definition no_force_predicate :: "no_stats \<Rightarrow> int" where
  "no_force_predicate ns = get_expected_validators_diff (ns_predictable_validators ns) (ns_force_exit_to ns)"

definition no_soft_predicate :: "no_stats \<Rightarrow> int" where
  "no_soft_predicate ns = get_expected_validators_diff (ns_predictable_validators ns) (ns_soft_exit_to ns)"

definition module_of :: "exit_state \<Rightarrow> no_stats \<Rightarrow> sm_stats res" where
  "module_of s ns = lookupR (x_module_stats s) (fst (stats_gid ns))"

definition max_share_rate_coefficient_predicate :: "exit_state \<Rightarrow> no_stats \<Rightarrow> pynum res" where
  "max_share_rate_coefficient_predicate s ns =
     bindR (module_of s ns) (\<lambda>m.
       if ms_predictable_balance m = 0 then Inr (PInt (- 2))
       else
         let max_share_rate = truediv (sm_priority_exit_share_threshold (ms_staking_module m)) TOTAL_BASIS_POINTS;
             max_module_predictable_balance =
               py_int (fl (max_share_rate * float_of_int (x_total_lido_predictable_balance s)))
         in if ms_predictable_balance m > max_module_predictable_balance
            then Inr (PInt (ms_predictable_balance m - max_module_predictable_balance))
            else ndivR (PInt (- 1)) (PInt (ms_predictable_balance m)))"

definition no_target_balance_deviation_predicate :: "exit_state \<Rightarrow> no_stats \<Rightarrow> gwei res" where
  \<comment> \<open>\<open>Gwei(x)\<close> of a float is \<open>int(x)\<close>, which truncates\<close>
  "no_target_balance_deviation_predicate s ns =
     bindR (module_of s ns) (\<lambda>m.
       bindR (ndivR (nmul (ms_total_stake m) (ns_weight ns)) (ms_total_weight m)) (\<lambda>target_no_stake.
         Inr (py_int (nval (nsub (ns_total_stake ns) target_no_stake)))))"

definition lowest_validator_index_predicate :: "exit_state \<Rightarrow> no_stats \<Rightarrow> int res" where
  "lowest_validator_index_predicate s ns =
     bindR (lookupR (x_exitable_validators s) (stats_gid ns)) (\<lambda>validators.
       Inr (case validators of [] \<Rightarrow> 0 | v # _ \<Rightarrow> v_index v))"

type_synonym exit_key = "int \<times> int \<times> rat \<times> int \<times> int"

definition no_predicate :: "exit_state \<Rightarrow> no_stats \<Rightarrow> exit_key res" where
  "no_predicate s ns =
     bindR (max_share_rate_coefficient_predicate s ns) (\<lambda>share.
       bindR (no_target_balance_deviation_predicate s ns) (\<lambda>deviation.
         bindR (lowest_validator_index_predicate s ns) (\<lambda>index.
           Inr (- no_force_predicate ns, - no_soft_predicate ns, - nval share, - deviation, index))))"

definition no_remaining_forced_predicate :: "exit_state \<Rightarrow> no_stats \<Rightarrow> (int \<times> int) res" where
  "no_remaining_forced_predicate s ns =
     bindR (lowest_validator_index_predicate s ns) (\<lambda>index. Inr (- no_force_predicate ns, index))"

definition sortedR :: "('a \<Rightarrow> 'k::linorder res) \<Rightarrow> 'a list \<Rightarrow> 'a list res" where
  \<comment> \<open>\<open>sorted(xs, key=key)\<close>: all keys first, then a stable sort\<close>
  "sortedR key xs = bindR (mapR key xs) (\<lambda>ks. Inr (map snd (sort_key fst (zip ks xs))))"

section \<open>Ejection\<close>

definition decrease_external_stakes :: "operator_group option \<Rightarrow> gwei \<Rightarrow> exit_state \<Rightarrow> exit_state res" where
  \<comment> \<open>the branch for a node operator internal to a group\<close>
  "decrease_external_stakes i_group exit_balance s =
     (case i_group of None \<Rightarrow> Inr s
      | Some grp \<Rightarrow>
          (if \<not> has_connection grp then Inr s
           else bindR (headR (og_external_operators grp)) (\<lambda>op0.
             bindR (get_external_gid op0) (\<lambda>g0.
               bindR (add_module_stake (fst g0) (\<lambda>t. nsub t (PInt exit_balance)) s)
                 (foldR (\<lambda>ext s. bindR (get_external_gid ext) (\<lambda>og.
                    bindR (ndivR (PInt exit_balance) (PInt (int (length (og_external_operators grp))))) (\<lambda>d.
                      add_no_stake og (\<lambda>t. nsub t d) s))) (og_external_operators grp))))))"

definition decrease_internal_stakes :: "operator_group option \<Rightarrow> gwei \<Rightarrow> exit_state \<Rightarrow> exit_state res" where
  \<comment> \<open>the branch for a node operator external to a group\<close>
  "decrease_internal_stakes e_group exit_balance s =
     (case e_group of None \<Rightarrow> Inr s
      | Some grp \<Rightarrow>
          (if \<not> has_connection grp then Inr s
           else bindR (add_module_stake (x_cm_v2_id s) (\<lambda>t. nsub t (PInt exit_balance)) s) (\<lambda>s.
             bindR (foldR (\<lambda>no total.
                 bindR (lookupR (x_node_operators_stats s) (x_cm_v2_id s, so_node_operator_id no))
                   (\<lambda>ns. Inr (nadd total (ns_weight ns)))) (og_sub_node_operators grp) (PInt 0)) (\<lambda>total_weight.
               foldR (\<lambda>sub s.
                 let og = (x_cm_v2_id s, so_node_operator_id sub) in
                 bindR (lookupR (x_node_operators_stats s) og) (\<lambda>ns.
                   bindR (ndivR (nmul (PInt exit_balance) (ns_weight ns)) total_weight) (\<lambda>d.
                     add_no_stake og (\<lambda>t. nsub t d) s))) (og_sub_node_operators grp) s))))"

definition decrease_affected_stake :: "gid \<Rightarrow> gwei \<Rightarrow> exit_state \<Rightarrow> exit_state res" where
  "decrease_affected_stake g exit_balance s =
     bindR (add_module_stake (fst g) (\<lambda>t. nsub t (PInt exit_balance)) s) (\<lambda>s.
     bindR (add_no_stake g (\<lambda>t. nsub t (PInt exit_balance)) s) (\<lambda>s.
     bindR (lookupR (x_node_operators_stats s) g) (\<lambda>ns.
     bindR (decrease_external_stakes (ns_internal_operator_group ns) exit_balance s) (\<lambda>s.
     bindR (lookupR (x_node_operators_stats s) g) (\<lambda>ns.
     decrease_internal_stakes (ns_external_operator_group ns) exit_balance s)))))"

definition eject_validator :: "gid \<Rightarrow> exit_state \<Rightarrow> (linked_validator \<times> exit_state) res" where
  "eject_validator g s =
     bindR (lookupR (x_exitable_validators s) g) (\<lambda>vs.
       case vs of [] \<Rightarrow> Inl IndexError
       | v # rest \<Rightarrow>
           let exit_balance = get_predictable_inbound_balance v;
               s = s\<lparr>x_exitable_validators := AList.update g rest (x_exitable_validators s),
                     x_total_lido_predictable_balance := x_total_lido_predictable_balance s - exit_balance\<rparr>
           in bindR (add_module_balance (fst g) (- exit_balance) s) (\<lambda>s.
                bindR (add_no_balance g (- 1) (- exit_balance) s) (\<lambda>s.
                  bindR (decrease_affected_stake g exit_balance s) (\<lambda>s. Inr (v, s)))))"

text \<open>Ejection and the check of the report limit, as both \<open>__next__\<close> and the forced loop do it.\<close>

definition eject_checked :: "gid \<Rightarrow> exit_state \<Rightarrow> (exit_state \<times> (gid \<times> linked_validator) option) res" where
  "eject_checked g s =
     bindR (eject_validator g s) (\<lambda>(v, s).
       let s = s\<lparr>x_max_current_exit_balance :=
             x_max_current_exit_balance s + get_max_effective_balance (v_validator v)\<rparr>
       in if x_max_current_exit_balance s > x_exit_limit_in_gwei s then Inr (s, None)
          else Inr (s, Some (g, v)))"

fun first_exitable :: "exit_state \<Rightarrow> no_stats list \<Rightarrow> gid option res" where
  "first_exitable s [] = Inr None"
| "first_exitable s (ns # rest) =
     bindR (lookupR (x_exitable_validators s) (stats_gid ns)) (\<lambda>vs.
       if vs = [] then first_exitable s rest else Inr (Some (stats_gid ns)))"

text \<open>\<open>__next__\<close>: the value \<open>None\<close> is StopIteration.\<close>

definition exit_next :: "exit_state \<Rightarrow> (exit_state \<times> (gid \<times> linked_validator) option) res" where
  "exit_next s =
     bindR (sortedR (no_predicate s) (map snd (x_node_operators_stats s))) (\<lambda>order.
       bindR (first_exitable s order) (\<lambda>found.
         case found of None \<Rightarrow> Inr (s, None) | Some g \<Rightarrow> eject_checked g s))"

section \<open>Forced exits\<close>

fun forced_scan :: "exit_state \<Rightarrow> no_stats list \<Rightarrow> gid option res" where
  "forced_scan s [] = Inr None"
| "forced_scan s (ns # rest) =
     (if no_force_predicate ns = 0 then Inr None
      else bindR (lookupR (x_exitable_validators s) (stats_gid ns)) (\<lambda>vs.
        if vs = [] then forced_scan s rest else Inr (Some (stats_gid ns))))"

text \<open>One pass of the \<open>while\<close> loop: the value \<open>None\<close> ends it.\<close>

definition forced_step :: "exit_state \<Rightarrow> (exit_state \<times> (gid \<times> linked_validator) option) res" where
  "forced_step s =
     bindR (sortedR (no_remaining_forced_predicate s) (map snd (x_node_operators_stats s))) (\<lambda>order.
       bindR (forced_scan s order) (\<lambda>found.
         case found of None \<Rightarrow> Inr (s, None) | Some g \<Rightarrow> eject_checked g s))"

definition exitable_count :: "exit_state \<Rightarrow> nat" where
  "exitable_count s = sum_list (map (\<lambda>(_, vs). length vs) (x_exitable_validators s))"

section \<open>Frame conditions\<close>

text \<open>Stakes are the only thing a change of stakes changes.\<close>

definition stakeless :: "exit_state \<Rightarrow> exit_state" where
  "stakeless s =
     s\<lparr>x_module_stats := map (\<lambda>(k, m). (k, m\<lparr>ms_total_stake := PInt 0\<rparr>)) (x_module_stats s),
       x_node_operators_stats := map (\<lambda>(k, n). (k, n\<lparr>ns_total_stake := PInt 0\<rparr>)) (x_node_operators_stats s)\<rparr>"

lemma map_erase_update:
  "map_of xs k = Some x \<Longrightarrow> e y = e x \<Longrightarrow>
     map (\<lambda>(k, x). (k, e x)) (AList.update k y xs) = map (\<lambda>(k, x). (k, e x)) xs"
  by (induction xs) (auto split: if_splits)

lemma add_module_stake_stakeless: "add_module_stake m f s = Inr s' \<Longrightarrow> stakeless s' = stakeless s"
  by (auto simp: add_module_stake_def stakeless_def res_simps
      map_erase_update[where e = "\<lambda>m. m\<lparr>ms_total_stake := PInt 0\<rparr>"])

lemma add_no_stake_stakeless: "add_no_stake g f s = Inr s' \<Longrightarrow> stakeless s' = stakeless s"
  by (auto simp: add_no_stake_def stakeless_def res_simps
      map_erase_update[where e = "\<lambda>n. n\<lparr>ns_total_stake := PInt 0\<rparr>"])

lemma foldR_stakeless:
  assumes "foldR f xs s = Inr s'" and "\<And>x s s'. x \<in> set xs \<Longrightarrow> f x s = Inr s' \<Longrightarrow> stakeless s' = stakeless s"
  shows "stakeless s' = stakeless s"
  by (rule foldR_invariant[OF assms(1), where P = "\<lambda>t. stakeless t = stakeless s"]) (auto simp: assms(2))

lemma decrease_external_stakes_stakeless:
  assumes "decrease_external_stakes grp b s = Inr s'"
  shows "stakeless s' = stakeless s"
proof (cases "\<exists>g. grp = Some g \<and> has_connection g")
  case False
  with assms show ?thesis by (auto simp: decrease_external_stakes_def split: option.splits)
next
  case True
  then obtain g where g: "grp = Some g" "has_connection g" by blast
  let ?body = "\<lambda>ext s. bindR (get_external_gid ext) (\<lambda>og.
        bindR (ndivR (PInt b) (PInt (int (length (og_external_operators g))))) (\<lambda>d.
          add_no_stake og (\<lambda>t. nsub t d) s))"
  have loop: "stakeless s' = stakeless t" if "foldR ?body (og_external_operators g) t = Inr s'" for t
    by (rule foldR_stakeless[OF that]) (auto simp: res_simps dest: add_no_stake_stakeless)
  show ?thesis
    using assms g by (auto simp: decrease_external_stakes_def bindR_eq_Inr dest!: loop add_module_stake_stakeless)
qed

lemma decrease_internal_stakes_stakeless:
  assumes "decrease_internal_stakes grp b s = Inr s'"
  shows "stakeless s' = stakeless s"
proof (cases "\<exists>g. grp = Some g \<and> has_connection g")
  case False
  with assms show ?thesis by (auto simp: decrease_internal_stakes_def split: option.splits)
next
  case True
  then obtain g where g: "grp = Some g" "has_connection g" by blast
  let ?body = "\<lambda>w sub s.
        let og = (x_cm_v2_id s, so_node_operator_id sub) in
        bindR (lookupR (x_node_operators_stats s) og) (\<lambda>ns.
          bindR (ndivR (nmul (PInt b) (ns_weight ns)) w) (\<lambda>d.
            add_no_stake og (\<lambda>t. nsub t d) s))"
  have loop: "stakeless s' = stakeless t" if "foldR (?body w) (og_sub_node_operators g) t = Inr s'" for t w
    by (rule foldR_stakeless[OF that]) (auto simp: Let_def res_simps dest: add_no_stake_stakeless)
  show ?thesis
    using assms g by (auto simp: decrease_internal_stakes_def bindR_eq_Inr dest!: loop add_module_stake_stakeless)
qed

lemma decrease_affected_stake_stakeless:
  "decrease_affected_stake g b s = Inr s' \<Longrightarrow> stakeless s' = stakeless s"
  by (auto simp: decrease_affected_stake_def bindR_eq_Inr dest!: add_module_stake_stakeless
      add_no_stake_stakeless decrease_external_stakes_stakeless decrease_internal_stakes_stakeless)

lemma stakeless_eq:
  assumes "stakeless s' = stakeless s"
  shows "x_max_current_exit_balance s' = x_max_current_exit_balance s"
    "x_exit_limit_in_gwei s' = x_exit_limit_in_gwei s"
    "x_total_lido_predictable_balance s' = x_total_lido_predictable_balance s"
    "x_exitable_validators s' = x_exitable_validators s" "x_cm_v2_id s' = x_cm_v2_id s"
    "map (\<lambda>(k, m). (k, m\<lparr>ms_total_stake := PInt 0\<rparr>)) (x_module_stats s') =
     map (\<lambda>(k, m). (k, m\<lparr>ms_total_stake := PInt 0\<rparr>)) (x_module_stats s)"
    "map (\<lambda>(k, n). (k, n\<lparr>ns_total_stake := PInt 0\<rparr>)) (x_node_operators_stats s') =
     map (\<lambda>(k, n). (k, n\<lparr>ns_total_stake := PInt 0\<rparr>)) (x_node_operators_stats s)"
  using assms unfolding stakeless_def
  by (auto dest: arg_cong[of _ _ x_max_current_exit_balance] arg_cong[of _ _ x_exit_limit_in_gwei]
      arg_cong[of _ _ x_total_lido_predictable_balance] arg_cong[of _ _ x_exitable_validators]
      arg_cong[of _ _ x_cm_v2_id] arg_cong[of _ _ x_module_stats] arg_cong[of _ _ x_node_operators_stats])

text \<open>What an ejection does to the queue of its node operator and to the counters.\<close>

lemma eject_validatorE:
  assumes "eject_validator g s = Inr (v, s')"
  obtains rest where "map_of (x_exitable_validators s) g = Some (v # rest)"
    "x_exitable_validators s' = AList.update g rest (x_exitable_validators s)"
    "x_max_current_exit_balance s' = x_max_current_exit_balance s"
    "x_exit_limit_in_gwei s' = x_exit_limit_in_gwei s"
    "x_total_lido_predictable_balance s' = x_total_lido_predictable_balance s - get_predictable_inbound_balance v"
proof -
  let ?b = "get_predictable_inbound_balance v"
  obtain vs where vs: "map_of (x_exitable_validators s) g = Some vs"
    using assms by (auto simp: eject_validator_def bindR_eq_Inr lookupR_eq_Inr)
  obtain w ws where w: "vs = w # ws"
    using assms vs by (cases vs) (auto simp: eject_validator_def lookupR_def)
  from assms obtain rest t u where r: "map_of (x_exitable_validators s) g = Some (v # rest)"
    and t: "add_module_balance (fst g) (- ?b) (s\<lparr>x_exitable_validators := AList.update g rest (x_exitable_validators s),
        x_total_lido_predictable_balance := x_total_lido_predictable_balance s - ?b\<rparr>) = Inr t"
    and u: "add_no_balance g (- 1) (- ?b) t = Inr u"
    and d: "decrease_affected_stake g ?b u = Inr s'"
    unfolding eject_validator_def lookupR_def vs w by (auto simp: bindR_eq_Inr Let_def)
  have "x_exitable_validators u = AList.update g rest (x_exitable_validators s)"
    "x_max_current_exit_balance u = x_max_current_exit_balance s"
    "x_exit_limit_in_gwei u = x_exit_limit_in_gwei s"
    "x_total_lido_predictable_balance u = x_total_lido_predictable_balance s - ?b"
    using t u by (auto simp: add_module_balance_def add_no_balance_def res_simps)
  with r stakeless_eq[OF decrease_affected_stake_stakeless[OF d]] show ?thesis by (intro that) auto
qed

lemma exitable_count_update:
  "map_of xs g = Some (v # rest) \<Longrightarrow>
     sum_list (map (\<lambda>(_, vs). length vs) (AList.update g rest xs)) < sum_list (map (\<lambda>(_, vs). length vs) xs)"
  by (induction xs) (auto split: if_splits)

lemma eject_checked_decreases:
  "eject_checked g s = Inr (s', r) \<Longrightarrow> exitable_count s' < exitable_count s"
  by (auto simp: eject_checked_def res_simps Let_def exitable_count_def split: if_splits
      elim!: eject_validatorE intro!: exitable_count_update)

lemma exit_next_decreases: "exit_next s = Inr (s', Some r) \<Longrightarrow> exitable_count s' < exitable_count s"
  by (auto simp: exit_next_def res_simps split: option.splits dest: eject_checked_decreases)

lemma forced_step_decreases: "forced_step s = Inr (s', Some r) \<Longrightarrow> exitable_count s' < exitable_count s"
  by (auto simp: forced_step_def res_simps split: option.splits dest: eject_checked_decreases)

text \<open>The loop of forced exits: every pass but the last removes a validator, so it ends.\<close>

function get_remaining_forced_validators ::
    "exit_state \<Rightarrow> (gid \<times> linked_validator) list \<Rightarrow> (exit_state \<times> (gid \<times> linked_validator) list) res" where
  "get_remaining_forced_validators s result =
     (case forced_step s of
        Inl e \<Rightarrow> Inl e
      | Inr (s', None) \<Rightarrow> Inr (s', result)
      | Inr (s', Some r) \<Rightarrow> get_remaining_forced_validators s' (result @ [r]))"
  by pat_completeness auto
termination
  by (relation "measure (\<lambda>(s, _). exitable_count s)") (auto dest: forced_step_decreases)

declare get_remaining_forced_validators.simps [simp del]

section \<open>Traces of the iterator\<close>

inductive exit_trace :: "exit_state \<Rightarrow> (gid \<times> linked_validator) list \<Rightarrow> exit_state \<Rightarrow> bool" where
  start: "exit_trace s [] s"
| next_some: "exit_trace s out t \<Longrightarrow> exit_next t = Inr (t', Some r) \<Longrightarrow> exit_trace s (out @ [r]) t'"
| next_none: "exit_trace s out t \<Longrightarrow> exit_next t = Inr (t', None) \<Longrightarrow> exit_trace s out t'"
| forced_some: "exit_trace s out t \<Longrightarrow> forced_step t = Inr (t', Some r) \<Longrightarrow> exit_trace s (out @ [r]) t'"
| forced_none: "exit_trace s out t \<Longrightarrow> forced_step t = Inr (t', None) \<Longrightarrow> exit_trace s out t'"

inductive_cases exit_traceE: "exit_trace s out t"

lemma exit_trace_forced_loop:
  "get_remaining_forced_validators t out = Inr (t', out') \<Longrightarrow> exit_trace s out t \<Longrightarrow> exit_trace s out' t'"
proof (induction t out rule: get_remaining_forced_validators.induct)
  case (1 t out)
  show ?case
  proof (cases "forced_step t")
    case (Inl e)
    with 1(2) show ?thesis by (simp add: get_remaining_forced_validators.simps)
  next
    case (Inr p)
    obtain u r where p: "p = (u, r)" by fastforce
    show ?thesis
    proof (cases r)
      case None
      with 1(2,3) Inr p show ?thesis
        by (simp add: get_remaining_forced_validators.simps[of t out]) (metis forced_none)
    next
      case (Some v)
      with 1 Inr p show ?thesis
        by (simp add: get_remaining_forced_validators.simps[of t out]) (metis forced_some)
    qed
  qed
qed

text \<open>Whatever the entry point, a step is the ejection from one queue, or nothing.\<close>

lemma trace_step:
  assumes "exit_next t = Inr (t', r) \<or> forced_step t = Inr (t', r)"
  shows "(t' = t \<and> r = None) \<or> (\<exists>g. eject_checked g t = Inr (t', r))"
  using assms by (auto simp: exit_next_def forced_step_def res_simps split: option.splits)

lemma eject_checkedE:
  assumes "eject_checked g t = Inr (t', r)"
  obtains v rest where "map_of (x_exitable_validators t) g = Some (v # rest)"
    "x_exitable_validators t' = AList.update g rest (x_exitable_validators t)"
    "x_exit_limit_in_gwei t' = x_exit_limit_in_gwei t"
    "x_max_current_exit_balance t' = x_max_current_exit_balance t + get_max_effective_balance (v_validator v)"
    "r = (if x_max_current_exit_balance t' > x_exit_limit_in_gwei t' then None else Some (g, v))"
proof -
  from assms obtain v u where u: "eject_validator g t = Inr (v, u)"
    and t': "t' = u\<lparr>x_max_current_exit_balance := x_max_current_exit_balance u + get_max_effective_balance (v_validator v)\<rparr>"
    "r = (if x_max_current_exit_balance t' > x_exit_limit_in_gwei t' then None else Some (g, v))"
    by (auto simp: eject_checked_def res_simps Let_def split: if_splits)
  show ?thesis by (rule eject_validatorE[OF u]) (rule that, auto simp: t')
qed

section \<open>The report limit\<close>

definition exit_weight :: "(gid \<times> linked_validator) list \<Rightarrow> gwei" where
  "exit_weight out = (\<Sum>r\<leftarrow>out. get_max_effective_balance (v_validator (snd r)))"

definition within_limit :: "exit_state \<Rightarrow> (gid \<times> linked_validator) list \<Rightarrow> exit_state \<Rightarrow> bool" where
  "within_limit s out t \<longleftrightarrow>
     x_exit_limit_in_gwei t = x_exit_limit_in_gwei s \<and>
     x_max_current_exit_balance s + exit_weight out \<le> x_max_current_exit_balance t \<and>
     (out \<noteq> [] \<longrightarrow> x_max_current_exit_balance s + exit_weight out \<le> x_exit_limit_in_gwei s)"

lemma within_limit_step [inv_intros]:
  assumes "within_limit s out t" and "exit_next t = Inr (t', r) \<or> forced_step t = Inr (t', r)"
  shows "within_limit s (case r of None \<Rightarrow> out | Some x \<Rightarrow> out @ [x]) t'"
  using trace_step[OF assms(2)]
proof
  assume "\<exists>g. eject_checked g t = Inr (t', r)"
  then obtain g where "eject_checked g t = Inr (t', r)" by blast
  then show ?thesis
  proof (rule eject_checkedE)
    fix v rest
    assume "x_exit_limit_in_gwei t' = x_exit_limit_in_gwei t"
      and "x_max_current_exit_balance t' = x_max_current_exit_balance t + get_max_effective_balance (v_validator v)"
      and "r = (if x_max_current_exit_balance t' > x_exit_limit_in_gwei t' then None else Some (g, v))"
    with assms(1) get_max_effective_balance_pos[of "v_validator v"] show ?thesis
      by (auto simp: within_limit_def exit_weight_def)
  qed
qed (use assms(1) in simp)

lemma exit_trace_within_limit: "exit_trace s out t \<Longrightarrow> within_limit s out t"
proof (induction rule: exit_trace.induct)
  case (start s)
  then show ?case by (simp add: within_limit_def exit_weight_def)
qed (use within_limit_step in \<open>fastforce\<close>)+

text \<open>
  C1. The report limit holds: however calls of \<open>__next__\<close> and passes of the forced loop are mixed,
  the maximal effective balances of all validators handed out add up to at most the limit of the
  report, starting from a fresh iterator.
\<close>

theorem exit_limit_respected:
  assumes "exit_trace s out t" and "x_max_current_exit_balance s = 0" and "out \<noteq> []"
  shows "exit_weight out \<le> x_exit_limit_in_gwei s"
  using exit_trace_within_limit[OF assms(1)] assms(2,3) by (simp add: within_limit_def)

section \<open>Nobody is asked twice, and the oldest first\<close>

definition handed_out :: "gid \<Rightarrow> (gid \<times> linked_validator) list \<Rightarrow> linked_validator list" where
  "handed_out g out = map snd (filter (\<lambda>r. fst r = g) out)"

definition queues_split ::
    "exit_state \<Rightarrow> (gid \<times> linked_validator) list \<Rightarrow> (gid \<Rightarrow> linked_validator list) \<Rightarrow> exit_state \<Rightarrow> bool" where
  "queues_split s out dropped t \<longleftrightarrow>
     (\<forall>g. al_get [] (x_exitable_validators s) g = handed_out g out @ dropped g @ al_get [] (x_exitable_validators t) g) \<and>
     ((\<exists>g. dropped g \<noteq> []) \<longrightarrow> x_exit_limit_in_gwei t < x_max_current_exit_balance t)"

lemma queues_split_step [inv_intros]:
  assumes inv: "queues_split s out dropped t" and "exit_next t = Inr (t', r) \<or> forced_step t = Inr (t', r)"
  shows "\<exists>dropped'. queues_split s (case r of None \<Rightarrow> out | Some x \<Rightarrow> out @ [x]) dropped' t'"
  using trace_step[OF assms(2)]
proof
  assume "\<exists>g. eject_checked g t = Inr (t', r)"
  then obtain g where "eject_checked g t = Inr (t', r)" by blast
  then show ?thesis
  proof (rule eject_checkedE)
    fix v rest
    assume q: "map_of (x_exitable_validators t) g = Some (v # rest)"
        "x_exitable_validators t' = AList.update g rest (x_exitable_validators t)"
      and lim: "x_exit_limit_in_gwei t' = x_exit_limit_in_gwei t"
        "x_max_current_exit_balance t' = x_max_current_exit_balance t + get_max_effective_balance (v_validator v)"
      and r: "r = (if x_max_current_exit_balance t' > x_exit_limit_in_gwei t' then None else Some (g, v))"
    have old: "al_get [] (x_exitable_validators t) g = v # rest" using q(1) by (simp add: al_get_def)
    have inv': "al_get [] (x_exitable_validators s) h = handed_out h out @ dropped h @ al_get [] (x_exitable_validators t) h" for h
      using inv unfolding queues_split_def by blast
    show ?thesis
    proof (cases "x_max_current_exit_balance t' > x_exit_limit_in_gwei t'")
      case True
      have "queues_split s out (dropped(g := dropped g @ [v])) t'"
        using True inv' old q(2) by (simp add: queues_split_def del: split_paired_All split_paired_Ex)
      with True r show ?thesis by auto
    next
      case False
      then have "\<not> x_exit_limit_in_gwei t < x_max_current_exit_balance t"
        using lim get_max_effective_balance_pos[of "v_validator v"] by linarith
      then have none: "dropped h = []" for h using inv unfolding queues_split_def by blast
      have "queues_split s (out @ [(g, v)]) (\<lambda>h. []) t'"
        using none inv' old q(2) by (simp add: queues_split_def handed_out_def del: split_paired_All split_paired_Ex)
      with False r show ?thesis by auto
    qed
  qed
qed (use inv in auto)

lemma exit_trace_queues: "exit_trace s out t \<Longrightarrow> \<exists>dropped. queues_split s out dropped t"
proof (induction rule: exit_trace.induct)
  case (start s)
  have "queues_split s [] (\<lambda>_. []) s" by (simp add: queues_split_def handed_out_def)
  then show ?case by blast
qed (use queues_split_step in \<open>fastforce\<close>)+

text \<open>
  Exits follow each node operator's queue: the validators handed out for a node operator are the
  first ones of its exitable validators, in their order and each once, whatever the mix of ordinary
  and forced exits; so no validator is requested twice and none that is not exitable.
\<close>

theorem exits_follow_queue:
  assumes "exit_trace s out t"
  shows "\<exists>rest. al_get [] (x_exitable_validators s) g = handed_out g out @ rest"
  using exit_trace_queues[OF assms] unfolding queues_split_def by blast

section \<open>The choice of the next exit\<close>

lemma sortedR_Inr:
  assumes "sortedR key xs = Inr ys"
  shows "mset ys = mset xs" "sorted_wrt (\<lambda>x y. \<exists>j k. key x = Inr j \<and> key y = Inr k \<and> j \<le> k) ys"
    "\<forall>x \<in> set xs. \<exists>k. key x = Inr k"
proof -
  from assms obtain ks where ks: "mapR key xs = Inr ks" "ys = map snd (sort_key fst (zip ks xs))"
    by (auto simp: sortedR_def res_simps)
  have len: "length ks = length xs" using ks(1) by (rule mapR_length)
  have k: "key x = Inr j" if "(j, x) \<in> set (zip ks xs)" for j x
    using that ks(1) by (fastforce simp: mapR_Inr_iff list_all2_conv_all_nth in_set_conv_nth)
  have "mset ys = image_mset snd (mset (zip ks xs))" by (simp add: ks(2))
  also have "\<dots> = mset (map snd (zip ks xs))" by (rule mset_map[symmetric])
  finally show "mset ys = mset xs" using len by simp
  have "sorted_wrt (\<lambda>p q. fst p \<le> fst q) (sort_key fst (zip ks xs))"
    using sorted_sort_key[of fst "zip ks xs"] by (simp add: sorted_wrt_map)
  then have "sorted_wrt (\<lambda>p q. \<exists>j l. key (snd p) = Inr j \<and> key (snd q) = Inr l \<and> j \<le> l) (sort_key fst (zip ks xs))"
  proof (rule sorted_wrt_mono_rel[rotated])
    fix p q assume "p \<in> set (sort_key fst (zip ks xs))" "q \<in> set (sort_key fst (zip ks xs))" "fst p \<le> fst q"
    then show "\<exists>j l. key (snd p) = Inr j \<and> key (snd q) = Inr l \<and> j \<le> l"
      using k[of "fst p" "snd p"] k[of "fst q" "snd q"] by auto
  qed
  then show "sorted_wrt (\<lambda>x y. \<exists>j k. key x = Inr j \<and> key y = Inr k \<and> j \<le> k) ys"
    by (simp add: ks(2) sorted_wrt_map)
  show "\<forall>x \<in> set xs. \<exists>k. key x = Inr k"
    using ks(1) by (auto simp: mapR_Inr_iff list_all2_conv_all_nth in_set_conv_nth)
qed

lemma first_exitable_Some:
  assumes "first_exitable s order = Inr (Some g)"
  shows "\<exists>pre ns post. order = pre @ ns # post \<and> g = stats_gid ns \<and>
    al_get [] (x_exitable_validators s) g \<noteq> [] \<and>
    (\<forall>m \<in> set pre. al_get [] (x_exitable_validators s) (stats_gid m) = [])"
  using assms
proof (induction order)
  case Nil
  then show ?case by simp
next
  case (Cons ns order)
  then obtain vs where vs: "map_of (x_exitable_validators s) (stats_gid ns) = Some vs"
    and rest: "(if vs = [] then first_exitable s order else Inr (Some (stats_gid ns))) = Inr (Some g)"
    by (auto simp: res_simps)
  show ?case
  proof (cases "vs = []")
    case True
    with Cons.IH rest vs obtain pre m post where "order = pre @ m # post" "g = stats_gid m"
      "al_get [] (x_exitable_validators s) g \<noteq> []"
      "\<forall>m \<in> set pre. al_get [] (x_exitable_validators s) (stats_gid m) = []" by auto
    with True vs show ?thesis
      by (intro exI[of _ "ns # pre"] exI[of _ m] exI[of _ post]) (simp add: al_get_def)
  next
    case False
    with rest vs show ?thesis by (intro exI[of _ "[]"] exI[of _ ns] exI[of _ order]) (auto simp: al_get_def)
  qed
qed

lemma exit_next_SomeE:
  assumes "exit_next s = Inr (s', Some (g, v))"
  obtains order where "sortedR (no_predicate s) (map snd (x_node_operators_stats s)) = Inr order"
    "first_exitable s order = Inr (Some g)" "eject_checked g s = Inr (s', Some (g, v))"
proof -
  from assms obtain order h where o: "sortedR (no_predicate s) (map snd (x_node_operators_stats s)) = Inr order"
    "first_exitable s order = Inr (Some h)" "eject_checked h s = Inr (s', Some (g, v))"
    by (auto simp: exit_next_def res_simps split: option.splits)
  from o(3) have "h = g" by (rule eject_checkedE) (simp split: if_splits)
  with o that show ?thesis by blast
qed

text \<open>
  C5. \<open>__next__\<close> takes the right node operator: the one it ejects from has exitable validators, and
  its sort key (forced excess, soft excess, module share, deviation from the target stake, lowest
  validator index) is least among all node operators that have any; the validator is the first in
  its queue.
\<close>

theorem exit_next_least:
  assumes "exit_next s = Inr (s', Some (g, v))"
  shows "\<exists>ns k. ns \<in> snd ` set (x_node_operators_stats s) \<and> g = stats_gid ns \<and> no_predicate s ns = Inr k \<and>
    hd (al_get [] (x_exitable_validators s) g) = v \<and> al_get [] (x_exitable_validators s) g \<noteq> [] \<and>
    (\<forall>m \<in> snd ` set (x_node_operators_stats s). al_get [] (x_exitable_validators s) (stats_gid m) \<noteq> [] \<longrightarrow>
       (\<exists>k'. no_predicate s m = Inr k' \<and> k \<le> k'))"
proof -
  let ?all = "map snd (x_node_operators_stats s)"
  obtain order where order: "sortedR (no_predicate s) ?all = Inr order"
    and first: "first_exitable s order = Inr (Some g)" and ej: "eject_checked g s = Inr (s', Some (g, v))"
    using exit_next_SomeE[OF assms] by metis
  from first_exitable_Some[OF first] obtain pre ns post where o: "order = pre @ ns # post" "g = stats_gid ns"
    "al_get [] (x_exitable_validators s) g \<noteq> []"
    "\<forall>m \<in> set pre. al_get [] (x_exitable_validators s) (stats_gid m) = []" by blast
  have sets: "set order = snd ` set (x_node_operators_stats s)"
    using mset_eq_setD[OF sortedR_Inr(1)[OF order]] by simp
  have "ns \<in> set ?all" unfolding list.set_map sets[symmetric] o(1) by simp
  with sortedR_Inr(3)[OF order] obtain k where k: "no_predicate s ns = Inr k" by blast
  have "\<exists>k'. no_predicate s m = Inr k' \<and> k \<le> k'"
    if m: "m \<in> set order" "al_get [] (x_exitable_validators s) (stats_gid m) \<noteq> []" for m
  proof -
    from m(1) have "m \<in> set pre \<or> m = ns \<or> m \<in> set post" unfolding o(1) by auto
    with m(2) o(4) have "m = ns \<or> m \<in> set post" by blast
    then show ?thesis
    proof
      assume "m \<in> set post"
      moreover have "sorted_wrt (\<lambda>x y. \<exists>j k. no_predicate s x = Inr j \<and> no_predicate s y = Inr k \<and> j \<le> k) (ns # post)"
        using sortedR_Inr(2)[OF order] unfolding o(1) sorted_wrt_append by blast
      ultimately obtain j l where "no_predicate s ns = Inr j" "no_predicate s m = Inr l" "j \<le> l"
        unfolding sorted_wrt.simps by blast
      with k show ?thesis by (metis sum.inject(2))
    qed (use k in blast)
  qed
  moreover have "hd (al_get [] (x_exitable_validators s) g) = v"
    using ej by (rule eject_checkedE) (simp add: al_get_def split: if_splits)
  moreover have "ns \<in> set order" unfolding o(1) by simp
  ultimately show ?thesis
    unfolding sets[symmetric] using k o(2,3) by (intro exI[of _ ns] exI[of _ k]) simp
qed

section \<open>Forced exits are complete\<close>

definition no_forced_left :: "exit_state \<Rightarrow> bool" where
  "no_forced_left s \<longleftrightarrow>
     (\<forall>ns \<in> snd ` set (x_node_operators_stats s).
        no_force_predicate ns = 0 \<or> al_get [] (x_exitable_validators s) (stats_gid ns) = [])"

lemma no_force_nonneg: "0 \<le> no_force_predicate ns"
  by (simp add: no_force_predicate_def get_expected_validators_diff_def split: option.splits)

lemma forced_scan_None:
  assumes "forced_scan s order = Inr None"
    and "sorted_wrt (\<lambda>m n. no_force_predicate n \<le> no_force_predicate m) order"
  shows "\<forall>ns \<in> set order. no_force_predicate ns = 0 \<or> al_get [] (x_exitable_validators s) (stats_gid ns) = []"
  using assms
proof (induction order)
  case (Cons ns order)
  show ?case
  proof (cases "no_force_predicate ns = 0")
    case True
    with Cons.prems(2) no_force_nonneg show ?thesis by (auto simp: order_antisym)
  next
    case False
    with Cons.prems(1) have "map_of (x_exitable_validators s) (stats_gid ns) = Some []"
      "forced_scan s order = Inr None"
      by (auto simp: res_simps split: if_splits)
    with Cons show ?thesis by (auto simp: al_get_def)
  qed
qed simp

lemma forced_step_None:
  assumes "forced_step s = Inr (s', None)"
  shows "no_forced_left s' \<or> x_max_current_exit_balance s' > x_exit_limit_in_gwei s'"
proof -
  from assms obtain order found where order: "sortedR (no_remaining_forced_predicate s) (map snd (x_node_operators_stats s)) = Inr order"
    and scan: "forced_scan s order = Inr found"
    and res: "(case found of None \<Rightarrow> Inr (s, None) | Some g \<Rightarrow> eject_checked g s) = Inr (s', None)"
    by (auto simp: forced_step_def res_simps)
  show ?thesis
  proof (cases found)
    case (Some g)
    with res have "eject_checked g s = Inr (s', None)" by simp
    then show ?thesis by (rule eject_checkedE) (auto split: if_splits)
  next
    case None
    have "sorted_wrt (\<lambda>m n. no_force_predicate n \<le> no_force_predicate m) order"
      using sortedR_Inr(2)[OF order]
      by (rule sorted_wrt_mono_rel[rotated]) (auto simp: no_remaining_forced_predicate_def res_simps less_eq_prod_def)
    from forced_scan_None[OF scan[unfolded None] this] mset_eq_setD[OF sortedR_Inr(1)[OF order]] None res
    show ?thesis by (simp add: no_forced_left_def)
  qed
qed

text \<open>
  C11. Forced exits are completed: when the forced loop returns, every node operator with a forced
  target is down to it or has no exitable validators left, unless the report limit was reached.
  The loop always ends (it is a total function), each pass but the last removing a validator.
\<close>

theorem forced_exits_complete:
  "get_remaining_forced_validators s out = Inr (s', out') \<Longrightarrow>
     no_forced_left s' \<or> x_max_current_exit_balance s' > x_exit_limit_in_gwei s'"
proof (induction s out rule: get_remaining_forced_validators.induct)
  case (1 s out)
  show ?case
  proof (cases "forced_step s")
    case (Inl e)
    with 1(2) show ?thesis by (simp add: get_remaining_forced_validators.simps)
  next
    case (Inr p)
    obtain u r where p: "p = (u, r)" by fastforce
    show ?thesis
    proof (cases r)
      case None
      with 1(2) Inr p have "u = s'" by (simp add: get_remaining_forced_validators.simps[of s out])
      with forced_step_None[of s u] Inr p None show ?thesis by simp
    next
      case (Some v)
      with 1 Inr p show ?thesis by (simp add: get_remaining_forced_validators.simps[of s out])
    qed
  qed
qed

section \<open>A concrete run\<close>

text \<open>
  Two curated modules with a node operator each: one with a forced target of zero and two validators,
  one with a validator already requested to exit. The limit is 64 ETH.
\<close>

definition demo_module :: "int \<Rightarrow> string \<Rightarrow> staking_module" where
  "demo_module i name =
     \<lparr>sm_id = i, sm_staking_module_address = name, sm_staking_module_fee = 500, sm_treasury_fee = 500,
      sm_stake_share_limit = 10000, sm_status = 0, sm_name = name, sm_last_deposit_at = 0,
      sm_last_deposit_block = 0, sm_exited_validators_count = 0, sm_priority_exit_share_threshold = 6000,
      sm_max_deposits_per_block = 50, sm_min_deposit_block_distance = 25,
      sm_withdrawal_credentials_type = 1, sm_validators_balance_gwei = 0\<rparr>"

definition demo_operator :: "int \<Rightarrow> int \<Rightarrow> node_operator_limit_mode \<Rightarrow> string \<Rightarrow> node_operator" where
  "demo_operator m i mode name =
     \<lparr>no_id = i, no_is_active = True, no_is_target_limit_active = mode, no_target_validators_count = 0,
      no_refunded_validators_count = 0, no_total_exited_validators = 0, no_total_deposited_validators = 2,
      no_depositable_validators_count = 0, no_staking_module = demo_module m name\<rparr>"

definition demo_lido_validator :: "int \<Rightarrow> linked_validator" where
  "demo_lido_validator i =
     \<lparr>v_index = i, v_balance = 32 * 10 ^ 9,
      v_validator = \<lparr>vs_pubkey = ''0xab'', vs_withdrawal_credentials = ''0x01'',
        vs_effective_balance = 32 * 10 ^ 9, vs_slashed = False, vs_activation_eligibility_epoch = 0,
        vs_activation_epoch = 0, vs_exit_epoch = FAR_FUTURE_EPOCH, vs_withdrawable_epoch = FAR_FUTURE_EPOCH\<rparr>,
      lido_id = \<lparr>lk_index = i, lk_key = ''0xab'', lk_operator_index = 0, lk_module_address = ''m''\<rparr>,
      pending_topups = [], consolidating_as_source = None, consolidating_as_target = []\<rparr>"

definition demo_exit_env :: exit_env where
  "demo_exit_env =
     \<lparr>xe_modules = [demo_module 1 CURATED_V1_MODULE_NAME, demo_module 2 CURATED_V2_MODULE_NAME],
      xe_operators_by_modules = [(1, [demo_operator 1 0 FORCE CURATED_V1_MODULE_NAME]),
        (2, [demo_operator 2 7 DISABLED CURATED_V2_MODULE_NAME])],
      xe_recently_requested = [((1, 0), {}), ((2, 7), {30})],
      xe_validators_by_operators =
        [((1, 0), [demo_lido_validator 20, demo_lido_validator 10]), ((2, 7), [demo_lido_validator 5, demo_lido_validator 30])],
      xe_pending_validators = [],
      xe_module_type = (\<lambda>a. map of_char a @ replicate 14 0),
      xe_deposit_info_to_update_count = 0, xe_operator_weights = map (\<lambda>_. 4),
      xe_groups = [], xe_max_balance_exit_requested_in_eth = 64\<rparr>"

definition fresh_iterator :: exit_state where
  "fresh_iterator =
     \<lparr>x_max_current_exit_balance = 0, x_exit_limit_in_gwei = 0, x_total_lido_predictable_balance = 0,
      x_module_stats = [], x_node_operators_stats = [], x_exitable_validators = [], x_cm_v2_id = 0\<rparr>"

definition demo_stats :: "int \<Rightarrow> int \<Rightarrow> node_operator_limit_mode \<Rightarrow> string \<Rightarrow> int \<Rightarrow> int \<Rightarrow> int option \<Rightarrow> no_stats" where
  "demo_stats m i mode name validators weight force_to =
     \<lparr>ns_node_operator = demo_operator m i mode name, ns_predictable_validators = validators,
      ns_predictable_balance = validators * 32 * 10 ^ 9, ns_total_stake = PInt (validators * 32 * 10 ^ 9),
      ns_internal_operator_group = None, ns_external_operator_group = None, ns_weight = PInt weight,
      ns_force_exit_to = force_to, ns_soft_exit_to = None\<rparr>"

definition demo_module_stats :: "int \<Rightarrow> string \<Rightarrow> int \<Rightarrow> int \<Rightarrow> sm_stats" where
  "demo_module_stats m name validators weight =
     \<lparr>ms_staking_module = demo_module m name, ms_predictable_balance = validators * 32 * 10 ^ 9,
      ms_total_stake = PInt (validators * 32 * 10 ^ 9), ms_total_weight = PInt weight\<rparr>"

definition demo_state :: "gwei \<Rightarrow> int \<Rightarrow> int list \<Rightarrow> exit_state" where
  "demo_state used n queue =
     \<lparr>x_max_current_exit_balance = used, x_exit_limit_in_gwei = 64 * 10 ^ 9,
      x_total_lido_predictable_balance = (n + 1) * 32 * 10 ^ 9,
      x_module_stats = [(1, demo_module_stats 1 CURATED_V1_MODULE_NAME n 100000),
        (2, demo_module_stats 2 CURATED_V2_MODULE_NAME 1 4)],
      x_node_operators_stats =
        [((1, 0), demo_stats 1 0 FORCE CURATED_V1_MODULE_NAME n 100000 (Some 0)),
         ((2, 7), demo_stats 2 7 DISABLED CURATED_V2_MODULE_NAME 1 4 None)],
      x_exitable_validators = [((1, 0), map demo_lido_validator queue), ((2, 7), [demo_lido_validator 5])],
      x_cm_v2_id = 2\<rparr>"

definition demo_exit_state :: exit_state where
  \<comment> \<open>what \<open>__iter__\<close> builds from the environment (\<open>demo_exit_state_ok\<close>)\<close>
  "demo_exit_state = demo_state 0 2 [10, 20]"

definition demo_next_state :: exit_state where "demo_next_state = demo_state (32 * 10 ^ 9) 1 [20]"
definition demo_forced_state :: exit_state where "demo_forced_state = demo_state (64 * 10 ^ 9) 0 []"

lemma demo_exit_state_ok: "exit_iter demo_exit_env fresh_iterator = Inr demo_exit_state"
  by code_simp

text \<open>The steps of a pass are evaluated one by one, each on the values of the one before.\<close>

lemma exit_nextI:
  "sortedR (no_predicate s) (map snd (x_node_operators_stats s)) = Inr order \<Longrightarrow>
     first_exitable s order = Inr (Some g) \<Longrightarrow> exit_next s = eject_checked g s"
  by (simp add: exit_next_def)

lemma forced_stepI:
  "sortedR (no_remaining_forced_predicate s) (map snd (x_node_operators_stats s)) = Inr order \<Longrightarrow>
     forced_scan s order = Inr found \<Longrightarrow>
     forced_step s = (case found of None \<Rightarrow> Inr (s, None) | Some g \<Rightarrow> eject_checked g s)"
  by (simp add: forced_step_def)

lemma demo_eject:
  "eject_checked (1, 0) demo_exit_state = Inr (demo_next_state, Some ((1, 0), demo_lido_validator 10))"
  "eject_checked (1, 0) demo_next_state = Inr (demo_forced_state, Some ((1, 0), demo_lido_validator 20))"
  by code_simp+

lemma demo_next: "exit_next demo_exit_state = Inr (demo_next_state, Some ((1, 0), demo_lido_validator 10))"
proof -
  have "exit_next demo_exit_state = eject_checked (1, 0) demo_exit_state"
    by (rule exit_nextI[where order = "map snd (x_node_operators_stats demo_exit_state)"]) code_simp+
  with demo_eject show ?thesis by simp
qed

lemma demo_forced: "forced_step demo_next_state = Inr (demo_forced_state, Some ((1, 0), demo_lido_validator 20))"
proof -
  have "forced_step demo_next_state =
      (case Some (1, 0) of None \<Rightarrow> Inr (demo_next_state, None) | Some g \<Rightarrow> eject_checked g demo_next_state)"
    by (rule forced_stepI[where order = "map snd (x_node_operators_stats demo_next_state)"]) code_simp+
  with demo_eject show ?thesis by simp
qed

lemma demo_forced_end: "forced_step demo_forced_state = Inr (demo_forced_state, None)"
proof -
  have "forced_step demo_forced_state =
      (case None of None \<Rightarrow> Inr (demo_forced_state, None) | Some g \<Rightarrow> eject_checked g demo_forced_state)"
    by (rule forced_stepI[where order = "map snd (x_node_operators_stats demo_forced_state)"]) code_simp+
  then show ?thesis by simp
qed

lemma demo_trace: "exit_trace demo_exit_state [((1, 0), demo_lido_validator 10), ((1, 0), demo_lido_validator 20)] demo_forced_state"
  using exit_trace.forced_some[OF exit_trace.next_some[OF exit_trace.start demo_next] demo_forced] by simp

lemma demo_forced_loop:
  "get_remaining_forced_validators demo_next_state [] = Inr (demo_forced_state, [((1, 0), demo_lido_validator 20)])"
  by (subst get_remaining_forced_validators.simps, simp add: demo_forced,
      subst get_remaining_forced_validators.simps, simp add: demo_forced_end)

theorem exit_limit_respected_witness:
  "exit_weight [((1, 0), demo_lido_validator 10), ((1, 0), demo_lido_validator 20)] \<le> 64 * 10 ^ 9"
proof -
  have "x_max_current_exit_balance demo_exit_state = 0" "x_exit_limit_in_gwei demo_exit_state = 64 * 10 ^ 9"
    by code_simp+
  with exit_limit_respected[OF demo_trace] show ?thesis by simp
qed

theorem exits_follow_queue_witness:
  "\<exists>rest. [demo_lido_validator 10, demo_lido_validator 20] =
     handed_out (1, 0) [((1, 0), demo_lido_validator 10), ((1, 0), demo_lido_validator 20)] @ rest"
proof -
  have "al_get [] (x_exitable_validators demo_exit_state) (1, 0) = [demo_lido_validator 10, demo_lido_validator 20]"
    by code_simp
  with exits_follow_queue[OF demo_trace, of "(1, 0)"] show ?thesis by simp
qed

theorem exit_next_least_witness:
  "\<exists>ns k. ns \<in> snd ` set (x_node_operators_stats demo_exit_state) \<and> stats_gid ns = (1, 0) \<and>
     no_predicate demo_exit_state ns = Inr k"
proof -
  from exit_next_least[OF demo_next] obtain ns k where "ns \<in> snd ` set (x_node_operators_stats demo_exit_state)"
    "(1, 0) = stats_gid ns" "no_predicate demo_exit_state ns = Inr k" by blast
  then show ?thesis by (intro exI[of _ ns] exI[of _ k]) simp
qed

theorem forced_exits_complete_witness:
  "no_forced_left demo_forced_state \<or>
     x_max_current_exit_balance demo_forced_state > x_exit_limit_in_gwei demo_forced_state"
  by (rule forced_exits_complete[OF demo_forced_loop])

end
