(* ===== verification/Exit_Stats.thy ===== *)
theory Exit_Stats
  imports Exit_Iterator
begin

text \<open>
  The statistics of the exit iterator stay consistent: the total predictable balance is the sum over
  the node operators, and each module's is the sum over its node operators. The invariant is
  established by \<open>exit_iter\<close> and kept by every step. \<open>balances_of\<close> projects a state to the balances,
  so that operations that only touch stakes, weights, groups or queues keep it by their frame.
\<close>

section \<open>Balances and their consistency\<close>

type_synonym balances = "gwei \<times> (module_id \<times> gwei) list \<times> (gid \<times> gwei) list"

definition balances_of :: "exit_state \<Rightarrow> balances" where
  "balances_of s =
     (x_total_lido_predictable_balance s,
      map (\<lambda>(k, m). (k, ms_predictable_balance m)) (x_module_stats s),
      map (\<lambda>(k, n). (k, ns_predictable_balance n)) (x_node_operators_stats s))"

definition consistent :: "balances \<Rightarrow> bool" where
  "consistent b \<longleftrightarrow> (case b of (t, ms, ns) \<Rightarrow>
     t = (\<Sum>x\<leftarrow>ns. snd x) \<and>
     (\<forall>m. al_get 0 ms m = (\<Sum>x\<leftarrow>filter (\<lambda>x. fst (fst x) = m) ns. snd x)))"

lemma map_value_update: "map (\<lambda>(k, x). (k, e x)) (AList.update k y xs) = AList.update k (e y) (map (\<lambda>(k, x). (k, e x)) xs)"
  by (induction xs) auto

lemma map_of_map_value: "map_of (map (\<lambda>(k, x). (k, e x)) xs) k = map_option e (map_of xs k)"
  by (induction xs) auto

lemma update_same: "map_of xs k = Some v \<Longrightarrow> AList.update k v xs = xs"
  by (induction xs) (auto split: if_splits)

lemma sum_update:
  fixes ns :: "(gid \<times> gwei) list"
  shows "map_of ns g = Some x \<Longrightarrow> (\<Sum>p\<leftarrow>AList.update g y ns. snd p) = (\<Sum>p\<leftarrow>ns. snd p) + (y - x)"
    and "map_of ns g = Some x \<Longrightarrow> (\<Sum>p\<leftarrow>filter (\<lambda>p. fst (fst p) = m) (AList.update g y ns). snd p) =
      (\<Sum>p\<leftarrow>filter (\<lambda>p. fst (fst p) = m) ns. snd p) + (if fst g = m then y - x else 0)"
  by (induction ns) (auto split: if_splits)

lemma consistent_update:
  assumes "consistent (t, ms, ns)" and "map_of ms (fst g) = Some a" and "map_of ns g = Some x"
  shows "consistent (t + b, AList.update (fst g) (a + b) ms, AList.update g (x + b) ns)"
  using assms by (auto simp: consistent_def sum_update al_get_def map_of_update_iff split: option.splits)

section \<open>Frames\<close>

lemma balances_add_module_stake [inv_intros]: "add_module_stake m f s = Inr s' \<Longrightarrow> balances_of s' = balances_of s"
  by (auto simp: add_module_stake_def balances_of_def res_simps map_value_update update_same map_of_map_value)

lemma balances_add_no_stake [inv_intros]: "add_no_stake g f s = Inr s' \<Longrightarrow> balances_of s' = balances_of s"
  by (auto simp: add_no_stake_def balances_of_def res_simps map_value_update update_same map_of_map_value)

lemma balances_stakeless: "balances_of (stakeless s) = balances_of s"
  by (simp add: balances_of_def stakeless_def comp_def case_prod_unfold)

lemma balances_decrease [inv_intros]: "decrease_affected_stake g b s = Inr s' \<Longrightarrow> balances_of s' = balances_of s"
  by (metis balances_stakeless decrease_affected_stake_stakeless)

lemma foldR_balances:
  assumes "foldR f xs s = Inr s'" and "\<And>x s s'. f x s = Inr s' \<Longrightarrow> balances_of s' = balances_of s"
  shows "balances_of s' = balances_of s"
  by (rule foldR_invariant[OF assms(1), where P = "\<lambda>t. balances_of t = balances_of s"]) (auto simp: assms(2))

lemma foldR_consistent:
  assumes "foldR f xs s = Inr s'" and "consistent (balances_of s)"
    and "\<And>x s s'. consistent (balances_of s) \<Longrightarrow> f x s = Inr s' \<Longrightarrow> consistent (balances_of s')"
  shows "consistent (balances_of s')"
  by (rule foldR_invariant[OF assms(1), where P = "\<lambda>t. consistent (balances_of t)"]) (auto simp: assms(2,3))

lemma balances_change:
  assumes "add_module_balance (fst g) b s = Inr t" and "add_no_balance g n b t = Inr s'"
    and "consistent (balances_of s)"
  shows "consistent (balances_of (s'\<lparr>x_total_lido_predictable_balance := x_total_lido_predictable_balance s' + b\<rparr>))"
proof -
  from assms(1) obtain m where m: "map_of (x_module_stats s) (fst g) = Some m"
    and t: "t = s\<lparr>x_module_stats := AList.update (fst g) (m\<lparr>ms_predictable_balance := ms_predictable_balance m + b\<rparr>) (x_module_stats s)\<rparr>"
    by (auto simp: add_module_balance_def res_simps)
  from assms(2) t obtain k where k: "map_of (x_node_operators_stats s) g = Some k"
    and s': "s' = t\<lparr>x_node_operators_stats := AList.update g (k\<lparr>ns_predictable_validators := ns_predictable_validators k + n,
      ns_predictable_balance := ns_predictable_balance k + b\<rparr>) (x_node_operators_stats s)\<rparr>"
    by (auto simp: add_no_balance_def res_simps)
  from consistent_update[OF assms(3)[unfolded balances_of_def], of g "ms_predictable_balance m" "ns_predictable_balance k" b]
  show ?thesis using m k by (simp add: balances_of_def s' t map_value_update map_of_map_value)
qed

lemma eject_consistent [inv_intros]:
  assumes "eject_validator g s = Inr (v, s')" and "consistent (balances_of s)"
  shows "consistent (balances_of s')"
proof -
  let ?b = "get_predictable_inbound_balance v"
  obtain vs where vs: "map_of (x_exitable_validators s) g = Some vs"
    using assms by (auto simp: eject_validator_def bindR_eq_Inr lookupR_eq_Inr)
  obtain w rest where w: "vs = w # rest"
    using assms vs by (cases vs) (auto simp: eject_validator_def lookupR_def)
  let ?u = "s\<lparr>x_exitable_validators := AList.update g rest (x_exitable_validators s)\<rparr>"
  from assms(1) obtain t u where tu: "add_module_balance (fst g) (- ?b)
        (?u\<lparr>x_total_lido_predictable_balance := x_total_lido_predictable_balance s - ?b\<rparr>) = Inr t"
    "add_no_balance g (- 1) (- ?b) t = Inr u" "decrease_affected_stake g ?b u = Inr s'"
    unfolding eject_validator_def lookupR_def vs w by (auto simp: bindR_eq_Inr Let_def)
  let ?reset = "\<lambda>t. t\<lparr>x_total_lido_predictable_balance := x_total_lido_predictable_balance s\<rparr>"
  have "add_module_balance (fst g) (- ?b) ?u = Inr (?reset t)"
    using tu(1) by (auto simp: add_module_balance_def res_simps)
  moreover have "add_no_balance g (- 1) (- ?b) (?reset t) = Inr (?reset u)"
    using tu(2) by (auto simp: add_no_balance_def res_simps)
  moreover have "consistent (balances_of ?u)" using assms(2) by (simp add: balances_of_def)
  ultimately have "consistent (balances_of ((?reset u)\<lparr>x_total_lido_predictable_balance := x_total_lido_predictable_balance s - ?b\<rparr>))"
    using balances_change[of g "- ?b" ?u "?reset t" "- 1" "?reset u"] by simp
  moreover have "x_total_lido_predictable_balance u = x_total_lido_predictable_balance s - ?b"
    using tu(1,2) by (auto simp: add_module_balance_def add_no_balance_def res_simps)
  ultimately show ?thesis using balances_decrease[OF tu(3)] by (simp add: balances_of_def)
qed

lemma step_consistent [inv_intros]:
  assumes "exit_next t = Inr (t', r) \<or> forced_step t = Inr (t', r)" and "consistent (balances_of t)"
  shows "consistent (balances_of t')"
  using trace_step[OF assms(1)]
proof
  assume "\<exists>g. eject_checked g t = Inr (t', r)"
  then obtain g v u where "eject_validator g t = Inr (v, u)" "balances_of t' = balances_of u"
    by (auto simp: eject_checked_def res_simps Let_def balances_of_def split: if_splits)
  with eject_consistent[of g t v u] assms(2) show ?thesis by simp
qed (use assms(2) in simp)

lemma add_predictable_consistent [inv_intros]:
  assumes "add_predictable g n b s = Inr s'" and "consistent (balances_of s)"
  shows "consistent (balances_of s')"
proof -
  from assms(1) obtain t u w where
    t: "add_module_stake (fst g) (\<lambda>t. nadd t (PInt b)) (s\<lparr>x_total_lido_predictable_balance := x_total_lido_predictable_balance s + b\<rparr>) = Inr t"
    and u: "add_module_balance (fst g) b t = Inr u" and w: "add_no_balance g n b u = Inr w"
    and s': "add_no_stake g (\<lambda>t. nadd t (PInt b)) w = Inr s'"
    by (auto simp: add_predictable_def bindR_eq_Inr)
  let ?reset = "\<lambda>t. t\<lparr>x_total_lido_predictable_balance := x_total_lido_predictable_balance s\<rparr>"
  have "balances_of (?reset t) = balances_of s"
    using balances_add_module_stake[OF t] by (simp add: balances_of_def)
  moreover have "add_module_balance (fst g) b (?reset t) = Inr (?reset u)"
    using u by (auto simp: add_module_balance_def res_simps)
  moreover have "add_no_balance g n b (?reset u) = Inr (?reset w)"
    using w by (auto simp: add_no_balance_def res_simps)
  ultimately have "consistent (balances_of ((?reset w)\<lparr>x_total_lido_predictable_balance := x_total_lido_predictable_balance s + b\<rparr>))"
    using balances_change[of g b "?reset t" "?reset u" n "?reset w"] assms(2) by simp
  moreover have "x_total_lido_predictable_balance w = x_total_lido_predictable_balance s + b"
    using t u w by (auto simp: add_module_balance_def add_no_balance_def add_module_stake_def res_simps)
  ultimately show ?thesis using balances_add_no_stake[OF s'] by (simp add: balances_of_def)
qed

section \<open>Initialization establishes consistency\<close>

lemma zero_consistent:
  assumes "\<forall>x \<in> set ms. snd x = 0" and "\<forall>x \<in> set ns. snd x = 0"
  shows "consistent (0, ms, ns)"
proof -
  have "sum_list (map snd xs) = 0" if "\<forall>x \<in> set xs. snd x = 0" for xs :: "(gid \<times> gwei) list"
    using that by (induction xs) auto
  moreover have "al_get 0 ms m = 0" for m
    using assms(1) by (fastforce simp: al_get_def dest: map_of_SomeD split: option.splits)
  ultimately show ?thesis using assms(2) by (simp add: consistent_def)
qed

lemma prepare_node_operator_stats_zero:
  assumes "prepare_node_operator_stats env s = Inr s'"
    and "\<forall>x \<in> set (x_node_operators_stats s). ns_predictable_balance (snd x) = 0"
  shows "\<forall>x \<in> set (x_node_operators_stats s'). ns_predictable_balance (snd x) = 0"
    "x_module_stats s' = x_module_stats s"
    "x_total_lido_predictable_balance s' = x_total_lido_predictable_balance s"
proof -
  let ?P = "\<lambda>t. (\<forall>x \<in> set (x_node_operators_stats t). ns_predictable_balance (snd x) = 0) \<and>
    x_module_stats t = x_module_stats s \<and> x_total_lido_predictable_balance t = x_total_lido_predictable_balance s"
  have "?P s'"
  proof (rule foldR_invariant[OF assms(1)[unfolded prepare_node_operator_stats_def], where P = ?P])
    fix operator t t'
    assume inv: "?P t" and "bindR (lookupR (x_module_stats t) (sm_id (no_staking_module operator)))
      (\<lambda>_. Inr (t\<lparr>x_node_operators_stats := AList.update (no_gid operator) (new_no_stats operator) (x_node_operators_stats t)\<rparr>)) = Inr t'"
    then have t': "t' = t\<lparr>x_node_operators_stats := AList.update (no_gid operator) (new_no_stats operator) (x_node_operators_stats t)\<rparr>"
      by (auto simp: res_simps)
    have "set (x_node_operators_stats t') \<subseteq> insert (no_gid operator, new_no_stats operator) (set (x_node_operators_stats t))"
      using set_update_subset[of "no_gid operator" "new_no_stats operator" "x_node_operators_stats t"] by (simp add: t')
    then have "\<forall>x \<in> set (x_node_operators_stats t'). ns_predictable_balance (snd x) = 0"
      using inv by (auto simp: new_no_stats_def)
    then show "?P t'" using inv by (simp add: t')
  qed (use assms(2) in auto)
  then show "\<forall>x \<in> set (x_node_operators_stats s'). ns_predictable_balance (snd x) = 0"
    "x_module_stats s' = x_module_stats s"
    "x_total_lido_predictable_balance s' = x_total_lido_predictable_balance s" by blast+
qed

lemma prepare_module_stats_zero:
  assumes "\<forall>x \<in> set (x_module_stats s). ms_predictable_balance (snd x) = 0"
  shows "\<forall>x \<in> set (x_module_stats (prepare_module_stats env s)). ms_predictable_balance (snd x) = 0"
proof -
  let ?f = "\<lambda>m. AList.update (sm_id m)
     \<lparr>ms_staking_module = m, ms_predictable_balance = 0, ms_total_stake = PInt 0, ms_total_weight = PInt 0\<rparr>"
  have "\<forall>x \<in> set xs. ms_predictable_balance (snd x) = 0 \<Longrightarrow>
      \<forall>x \<in> set (fold ?f ms xs). ms_predictable_balance (snd x) = 0" for ms xs
  proof (induction ms arbitrary: xs)
    case (Cons m ms)
    have "\<forall>x \<in> set (?f m xs). ms_predictable_balance (snd x) = 0"
      using Cons.prems set_update_subset[of "sm_id m" _ xs] by fastforce
    with Cons.IH show ?case by simp
  qed simp
  with assms show ?thesis by (simp add: prepare_module_stats_def)
qed

lemma prepare_validator_stats_balances: "prepare_validator_stats env s = Inr s' \<Longrightarrow> balances_of s' = balances_of s"
  unfolding prepare_validator_stats_def
  by (erule foldR_balances) (auto simp: res_simps balances_of_def)

lemma setup_weights_balances: "setup_weights env m s = Inr s' \<Longrightarrow> balances_of s' = balances_of s"
  unfolding setup_weights_def Let_def
  by (auto split: if_splits elim!: foldR_balances)
    (auto simp: res_simps balances_of_def map_value_update update_same map_of_map_value)

lemma set_group_balances:
  "map_of (x_node_operators_stats s) g = Some n \<Longrightarrow> ns_predictable_balance n' = ns_predictable_balance n \<Longrightarrow>
     balances_of (s\<lparr>x_node_operators_stats := AList.update g n' (x_node_operators_stats s)\<rparr>) = balances_of s"
  by (simp add: balances_of_def map_value_update update_same map_of_map_value)

lemma foldR_balances_fst:
  assumes "foldR f xs s = Inr s'" and "\<And>x s s'. f x s = Inr s' \<Longrightarrow> balances_of (fst s') = balances_of (fst s)"
  shows "balances_of (fst s') = balances_of (fst s)"
  by (rule foldR_invariant[OF assms(1), where P = "\<lambda>t. balances_of (fst t) = balances_of (fst s)"]) (auto simp: assms(2))

lemma group_external_balances: "group_external m grp x acc = Inr acc' \<Longrightarrow> balances_of (fst acc') = balances_of (fst acc)"
  by (auto simp: group_external_def check_not_grouped_def res_simps set_group_balances split: prod.splits if_splits)

lemma group_internal_balances: "group_internal m grp x acc = Inr acc' \<Longrightarrow> balances_of (fst acc') = balances_of (fst acc)"
  by (auto simp: group_internal_def check_not_grouped_def res_simps set_group_balances Let_def split: prod.splits if_splits)

lemma add_group_stake_balances:
  "add_external_stake m subs b w s = Inr s' \<Longrightarrow> balances_of s' = balances_of s"
  "add_internal_stake gs b w s = Inr s' \<Longrightarrow> balances_of s' = balances_of s"
  unfolding add_external_stake_def add_internal_stake_def
  by (erule foldR_balances, auto simp: Let_def res_simps set_group_balances dest!: balances_add_no_stake)+

lemma process_group_balances:
  assumes "process_group m1 m2 grp s = Inr s'"
  shows "balances_of s' = balances_of s"
proof -
  from assms obtain s1 ex eb s2 iw ib where
    one: "foldR (group_external m1 grp) (og_external_operators grp) (s, [], 0) = Inr (s1, ex, eb)"
    and two: "foldR (group_internal m2 grp) (og_sub_node_operators grp) (s1, PInt 0, 0) = Inr (s2, iw, ib)"
    and rest: "s' = s2 \<or> (\<exists>s3 s4 s5. add_external_stake m2 (og_sub_node_operators grp) eb iw s2 = Inr s3 \<and>
       add_internal_stake ex ib iw s3 = Inr s4 \<and> add_module_stake m1 (\<lambda>t. nadd t (PInt ib)) s4 = Inr s5 \<and>
       add_module_stake m2 (\<lambda>t. nadd t (PInt eb)) s5 = Inr s')"
    unfolding process_group_def bindR_eq_Inr by (auto simp: bindR_eq_Inr split: if_splits)
  have "balances_of s2 = balances_of s"
    using foldR_balances_fst[OF one group_external_balances] foldR_balances_fst[OF two group_internal_balances] by simp
  moreover have "balances_of s' = balances_of s2"
    using rest by (elim disjE exE conjE) (simp_all add: add_group_stake_balances balances_add_module_stake)
  ultimately show ?thesis by simp
qed

lemma calculate_sm_weights_balances: "calculate_sm_weights s = Inr s' \<Longrightarrow> balances_of s' = balances_of s"
  unfolding calculate_sm_weights_def
  by (erule foldR_balances) (auto simp: res_simps balances_of_def map_value_update update_same map_of_map_value)

lemma finalize_balances:
  assumes "finalize_cm_v1_and_cm_v2_stats env s = Inr s'"
  shows "balances_of s' = balances_of s"
proof -
  from assms obtain m1 m2 t u where t: "setup_weights env m2 s = Inr t"
    and u: "foldR (process_group m1 m2) (xe_groups env) t = Inr u" and s': "s' = u\<lparr>x_cm_v2_id := m2\<rparr>"
    by (auto simp: finalize_cm_v1_and_cm_v2_stats_def setup_meta_connections_def bindR_eq_Inr)
  have "balances_of u = balances_of t" by (rule foldR_balances[OF u process_group_balances])
  with setup_weights_balances[OF t] show ?thesis by (simp add: s' balances_of_def)
qed

lemma current_balance_consistent:
  assumes "calculate_current_cl_balance s = Inr s'" and "consistent (balances_of s)"
  shows "consistent (balances_of s')"
proof (rule foldR_consistent[OF assms(1)[unfolded calculate_current_cl_balance_def] assms(2)])
  fix x t t'
  assume c: "consistent (balances_of t)" and body: "(case x of (g, vs) \<Rightarrow> \<lambda>s.
       bindR (add_no_balance g (int (length vs)) 0 s) (\<lambda>s.
         foldR (\<lambda>v. add_predictable g 0 (get_predictable_inbound_balance v)) vs s)) t = Inr t'"
  obtain g vs where x: "x = (g, vs)" by (cases x)
  from body obtain u where u: "add_no_balance g (int (length vs)) 0 t = Inr u"
    and l: "foldR (\<lambda>v. add_predictable g 0 (get_predictable_inbound_balance v)) vs u = Inr t'"
    unfolding x case_prod_conv bindR_eq_Inr by blast
  have "balances_of u = balances_of t"
    using u by (auto simp: add_no_balance_def res_simps intro!: set_group_balances)
  with c have "consistent (balances_of u)" by simp
  then show "consistent (balances_of t')" by (rule foldR_consistent[OF l]) (rule add_predictable_consistent)
qed

lemma pending_balance_consistent:
  assumes "calculate_pending_validator_cl_balance env s = Inr s'" and "consistent (balances_of s)"
  shows "consistent (balances_of s')"
  by (rule foldR_consistent[OF assms(1)[unfolded calculate_pending_validator_cl_balance_def Let_def] assms(2)])
    (auto simp: res_simps split: prod.splits dest: add_predictable_consistent)

lemma exit_iter_consistent:
  assumes "exit_iter env s = Inr s'"
  shows "consistent (balances_of s')"
proof -
  let ?r = "reset_iterator_data (s\<lparr>x_max_current_exit_balance := 0\<rparr>)"
  from assms obtain a b c d f g where a: "prepare_node_operator_stats env (prepare_module_stats env ?r) = Inr a"
    and b: "prepare_validator_stats env a = Inr b" and c: "calculate_current_cl_balance b = Inr c"
    and d: "calculate_pending_validator_cl_balance env c = Inr d"
    and f: "finalize_cm_v1_and_cm_v2_stats env d = Inr f" and g: "calculate_sm_weights f = Inr g"
    and s': "s' = get_report_limits env g"
    by (auto simp: exit_iter_def prepare_data_structure_def calculate_lido_stats_def bindR_eq_Inr)
  have z: "\<forall>x \<in> set (x_module_stats (prepare_module_stats env ?r)). ms_predictable_balance (snd x) = 0"
    by (rule prepare_module_stats_zero) (simp add: reset_iterator_data_def)
  have n: "\<forall>x \<in> set (x_node_operators_stats (prepare_module_stats env ?r)). ns_predictable_balance (snd x) = 0"
    by (simp add: prepare_module_stats_def reset_iterator_data_def)
  note A = prepare_node_operator_stats_zero[OF a n]
  have total: "x_total_lido_predictable_balance a = 0"
    using A(3) by (simp add: prepare_module_stats_def reset_iterator_data_def)
  have "consistent (balances_of a)"
    unfolding balances_of_def total
  proof (rule zero_consistent)
    show "\<forall>x \<in> set (map (\<lambda>(k, m). (k, ms_predictable_balance m)) (x_module_stats a)). snd x = 0"
      using z unfolding A(2) by auto
    show "\<forall>x \<in> set (map (\<lambda>(k, n). (k, ns_predictable_balance n)) (x_node_operators_stats a)). snd x = 0"
      using A(1) by auto
  qed
  then have "consistent (balances_of b)" using prepare_validator_stats_balances[OF b] by simp
  then have "consistent (balances_of d)"
    using current_balance_consistent[OF c] pending_balance_consistent[OF d] by blast
  then have "consistent (balances_of g)"
    using finalize_balances[OF f] calculate_sm_weights_balances[OF g] by simp
  then show ?thesis by (simp add: s' get_report_limits_def balances_of_def)
qed

section \<open>A fresh iterator has asked for nothing\<close>

lemma foldR_max:
  assumes "foldR f xs s = Inr s'"
    and "\<And>x s s'. f x s = Inr s' \<Longrightarrow> x_max_current_exit_balance s' = x_max_current_exit_balance s"
  shows "x_max_current_exit_balance s' = x_max_current_exit_balance s"
  by (rule foldR_invariant[OF assms(1), where P = "\<lambda>t. x_max_current_exit_balance t = x_max_current_exit_balance s"])
    (auto simp: assms(2))

lemma foldR_max_fst:
  assumes "foldR f xs s = Inr s'"
    and "\<And>x s s'. f x s = Inr s' \<Longrightarrow> x_max_current_exit_balance (fst s') = x_max_current_exit_balance (fst s)"
  shows "x_max_current_exit_balance (fst s') = x_max_current_exit_balance (fst s)"
  by (rule foldR_invariant[OF assms(1), where P = "\<lambda>t. x_max_current_exit_balance (fst t) = x_max_current_exit_balance (fst s)"])
    (auto simp: assms(2))

lemma add_stats_max:
  "add_module_balance m b s = Inr s' \<Longrightarrow> x_max_current_exit_balance s' = x_max_current_exit_balance s"
  "add_module_stake m f s = Inr s' \<Longrightarrow> x_max_current_exit_balance s' = x_max_current_exit_balance s"
  "add_no_balance g n b s = Inr s' \<Longrightarrow> x_max_current_exit_balance s' = x_max_current_exit_balance s"
  "add_no_stake g f s = Inr s' \<Longrightarrow> x_max_current_exit_balance s' = x_max_current_exit_balance s"
  by (auto simp: add_module_balance_def add_module_stake_def add_no_balance_def add_no_stake_def res_simps)

lemma add_predictable_max:
  "add_predictable g n b s = Inr s' \<Longrightarrow> x_max_current_exit_balance s' = x_max_current_exit_balance s"
  by (auto simp: add_predictable_def bindR_eq_Inr dest!: add_stats_max)

lemma group_step_max:
  "group_external m grp x acc = Inr acc' \<Longrightarrow> x_max_current_exit_balance (fst acc') = x_max_current_exit_balance (fst acc)"
  "group_internal m grp y acc2 = Inr acc2' \<Longrightarrow> x_max_current_exit_balance (fst acc2') = x_max_current_exit_balance (fst acc2)"
  by (auto simp: group_external_def group_internal_def res_simps Let_def split: prod.splits if_splits)

lemma add_group_stake_max:
  "add_external_stake m subs b w s = Inr s' \<Longrightarrow> x_max_current_exit_balance s' = x_max_current_exit_balance s"
  "add_internal_stake gs b w s = Inr s' \<Longrightarrow> x_max_current_exit_balance s' = x_max_current_exit_balance s"
  unfolding add_external_stake_def add_internal_stake_def
  by (erule foldR_max, auto simp: Let_def res_simps dest!: add_stats_max)+

lemma process_group_max:
  assumes "process_group m1 m2 grp s = Inr s'"
  shows "x_max_current_exit_balance s' = x_max_current_exit_balance s"
proof -
  from assms obtain s1 ex eb s2 iw ib where
    one: "foldR (group_external m1 grp) (og_external_operators grp) (s, [], 0) = Inr (s1, ex, eb)"
    and two: "foldR (group_internal m2 grp) (og_sub_node_operators grp) (s1, PInt 0, 0) = Inr (s2, iw, ib)"
    and rest: "s' = s2 \<or> (\<exists>s3 s4 s5. add_external_stake m2 (og_sub_node_operators grp) eb iw s2 = Inr s3 \<and>
       add_internal_stake ex ib iw s3 = Inr s4 \<and> add_module_stake m1 (\<lambda>t. nadd t (PInt ib)) s4 = Inr s5 \<and>
       add_module_stake m2 (\<lambda>t. nadd t (PInt eb)) s5 = Inr s')"
    unfolding process_group_def bindR_eq_Inr by (auto simp: bindR_eq_Inr split: if_splits)
  have "x_max_current_exit_balance s2 = x_max_current_exit_balance s"
    using foldR_max_fst[OF one group_step_max(1)] foldR_max_fst[OF two group_step_max(2)] by simp
  moreover have "x_max_current_exit_balance s' = x_max_current_exit_balance s2"
    using rest by (elim disjE exE conjE) (simp_all add: add_group_stake_max add_stats_max)
  ultimately show ?thesis by simp
qed

lemma exit_iter_fresh:
  assumes "exit_iter env s = Inr s'"
  shows "x_max_current_exit_balance s' = 0"
    "x_exit_limit_in_gwei s' = xe_max_balance_exit_requested_in_eth env * 10 ^ 9"
proof -
  let ?m = x_max_current_exit_balance
  from assms obtain a b c d m1 m2 e f g where
    a: "prepare_node_operator_stats env (prepare_module_stats env (reset_iterator_data (s\<lparr>x_max_current_exit_balance := 0\<rparr>))) = Inr a"
    and b: "prepare_validator_stats env a = Inr b" and c: "calculate_current_cl_balance b = Inr c"
    and d: "calculate_pending_validator_cl_balance env c = Inr d"
    and e: "setup_weights env m2 d = Inr e" and f: "foldR (process_group m1 m2) (xe_groups env) e = Inr f"
    and g: "calculate_sm_weights (f\<lparr>x_cm_v2_id := m2\<rparr>) = Inr g" and s': "s' = get_report_limits env g"
    by (auto simp: exit_iter_def prepare_data_structure_def calculate_lido_stats_def
        finalize_cm_v1_and_cm_v2_stats_def setup_meta_connections_def bindR_eq_Inr)
  have "?m a = ?m (prepare_module_stats env (reset_iterator_data (s\<lparr>x_max_current_exit_balance := 0\<rparr>)))"
    by (rule foldR_max[OF a[unfolded prepare_node_operator_stats_def]]) (auto simp: res_simps)
  also have "\<dots> = 0" by (simp add: prepare_module_stats_def reset_iterator_data_def)
  finally have "?m a = 0" .
  moreover have "?m b = ?m a"
    by (rule foldR_max[OF b[unfolded prepare_validator_stats_def]]) (auto simp: res_simps)
  moreover have "?m c = ?m b"
  proof (rule foldR_max[OF c[unfolded calculate_current_cl_balance_def]])
    fix x t t'
    assume body: "(case x of (g, vs) \<Rightarrow> \<lambda>s. bindR (add_no_balance g (int (length vs)) 0 s) (\<lambda>s.
         foldR (\<lambda>v. add_predictable g 0 (get_predictable_inbound_balance v)) vs s)) t = Inr t'"
    obtain g vs where x: "x = (g, vs)" by (cases x)
    from body obtain u where u: "add_no_balance g (int (length vs)) 0 t = Inr u"
      and l: "foldR (\<lambda>v. add_predictable g 0 (get_predictable_inbound_balance v)) vs u = Inr t'"
      unfolding x case_prod_conv bindR_eq_Inr by blast
    show "?m t' = ?m t" using foldR_max[OF l add_predictable_max] add_stats_max(3)[OF u] by simp
  qed
  moreover have "?m d = ?m c"
    by (rule foldR_max[OF d[unfolded calculate_pending_validator_cl_balance_def Let_def]])
      (auto simp: res_simps split: prod.splits dest: add_predictable_max)
  moreover have "?m e = ?m d"
    using e unfolding setup_weights_def Let_def
    by (auto split: if_splits elim!: foldR_max) (auto simp: res_simps)
  moreover have "?m f = ?m e" by (rule foldR_max[OF f process_group_max])
  moreover have "?m g = ?m (f\<lparr>x_cm_v2_id := m2\<rparr>)"
    by (rule foldR_max[OF g[unfolded calculate_sm_weights_def]]) (auto simp: res_simps)
  ultimately show "?m s' = 0" by (simp add: s' get_report_limits_def)
  show "x_exit_limit_in_gwei s' = xe_max_balance_exit_requested_in_eth env * 10 ^ 9"
    by (simp add: s' get_report_limits_def)
qed

text \<open>
  C9. The totals that drive the share and size priorities are always right: from the start of an
  iteration and after every ordinary or forced exit, the total predictable balance is the sum over
  all node operators, and each module's predictable balance is the sum over its node operators.
\<close>

theorem exit_stats_consistent:
  assumes "exit_iter env s0 = Inr s" and "exit_trace s out t"
  shows "consistent (balances_of t)"
  using assms(2) exit_iter_consistent[OF assms(1)]
proof (induction rule: exit_trace.induct)
  case (next_some s out t t' r)
  then show ?case using step_consistent[of t t' "Some r"] by simp
next
  case (next_none s out t t')
  then show ?case using step_consistent[of t t' None] by simp
next
  case (forced_some s out t t' r)
  then show ?case using step_consistent[of t t' "Some r"] by simp
next
  case (forced_none s out t t')
  then show ?case using step_consistent[of t t' None] by simp
qed

theorem exit_stats_consistent_witness: "consistent (balances_of demo_forced_state)"
  by (rule exit_stats_consistent[OF demo_exit_state_ok demo_trace])

end
