(* ===== verification/Ejector.thy ===== *)
theory Ejector
  imports Exit_Stats Sweep Data_Encode Validator_Service
begin

text \<open>
  \<open>src/modules/oracles/ejector/ejector.py\<close>: which validators an ejector report asks to exit. What the
  module reads at its block stamp is the record \<open>ejector_env\<close>; \<open>ej_rewards_per_epoch\<close> is the value of
  \<open>get_rewards_per_epoch\<close> and \<open>ej_going_to_exit\<close> the list of
  \<open>get_recently_requested_but_not_exiting_validators\<close> (both in \<open>Validator_Service\<close>, cached by the
  code). The \<open>for\<close> loop over the exit iterator calls \<open>__iter__\<close> again, so the iterator is
  initialized a second time.
\<close>

record ejector_env =
  ej_exit_env :: exit_env
  ej_chain :: chain_config
  ej_ref_epoch :: epoch
  ej_ref_slot :: slot
  ej_consensus_version :: int
  ej_unfinalized_steth :: wei
  ej_el_vault_balance :: wei
  ej_withdrawal_balance :: wei
  ej_withdrawals_reserve :: wei
  ej_rewards_per_epoch :: "wei res"
  ej_going_to_exit :: "linked_validator list"
  ej_lido_validators :: "linked_validator list"
  ej_validators :: "validator list"
  ej_state :: beacon_state
  ej_deposits_reserve_target :: wei
  ej_max_steth_withdrawal_amount :: wei
  ej_accounting_epochs_per_frame :: int

section \<open>Predicted balance\<close>

definition get_total_el_balance :: "ejector_env \<Rightarrow> wei" where
  "get_total_el_balance env = ej_el_vault_balance env + ej_withdrawal_balance env + ej_withdrawals_reserve env"

definition get_withdrawable_lido_validators_balance :: "ejector_env \<Rightarrow> epoch \<Rightarrow> wei" where
  "get_withdrawable_lido_validators_balance env on_epoch =
     gwei_to_wei (fold (\<lambda>v result.
       if consolidating_as_source v \<noteq> None then result
       else if is_fully_withdrawable_validator (v_validator v) (v_balance v) on_epoch
       then result + get_predictable_full_inbound_balance v
       else result + get_predictable_inbound_sweep v) (ej_lido_validators env) 0)"

definition get_active_validators :: "ejector_env \<Rightarrow> validator list" where
  "get_active_validators env = filter (\<lambda>v. is_active_validator v (ej_ref_epoch env)) (ej_validators env)"

definition get_total_active_balance :: "ejector_env \<Rightarrow> gwei" where
  "get_total_active_balance env =
     max EFFECTIVE_BALANCE_INCREMENT (\<Sum>v\<leftarrow>get_active_validators env. vs_effective_balance (v_validator v))"

definition compute_exit_epoch_and_update_churn :: "beacon_state \<Rightarrow> gwei \<Rightarrow> epoch \<Rightarrow> gwei \<Rightarrow> epoch" where
  "compute_exit_epoch_and_update_churn st exit_balance ref_epoch total_active_balance =
     (let earliest_exit_epoch = max (st_earliest_exit_epoch st) (compute_activation_exit_epoch ref_epoch);
          per_epoch_churn = get_activation_exit_churn_limit total_active_balance;
          exit_balance_to_consume =
            (if st_earliest_exit_epoch st < earliest_exit_epoch then per_epoch_churn
             else st_exit_balance_to_consume st)
      in if exit_balance > exit_balance_to_consume then
           let balance_to_process = exit_balance - exit_balance_to_consume;
               additional_epochs = (balance_to_process - 1) div per_epoch_churn + 1
           in earliest_exit_epoch + additional_epochs
         else earliest_exit_epoch)"

definition get_predicted_withdrawable_epoch :: "ejector_env \<Rightarrow> gwei \<Rightarrow> epoch" where
  "get_predicted_withdrawable_epoch env exiting_balance_sum =
     compute_exit_epoch_and_update_churn (ej_state env) exiting_balance_sum (ej_ref_epoch env)
       (get_total_active_balance env) + MIN_VALIDATOR_WITHDRAWABILITY_DELAY"

definition get_deposit_lock_amount :: "ejector_env \<Rightarrow> int \<Rightarrow> wei res" where
  "get_deposit_lock_amount env epoches_number =
     (let reserve_per_frame = min (ej_deposits_reserve_target env) (ej_max_steth_withdrawal_amount env) in
      bindR (floordivR epoches_number (ej_accounting_epochs_per_frame env))
        (\<lambda>ao_frames. Inr (ao_frames * reserve_per_frame)))"

definition get_predicted_el_balance :: "ejector_env \<Rightarrow> gwei \<Rightarrow> wei res" where
  "get_predicted_el_balance env to_exit_gwei =
     (let total_available_balance = get_total_el_balance env in
      bindR (get_sweep_delay_in_epochs (ej_state env) (ej_chain env)) (\<lambda>epochs_to_sweep.
        bindR (ej_rewards_per_epoch env) (\<lambda>rewards_speed_per_epoch.
          let going_to_withdraw_balance_gwei = (\<Sum>v\<leftarrow>ej_going_to_exit env. get_predictable_inbound_balance v);
              withdrawal_epoch = get_predicted_withdrawable_epoch env (going_to_withdraw_balance_gwei + to_exit_gwei);
              time_to_last_withdrawal_in_epoch = withdrawal_epoch + epochs_to_sweep - ej_ref_epoch env;
              future_rewards = time_to_last_withdrawal_in_epoch * rewards_speed_per_epoch;
              future_withdrawals = get_withdrawable_lido_validators_balance env withdrawal_epoch
          in bindR (get_deposit_lock_amount env time_to_last_withdrawal_in_epoch) (\<lambda>deposit_lock.
               Inr (future_rewards + future_withdrawals + total_available_balance
                    + gwei_to_wei going_to_withdraw_balance_gwei - deposit_lock)))))"

section \<open>Choosing the validators\<close>

function eject_loop ::
    "(gwei \<Rightarrow> wei res) \<Rightarrow> wei \<Rightarrow> exit_state \<Rightarrow> (gid \<times> linked_validator) list \<Rightarrow> gwei \<Rightarrow>
     (exit_state \<times> (gid \<times> linked_validator) list) res" where
  "eject_loop predicted to_withdraw_amount s validators_to_eject total_gwei =
     (case exit_next s of
        Inl e \<Rightarrow> Inl e
      | Inr (s', None) \<Rightarrow> Inr (s', validators_to_eject)
      | Inr (s', Some (g, v)) \<Rightarrow>
          (case predicted (total_gwei + get_predictable_inbound_balance v) of
             Inl e \<Rightarrow> Inl e
           | Inr predictable_el_balance \<Rightarrow>
               (if predictable_el_balance + gwei_to_wei (total_gwei + get_predictable_inbound_balance v)
                     \<ge> to_withdraw_amount
                then Inr (s', validators_to_eject @ [(g, v)])
                else eject_loop predicted to_withdraw_amount s' (validators_to_eject @ [(g, v)])
                       (total_gwei + get_predictable_inbound_balance v))))"
  by pat_completeness auto
termination
  by (relation "measure (\<lambda>(_, _, s, _, _). exitable_count s)") (auto dest: exit_next_decreases)

declare eject_loop.simps [simp del]

definition get_validators_to_eject :: "ejector_env \<Rightarrow> exit_state \<Rightarrow> (gid \<times> linked_validator) list res" where
  "get_validators_to_eject env s0 =
     (let to_withdraw_amount = ej_unfinalized_steth env in
      bindR (get_predicted_el_balance env 0) (\<lambda>predictable_el_balance.
        bindR (exit_iter (ej_exit_env env) s0) (\<lambda>s.
          bindR (if to_withdraw_amount \<noteq> 0 \<and> to_withdraw_amount > predictable_el_balance
                 then bindR (exit_iter (ej_exit_env env) s) (\<lambda>s.
                        eject_loop (get_predicted_el_balance env) to_withdraw_amount s [] 0)
                 else Inr (s, []))
            (\<lambda>(s, validators_to_eject).
               bindR (get_remaining_forced_validators s []) (\<lambda>(_, forced_validators).
                 Inr (validators_to_eject @ forced_validators))))))"

record ejector_report =
  er_consensus_version :: int
  er_ref_slot :: slot
  er_requests_count :: int
  er_data_format :: int
  er_data :: bytes

definition build_ejector_report :: "ejector_env \<Rightarrow> exit_state \<Rightarrow> ejector_report res" where
  "build_ejector_report env s0 =
     bindR (get_validators_to_eject env s0) (\<lambda>validators.
       bindR (encode_data validators) (\<lambda>(data, data_format).
         Inr \<lparr>er_consensus_version = ej_consensus_version env, er_ref_slot = ej_ref_slot env,
              er_requests_count = int (length validators), er_data_format = data_format, er_data = data\<rparr>))"

section \<open>The exit epoch is the earliest that fits\<close>

text \<open>
  The predicted exit epoch is the earliest possible one: with the churn still available at the
  earliest exit epoch and the per-epoch limit afterwards, the exiting balance fits by the returned
  epoch and does not fit by any earlier one (from the earliest exit epoch on).
\<close>

theorem exit_epoch_earliest:
  fixes st exit_balance ref_epoch total_active
  defines "e0 \<equiv> max (st_earliest_exit_epoch st) (compute_activation_exit_epoch ref_epoch)"
    and "churn \<equiv> get_activation_exit_churn_limit total_active"
  defines "first \<equiv> (if st_earliest_exit_epoch st < e0 then churn else st_exit_balance_to_consume st)"
    and "e \<equiv> compute_exit_epoch_and_update_churn st exit_balance ref_epoch total_active"
  shows "e0 \<le> e \<and> exit_balance \<le> first + (e - e0) * churn \<and>
    (\<forall>e'. e0 \<le> e' \<and> exit_balance \<le> first + (e' - e0) * churn \<longrightarrow> e \<le> e')"
proof -
  have e: "e = (if exit_balance > first then e0 + ((exit_balance - first - 1) div churn + 1) else e0)"
    unfolding e_def first_def e0_def churn_def compute_exit_epoch_and_update_churn_def Let_def by (rule refl)
  let ?n = "(exit_balance - first - 1) div churn + 1"
  have c: "0 < churn" unfolding churn_def by (rule churn_limit_pos)
  have n: "k < ?n \<longleftrightarrow> k * churn < exit_balance - first" for k
    using div_galois[OF c, of k "exit_balance - first - 1"] by linarith
  have "e \<le> e'" if "e0 \<le> e'" "exit_balance \<le> first + (e' - e0) * churn" for e'
    using n[of "e' - e0"] that e by auto
  then show ?thesis using n[of 0] n[of ?n] e by auto
qed

theorem exit_epoch_earliest_witness:
  "compute_exit_epoch_and_update_churn (demo_beacon_state\<lparr>st_earliest_exit_epoch := 300\<rparr>) 600000000000 200 (10 ^ 16) = 304 \<and>
   \<not> 600000000000 \<le> (303 - 300) * (152000000000 :: int)"
proof -
  have c: "get_activation_exit_churn_limit (10 ^ 16) = 152000000000" by code_simp
  have e: "compute_exit_epoch_and_update_churn (demo_beacon_state\<lparr>st_earliest_exit_epoch := 300\<rparr>) 600000000000 200 (10 ^ 16) = 304"
    by code_simp
  have e0: "compute_activation_exit_epoch 200 = 205"
    "st_exit_balance_to_consume (demo_beacon_state\<lparr>st_earliest_exit_epoch := 300\<rparr>) = 0"
    "st_earliest_exit_epoch (demo_beacon_state\<lparr>st_earliest_exit_epoch := 300\<rparr>) = 300" by code_simp+
  show ?thesis
    using exit_epoch_earliest[of "demo_beacon_state\<lparr>st_earliest_exit_epoch := 300\<rparr>" 200 600000000000 "10 ^ 16"] e c e0
    by (simp add: algebra_simps)
qed

section \<open>No validator is ejected without need\<close>

definition ejected_balance :: "(gid \<times> linked_validator) list \<Rightarrow> gwei" where
  "ejected_balance out = (\<Sum>r\<leftarrow>out. get_predictable_inbound_balance (snd r))"

definition covers :: "(gwei \<Rightarrow> wei res) \<Rightarrow> wei \<Rightarrow> (gid \<times> linked_validator) list \<Rightarrow> bool" where
  "covers predicted to_withdraw out \<longleftrightarrow>
     (\<exists>p. predicted (ejected_balance out) = Inr p \<and> p + gwei_to_wei (ejected_balance out) \<ge> to_withdraw)"

lemma ejected_balance_snoc: "ejected_balance (out @ [(g, v)]) = ejected_balance out + get_predictable_inbound_balance v"
  by (simp add: ejected_balance_def)

lemma eject_loop_spec:
  "eject_loop predicted W s acc total_gwei = Inr (s', out) \<Longrightarrow> total_gwei = ejected_balance acc \<Longrightarrow> exit_trace s0 acc s \<Longrightarrow>
     exit_trace s0 out s' \<and> (\<exists>new. out = acc @ new) \<and>
     (\<forall>k. length acc < k \<and> k < length out \<longrightarrow> \<not> covers predicted W (take k out)) \<and>
     (covers predicted W out \<or> (\<exists>t. exit_trace s0 out t \<and> exit_next t = Inr (s', None)))"
proof (induction predicted W s acc total_gwei rule: eject_loop.induct)
  case (1 predicted W s acc total_gwei)
  show ?case
  proof (cases "exit_next s")
    case (Inl e)
    with 1(2) show ?thesis by (simp add: eject_loop.simps)
  next
    case (Inr q)
    obtain u r where q: "q = (u, r)" by fastforce
    show ?thesis
    proof (cases r)
      case None
      with 1(2) Inr q have "s' = u" "out = acc" by (simp_all add: eject_loop.simps[of predicted W s acc])
      with 1(4) Inr q None show ?thesis by (auto intro: exit_trace.next_none)
    next
      case (Some gv)
      obtain g v where gv: "gv = (g, v)" by fastforce
      let ?t = "total_gwei + get_predictable_inbound_balance v"
      let ?acc = "acc @ [(g, v)]"
      have t: "?t = ejected_balance ?acc" using 1(3) by (simp add: ejected_balance_snoc)
      have tr: "exit_trace s0 ?acc u" using exit_trace.next_some[OF 1(4)] Inr q Some gv by simp
      show ?thesis
      proof (cases "predicted ?t")
        case (Inl e)
        with 1(2) Inr q Some gv show ?thesis by (simp add: eject_loop.simps[of predicted W s acc])
      next
        case p: (Inr p)
        show ?thesis
        proof (cases "p + gwei_to_wei ?t \<ge> W")
          case True
          with 1(2) Inr q Some gv p have "s' = u" "out = ?acc" by (simp_all add: eject_loop.simps[of predicted W s acc])
          with True tr p t show ?thesis by (auto simp: covers_def)
        next
          case False
          with 1(2) Inr q Some gv p have rec: "eject_loop predicted W u ?acc ?t = Inr (s', out)"
            by (simp add: eject_loop.simps[of predicted W s acc])
          have nc: "\<not> covers predicted W ?acc" using False p t by (auto simp: covers_def)
          from 1(1)[OF Inr q[symmetric] Some gv[symmetric] p False rec t tr] obtain new where IH: "exit_trace s0 out s'" "out = ?acc @ new"
            "\<forall>k. length ?acc < k \<and> k < length out \<longrightarrow> \<not> covers predicted W (take k out)"
            "covers predicted W out \<or> (\<exists>t. exit_trace s0 out t \<and> exit_next t = Inr (s', None))"
            by blast
          have "\<not> covers predicted W (take k out)" if "length acc < k" "k < length out" for k
          proof (cases "k = length ?acc")
            case True
            with nc IH(2) show ?thesis by simp
          next
            case False
            with that IH(3) show ?thesis by simp
          qed
          with IH show ?thesis by auto
        qed
      qed
    qed
  qed
qed


definition demo_ejector :: ejector_env where
  "demo_ejector =
     \<lparr>ej_exit_env = demo_exit_env, ej_chain = mainnet_chain, ej_ref_epoch = 200, ej_ref_slot = 6431,
      ej_consensus_version = 5, ej_unfinalized_steth = 30 * 10 ^ 18, ej_el_vault_balance = 10 ^ 18,
      ej_withdrawal_balance = 0, ej_withdrawals_reserve = 0, ej_rewards_per_epoch = Inr 0,
      ej_going_to_exit = [], ej_lido_validators = [], ej_validators = [], ej_state = demo_beacon_state,
      ej_deposits_reserve_target = 0, ej_max_steth_withdrawal_amount = 10 ^ 21,
      ej_accounting_epochs_per_frame = 225\<rparr>"

lemma demo_predicted: "get_predicted_el_balance demo_ejector 0 = Inr (10 ^ 18)"
  "get_predicted_el_balance demo_ejector 32000000000 = Inr (10 ^ 18)"
  by code_simp+

lemma demo_ejected: "get_validators_to_eject demo_ejector fresh_iterator =
    Inr [((1, 0), demo_lido_validator 10), ((1, 0), demo_lido_validator 20)]"
proof -
  have again: "exit_iter demo_exit_env demo_exit_state = Inr demo_exit_state" by code_simp
  have b: "get_predictable_inbound_balance (demo_lido_validator 10) = 32000000000" by code_simp
  have "eject_loop (get_predicted_el_balance demo_ejector) (30 * 10 ^ 18) demo_exit_state [] 0 =
      Inr (demo_next_state, [((1, 0), demo_lido_validator 10)])"
    by (simp add: eject_loop.simps[of _ _ demo_exit_state] demo_next b demo_predicted gwei_to_wei_def GWEI_TO_WEI_def)
  moreover have "ej_exit_env demo_ejector = demo_exit_env" "ej_unfinalized_steth demo_ejector = 30 * 10 ^ 18"
    by (simp_all add: demo_ejector_def)
  ultimately show ?thesis
    by (simp add: get_validators_to_eject_def demo_predicted demo_exit_state_ok again demo_forced_loop)
qed


end
