(* ===== verification/Frame_Duties.thy ===== *)
theory Frame_Duties
  imports Duties_DB
begin

text \<open>
  The part of \<open>src/modules/oracles/staking_modules/base.py\<close> that turns the collector's rows into the
  duties of a frame: every row is checked, proposals and sync duties are summed up, and attestations are
  the epochs in which a validator was active less those in which it missed.
\<close>

section \<open>Rows\<close>

definition validate_epoch_data :: "duty \<Rightarrow> unit res" where
  "validate_epoch_data d =
     (if \<not> distinct (du_missed_attestation_vids d) then Inl ValueError
      else if length (du_proposals_vids d) \<noteq> length (du_proposals_flags d) then Inl ValueError
      else if length (du_syncs_vids d) \<noteq> length (du_syncs_misses d) then Inl ValueError
      else Inr ())"

definition count_active_epochs :: "validator \<Rightarrow> epoch \<Rightarrow> epoch \<Rightarrow> int" where
  "count_active_epochs v l_epoch r_epoch =
     (let first_active_epoch = max l_epoch (vs_activation_epoch (v_validator v));
          last_active_epoch = min r_epoch (vs_exit_epoch (v_validator v) - 1)
      in if first_active_epoch > last_active_epoch then 0 else last_active_epoch - first_active_epoch + 1)"

type_synonym validator_index_map = "(int \<times> validator) list"

definition proposal_step :: "validator_index_map \<Rightarrow> int \<times> bool \<Rightarrow> duty_map \<times> int \<Rightarrow> (duty_map \<times> int) res" where
  "proposal_step validators vf s = (case vf of (vid, proposed) \<Rightarrow> case s of (proposals, blocks_in_epoch) \<Rightarrow>
     if map_of validators vid = None then Inl ValueError
     else Inr (add_duty vid \<lparr>da_assigned = 1, da_included = of_bool proposed\<rparr> proposals, blocks_in_epoch + of_bool proposed))"

definition sync_step :: "validator_index_map \<Rightarrow> int \<Rightarrow> int \<times> int \<Rightarrow> duty_map \<Rightarrow> duty_map res" where
  "sync_step validators blocks_in_epoch vm syncs = (case vm of (vid, misses) \<Rightarrow>
     if map_of validators vid = None then Inl ValueError
     else if misses > blocks_in_epoch then Inl ValueError
     else Inr (add_duty vid \<lparr>da_assigned = blocks_in_epoch, da_included = blocks_in_epoch - misses\<rparr> syncs))"

definition miss_step :: "validator_index_map \<Rightarrow> epoch \<Rightarrow> int \<Rightarrow> (int \<times> int) list \<Rightarrow> (int \<times> int) list res" where
  "miss_step validators e vid missed_atts =
     (case map_of validators vid of
        None \<Rightarrow> Inl ValueError
      | Some v \<Rightarrow> if \<not> is_active_validator v e then Inl ValueError
                  else Inr (AList.update vid (al_get 0 missed_atts vid + 1) missed_atts))"

record frame_acc =
  fa_proposals :: duty_map
  fa_syncs :: duty_map
  fa_missed_atts :: "(int \<times> int) list"
  fa_processed_epochs :: "epoch list"

definition epoch_step :: "validator_index_map \<Rightarrow> duty \<Rightarrow> frame_acc \<Rightarrow> frame_acc res" where
  "epoch_step validators d s =
     bindR (validate_epoch_data d) (\<lambda>_.
     if du_epoch d \<in> set (fa_processed_epochs s) then Inl ValueError
     else bindR (foldR (proposal_step validators) (zip (du_proposals_vids d) (du_proposals_flags d)) (fa_proposals s, 0))
       (\<lambda>(proposals, blocks_in_epoch).
       bindR (if blocks_in_epoch \<noteq> 0
              then foldR (sync_step validators blocks_in_epoch) (zip (du_syncs_vids d) (du_syncs_misses d)) (fa_syncs s)
              else Inr (fa_syncs s)) (\<lambda>syncs.
       bindR (foldR (miss_step validators (du_epoch d)) (du_missed_attestation_vids d) (fa_missed_atts s)) (\<lambda>missed_atts.
         Inr \<lparr>fa_proposals = proposals, fa_syncs = syncs, fa_missed_atts = missed_atts,
              fa_processed_epochs = fa_processed_epochs s @ [du_epoch d]\<rparr>))))"

definition attestation_step :: "epoch \<Rightarrow> epoch \<Rightarrow> (int \<times> int) list \<Rightarrow> validator \<Rightarrow> duty_map \<Rightarrow> duty_map res" where
  "attestation_step l_epoch r_epoch missed_atts v attestations =
     (let assigned = count_active_epochs v l_epoch r_epoch in
      if assigned = 0 then Inr attestations
      else
        let misses = al_get 0 missed_atts (v_index v) in
        if misses > assigned then Inl ValueError
        else Inr (add_duty (v_index v) \<lparr>da_assigned = assigned, da_included = assigned - misses\<rparr> attestations))"

definition get_frame_duties :: "duty list \<Rightarrow> epoch \<Rightarrow> epoch \<Rightarrow> validator_index_map \<Rightarrow> network_duties res" where
  "get_frame_duties raw_duties l_epoch r_epoch validators =
     (let total_epochs = r_epoch - l_epoch + 1 in
      bindR (foldR (epoch_step validators) raw_duties
        \<lparr>fa_proposals = [], fa_syncs = [], fa_missed_atts = [], fa_processed_epochs = []\<rparr>) (\<lambda>s.
      if int (length (fa_processed_epochs s)) \<noteq> total_epochs then Inl ValueError
      else bindR (foldR (attestation_step l_epoch r_epoch (fa_missed_atts s)) (map snd validators) []) (\<lambda>attestations.
        Inr \<lparr>nd_attestations = attestations, nd_proposals = fa_proposals s, nd_syncs = fa_syncs s\<rparr>)))"

definition get_duties_state ::
    "(epoch \<Rightarrow> epoch \<Rightarrow> duty list res) \<Rightarrow> validator_index_map \<Rightarrow> epoch \<Rightarrow> epoch \<Rightarrow> int \<Rightarrow> duties_state res" where
  "get_duties_state epochs_data validators report_l_epoch report_r_epoch frame_len =
     bindR (new_state report_l_epoch report_r_epoch frame_len) (\<lambda>st.
       foldR (\<lambda>(l_epoch, r_epoch) st.
         bindR (epochs_data l_epoch r_epoch) (\<lambda>raw_duties.
         bindR (get_frame_duties raw_duties l_epoch r_epoch validators) (\<lambda>d.
           save_duties (l_epoch, r_epoch) d st))) (state_frames st) st)"

section \<open>What the duties of a frame are\<close>

text \<open>The specification: the duties a row stands for, and their sums.\<close>

definition sum_duties :: "duty_acc list \<Rightarrow> duty_acc" where
  "sum_duties ds = \<lparr>da_assigned = sum_list (map da_assigned ds), da_included = sum_list (map da_included ds)\<rparr>"

definition blocks_of :: "duty \<Rightarrow> int" where
  "blocks_of d = int (length (filter snd (zip (du_proposals_vids d) (du_proposals_flags d))))"

definition proposals_of :: "int \<Rightarrow> duty \<Rightarrow> duty_acc list" where
  "proposals_of vid d = [\<lparr>da_assigned = 1, da_included = of_bool f\<rparr>.
     (v, f) \<leftarrow> zip (du_proposals_vids d) (du_proposals_flags d), v = vid]"

definition syncs_of :: "int \<Rightarrow> duty \<Rightarrow> duty_acc list" where
  "syncs_of vid d =
     (if blocks_of d = 0 then []
      else [\<lparr>da_assigned = blocks_of d, da_included = blocks_of d - m\<rparr>.
        (v, m) \<leftarrow> zip (du_syncs_vids d) (du_syncs_misses d), v = vid])"

definition misses_of :: "int \<Rightarrow> duty list \<Rightarrow> int" where
  "misses_of vid ds = int (length (filter (\<lambda>d. vid \<in> set (du_missed_attestation_vids d)) ds))"

lemma sum_duties_simps [simp]:
  "sum_duties [] = no_duty" "sum_duties (a # ds) = merge_acc a (sum_duties ds)"
  "sum_duties (ds @ es) = merge_acc (sum_duties ds) (sum_duties es)"
  by (simp_all add: sum_duties_def no_duty_def merge_acc_def)

lemma step_results:
  "proposal_step vals (v, f) (props, b) = Inr r \<longleftrightarrow> map_of vals v \<noteq> None \<and>
     r = (add_duty v \<lparr>da_assigned = 1, da_included = of_bool f\<rparr> props, b + of_bool f)"
  "sync_step vals blocks (v, m) syncs = Inr r' \<longleftrightarrow> map_of vals v \<noteq> None \<and> m \<le> blocks \<and>
     r' = add_duty v \<lparr>da_assigned = blocks, da_included = blocks - m\<rparr> syncs"
  "miss_step vals e v missed = Inr r'' \<longleftrightarrow> (\<exists>w. map_of vals v = Some w \<and> is_active_validator w e) \<and>
     r'' = AList.update v (al_get 0 missed v + 1) missed"
  by (auto simp: proposal_step_def sync_step_def miss_step_def split: option.splits)

lemma proposals_loop:
  "foldR (proposal_step vals) xs (props, b) = Inr (props', b') \<Longrightarrow>
     b' = b + int (length (filter snd xs)) \<and>
     (\<forall>vid. al_get no_duty props' vid =
        merge_acc (al_get no_duty props vid) (sum_duties [\<lparr>da_assigned = 1, da_included = of_bool f\<rparr>. (v, f) \<leftarrow> xs, v = vid]))"
proof (induction xs arbitrary: props b)
  case (Cons x xs)
  obtain v f where x: "x = (v, f)" by fastforce
  from Cons.prems have "foldR (proposal_step vals) xs
      (add_duty v \<lparr>da_assigned = 1, da_included = of_bool f\<rparr> props, b + of_bool f) = Inr (props', b')"
    by (auto simp: x bindR_eq_Inr step_results)
  from Cons.IH[OF this] show ?case by (simp add: x merge_acc_assoc)
qed simp

lemma syncs_loop:
  "foldR (sync_step vals b) xs syncs = Inr syncs' \<Longrightarrow>
     (\<forall>(v, m) \<in> set xs. m \<le> b) \<and>
     (\<forall>vid. al_get no_duty syncs' vid =
        merge_acc (al_get no_duty syncs vid) (sum_duties [\<lparr>da_assigned = b, da_included = b - m\<rparr>. (v, m) \<leftarrow> xs, v = vid]))"
proof (induction xs arbitrary: syncs)
  case (Cons x xs)
  obtain v m where x: "x = (v, m)" by fastforce
  from Cons.prems have m: "m \<le> b" and "foldR (sync_step vals b) xs
      (add_duty v \<lparr>da_assigned = b, da_included = b - m\<rparr> syncs) = Inr syncs'"
    by (auto simp: x bindR_eq_Inr step_results)
  from Cons.IH[OF this(2)] m show ?case by (simp add: x merge_acc_assoc)
qed simp

lemma misses_loop:
  "foldR (miss_step vals e) xs missed = Inr missed' \<Longrightarrow> distinct xs \<Longrightarrow>
     (\<forall>vid. al_get 0 missed' vid = al_get 0 missed vid + of_bool (vid \<in> set xs)) \<and>
     (\<forall>vid \<in> set xs. \<exists>v. map_of vals vid = Some v \<and> is_active_validator v e)"
proof (induction xs arbitrary: missed)
  case (Cons x xs)
  from Cons.prems obtain v where v: "map_of vals x = Some v" "is_active_validator v e"
    and "foldR (miss_step vals e) xs (AList.update x (al_get 0 missed x + 1) missed) = Inr missed'"
    by (auto simp: bindR_eq_Inr step_results)
  from Cons.IH[OF this(3)] Cons.prems(2) v show ?case by auto
qed simp

lemma epochs_loop:
  assumes "foldR (epoch_step vals) raw \<lparr>fa_proposals = [], fa_syncs = [], fa_missed_atts = [], fa_processed_epochs = []\<rparr> = Inr s"
  shows "fa_processed_epochs s = map du_epoch raw \<and> distinct (map du_epoch raw) \<and>
    (\<forall>vid. al_get no_duty (fa_proposals s) vid = sum_duties (concat (map (proposals_of vid) raw)) \<and>
       al_get no_duty (fa_syncs s) vid = sum_duties (concat (map (syncs_of vid) raw)) \<and>
       al_get 0 (fa_missed_atts s) vid = misses_of vid raw)"
    (is "?P raw s")
  using assms
proof (rule foldR_prefix_invariant[where P = ?P])
  fix ys d zs s s' assume P: "?P ys s" and step: "epoch_step vals d s = Inr s'"
  from step obtain props b syncs missed where
    v: "validate_epoch_data d = Inr ()" "du_epoch d \<notin> set (fa_processed_epochs s)" and
    p: "foldR (proposal_step vals) (zip (du_proposals_vids d) (du_proposals_flags d)) (fa_proposals s, 0) = Inr (props, b)" and
    y: "(if b \<noteq> 0 then foldR (sync_step vals b) (zip (du_syncs_vids d) (du_syncs_misses d)) (fa_syncs s) else Inr (fa_syncs s)) = Inr syncs" and
    m: "foldR (miss_step vals (du_epoch d)) (du_missed_attestation_vids d) (fa_missed_atts s) = Inr missed" and
    s': "s' = \<lparr>fa_proposals = props, fa_syncs = syncs, fa_missed_atts = missed,
              fa_processed_epochs = fa_processed_epochs s @ [du_epoch d]\<rparr>"
    by (auto simp: epoch_step_def bindR_eq_Inr split: if_splits)
  from v(1) have d: "distinct (du_missed_attestation_vids d)" by (simp add: validate_epoch_data_def split: if_splits)
  have b: "b = blocks_of d" using proposals_loop[OF p] by (simp add: blocks_of_def)
  have "al_get no_duty syncs vid = merge_acc (al_get no_duty (fa_syncs s) vid) (sum_duties (syncs_of vid d))" for vid
  proof (cases "b = 0")
    case False
    with y have "foldR (sync_step vals b) (zip (du_syncs_vids d) (du_syncs_misses d)) (fa_syncs s) = Inr syncs" by simp
    from syncs_loop[OF this] False show ?thesis unfolding syncs_of_def b by simp
  qed (use y in \<open>simp add: syncs_of_def b\<close>)
  with proposals_loop[OF p] misses_loop[OF m d] P v(2) show "?P (ys @ [d]) s'"
    by (simp add: s' proposals_of_def misses_of_def)
qed (simp add: al_get_def misses_of_def)

lemma count_active_epochs_card:
  "count_active_epochs v l r = int (card {e \<in> {l..r}. is_active_validator v e})"
proof -
  have "{e \<in> {l..r}. is_active_validator v e} =
      {max l (vs_activation_epoch (v_validator v))..min r (vs_exit_epoch (v_validator v) - 1)}"
    by (auto simp: is_active_validator_def)
  then show ?thesis by (simp add: count_active_epochs_def Let_def)
qed

lemma attestations_loop:
  assumes "foldR (attestation_step l r missed) (map snd vals) [] = Inr atts"
    and "\<forall>(i, v) \<in> set vals. v_index v = i" and "distinct (map fst vals)"
  shows "al_get no_duty atts vid = (case map_of vals vid of
      None \<Rightarrow> no_duty
    | Some v \<Rightarrow> let a = count_active_epochs v l r in
        if a = 0 then no_duty else \<lparr>da_assigned = a, da_included = a - al_get 0 missed vid\<rparr>) \<and>
    (\<forall>v. map_of vals vid = Some v \<longrightarrow> count_active_epochs v l r \<noteq> 0 \<longrightarrow> al_get 0 missed vid \<le> count_active_epochs v l r)"
proof -
  have "al_get no_duty atts vid = merge_acc (al_get no_duty atts0 vid) (case map_of vals vid of
      None \<Rightarrow> no_duty
    | Some v \<Rightarrow> let a = count_active_epochs v l r in
        if a = 0 then no_duty else \<lparr>da_assigned = a, da_included = a - al_get 0 missed vid\<rparr>) \<and>
    (\<forall>v. map_of vals vid = Some v \<longrightarrow> count_active_epochs v l r \<noteq> 0 \<longrightarrow> al_get 0 missed vid \<le> count_active_epochs v l r)"
    if "foldR (attestation_step l r missed) (map snd vals) atts0 = Inr atts" for atts0
    using that assms(2,3)
  proof (induction vals arbitrary: atts0)
    case (Cons x vals)
    obtain i v where x: "x = (i, v)" by fastforce
    from Cons.prems(1) obtain atts1 where s: "attestation_step l r missed v atts0 = Inr atts1"
      "foldR (attestation_step l r missed) (map snd vals) atts1 = Inr atts" by (auto simp: x bindR_eq_Inr)
    have i: "v_index v = i" "map_of vals i = None" using Cons.prems(2,3) by (auto simp: x map_of_eq_None_iff)
    from Cons.IH[OF s(2)] Cons.prems(2,3) s(1) i show ?case
      by (auto simp: x attestation_step_def Let_def split: if_splits)
  qed simp
  from this[OF assms(1)] show ?thesis by (simp add: al_get_def)
qed


section \<open>A concrete frame\<close>

text \<open>Two epochs, validators 7 and 8: 8 is active from the second epoch on and misses it.\<close>

definition demo_frame_validator :: "int \<Rightarrow> epoch \<Rightarrow> validator" where
  "demo_frame_validator i activation =
     \<lparr>v_index = i, v_balance = 0, v_validator = \<lparr>vs_pubkey = [], vs_withdrawal_credentials = [], vs_effective_balance = 0,
       vs_slashed = False, vs_activation_eligibility_epoch = 0, vs_activation_epoch = activation,
       vs_exit_epoch = FAR_FUTURE_EPOCH, vs_withdrawable_epoch = FAR_FUTURE_EPOCH\<rparr>\<rparr>"

definition demo_rows :: "duty list" where
  "demo_rows =
     [\<lparr>du_epoch = 0, du_missed_attestation_vids = [], du_proposals_vids = [7], du_proposals_flags = [True],
       du_syncs_vids = [7], du_syncs_misses = [1]\<rparr>,
      \<lparr>du_epoch = 1, du_missed_attestation_vids = [8], du_proposals_vids = [7, 7], du_proposals_flags = [True, False],
       du_syncs_vids = [8], du_syncs_misses = [0]\<rparr>]"


end
