(* ===== verification/Keys_Client.thy ===== *)
theory Keys_Client
  imports Http
begin

text \<open>
  \<open>src/providers/keys/client.py\<close>: Lido keys from the keys API. The service answers for its own latest block,
  so an answer is used only if that block is not older than the one asked about; \<open>ka_net i\<close> is the network
  during the \<open>i\<close>-th attempt. Sleeping between the attempts is left out.
\<close>

record kapi_client =
  ka_hosts :: "string list"
  ka_retry_count :: nat
  ka_net :: "nat \<Rightarrow> network"

definition USED_MODULE_OPERATORS_KEYS :: string where
  "USED_MODULE_OPERATORS_KEYS = ''v1/modules/{}/operators/keys?used=true''"
definition USED_KEYS :: string where "USED_KEYS = ''v1/keys?used=true''"
definition STATUS :: string where "STATUS = ''v1/status''"

definition kapi_request :: "string \<Rightarrow> json list \<Rightarrow> http_request" where
  "kapi_request endpoint path_params =
     \<lparr>rq_method = GET, rq_endpoint = endpoint, rq_path_params = path_params, rq_query_params = [], rq_body = JNull\<rparr>"

definition kapi_get :: "kapi_client \<Rightarrow> http_request \<Rightarrow> nat \<Rightarrow> (payload \<times> kwargs) hres" where
  "kapi_get ka rq i = http_get (ka_net ka i) (ka_hosts ka) rq never_force data_is_any"

definition blocknumber_meta :: "kwargs \<Rightarrow> int res" where
  \<comment> \<open>\<open>meta['meta']['elBlockSnapshot']['blockNumber']\<close>, compared as a number\<close>
  "blocknumber_meta meta =
     bindR (lookupR meta ''meta'') (\<lambda>m.
     bindR (json_get m ''elBlockSnapshot'') (\<lambda>snapshot.
     bindR (json_get snapshot ''blockNumber'') (\<lambda>n.
       case n of JInt n \<Rightarrow> Inr n | JBool b \<Rightarrow> Inr (of_bool b) | _ \<Rightarrow> Inl TypeError)))"

fun attempts_loop :: "(nat \<Rightarrow> (payload \<times> kwargs) hres) \<Rightarrow> int \<Rightarrow> nat list \<Rightarrow> payload hres" where
  "attempts_loop get block_number [] = Inl (Raised KeysOutdatedException)"
| "attempts_loop get block_number (i # is) =
     bindH (get i) (\<lambda>(data, meta).
     bindH (liftH (blocknumber_meta meta)) (\<lambda>n.
       if n \<ge> block_number then Inr data else attempts_loop get block_number is))"

definition get_with_blockstamp :: "kapi_client \<Rightarrow> http_request \<Rightarrow> blockstamp \<Rightarrow> payload hres" where
  "get_with_blockstamp ka rq bs = attempts_loop (kapi_get ka rq) (bs_block_number bs) [0..<ka_retry_count ka]"

fun check_used_keys :: "string list \<Rightarrow> kapi_key list \<Rightarrow> unit res" where
  "check_used_keys keys_seen [] = Inr ()"
| "check_used_keys keys_seen (k # ks) =
     (if \<not> kk_used k then Inl KAPIInconsistentData
      else if lk_key k \<in> set keys_seen then Inl KAPIInconsistentData
      else check_used_keys (lk_key k # keys_seen) ks)"

fun json_of_payload :: "payload \<Rightarrow> json res" where
  "json_of_payload (Plain j) = Inr j"
| "json_of_payload (Transient _) = Inl TypeError"

definition checked_keys :: "json \<Rightarrow> kapi_key list res" where
  "checked_keys j =
     bindR (list_of (transform lido_key_response) j) (\<lambda>keys. bindR (check_used_keys [] keys) (\<lambda>_. Inr keys))"

definition kapi_get_used_lido_keys :: "kapi_client \<Rightarrow> blockstamp \<Rightarrow> kapi_key list hres" where
  "kapi_get_used_lido_keys ka bs =
     bindH (get_with_blockstamp ka (kapi_request USED_KEYS []) bs) (\<lambda>data.
       liftH (bindR (json_of_payload data) checked_keys))"

definition kapi_get_used_module_operators_keys ::
    "kapi_client \<Rightarrow> string \<Rightarrow> blockstamp \<Rightarrow> (kapi_key list \<times> kwargs) hres" where
  \<comment> \<open>the keys, and the rest of the answer\<close>
  "kapi_get_used_module_operators_keys ka module_address bs =
     bindH (get_with_blockstamp ka (kapi_request USED_MODULE_OPERATORS_KEYS [JStr module_address]) bs) (\<lambda>data. liftH (
       bindR (json_of_payload data) (\<lambda>data.
       bindR (json_get data ''module'') (\<lambda>m.
       bindR (json_get m ''stakingModuleAddress'') (\<lambda>kapi_module_address.
         if kapi_module_address \<noteq> JStr module_address then Inl KAPIInconsistentData
         else
           bindR (json_get data ''keys'') (\<lambda>keys.
           bindR (checked_keys keys) (\<lambda>keys.
           bindR (kwargs_of data) (\<lambda>kvs. Inr (keys, AList.delete ''keys'' kvs)))))))))"

definition kapi_get_status :: "kapi_client \<Rightarrow> kapi_status hres" where
  "kapi_get_status ka =
     bindH (http_get (ka_net ka 0) (ka_hosts ka) (kapi_request STATUS []) never_force data_is_dict) (\<lambda>(data, _).
       liftH (bindR (json_of_payload data) (transform kapi_status_response)))"

definition kapi_get_chain_id :: "kapi_client \<Rightarrow> string \<Rightarrow> int hres" where
  "kapi_get_chain_id ka host =
     bindH (get_without_fallbacks (ka_net ka 0) (kapi_request STATUS []) False data_is_dict None host) (\<lambda>(data, _).
     bindH (liftH (bindR (json_of_payload data) (transform kapi_status_response))) (\<lambda>status. Inr (ks_chain_id status)))"

section \<open>Fresh keys\<close>

definition snapshot_at :: "kapi_client \<Rightarrow> http_request \<Rightarrow> nat \<Rightarrow> payload \<Rightarrow> int \<Rightarrow> bool" where
  "snapshot_at ka rq i data n \<longleftrightarrow> (\<exists>meta. kapi_get ka rq i = Inr (data, meta) \<and> blocknumber_meta meta = Inr n)"

lemma attempts_loop_ok:
  "attempts_loop (kapi_get ka rq) b [k..<m] = Inr data \<Longrightarrow>
     \<exists>i n. k \<le> i \<and> i < m \<and> snapshot_at ka rq i data n \<and> b \<le> n \<and>
       (\<forall>j. k \<le> j \<and> j < i \<longrightarrow> (\<exists>d n. snapshot_at ka rq j d n \<and> n < b))"
proof (induction "m - k" arbitrary: k)
  case (Suc x)
  then have up: "[k..<m] = k # [Suc k..<m]" by (simp add: upt_conv_Cons)
  from Suc.prems obtain d meta n where a: "kapi_get ka rq k = Inr (d, meta)" "blocknumber_meta meta = Inr n"
    and r: "(if n \<ge> b then Inr d else attempts_loop (kapi_get ka rq) b [Suc k..<m]) = Inr data"
    by (auto simp: up bindH_eq_Inr)
  have snap: "snapshot_at ka rq k d n" using a by (auto simp: snapshot_at_def)
  show ?case
  proof (cases "n \<ge> b")
    case True
    then show ?thesis using r snap Suc.hyps(2) by (intro exI[of _ k] exI[of _ n]) auto
  next
    case False
    then obtain i n' where i: "Suc k \<le> i" "i < m" "snapshot_at ka rq i data n'" "b \<le> n'"
      "\<forall>j. Suc k \<le> j \<and> j < i \<longrightarrow> (\<exists>d n. snapshot_at ka rq j d n \<and> n < b)"
      using Suc.hyps(1)[of "Suc k"] Suc.hyps(2) r that by (metis (no_types, lifting) Suc_diff_Suc diff_Suc_Suc nat.inject zero_less_diff zero_less_Suc)
    have "\<exists>d n. snapshot_at ka rq j d n \<and> n < b" if "k \<le> j" "j < i" for j
    proof (cases "j = k")
      case True
      then show ?thesis using snap False by (intro exI[of _ d] exI[of _ n]) simp
    qed (use that i(5) in auto)
    then show ?thesis using i by (intro exI[of _ i] exI[of _ n']) auto
  qed
qed simp

lemma attempts_loop_stale:
  "\<forall>i \<in> set is. \<exists>d n. snapshot_at ka rq i d n \<and> n < b \<Longrightarrow>
     attempts_loop (kapi_get ka rq) b is = Inl (Raised KeysOutdatedException)"
  by (induction "is") (auto simp: snapshot_at_def)

lemma check_used_keys_iff:
  "check_used_keys seen ks = Inr u \<longleftrightarrow>
     (\<forall>k \<in> set ks. kk_used k) \<and> distinct (map lk_key ks) \<and> lk_key ` set ks \<inter> set seen = {}"
  by (induction ks arbitrary: seen) auto

lemma key_lower: "lido_key_response kw = Inr k \<Longrightarrow> lower (lk_key k) = lk_key k"
  by (auto simp: lido_key_response_def bindR_eq_Inr)

text \<open>
  C37. Keys are never older than the report they are used for: a list of used keys comes from the first
  attempt whose snapshot reached the block of the report, all attempts before it being stale, and holds
  used keys only, each once and in lower case. If every attempt is stale the report is given up with
  \<open>KeysOutdatedException\<close>.
\<close>

theorem keys_fresh:
  defines "rq \<equiv> kapi_request USED_KEYS []"
  shows "(\<forall>keys. kapi_get_used_lido_keys ka bs = Inr keys \<longrightarrow>
      (\<exists>i n j. i < ka_retry_count ka \<and> snapshot_at ka rq i (Plain j) n \<and> bs_block_number bs \<le> n \<and>
        (\<forall>i' < i. \<exists>d n. snapshot_at ka rq i' d n \<and> n < bs_block_number bs) \<and>
        list_of (transform lido_key_response) j = Inr keys) \<and>
      (\<forall>k \<in> set keys. kk_used k \<and> lower (lk_key k) = lk_key k) \<and> distinct (map lk_key keys)) \<and>
    ((\<forall>i < ka_retry_count ka. \<exists>d n. snapshot_at ka rq i d n \<and> n < bs_block_number bs) \<longrightarrow>
      kapi_get_used_lido_keys ka bs = Inl (Raised KeysOutdatedException))"
proof (rule conjI; intro allI impI)
  fix keys
  assume "kapi_get_used_lido_keys ka bs = Inr keys"
  then obtain j where g: "get_with_blockstamp ka rq bs = Inr (Plain j)"
    and l: "list_of (transform lido_key_response) j = Inr keys" and c: "check_used_keys [] keys = Inr ()"
    by (auto simp: kapi_get_used_lido_keys_def rq_def bindH_eq_Inr bindR_eq_Inr checked_keys_def elim!: json_of_payload.elims)
  have "\<forall>k \<in> set keys. lower (lk_key k) = lk_key k"
    using l by (rule list_of_all) (auto simp: transform_def bindR_eq_Inr dest: key_lower)
  moreover have "\<exists>i n. i < ka_retry_count ka \<and> snapshot_at ka rq i (Plain j) n \<and> bs_block_number bs \<le> n \<and>
        (\<forall>i' < i. \<exists>d n. snapshot_at ka rq i' d n \<and> n < bs_block_number bs)"
    using attempts_loop_ok[OF g[unfolded get_with_blockstamp_def]] by auto
  ultimately show "(\<exists>i n j. i < ka_retry_count ka \<and> snapshot_at ka rq i (Plain j) n \<and> bs_block_number bs \<le> n \<and>
        (\<forall>i' < i. \<exists>d n. snapshot_at ka rq i' d n \<and> n < bs_block_number bs) \<and>
        list_of (transform lido_key_response) j = Inr keys) \<and>
      (\<forall>k \<in> set keys. kk_used k \<and> lower (lk_key k) = lk_key k) \<and> distinct (map lk_key keys)"
    using l c unfolding check_used_keys_iff by blast
next
  assume "\<forall>i < ka_retry_count ka. \<exists>d n. snapshot_at ka rq i d n \<and> n < bs_block_number bs"
  then have "attempts_loop (kapi_get ka rq) (bs_block_number bs) [0..<ka_retry_count ka] = Inl (Raised KeysOutdatedException)"
    by (intro attempts_loop_stale) auto
  then show "kapi_get_used_lido_keys ka bs = Inl (Raised KeysOutdatedException)"
    by (simp add: kapi_get_used_lido_keys_def get_with_blockstamp_def rq_def)
qed

text \<open>A service that catches up: block 9 at first, block 10 at the second attempt.\<close>

definition demo_keys_answer :: "nat \<Rightarrow> json" where
  "demo_keys_answer i = JObj
     [(''data'', JList [JObj [(''index'', JInt 0), (''key'', JStr ''0xAB''), (''depositSignature'', JStr ''0xc''),
        (''operatorIndex'', JInt 3), (''used'', JBool True), (''moduleAddress'', JStr ''0xD'')]]),
      (''meta'', JObj [(''elBlockSnapshot'', JObj [(''blockNumber'', JInt (9 + int i))])])]"

definition demo_kapi :: kapi_client where
  "demo_kapi = \<lparr>ka_hosts = [''kapi''], ka_retry_count = 3, ka_net = (\<lambda>i host rq.
     Some \<lparr>hr_status = 200, hr_text = ''t'', hr_json = Some (demo_keys_answer i), hr_stream = SScalar JNull\<rparr>)\<rparr>"

definition demo_block :: "int \<Rightarrow> blockstamp" where
  "demo_block n = \<lparr>bs_state_root = ''s'', bs_slot_number = n, bs_block_hash = ''b'', bs_block_number = n, bs_block_timestamp = n\<rparr>"

theorem keys_fresh_witness:
  "\<exists>keys. kapi_get_used_lido_keys demo_kapi (demo_block 10) = Inr keys \<and> map lk_key keys = [''0xab''] \<and>
     (\<forall>k \<in> set keys. kk_used k)"
proof -
  have "case kapi_get_used_lido_keys demo_kapi (demo_block 10) of Inr keys \<Rightarrow> map lk_key keys = [''0xab''] | Inl _ \<Rightarrow> False"
    by code_simp
  then obtain keys where k: "kapi_get_used_lido_keys demo_kapi (demo_block 10) = Inr keys" "map lk_key keys = [''0xab'']"
    by (auto split: sum.splits)
  have "\<forall>k \<in> set keys. kk_used k"
    using keys_fresh[of demo_kapi "demo_block 10", THEN conjunct1, rule_format, OF k(1)] by simp
  with k show ?thesis by (intro exI[of _ keys] conjI)
qed

end
