(* ===== verification/Perf_Oracle.thy ===== *)
theory Perf_Oracle
  imports Daemon Distribution Frame_Duties Ipfs Json
begin

text \<open>
  \<open>src/modules/oracles/staking_modules/base.py\<close> with \<open>common/helpers/last_report.py\<close>, \<open>common/tree.py\<close>
  and the contract accessors of \<open>src/web3py/extensions/staking_module.py\<close>: the epoch range of a report,
  the demand posted to the collector, the trees of rewards and strikes, and the report. A Merkle tree
  (\<open>oz_merkle_tree\<close>) is the list of its leaves with a root function; its JSON text is the list of the
  leaves' JSON values behind \<open>se_render\<close> and \<open>se_parse\<close>.
\<close>

section \<open>Leaves as JSON values\<close>

fun json_int :: "json \<Rightarrow> int res" where
  \<comment> \<open>\<open>isinstance(x, int)\<close>; a Python bool is an int\<close>
  "json_int (JInt n) = Inr n"
| "json_int (JBool b) = Inr (of_bool b)"
| "json_int _ = Inl ValueError"

type_synonym rewards_leaf = "operator_id \<times> int"
type_synonym strikes_leaf = "operator_id \<times> bytes \<times> strikes_list"

definition rewards_leaf_json :: "rewards_leaf \<Rightarrow> json" where
  "rewards_leaf_json leaf = (case leaf of (no, shares) \<Rightarrow> JList [JInt no, JInt shares])"

fun rewards_leaf_of_json :: "json \<Rightarrow> rewards_leaf res" where
  "rewards_leaf_of_json (JList [no, shares]) =
     bindR (json_int no) (\<lambda>no. bindR (json_int shares) (\<lambda>shares. Inr (no, shares)))"
| "rewards_leaf_of_json _ = Inl ValueError"

definition strikes_leaf_json :: "strikes_leaf \<Rightarrow> json" where
  "strikes_leaf_json leaf = (case leaf of (no, pubkey, strikes) \<Rightarrow>
     JList [JInt no, JStr (to_0x_hex pubkey), JList (map JInt strikes)])"

fun strikes_leaf_of_json :: "json \<Rightarrow> strikes_leaf res" where
  "strikes_leaf_of_json (JList [no, JStr pubkey, JList strikes]) =
     bindR (json_int no) (\<lambda>no.
     if take 2 pubkey \<noteq> ''0x'' then Inl ValueError
     else bindR (hex_str_to_bytes pubkey) (\<lambda>pubkey.
          bindR (mapR json_int strikes) (\<lambda>strikes. Inr (no, pubkey, new_strikes_list strikes None))))"
| "strikes_leaf_of_json _ = Inl ValueError"

section \<open>Environment\<close>

record sm_report =
  sr_consensus_version :: int
  sr_ref_slot :: slot
  sr_tree_root :: bytes
  sr_tree_cid :: cid
  sr_log_cid :: cid
  sr_distributed :: int
  sr_rebate :: int
  sr_strikes_tree_root :: bytes
  sr_strikes_tree_cid :: cid

record last_report =
  lr_rewards_tree_root :: bytes
  lr_strikes_tree_root :: bytes
  lr_rewards_tree_cid :: "cid option"
  lr_strikes_tree_cid :: "cid option"

record sm_env =
  se_oracle :: "sm_report oracle_env"
  se_distribution :: distribution_env
  se_last_processing_ref_slot :: "hexstr \<Rightarrow> slot res"
  se_initial_ref_slot :: "hexstr \<Rightarrow> slot res"
  se_stored_epochs_count :: "epoch \<Rightarrow> epoch \<Rightarrow> int res"
  se_epochs_demand :: "(epoch \<times> epoch) option res"
  se_epochs_data :: "epoch \<Rightarrow> epoch \<Rightarrow> duty list res"
  se_validators_by_indexes :: "validator_index_map res"
  se_tree_root :: "hexstr \<Rightarrow> bytes res"
  se_tree_cid :: "hexstr \<Rightarrow> string res"
  se_strikes_root :: "hexstr \<Rightarrow> bytes res"
  se_strikes_cid :: "hexstr \<Rightarrow> string res"
  se_max_operators_count :: int
  se_merkle_root :: "json list \<Rightarrow> bytes"
  se_render :: "json list \<Rightarrow> bytes"
  se_parse :: "bytes \<Rightarrow> json list res"
  se_logs :: "ref_blockstamp \<Rightarrow> bytes"
  se_ipfs :: ipfs_env
  se_ipfs_state :: ipfs_state
  se_is_paused :: "bool res"

section \<open>Trees\<close>

definition new_rewards_tree :: "rewards_leaf list \<Rightarrow> rewards_leaf list" where
  "new_rewards_tree leaves = sort_key fst leaves"

definition new_strikes_tree :: "strikes_leaf list \<Rightarrow> strikes_leaf list" where
  "new_strikes_tree leaves = sort_key (\<lambda>(no, pubkey, _). (no, pubkey)) leaves"

definition rewards_tree_root :: "sm_env \<Rightarrow> rewards_leaf list \<Rightarrow> bytes" where
  "rewards_tree_root env tree = se_merkle_root env (map rewards_leaf_json tree)"

definition strikes_tree_root :: "sm_env \<Rightarrow> strikes_leaf list \<Rightarrow> bytes" where
  "strikes_tree_root env tree = se_merkle_root env (map strikes_leaf_json tree)"

definition encode_rewards_tree :: "sm_env \<Rightarrow> rewards_leaf list \<Rightarrow> bytes" where
  "encode_rewards_tree env tree = se_render env (map rewards_leaf_json tree)"

definition encode_strikes_tree :: "sm_env \<Rightarrow> strikes_leaf list \<Rightarrow> bytes" where
  "encode_strikes_tree env tree = se_render env (map strikes_leaf_json tree)"

definition decode_tree :: "sm_env \<Rightarrow> (json \<Rightarrow> 'l res) \<Rightarrow> bytes \<Rightarrow> 'l list res" where
  \<comment> \<open>any failure becomes \<open>ValueError\<close>\<close>
  "decode_tree env leaf_of_json content =
     (case bindR (se_parse env content) (mapR leaf_of_json) of Inl _ \<Rightarrow> Inl ValueError | Inr leaves \<Rightarrow> Inr leaves)"

definition make_rewards_tree :: "sm_env \<Rightarrow> (operator_id \<times> int) list \<Rightarrow> rewards_leaf list res" where
  "make_rewards_tree env shares =
     (if shares = [] then Inl ValueError
      else
        let stone = se_max_operators_count env;
            shares = (if length shares = 1 then AList.update stone 0 shares else shares);
            shares = (if length shares > 2 \<and> map_of shares stone \<noteq> None then AList.delete stone shares else shares)
        in Inr (new_rewards_tree shares))"

definition make_strikes_tree :: "(strikes_validator \<times> strikes_list) list \<Rightarrow> strikes_leaf list res" where
  "make_strikes_tree strikes =
     (if strikes = [] then Inl ValueError
      else Inr (new_strikes_tree (map (\<lambda>((no, pubkey), s). (no, pubkey, s)) strikes)))"

section \<open>The last report\<close>

definition cid_of :: "string \<Rightarrow> cid option" where
  "cid_of result = (if result = '''' then None else Some result)"

definition load_last_report :: "sm_env \<Rightarrow> 'z blockstamp_scheme \<Rightarrow> last_report res" where
  "load_last_report env bs =
     bindR (se_tree_root env (bs_block_hash bs)) (\<lambda>rewards_tree_root.
     bindR (se_tree_cid env (bs_block_hash bs)) (\<lambda>rewards_tree_cid.
     if (cid_of rewards_tree_cid = None) \<noteq> (rewards_tree_root = ZERO_HASH32) then Inl InconsistentData
     else bindR (se_strikes_root env (bs_block_hash bs)) (\<lambda>strikes_tree_root.
          bindR (se_strikes_cid env (bs_block_hash bs)) (\<lambda>strikes_tree_cid.
          if (cid_of strikes_tree_cid = None) \<noteq> (strikes_tree_root = ZERO_HASH32) then Inl InconsistentData
          else Inr \<lparr>lr_rewards_tree_root = rewards_tree_root, lr_strikes_tree_root = strikes_tree_root,
                    lr_rewards_tree_cid = cid_of rewards_tree_cid, lr_strikes_tree_cid = cid_of strikes_tree_cid\<rparr>))))"

definition ipfs_fetch :: "sm_env \<Rightarrow> cid \<Rightarrow> frame \<Rightarrow> bytes res" where
  "ipfs_fetch env cid frame = ipfs_read (se_ipfs env) (se_ipfs_state env) cid frame"

definition last_report_rewards :: "sm_env \<Rightarrow> frame \<Rightarrow> last_report \<Rightarrow> rewards_leaf list res" where
  "last_report_rewards env current_frame lr =
     (case lr_rewards_tree_cid lr of
        None \<Rightarrow> Inr []
      | Some cid \<Rightarrow>
          if lr_rewards_tree_root lr = ZERO_HASH32 then Inr []
          else bindR (ipfs_fetch env cid current_frame) (\<lambda>content.
               bindR (decode_tree env rewards_leaf_of_json content) (\<lambda>tree.
               if rewards_tree_root env tree \<noteq> lr_rewards_tree_root lr then Inl ValueError else Inr tree)))"

definition last_report_strikes :: "sm_env \<Rightarrow> frame \<Rightarrow> last_report \<Rightarrow> (strikes_validator \<times> strikes_list) list res" where
  "last_report_strikes env current_frame lr =
     (case lr_strikes_tree_cid lr of
        None \<Rightarrow> Inr []
      | Some cid \<Rightarrow>
          if lr_strikes_tree_root lr = ZERO_HASH32 then Inr []
          else bindR (ipfs_fetch env cid current_frame) (\<lambda>content.
               bindR (decode_tree env strikes_leaf_of_json content) (\<lambda>tree.
               if strikes_tree_root env tree \<noteq> lr_strikes_tree_root lr then Inl ValueError
               else Inr (dict_of (map (\<lambda>(no, pubkey, strikes). ((no, pubkey), strikes)) tree)))))"

section \<open>The range of a report\<close>

definition get_l_epoch :: "sm_env \<Rightarrow> 'z blockstamp_scheme \<Rightarrow> epoch res" where
  "get_l_epoch env bs =
     bindR (get_web3_converter (se_oracle env) (bs_block_hash bs)) (\<lambda>(c, f).
     if initial_epoch f = get_epoch_by_timestamp c UINT64_MAX then Inl ValueError
     else bindR (se_last_processing_ref_slot env (bs_block_hash bs)) (\<lambda>last_processing_ref_slot.
       bindR (if last_processing_ref_slot = 0
              then bindR (se_initial_ref_slot env (bs_block_hash bs)) (\<lambda>initial_ref_slot.
                     let l_ref_slot = initial_ref_slot - slots_per_frame c f
                     in if l_ref_slot < 0 then Inl SMPerformanceOracleError else Inr l_ref_slot)
              else Inr last_processing_ref_slot) (\<lambda>l_ref_slot.
       if last_processing_ref_slot > bs_slot_number bs then Inl InconsistentData
       else Inr (get_epoch_by_slot c (l_ref_slot + 1)))))"

definition predict_r_epoch :: "sm_env \<Rightarrow> 'z blockstamp_scheme \<Rightarrow> epoch res" where
  "predict_r_epoch env bs =
     bindR (get_web3_converter (se_oracle env) (bs_block_hash bs)) (\<lambda>(c, f).
       let current_frame = get_frame_by_slot c f (bs_slot_number bs)
       in Inr (get_epoch_by_slot c (get_frame_last_slot c f current_frame)))"

definition get_predicted_range :: "sm_env \<Rightarrow> 'z blockstamp_scheme \<Rightarrow> (epoch \<times> epoch) res" where
  "get_predicted_range env bs =
     bindR (get_l_epoch env bs) (\<lambda>l_epoch. bindR (predict_r_epoch env bs) (\<lambda>r_epoch.
       if l_epoch > r_epoch then Inl SMPerformanceOracleError else Inr (l_epoch, r_epoch)))"

definition get_report_range :: "sm_env \<Rightarrow> ref_blockstamp \<Rightarrow> (epoch \<times> epoch) res" where
  "get_report_range env bs =
     bindR (get_l_epoch env bs) (\<lambda>l_epoch.
       let r_epoch = bs_ref_epoch bs
       in if l_epoch > r_epoch then Inl SMPerformanceOracleError else Inr (l_epoch, r_epoch))"

definition check_range_availability :: "sm_env \<Rightarrow> epoch \<Rightarrow> epoch \<Rightarrow> bool res" where
  "check_range_availability env l_epoch r_epoch =
     bindR (se_stored_epochs_count env l_epoch r_epoch) (\<lambda>stored_count. Inr (stored_count = r_epoch - l_epoch + 1))"

definition check_report_range_availability :: "sm_env \<Rightarrow> ref_blockstamp \<Rightarrow> bool res" where
  "check_report_range_availability env bs =
     bindR (get_report_range env bs) (\<lambda>(l_epoch, r_epoch). check_range_availability env l_epoch r_epoch)"

definition push_epochs_demand :: "sm_env \<Rightarrow> 'z blockstamp_scheme \<Rightarrow> (sm_report cstate, unit) act" where
  "push_epochs_demand env bs =
     bindA (liftA (get_predicted_range env bs)) (\<lambda>(l_epoch, r_epoch).
     bindA (liftA (check_range_availability env l_epoch r_epoch)) (\<lambda>is_range_available.
       if is_range_available then returnA ()
       else bindA (liftA (se_epochs_demand env)) (\<lambda>current_demand.
              if current_demand \<noteq> Some (l_epoch, r_epoch) then log_action (DemandPosted l_epoch r_epoch) else returnA ())))"

section \<open>The report\<close>

definition prepare_duties_state :: "sm_env \<Rightarrow> ref_blockstamp \<Rightarrow> duties_state res" where
  "prepare_duties_state env bs =
     bindR (get_report_range env bs) (\<lambda>(l_epoch, r_epoch).
     bindR (check_range_availability env l_epoch r_epoch) (\<lambda>is_data_available.
     if \<not> is_data_available then Inl ValueError
     else bindR (get_web3_converter (se_oracle env) (bs_block_hash bs)) (\<lambda>(c, f).
          bindR (se_validators_by_indexes env) (\<lambda>validators_by_index.
            get_duties_state (se_epochs_data env) validators_by_index l_epoch r_epoch (epochs_per_frame f)))))"

definition perf_distribution :: "sm_env \<Rightarrow> ref_blockstamp \<Rightarrow> (distribution_result \<times> last_report) res" where
  "perf_distribution env bs =
     bindR (prepare_duties_state env bs) (\<lambda>state.
     bindR (get_frame_number_by_slot (se_oracle env) bs) (\<lambda>current_frame.
     bindR (load_last_report env bs) (\<lambda>last_report.
     bindR (calculate_distribution (se_distribution env) state bs
         (last_report_strikes env current_frame last_report) (last_report_rewards env current_frame last_report))
       (\<lambda>result. Inr (result, last_report)))))"

definition publish_rewards :: "sm_env \<Rightarrow> distribution_result \<Rightarrow> last_report \<Rightarrow> (bytes \<times> cid option) res" where
  "publish_rewards env d lr =
     (if dr_total_rewards d \<noteq> 0
      then bindR (make_rewards_tree env (dr_total_rewards_map d)) (\<lambda>tree.
           bindR (publish (se_ipfs env) (encode_rewards_tree env tree)) (\<lambda>cid.
             Inr (rewards_tree_root env tree, Some cid)))
      else Inr (lr_rewards_tree_root lr, lr_rewards_tree_cid lr))"

definition publish_strikes :: "sm_env \<Rightarrow> distribution_result \<Rightarrow> last_report \<Rightarrow> (bytes \<times> cid option) res" where
  "publish_strikes env d lr =
     (if dr_strikes d \<noteq> []
      then bindR (make_strikes_tree (dr_strikes d)) (\<lambda>tree.
        let root = strikes_tree_root env tree in
        bindR (if root = lr_strikes_tree_root lr then Inr (lr_strikes_tree_cid lr)
               else bindR (publish (se_ipfs env) (encode_strikes_tree env tree)) (\<lambda>cid. Inr (Some cid))) (\<lambda>cid.
        if (cid = lr_strikes_tree_cid lr) \<noteq> (root = lr_strikes_tree_root lr) then Inl ValueError
        else Inr (root, cid)))
      else Inr (ZERO_HASH32, None))"

definition build_perf_report :: "sm_env \<Rightarrow> ref_blockstamp \<Rightarrow> sm_report res" where
  "build_perf_report env bs =
     bindR (perf_distribution env bs) (\<lambda>(distribution, last_report).
     bindR (publish_rewards env distribution last_report) (\<lambda>(rewards_root, rewards_cid).
     bindR (publish_strikes env distribution last_report) (\<lambda>(strikes_root, strikes_cid).
     bindR (publish (se_ipfs env) (se_logs env bs)) (\<lambda>log_cid.
     bindR (oe_consensus_version (se_oracle env) (bs_block_hash bs)) (\<lambda>consensus_version.
       Inr \<lparr>sr_consensus_version = consensus_version, sr_ref_slot = bs_ref_slot bs, sr_tree_root = rewards_root,
            sr_tree_cid = (case rewards_cid of None \<Rightarrow> '''' | Some c \<Rightarrow> c), sr_log_cid = log_cid,
            sr_distributed = dr_total_rewards distribution, sr_rebate = dr_total_rebate distribution,
            sr_strikes_tree_root = strikes_root,
            sr_strikes_tree_cid = (case strikes_cid of None \<Rightarrow> '''' | Some c \<Rightarrow> c)\<rparr>)))))"

section \<open>The module\<close>

definition perf_is_main_data_submitted :: "sm_env \<Rightarrow> blockstamp \<Rightarrow> bool res" where
  "perf_is_main_data_submitted env bs =
     bindR (se_last_processing_ref_slot env (bs_block_hash bs)) (\<lambda>last_ref_slot.
     bindR (get_initial_or_current_frame (se_oracle env) (bs_block_hash bs)) (\<lambda>frame.
       Inr (last_ref_slot = cf_ref_slot frame)))"

definition perf_is_contract_reportable :: "sm_env \<Rightarrow> blockstamp \<Rightarrow> bool res" where
  "perf_is_contract_reportable env bs = bindR (perf_is_main_data_submitted env bs) (\<lambda>b. Inr (\<not> b))"

definition perf_is_reporting_allowed :: "sm_env \<Rightarrow> ref_blockstamp \<Rightarrow> bool res" where
  "perf_is_reporting_allowed env bs = bindR (se_is_paused env) (\<lambda>on_pause. Inr (\<not> on_pause))"

definition perf_module :: "sm_env \<Rightarrow> sm_report oracle_env" where
  "perf_module env = (se_oracle env)
     \<lparr>oe_build_report := build_perf_report env, oe_is_main_data_submitted := perf_is_main_data_submitted env,
      oe_is_contract_reportable := perf_is_contract_reportable env,
      oe_is_reporting_allowed := perf_is_reporting_allowed env\<rparr>"

definition perf_execute_module :: "sm_env \<Rightarrow> blockstamp \<Rightarrow> (sm_report cstate, module_delay) act" where
  "perf_execute_module env last_finalized =
     bindA (liftA (check_compatibility (perf_module env) last_finalized)) (\<lambda>compatible.
       if \<not> compatible then returnA NEXT_FINALIZED_EPOCH
       else bindA (push_epochs_demand env last_finalized) (\<lambda>_.
         bindA (get_blockstamp_for_report (perf_module env) last_finalized) (\<lambda>report_blockstamp.
           case report_blockstamp of
             None \<Rightarrow> returnA NEXT_FINALIZED_EPOCH
           | Some bs \<Rightarrow>
               bindA (liftA (check_report_range_availability env bs)) (\<lambda>is_range_available.
                 if \<not> is_range_available then returnA NEXT_FINALIZED_EPOCH
                 else bindA (process_report (perf_module env) bs) (\<lambda>_. returnA NEXT_SLOT)))))"

section \<open>Report ranges\<close>

text \<open>
  The range of a report is whole frames: after a last report for frame i (for the first report i is -2,
  the frame before the one that ends at the initial epoch), a report for frame j covers exactly the
  epochs of the frames i + 1 to j. So consecutive reports leave no epoch out and count none twice, and
  the state of frames over the range can always be built.
\<close>

theorem report_range_whole_frames:
  assumes "get_web3_converter (se_oracle env) (bs_block_hash bs) = Inr (c, f)" "wf_chain c" "wf_frame f"
    and "get_report_range env bs = Inr (l, r)" "bs_ref_epoch bs = get_epoch_by_slot c (get_frame_last_slot c f j)"
    and "se_last_processing_ref_slot env (bs_block_hash bs) = Inr last_slot"
    and "last_slot \<noteq> 0 \<and> last_slot = get_frame_last_slot c f i \<or>
      last_slot = 0 \<and> i = -2 \<and> se_initial_ref_slot env (bs_block_hash bs) = Inr (get_frame_last_slot c f (-1))"
  shows "l = initial_epoch f + (i + 1) * epochs_per_frame f \<and> r = initial_epoch f + (j + 1) * epochs_per_frame f - 1 \<and>
    i < j \<and> r - l + 1 = (j - i) * epochs_per_frame f \<and> is_ok (new_state l r (epochs_per_frame f))"
proof -
  have pos: "0 < epochs_per_frame f" "0 < slots_per_epoch c" using assms(2,3) by (simp_all add: wf_chain_def wf_frame_def)
  have first: "get_epoch_by_slot c (get_frame_first_slot c f n) = initial_epoch f + n * epochs_per_frame f" for n
    by (rule frame_first_epoch_slot[OF assms(2)])
  have last: "get_epoch_by_slot c (get_frame_last_slot c f n) = initial_epoch f + (n + 1) * epochs_per_frame f - 1" for n
  proof -
    have "get_frame_last_slot c f n = get_epoch_last_slot c (initial_epoch f + (n + 1) * epochs_per_frame f - 1)"
      by (simp add: get_frame_last_slot_def get_frame_first_slot_def get_epoch_last_slot_def algebra_simps)
    then show ?thesis by (simp add: epoch_of_last_slot[OF assms(2)])
  qed
  have shift: "get_frame_last_slot c f (-1) - slots_per_frame c f + 1 = get_frame_first_slot c f (-1)"
    "get_frame_last_slot c f n + 1 = get_frame_first_slot c f (n + 1)" for n
    by (simp_all add: get_frame_last_slot_def get_frame_first_slot_def slots_per_frame_def algebra_simps)
  from assms(1,4,6) have l: "get_l_epoch env bs = Inr l" "r = bs_ref_epoch bs" "l \<le> r"
    by (auto simp: get_report_range_def bindR_eq_Inr Let_def split: if_splits)
  have leq: "l = initial_epoch f + (i + 1) * epochs_per_frame f"
    using l(1) assms(1,6,7) shift first[of "-1"] first[of "i + 1"]
    by (auto simp: get_l_epoch_def bindR_eq_Inr Let_def split: if_splits)
  have req: "r = initial_epoch f + (j + 1) * epochs_per_frame f - 1"
    using l(2) assms(5) last by simp
  have diff: "r - l + 1 = (j - i) * epochs_per_frame f" by (simp add: leq req algebra_simps)
  have "0 < (j - i) * epochs_per_frame f" using diff l(3) by linarith
  then have "i < j" using pos(1) by (simp add: zero_less_mult_iff)
  moreover have "is_ok (new_state l r (epochs_per_frame f))"
    using l(3) pos(1) diff by (simp add: new_state_def sequence_def calculate_frames_def)
  ultimately show ?thesis using leq req diff by simp
qed

section \<open>The rewards tree\<close>

lemma stone_sum:
  fixes xs :: "(int \<times> int) list"
  shows "distinct (map fst xs) \<Longrightarrow> sum_list (map snd (AList.delete k xs)) = sum_list (map snd xs) - al_get 0 xs k"
proof (induction xs)
  case (Cons x xs)
  obtain a v where x: "x = (a, v)" by fastforce
  show ?case
  proof (cases "a = k")
    case True
    then have "k \<notin> fst ` set xs" using Cons.prems x by auto
    then show ?thesis using True x by (simp add: al_get_def delete_id)
  next
    case False
    then show ?thesis using Cons x by (simp add: al_get_def)
  qed
qed (simp add: al_get_def)

lemma delete_length_ge: "length xs \<le> Suc (length (AList.delete k xs))" if "distinct (map fst xs)"
  using that
proof (induction xs)
  case (Cons x xs)
  show ?case
  proof (cases "fst x = k")
    case True
    then have "AList.delete k xs = xs" using Cons.prems by (intro delete_id) auto
    then show ?thesis using True by (cases x) simp
  next
    case False
    then show ?thesis using Cons by (cases x) simp
  qed
qed simp

text \<open>
  The rewards tree lets every operator claim: it has at least two leaves, so no proof is empty, with
  exactly the shares of every operator, in the order of the operators, and the same total; the only
  leaf of no operator is a zero share for the maximal operator number, in a tree of two.
\<close>

theorem rewards_tree_claimable:
  assumes "make_rewards_tree env shares = Inr tree" "distinct (map fst shares)"
  defines "stone \<equiv> se_max_operators_count env"
  assumes "al_get 0 shares stone = 0" "\<exists>(no, _) \<in> set shares. no \<noteq> stone"
  shows "2 \<le> length tree \<and> sorted (map fst tree) \<and> distinct (map fst tree) \<and>
    (\<forall>no. no \<noteq> stone \<longrightarrow> map_of tree no = map_of shares no) \<and>
    sum_list (map snd tree) = sum_list (map snd shares) \<and>
    (stone \<in> fst ` set tree \<longrightarrow> length tree = 2 \<and> map_of tree stone = Some 0)"
proof -
  define padded where "padded = (if length shares = 1 then AList.update stone 0 shares else shares)"
  define leaves where "leaves = (if length padded > 2 \<and> map_of padded stone \<noteq> None then AList.delete stone padded else padded)"
  from assms(1) have ne: "shares \<noteq> []" and tree: "tree = sort_key fst leaves"
    by (auto simp: make_rewards_tree_def Let_def new_rewards_tree_def leaves_def padded_def stone_def split: if_splits)
  have upd: "distinct (map fst padded)" "sum_list (map snd padded) = sum_list (map snd shares)" "2 \<le> length padded"
    "\<forall>no. no \<noteq> stone \<longrightarrow> map_of padded no = map_of shares no" "al_get 0 padded stone = 0"
  proof -
    have "2 \<le> length padded \<and> sum_list (map snd padded) = sum_list (map snd shares)"
    proof (cases "length shares = 1")
      case True
      then obtain a v where "shares = [(a, v)]" by (cases shares) auto
      with assms(5) show ?thesis by (auto simp: padded_def)
    next
      case False
      with ne show ?thesis by (cases shares; cases "tl shares") (auto simp: padded_def)
    qed
    then show "sum_list (map snd padded) = sum_list (map snd shares)" "2 \<le> length padded" by simp_all
  qed (use assms(2,4) in \<open>auto simp: padded_def distinct_update update_conv'\<close>)
  have l: "distinct (map fst leaves)" "sum_list (map snd leaves) = sum_list (map snd shares)" "2 \<le> length leaves"
    using upd(1-3,5) stone_sum[OF upd(1), of stone] delete_length_ge[OF upd(1), of stone]
    by (simp_all add: leaves_def distinct_delete)
  have lookup: "\<forall>no. no \<noteq> stone \<longrightarrow> map_of leaves no = map_of shares no"
    using upd(4) by (simp add: leaves_def delete_conv')
  have "length leaves = 2 \<and> map_of leaves stone = Some 0" if st: "stone \<in> fst ` set leaves"
  proof -
    from st have some: "map_of leaves stone \<noteq> None" unfolding map_of_eq_None_iff by blast
    then have "leaves = padded \<and> length padded \<le> 2"
      by (cases "2 < length padded"; cases "map_of padded stone") (simp_all add: leaves_def delete_conv')
    with some upd(3,5) show ?thesis by (cases "map_of padded stone") (simp_all add: al_get_def)
  qed
  moreover have m: "mset tree = mset leaves" by (simp add: tree)
  moreover have d: "distinct (map fst tree)" using m l(1) by (metis mset_eq_imp_distinct_iff mset_map)
  moreover have "map_of tree = map_of leaves" by (rule map_of_mset[OF m d])
  moreover have "sum_list (map snd tree) = sum_list (map snd leaves)" using m by (metis mset_map sum_mset_sum_list)
  moreover have "set tree = set leaves" "length tree = length leaves" "sorted (map fst tree)" by (simp_all add: tree)
  ultimately show ?thesis using l lookup by auto
qed

section \<open>Published trees are read back\<close>

lemma leaf_roundtrip:
  "rewards_leaf_of_json (rewards_leaf_json l) = Inr l"
  "\<forall>b \<in> set (fst (snd l')). 0 \<le> b \<and> b < 256 \<Longrightarrow> strikes_leaf_of_json (strikes_leaf_json l') = Inr l'"
proof -
  show "rewards_leaf_of_json (rewards_leaf_json l) = Inr l"
    by (cases l) (simp add: rewards_leaf_json_def)
  have "mapR json_int (map JInt s) = Inr s" for s by (induction s) simp_all
  then show "\<forall>b \<in> set (fst (snd l')). 0 \<le> b \<and> b < 256 \<Longrightarrow> strikes_leaf_of_json (strikes_leaf_json l') = Inr l'"
    by (cases l') (simp add: strikes_leaf_json_def hex_str_roundtrip new_strikes_list_def to_0x_hex_def[symmetric]
        to_0x_hex_def[THEN arg_cong[where f = "take 2"]])
qed

text \<open>
  The documented behaviour of the text form of a tree: what was written is read back.
\<close>

definition codec :: "sm_env \<Rightarrow> bool" where
  "codec env \<longleftrightarrow> (\<forall>leaves. se_parse env (se_render env leaves) = Inr leaves)"

definition reads_from :: "sm_env \<Rightarrow> sm_env \<Rightarrow> bool" where
  \<comment> \<open>a later state of the world with the same IPFS network and libraries\<close>
  "reads_from env' env \<longleftrightarrow> se_ipfs env' = se_ipfs env \<and> se_parse env' = se_parse env \<and>
     wf_ipfs (se_ipfs env) (se_ipfs_state env') \<and> 0 < ie_retries (se_ipfs env)"

lemma tree_restored:
  assumes "validating (se_ipfs env)" "codec env" "reads_from env' env"
    and "publish (se_ipfs env) (se_render env (map encode leaves)) = Inr cid" "ipfs_fetch env' cid frame = Inr content"
    and "\<forall>leaf \<in> set leaves. decode (encode leaf) = Inr leaf"
  shows "decode_tree env' decode content = Inr leaves"
proof -
  have "se_parse env content = Inr (map encode leaves)"
    using published_document[of "se_ipfs env" "se_render env" "map encode leaves" cid "se_ipfs_state env'" frame content "se_parse env"] assms
    by (simp add: codec_def reads_from_def ipfs_fetch_def)
  moreover have "mapR decode (map encode leaves) = Inr leaves"
    using assms(6) by (induction leaves) simp_all
  ultimately show ?thesis using assms(3) by (simp add: decode_tree_def reads_from_def)
qed

text \<open>
  C20. What one report publishes the next one reads: with validating IPFS providers, the rewards that the
  next report loads by the root and CID of this one are exactly the leaves of the tree built here, and the
  strikes it loads are the strikes stored here, validator by validator.
\<close>

theorem published_trees_restored:
  assumes "validating (se_ipfs env)" "codec env" "reads_from env' env"
    and "publish_rewards env d lr = Inr (rewards_root, Some rewards_cid)" "dr_total_rewards d \<noteq> 0" "rewards_root \<noteq> ZERO_HASH32"
    and "publish_strikes env d lr = Inr (strikes_root, Some strikes_cid)" "dr_strikes d \<noteq> []"
      "strikes_root \<noteq> lr_strikes_tree_root lr" "strikes_root \<noteq> ZERO_HASH32"
    and "distinct (map fst (dr_strikes d))" "\<forall>((no, pubkey), s) \<in> set (dr_strikes d). \<forall>b \<in> set pubkey. 0 \<le> b \<and> b < 256"
  defines "next_report \<equiv> \<lparr>lr_rewards_tree_root = rewards_root, lr_strikes_tree_root = strikes_root,
      lr_rewards_tree_cid = Some rewards_cid, lr_strikes_tree_cid = Some strikes_cid\<rparr>"
  shows "(\<forall>leaves. last_report_rewards env' frame next_report = Inr leaves \<longrightarrow>
      make_rewards_tree env (dr_total_rewards_map d) = Inr leaves) \<and>
    (\<forall>strikes. last_report_strikes env' frame next_report = Inr strikes \<longrightarrow> map_of strikes = map_of (dr_strikes d))"
proof (intro conjI allI impI)
  fix leaves assume l: "last_report_rewards env' frame next_report = Inr leaves"
  from assms(4,5) obtain tree where t: "make_rewards_tree env (dr_total_rewards_map d) = Inr tree"
    "publish (se_ipfs env) (se_render env (map rewards_leaf_json tree)) = Inr rewards_cid"
    by (auto simp: publish_rewards_def bindR_eq_Inr encode_rewards_tree_def)
  from l assms(6) obtain content where "ipfs_fetch env' rewards_cid frame = Inr content"
    "decode_tree env' rewards_leaf_of_json content = Inr leaves"
    by (auto simp: last_report_rewards_def next_report_def bindR_eq_Inr split: if_splits)
  with tree_restored[OF assms(1-3) t(2), of frame content rewards_leaf_of_json] leaf_roundtrip(1) t(1)
  show "make_rewards_tree env (dr_total_rewards_map d) = Inr leaves" by simp
next
  fix strikes assume l: "last_report_strikes env' frame next_report = Inr strikes"
  define tree where "tree = new_strikes_tree (map (\<lambda>((no, pubkey), s). (no, pubkey, s)) (dr_strikes d))"
  from assms(7-9) have t: "publish (se_ipfs env) (se_render env (map strikes_leaf_json tree)) = Inr strikes_cid"
    by (auto simp: publish_strikes_def bindR_eq_Inr make_strikes_tree_def Let_def encode_strikes_tree_def tree_def split: if_splits)
  from l assms(10) obtain content leaves where c: "ipfs_fetch env' strikes_cid frame = Inr content"
    "decode_tree env' strikes_leaf_of_json content = Inr leaves"
    "strikes = dict_of (map (\<lambda>(no, pubkey, s). ((no, pubkey), s)) leaves)"
    by (auto simp: last_report_strikes_def next_report_def bindR_eq_Inr split: if_splits)
  have "\<forall>leaf \<in> set tree. strikes_leaf_of_json (strikes_leaf_json leaf) = Inr leaf"
    using assms(12) leaf_roundtrip(2) by (fastforce simp: tree_def new_strikes_tree_def)
  with tree_restored[OF assms(1-3) t c(1)] c(2) have leaves: "leaves = tree" by simp
  let ?kv = "map (\<lambda>(no, pubkey, s). ((no, pubkey), s)) tree"
  have "mset ?kv = mset (dr_strikes d)"
    by (simp add: tree_def new_strikes_tree_def) (simp add: mset_map[symmetric] comp_def case_prod_beta' del: mset_map)
  then have "map_of ?kv = map_of (dr_strikes d)" "distinct (map fst ?kv)"
    using map_of_mset[of "dr_strikes d" ?kv] assms(11) by (metis, metis mset_eq_imp_distinct_iff mset_map)
  then show "map_of strikes = map_of (dr_strikes d)"
    using c(3) leaves by (simp add: dict_of_distinct_keys)
qed

section \<open>The cycle\<close>

interpretation perf: daemon_module
  "receive_last_finalized_slot (perf_module env)" "oracle_run_cycle (perf_module env) (perf_execute_module env)"
  oracle_exception_handler for env
  by unfold_locales (simp add: oracle_exception_handler_def split: if_splits)

section \<open>A published report\<close>

text \<open>
  A text form of trees and an injective address, to run the publication of a report: rewards of two
  operators and one strike.
\<close>

definition demo_render :: "json list \<Rightarrow> bytes" where
  "demo_render js = demo_ser (JList js)"

definition demo_parse_tree :: "bytes \<Rightarrow> json list res" where
  "demo_parse_tree bs = bindR (demo_parse bs) (\<lambda>j. case j of JList js \<Rightarrow> Inr js | _ \<Rightarrow> Inl ValueError)"

lemma demo_codec: "demo_parse_tree (demo_render js) = Inr js"
  using demo_parse_ser[of "JList js"] by (simp add: demo_parse_tree_def demo_render_def)

definition demo_result :: distribution_result where
  "demo_result = \<lparr>dr_total_rewards = 8, dr_total_rebate = 0, dr_total_rewards_map = [(1, 3), (0, 5)], dr_strikes = [((1, [2]), [1])]\<rparr>"

definition demo_rewards_tree :: "rewards_leaf list" where "demo_rewards_tree = [(0, 5), (1, 3)]"
definition demo_strikes_tree :: "strikes_leaf list" where "demo_strikes_tree = [(1, [2], [1])]"

definition demo_rewards_content :: bytes where
  "demo_rewards_content = demo_render (map rewards_leaf_json demo_rewards_tree)"

definition demo_strikes_content :: bytes where
  "demo_strikes_content = demo_render (map strikes_leaf_json demo_strikes_tree)"

definition demo_store :: ipfs_env where
  "demo_store =
     (let p = \<lparr>ip_class = ''K'',
        ip_fetch = (\<lambda>_ cid. if cid = demo_cid demo_rewards_content then Inr demo_rewards_content
           else if cid = demo_cid demo_strikes_content then Inr demo_strikes_content else Inl FetchError),
        ip_upload = (\<lambda>_ content. Inr (demo_cid content)), ip_pin = (\<lambda>_ _. Inr ())\<rparr>
      in \<lparr>ie_providers = [p], ie_priority_providers = [p], ie_completion = [0], ie_retries = 3,
          ie_validate_cid = True, ie_normalize_cid = Inr, ie_content_cid = demo_cid\<rparr>)"

definition demo_last :: last_report where
  "demo_last = \<lparr>lr_rewards_tree_root = ZERO_HASH32, lr_strikes_tree_root = ZERO_HASH32,
     lr_rewards_tree_cid = None, lr_strikes_tree_cid = None\<rparr>"

definition demo_sm :: "sm_env" where
  "demo_sm =
     \<lparr>se_oracle = demo_oracle_for \<lparr>sr_consensus_version = 3, sr_ref_slot = 0, sr_tree_root = [], sr_tree_cid = [], sr_log_cid = [],
        sr_distributed = 0, sr_rebate = 0, sr_strikes_tree_root = [], sr_strikes_tree_cid = []\<rparr>,
      se_distribution = demo_distribution_env,
      se_last_processing_ref_slot = (\<lambda>_. Inr 6458399), se_initial_ref_slot = (\<lambda>_. Inr 0), se_stored_epochs_count = (\<lambda>l r. Inr (r - l + 1)),
      se_epochs_demand = Inr None, se_epochs_data = (\<lambda>_ _. Inr []), se_validators_by_indexes = Inr [],
      se_tree_root = (\<lambda>_. Inr ZERO_HASH32), se_tree_cid = (\<lambda>_. Inr []), se_strikes_root = (\<lambda>_. Inr ZERO_HASH32),
      se_strikes_cid = (\<lambda>_. Inr []), se_max_operators_count = 100, se_merkle_root = demo_render, se_render = demo_render,
      se_parse = demo_parse_tree, se_logs = (\<lambda>_. []), se_ipfs = demo_store,
      se_ipfs_state = \<lparr>is_calls = 0, is_current_provider_index = 0, is_last_working_provider_index = 0, is_current_frame = None\<rparr>,
      se_is_paused = Inr False\<rparr>"

lemma demo_publish: "publish demo_store content = Inr (demo_cid content)"
  by (simp add: publish_def demo_store_def upload_to_provider_def numeral_3_eq_3 provider_publish_def provider_upload_def
      validate_cid_def Let_def select_cid_with_quorum_def)

lemma demo_fetch:
  "content \<in> {demo_rewards_content, demo_strikes_content} \<Longrightarrow> ipfs_fetch demo_sm (demo_cid content) frame = Inr content"
  using demo_cid_inj[THEN inj_eq]
  by (subst ipfs_fetch_def, subst ipfs_read_def, subst fetch.simps)
    (auto simp: demo_sm_def demo_store_def numeral_3_eq_3 fetch_once_def set_provider_for_frame_def Let_def provider_fetch_def validate_cid_def)

theorem published_trees_restored_witness:
  "last_report_rewards demo_sm 1 \<lparr>lr_rewards_tree_root = demo_rewards_content, lr_strikes_tree_root = demo_strikes_content,
      lr_rewards_tree_cid = Some (demo_cid demo_rewards_content), lr_strikes_tree_cid = Some (demo_cid demo_strikes_content)\<rparr> =
    make_rewards_tree demo_sm [(1, 3), (0, 5)]"
proof -
  let ?next = "\<lparr>lr_rewards_tree_root = demo_rewards_content, lr_strikes_tree_root = demo_strikes_content,
      lr_rewards_tree_cid = Some (demo_cid demo_rewards_content), lr_strikes_tree_cid = Some (demo_cid demo_strikes_content)\<rparr>"
  have v: "validating (se_ipfs demo_sm)" "codec demo_sm" "reads_from demo_sm demo_sm"
    by (simp_all add: validating_def codec_def reads_from_def wf_ipfs_def demo_sm_def demo_store_def Let_def demo_cid_inj demo_codec)
  have tree: "make_rewards_tree demo_sm [(1, 3), (0, 5)] = Inr demo_rewards_tree"
    "make_strikes_tree [((1, [2]), [1])] = Inr demo_strikes_tree"
    by code_simp+
  have zero: "demo_rewards_content \<noteq> ZERO_HASH32" "demo_strikes_content \<noteq> ZERO_HASH32" by code_simp+
  have root: "rewards_tree_root demo_sm demo_rewards_tree = demo_rewards_content" "strikes_tree_root demo_sm demo_strikes_tree = demo_strikes_content"
    "encode_rewards_tree demo_sm demo_rewards_tree = demo_rewards_content" "encode_strikes_tree demo_sm demo_strikes_tree = demo_strikes_content"
    "se_ipfs demo_sm = demo_store"
    by (simp_all add: rewards_tree_root_def strikes_tree_root_def encode_rewards_tree_def encode_strikes_tree_def demo_sm_def
        demo_rewards_content_def demo_strikes_content_def)
  have r: "publish_rewards demo_sm demo_result demo_last = Inr (demo_rewards_content, Some (demo_cid demo_rewards_content))"
    using tree(1) root by (simp add: publish_rewards_def demo_result_def demo_publish)
  have s: "publish_strikes demo_sm demo_result demo_last = Inr (demo_strikes_content, Some (demo_cid demo_strikes_content))"
    using tree(2) root zero by (simp add: publish_strikes_def demo_result_def demo_publish demo_last_def)
  have "mapR rewards_leaf_of_json (map rewards_leaf_json demo_rewards_tree) = Inr demo_rewards_tree" by code_simp
  then have "decode_tree demo_sm rewards_leaf_of_json demo_rewards_content = Inr demo_rewards_tree"
    by (simp add: decode_tree_def demo_sm_def demo_rewards_content_def demo_codec)
  then have l: "last_report_rewards demo_sm 1 ?next = Inr demo_rewards_tree"
    using zero root by (simp add: last_report_rewards_def demo_fetch)
  have "make_rewards_tree demo_sm (dr_total_rewards_map demo_result) = Inr demo_rewards_tree"
    using published_trees_restored[OF v r _ zero(1) s _ _ zero(2), of 1] l zero
    by (simp add: demo_result_def demo_last_def)
  with l show ?thesis by (simp add: demo_result_def)
qed

theorem report_range_whole_frames_witness:
  "get_report_range demo_sm (demo_report_block\<lparr>bs_ref_epoch := 202049, bs_slot_number := 6465599\<rparr>) = Inr (201825, 202049)"
proof -
  let ?b = "demo_report_block\<lparr>bs_ref_epoch := 202049, bs_slot_number := 6465599\<rparr>"
  have "is_ok (get_report_range demo_sm ?b)" by code_simp
  then obtain l r where r: "get_report_range demo_sm ?b = Inr (l, r)" by (auto simp: is_ok_iff)
  have c: "get_web3_converter (se_oracle demo_sm) (bs_block_hash ?b) = Inr (mainnet_chain, mainnet_frame)"
    "se_last_processing_ref_slot demo_sm (bs_block_hash ?b) = Inr 6458399"
    by (simp_all add: demo_sm_def get_web3_converter_def demo_oracle_for_def)
  have f: "get_frame_last_slot mainnet_chain mainnet_frame 0 = 6458399"
    "get_epoch_by_slot mainnet_chain (get_frame_last_slot mainnet_chain mainnet_frame 1) = 202049" by code_simp+
  have j: "bs_ref_epoch ?b = get_epoch_by_slot mainnet_chain (get_frame_last_slot mainnet_chain mainnet_frame 1)"
    using f(2) by simp
  have i: "(6458399 :: int) \<noteq> 0 \<and> 6458399 = get_frame_last_slot mainnet_chain mainnet_frame 0 \<or>
      (6458399 :: int) = 0 \<and> 0 = (-2 :: int) \<and> se_initial_ref_slot demo_sm (bs_block_hash ?b) = Inr (get_frame_last_slot mainnet_chain mainnet_frame (-1))"
    using f(1) by simp
  from report_range_whole_frames[OF c(1) wf_mainnet r j c(2) i] r show ?thesis
    by (simp add: mainnet_frame_def)
qed

theorem rewards_tree_claimable_witness:
  "make_rewards_tree demo_sm [(7, 3)] = Inr [(7, 3), (100, 0)] \<and> 2 \<le> length [(7 :: int, 3 :: int), (100, 0)]"
proof -
  have t: "make_rewards_tree demo_sm [(7, 3)] = Inr [(7, 3), (100, 0)]" by code_simp
  from rewards_tree_claimable[OF t] show ?thesis using t by (simp add: demo_sm_def al_get_def)
qed

end
