(* ===== verification/Performance_Client.thy ===== *)
theory Performance_Client
  imports Collector Http
begin

text \<open>
  \<open>src/providers/performance/client.py\<close>: the oracle's access to the performance database. \<open>duty_of\<close> and
  \<open>demand_of\<close> stand for pydantic's \<open>model_validate\<close>. The last section puts the model of the web server
  behind the client.
\<close>

record performance_client =
  pf_hosts :: "string list"
  pf_net :: network
  pf_batch_size :: int
  duty_of :: "json \<Rightarrow> duty res"
  demand_of :: "json \<Rightarrow> epochs_demand res"

definition API_EPOCHS_CHECK :: string where "API_EPOCHS_CHECK = ''v1/check-epochs''"
definition API_EPOCHS_DATA :: string where "API_EPOCHS_DATA = ''v1/epochs''"
definition API_EPOCHS_STORED_COUNT :: string where "API_EPOCHS_STORED_COUNT = API_EPOCHS_DATA @ ''/stored-count''"
definition API_EPOCHS_DEMAND :: string where "API_EPOCHS_DEMAND = ''v1/demands''"

definition pf_request :: "http_method \<Rightarrow> string \<Rightarrow> kwargs \<Rightarrow> json \<Rightarrow> http_request" where
  "pf_request m endpoint query_params body =
     \<lparr>rq_method = m, rq_endpoint = endpoint, rq_path_params = [], rq_query_params = query_params, rq_body = body\<rparr>"

definition range_query :: "epoch \<Rightarrow> epoch \<Rightarrow> kwargs" where
  "range_query from_epoch to_epoch = [(''from'', JInt from_epoch), (''to'', JInt to_epoch)]"

definition pf_get :: "performance_client \<Rightarrow> string \<Rightarrow> kwargs \<Rightarrow> return_value_validator \<Rightarrow> payload hres" where
  "pf_get pf endpoint query validate =
     bindH (http_get (pf_net pf) (pf_hosts pf) (pf_request GET endpoint query JNull) never_force validate) (\<lambda>(data, _). Inr data)"

definition pf_is_range_available :: "performance_client \<Rightarrow> epoch \<Rightarrow> epoch \<Rightarrow> bool hres" where
  "pf_is_range_available pf from_epoch to_epoch =
     bindH (pf_get pf API_EPOCHS_CHECK (range_query from_epoch to_epoch) data_is_bool) (\<lambda>data.
       case data of Plain (JBool b) \<Rightarrow> Inr b | _ \<Rightarrow> Inl (Raised ValueError))"

definition truthy :: "json \<Rightarrow> bool" where
  "truthy j = (case j of JNull \<Rightarrow> False | JBool b \<Rightarrow> b | JInt n \<Rightarrow> n \<noteq> 0 | JStr s \<Rightarrow> s \<noteq> [] | JList xs \<Rightarrow> xs \<noteq> [] | JObj kvs \<Rightarrow> kvs \<noteq> [])"

definition optional_model :: "(json \<Rightarrow> 'a res) \<Rightarrow> payload \<Rightarrow> 'a option hres" where
  "optional_model validate data =
     (case data of
        Plain j \<Rightarrow> if truthy j then bindH (liftH (validate j)) (\<lambda>a. Inr (Some a)) else Inr None
      | Transient _ \<Rightarrow> Inl (Raised TypeError))"

definition pf_get_epoch_data :: "performance_client \<Rightarrow> epoch \<Rightarrow> duty option hres" where
  "pf_get_epoch_data pf e =
     bindH (pf_get pf (API_EPOCHS_DATA @ ''/'' @ str_of_int e) [] data_is_any) (optional_model (duty_of pf))"

fun mapH :: "('a \<Rightarrow> 'b hres) \<Rightarrow> 'a list \<Rightarrow> 'b list hres" where
  "mapH f [] = Inr []"
| "mapH f (x # xs) = bindH (f x) (\<lambda>y. bindH (mapH f xs) (\<lambda>ys. Inr (y # ys)))"

text \<open>The generator read to its end: batches of epochs, each by its first and last.\<close>

definition pf_get_epochs_data :: "performance_client \<Rightarrow> epoch \<Rightarrow> epoch \<Rightarrow> duty list hres" where
  "pf_get_epochs_data pf from_epoch to_epoch =
     bindH (liftH (sequence from_epoch to_epoch)) (\<lambda>epochs.
     if pf_batch_size pf < 1 then Inl (Raised ValueError)
     else
       bindH (mapH (\<lambda>epochs_batch.
           bindH (pf_get pf API_EPOCHS_DATA (range_query (hd epochs_batch) (last epochs_batch)) data_is_list) (\<lambda>data.
             case data of Plain (JList items) \<Rightarrow> liftH (mapR (duty_of pf) items) | _ \<Rightarrow> Inl (Raised TypeError)))
         (batched (nat (pf_batch_size pf)) epochs)) (\<lambda>batches. Inr (concat batches)))"

definition pf_get_epochs_demand :: "performance_client \<Rightarrow> string \<Rightarrow> epochs_demand option hres" where
  "pf_get_epochs_demand pf consumer =
     bindH (pf_get pf (API_EPOCHS_DEMAND @ ''/'' @ consumer) [] data_is_any) (optional_model (demand_of pf))"

definition pf_get_stored_epochs_count :: "performance_client \<Rightarrow> epoch \<Rightarrow> epoch \<Rightarrow> int hres" where
  "pf_get_stored_epochs_count pf from_epoch to_epoch =
     bindH (pf_get pf API_EPOCHS_STORED_COUNT (range_query from_epoch to_epoch) data_is_int) (\<lambda>data.
       case data of Plain (JInt n) \<Rightarrow> Inr n | _ \<Rightarrow> Inl (Raised ValueError))"

definition pf_post_epochs_demand :: "performance_client \<Rightarrow> string \<Rightarrow> epoch \<Rightarrow> epoch \<Rightarrow> unit hres" where
  "pf_post_epochs_demand pf consumer from_epoch to_epoch =
     bindH (http_post (pf_net pf) (pf_hosts pf) (pf_request POST API_EPOCHS_DEMAND []
         (JObj [(''consumer'', JStr consumer), (''from_epoch'', JInt from_epoch), (''to_epoch'', JInt to_epoch)]))
       never_force data_is_any) (\<lambda>_. Inr ())"

definition pf_delete_epochs_demand :: "performance_client \<Rightarrow> string \<Rightarrow> unit hres" where
  "pf_delete_epochs_demand pf consumer =
     bindH (http_delete (pf_net pf) (pf_hosts pf) (pf_request DELETE (API_EPOCHS_DEMAND @ ''/'' @ consumer) [] JNull)
       never_force data_is_any) (\<lambda>_. Inr ())"

section \<open>The web server behind the client\<close>

text \<open>What FastAPI sends for a reply, \<open>duty_json\<close> being its form of a row, and the routes of the range queries.\<close>

definition respond :: "(duty \<Rightarrow> json) \<Rightarrow> reply \<Rightarrow> http_response" where
  "respond duty_json reply =
     (case reply of
        Inr (ABool b) \<Rightarrow> \<lparr>hr_status = 200, hr_text = ''json'', hr_json = Some (JBool b), hr_stream = SScalar JNull\<rparr>
      | Inr (ACount n) \<Rightarrow> \<lparr>hr_status = 200, hr_text = ''json'', hr_json = Some (JInt n), hr_stream = SScalar JNull\<rparr>
      | Inr (ADuties ds) \<Rightarrow>
          \<lparr>hr_status = 200, hr_text = ''json'', hr_json = Some (JList (map duty_json ds)), hr_stream = SScalar JNull\<rparr>
      | Inr _ \<Rightarrow> \<lparr>hr_status = 200, hr_text = ''json'', hr_json = Some JNull, hr_stream = SScalar JNull\<rparr>
      | Inl e \<Rightarrow> \<lparr>hr_status = (case e of HTTPException n \<Rightarrow> n | GapsInRange _ \<Rightarrow> 409 | InternalError _ \<Rightarrow> 500),
                  hr_text = ''error'', hr_json = None, hr_stream = SScalar JNull\<rparr>)"

definition performance_server :: "(duty \<Rightarrow> json) \<Rightarrow> int \<Rightarrow> duties_db \<Rightarrow> network" where
  "performance_server duty_json max_range db host rq =
     (case (map_of (rq_query_params rq) ''from'', map_of (rq_query_params rq) ''to'') of
        (Some (JInt a), Some (JInt b)) \<Rightarrow>
          if rq_method rq \<noteq> GET then None
          else if rq_endpoint rq = API_EPOCHS_CHECK then Some (respond duty_json (fst (handle max_range 0 (EpochsCheck a b) db)))
          else if rq_endpoint rq = API_EPOCHS_DATA then Some (respond duty_json (fst (handle max_range 0 (EpochsData a b) db)))
          else if rq_endpoint rq = API_EPOCHS_STORED_COUNT then
            Some (respond duty_json (fst (handle max_range 0 (StoredEpochsCount a b) db)))
          else None
      | _ \<Rightarrow> None)"

lemma server_routes:
  "performance_server duty_json max_range db host (pf_request GET API_EPOCHS_DATA (range_query a b) JNull) =
     Some (respond duty_json (fst (handle max_range 0 (EpochsData a b) db)))"
  "performance_server duty_json max_range db host (pf_request GET API_EPOCHS_CHECK (range_query a b) JNull) =
     Some (respond duty_json (fst (handle max_range 0 (EpochsCheck a b) db)))"
  by (simp_all add: performance_server_def pf_request_def range_query_def API_EPOCHS_DATA_def API_EPOCHS_CHECK_def)

text \<open>Hosts in front of one database; some of them may not answer.\<close>

definition serving :: "(duty \<Rightarrow> json) \<Rightarrow> int \<Rightarrow> duties_db \<Rightarrow> performance_client \<Rightarrow> bool" where
  "serving duty_json max_range db pf \<longleftrightarrow>
     (\<forall>host \<in> set (pf_hosts pf). pf_net pf host = performance_server duty_json max_range db host \<or> pf_net pf host = (\<lambda>_. None)) \<and>
     (\<exists>host \<in> set (pf_hosts pf). pf_net pf host = performance_server duty_json max_range db host)"

lemma pf_get_served:
  assumes "serving duty_json max_range db pf" and "\<And>host. performance_server duty_json max_range db host rq = Some response"
    and "rq = pf_request GET endpoint query JNull"
  shows "case get_without_fallbacks (\<lambda>_ _. Some response) rq False validate None [] of
      Inr (data, meta) \<Rightarrow> pf_get pf endpoint query validate = Inr data
    | Inl _ \<Rightarrow> \<exists>e. pf_get pf endpoint query validate = Inl e"
proof -
  let ?attempt = "get_without_fallbacks (pf_net pf) rq False validate None"
    and ?answer = "get_without_fallbacks (\<lambda>_ _. Some response) rq False validate None []"
  have "?attempt host = ?answer" if "pf_net pf host = performance_server duty_json max_range db host" for host
    using that assms(2)[of host] by (simp add: get_without_fallbacks_def)
  moreover have "\<exists>e. ?attempt host = Inl e" if "pf_net pf host = (\<lambda>_. None)" for host
    using that by (simp add: get_without_fallbacks_def)
  ultimately have "case ?answer of Inr a \<Rightarrow> http_get (pf_net pf) (pf_hosts pf) rq never_force validate = Inr a
      | Inl _ \<Rightarrow> \<exists>e. http_get (pf_net pf) (pf_hosts pf) rq never_force validate = Inl e"
    using assms(1) unfolding serving_def by (intro gets.agreed) blast+
  then show ?thesis by (auto simp: pf_get_def assms(3) split: sum.splits prod.splits)
qed

text \<open>One batch.\<close>

lemma batch_served:
  assumes "wf_store db" and "valid_limited_range max_range a b" and "serving duty_json max_range db pf"
  shows "if \<forall>e \<in> {a..b}. has_epoch e db
    then pf_get pf API_EPOCHS_DATA (range_query a b) data_is_list = Inr (Plain (JList (map duty_json (get_epochs_data a b db))))
    else \<exists>e. pf_get pf API_EPOCHS_DATA (range_query a b) data_is_list = Inl e"
proof -
  have ab: "a \<le> b" using assms(2) by (simp add: valid_limited_range_def valid_epoch_range_def)
  have wf: "wf_duties db" using assms(1) by (simp add: wf_store_def)
  have c: "get_complete_epochs_data a b db = (if \<forall>e \<in> {a..b}. has_epoch e db then Inr (get_epochs_data a b db)
      else Inl (IncompleteEpochRange (filter (\<lambda>e. \<not> has_epoch e db) [a..b])))" using complete_range[OF wf ab] by blast
  have h: "fst (handle max_range 0 (EpochsData a b) db) =
      (if \<forall>e \<in> {a..b}. has_epoch e db then Inr (ADuties (get_epochs_data a b db))
       else Inl (GapsInRange (filter (\<lambda>e. \<not> has_epoch e db) [a..b])))"
    using assms(2) c by (simp add: handle_def checked_def epochs_data_def)
  show ?thesis
    using pf_get_served[OF assms(3) server_routes(1)[of _ _ _ _ a b] refl, where validate = data_is_list, unfolded h]
    by (cases "\<forall>e \<in> {a..b}. has_epoch e db")
      (simp_all only: if_True if_False, simp_all add: get_without_fallbacks_def respond_def OK_def split_data_def data_is_list_def)
qed

lemma check_served:
  assumes "wf_store db" and "valid_epoch_range a b" and "serving duty_json max_range db pf"
  shows "pf_is_range_available pf a b = Inr (\<forall>e \<in> {a..b}. has_epoch e db)"
proof -
  have ab: "a \<le> b" using assms(2) by (simp add: valid_epoch_range_def)
  have wf: "wf_duties db" using assms(1) by (simp add: wf_store_def)
  have "is_range_available a b db = Inr (\<forall>e \<in> {a..b}. has_epoch e db)" using complete_range[OF wf ab] by blast
  then have h: "fst (handle max_range 0 (EpochsCheck a b) db) = Inr (ABool (\<forall>e \<in> {a..b}. has_epoch e db))"
    using assms(2) by (simp add: handle_def checked_def internal_def)
  show ?thesis
    using pf_get_served[OF assms(3) server_routes(2)[of _ _ _ _ a b] refl, where validate = data_is_bool, unfolded h]
    by (simp add: pf_is_range_available_def get_without_fallbacks_def respond_def OK_def split_data_def data_is_bool_def)
qed

lemma mapH_served:
  assumes "\<And>x. x \<in> set xs \<Longrightarrow> if P x then f x = Inr (g x) else \<exists>e. f x = Inl e"
  shows "if \<forall>x \<in> set xs. P x then mapH f xs = Inr (map g xs) else \<exists>e. mapH f xs = Inl e"
  using assms
proof (induction xs)
  case (Cons x xs)
  have x: "if P x then f x = Inr (g x) else \<exists>e. f x = Inl e" using Cons.prems by simp
  have "if \<forall>x \<in> set xs. P x then mapH f xs = Inr (map g xs) else \<exists>e. mapH f xs = Inl e" using Cons by simp
  then show ?case using x by (cases "P x") (auto split: if_splits)
qed simp

lemma upto_ends: "l \<le> m \<Longrightarrow> hd [l..m] = l \<and> last [l..m] = (m :: int)"
  using upto_rec1[of l m] upto_rec2[of l m] by (metis last_snoc list.sel(1))

lemma mset_in_ranges:
  assumes "\<forall>r \<in> set rs. \<exists>l m. r = [l..m] \<and> l \<le> m" and "distinct (concat rs)"
  shows "mset (concat (map (\<lambda>r. get_epochs_data (hd r) (last r) db) rs)) =
    image_mset snd (filter_mset (\<lambda>(e, _). e \<in> set (concat rs)) (mset (db_duties db)))"
  using assms
proof (induction rs)
  case (Cons r rs)
  obtain l m where r: "r = [l..m]" "l \<le> m" using Cons.prems(1) by auto
  have ends: "hd r = l" "last r = m" using r upto_ends by simp_all
  have disj: "set r \<inter> set (concat rs) = {}" using Cons.prems(2) by auto
  have "get_epochs_data (hd r) (last r) db = map snd (filter (\<lambda>(e, _). e \<in> set r) (db_duties db))"
    unfolding ends get_epochs_data_def in_range_def by (rule arg_cong[of _ _ "map snd"], rule filter_cong) (auto simp: r)
  moreover have "filter_mset (\<lambda>(e, _). e \<in> set (concat (r # rs))) M =
      filter_mset (\<lambda>(e, _). e \<in> set r) M + filter_mset (\<lambda>(e, _). e \<in> set (concat rs)) M" for M :: "(epoch \<times> duty) multiset"
    using disj by (induction M) auto
  ultimately show ?case using Cons.IH Cons.prems by (auto simp: mset_filter)
qed simp

text \<open>
  C39. The oracle reads from the performance service what the database holds, as long as one of its hosts is
  up. For a range every epoch of which is stored, the client returns the rows of exactly these epochs, each
  once, in however many batches it asks for them, if a batch is no larger than the server allows. If an
  epoch is missing, the whole read fails, and no partial range is taken for a complete one.
\<close>

theorem range_read_exact:
  assumes "wf_store db" and "valid_epoch_range a b"
    and "1 \<le> pf_batch_size pf" and "pf_batch_size pf \<le> max_range"
    and "serving duty_json max_range db pf"
    and "\<And>d. duty_of pf (duty_json d) = Inr d"
  shows "if \<forall>e \<in> {a..b}. has_epoch e db
    then \<exists>ds. pf_get_epochs_data pf a b = Inr ds \<and> mset ds = mset (get_epochs_data a b db) \<and> pf_is_range_available pf a b = Inr True
    else (\<exists>e. pf_get_epochs_data pf a b = Inl e) \<and> pf_is_range_available pf a b = Inr False"
proof -
  let ?bs = "batched (nat (pf_batch_size pf)) [a..b]" and ?all = "\<lambda>r. \<forall>e \<in> set r. has_epoch e db"
  have ab: "a \<le> b" "0 \<le> a" "b \<le> PG_INTEGER_MAX" using assms(2) by (auto simp: valid_epoch_range_def valid_epoch_def)
  have n: "0 < nat (pf_batch_size pf)" using assms(3) by simp
  have whole: "concat ?bs = [a..b]" by (rule concat_batched[OF n])
  have ranges: "\<exists>l m. r = [l..m] \<and> a \<le> l \<and> l \<le> m \<and> m \<le> b \<and> m - l < pf_batch_size pf" if "r \<in> set ?bs" for r
    using batched_ranges[OF n that] assms(3) by auto
  let ?one = "\<lambda>r. bindH (pf_get pf API_EPOCHS_DATA (range_query (hd r) (last r)) data_is_list) (\<lambda>data.
        case data of Plain (JList items) \<Rightarrow> liftH (mapR (duty_of pf) items) | _ \<Rightarrow> Inl (Raised TypeError))"
  have one: "if ?all r then ?one r = Inr (get_epochs_data (hd r) (last r) db) else \<exists>e. ?one r = Inl e" if r: "r \<in> set ?bs" for r
  proof -
    obtain l m where lm: "r = [l..m]" "a \<le> l" "l \<le> m" "m \<le> b" "m - l < pf_batch_size pf" using ranges[OF r] by auto
    have ends: "hd r = l" "last r = m" using lm upto_ends by simp_all
    have "valid_limited_range max_range l m"
      using lm ab assms(4) by (simp add: valid_limited_range_def valid_epoch_range_def valid_epoch_def)
    moreover have "mapR (duty_of pf) (map duty_json ds) = Inr ds" for ds using assms(6) by (induction ds) auto
    ultimately show ?thesis using batch_served[OF assms(1) _ assms(5), of l m] unfolding ends by (auto simp: lm(1) split: if_splits)
  qed
  have read: "if \<forall>r \<in> set ?bs. ?all r
      then pf_get_epochs_data pf a b = Inr (concat (map (\<lambda>r. get_epochs_data (hd r) (last r) db) ?bs))
      else \<exists>e. pf_get_epochs_data pf a b = Inl e"
    unfolding pf_get_epochs_data_def using ab(1) assms(3) mapH_served[of ?bs ?all ?one, OF one]
    by (auto simp: sequence_def split: if_splits)
  have all: "(\<forall>r \<in> set ?bs. ?all r) \<longleftrightarrow> (\<forall>e \<in> {a..b}. has_epoch e db)"
  proof -
    have "(\<forall>r \<in> set ?bs. ?all r) \<longleftrightarrow> (\<forall>e \<in> set (concat ?bs). has_epoch e db)" by auto
    then show ?thesis by (simp add: whole)
  qed
  have "mset (concat (map (\<lambda>r. get_epochs_data (hd r) (last r) db) ?bs)) = mset (get_epochs_data a b db)"
    using mset_in_ranges[of ?bs db] ranges whole by (force simp: get_epochs_data_def in_range_def mset_filter)
  then show ?thesis using read check_served[OF assms(1,2,5)] unfolding all by (simp split: if_splits)
qed

text \<open>
  A small database read two epochs at a time from the second of two hosts, the first being down; the third
  epoch after them is missing.
\<close>

definition demo_duty_json :: "duty \<Rightarrow> json" where
  "demo_duty_json d = JObj
     [(''epoch'', JInt (du_epoch d)), (''missed_attestation_vids'', JList (map JInt (du_missed_attestation_vids d))),
      (''proposals_vids'', JList (map JInt (du_proposals_vids d))), (''proposals_flags'', JList (map JBool (du_proposals_flags d))),
      (''syncs_vids'', JList (map JInt (du_syncs_vids d))), (''syncs_misses'', JList (map JInt (du_syncs_misses d)))]"

definition demo_duty_of :: "json \<Rightarrow> duty res" where
  "demo_duty_of j =
     bindR (kwargs_of j) (\<lambda>kw.
     bindR (int_field kw ''epoch'') (\<lambda>e.
     bindR (list_field json_to_int kw ''missed_attestation_vids'') (\<lambda>misses.
     bindR (list_field json_to_int kw ''proposals_vids'') (\<lambda>proposals.
     bindR (list_field (\<lambda>j. case j of JBool b \<Rightarrow> Inr b | _ \<Rightarrow> Inl TypeError) kw ''proposals_flags'') (\<lambda>flags.
     bindR (list_field json_to_int kw ''syncs_vids'') (\<lambda>syncs.
     bindR (list_field json_to_int kw ''syncs_misses'') (\<lambda>sync_misses.
       Inr \<lparr>du_epoch = e, du_missed_attestation_vids = misses, du_proposals_vids = proposals, du_proposals_flags = flags,
            du_syncs_vids = syncs, du_syncs_misses = sync_misses\<rparr>)))))))"

lemma demo_duty_back: "demo_duty_of (demo_duty_json d) = Inr d"
proof -
  have "list_of json_to_int (JList (map JInt ns)) = Inr ns" for ns by (rule list_of_map) simp
  moreover have "list_of (\<lambda>j. case j of JBool b \<Rightarrow> Inr b | _ \<Rightarrow> Inl TypeError) (JList (map JBool bs)) = Inr bs" for bs
    by (rule list_of_map) simp
  ultimately show ?thesis
    by (simp add: demo_duty_of_def demo_duty_json_def int_field_def list_field_def lookupR_def)
qed

definition demo_pf :: performance_client where
  "demo_pf = \<lparr>pf_hosts = [''http://down'', ''http://performance''],
     pf_net = (\<lambda>host. if host = ''http://down'' then (\<lambda>_. None) else performance_server demo_duty_json 2 demo_db host),
     pf_batch_size = 2, duty_of = demo_duty_of, demand_of = (\<lambda>_. Inl ValueError)\<rparr>"

theorem range_read_exact_witness:
  "\<exists>ds. pf_get_epochs_data demo_pf 0 2 = Inr ds \<and> mset ds = mset (get_epochs_data 0 2 demo_db) \<and>
    (\<exists>e. pf_get_epochs_data demo_pf 0 3 = Inl e)"
proof -
  have wf: "wf_store demo_db" "valid_epoch_range 0 2" "valid_epoch_range 0 3" by code_simp+
  have has: "\<forall>e \<in> {0..2}. has_epoch e demo_db" "\<not> (\<forall>e \<in> {0..3}. has_epoch e demo_db)" by code_simp+
  have h: "1 \<le> pf_batch_size demo_pf" "pf_batch_size demo_pf \<le> 2" "serving demo_duty_json 2 demo_db demo_pf"
    "duty_of demo_pf (demo_duty_json d) = Inr d" for d by (simp_all add: demo_pf_def demo_duty_back serving_def)
  show ?thesis using range_read_exact[OF wf(1,2) h] range_read_exact[OF wf(1,3) h] has by (auto simp del: atLeastAtMost_iff)
qed

end
