(* ===== verification/Startup.thy ===== *)
theory Startup
  imports Consensus_Client Keys_Client
begin

text \<open>
  Start-up: the environment checks of \<open>src/variables.py\<close>, the choice of the module in \<open>src/main.py\<close>, the
  set-up of \<open>src/modules/oracles/common/runtime.py\<close> and the delegation of
  \<open>src/web3py/extensions/delegation.py\<close>. \<open>env\<close> is the process environment. The provider of the execution
  layer and the comparison of versions are third-party code, so their answers are arguments.
\<close>

section \<open>Environment variables\<close>

type_synonym environment = "string \<Rightarrow> string option"

fun split_commas :: "string \<Rightarrow> string list" where
  \<comment> \<open>\<open>s.split(',')\<close>\<close>
  "split_commas [] = [[]]"
| "split_commas (c # cs) =
     (if c = CHR '','' then [] # split_commas cs
      else case split_commas cs of [] \<Rightarrow> [[c]] | w # ws \<Rightarrow> (c # w) # ws)"

definition getenv :: "environment \<Rightarrow> string \<Rightarrow> string \<Rightarrow> string" where
  "getenv env name d = (case env name of None \<Rightarrow> d | Some s \<Rightarrow> s)"

definition uris :: "environment \<Rightarrow> string \<Rightarrow> string list" where
  "uris env name = split_commas (getenv env name [])"

definition rstrip :: "string \<Rightarrow> string" where
  "rstrip s = rev (dropWhile ascii_space (rev s))"

definition from_file_or_env :: "environment \<Rightarrow> (string \<Rightarrow> string option) \<Rightarrow> string \<Rightarrow> string option res" where
  \<comment> \<open>\<open>files\<close> gives the text of a path that exists\<close>
  "from_file_or_env env files env_name =
     (let filepath = getenv env (env_name @ ''_FILE'') []
      in if filepath \<noteq> [] then (case files filepath of None \<Rightarrow> Inl ValueError | Some text \<Rightarrow> Inr (Some (rstrip text)))
         else Inr (env env_name))"

definition int_variable :: "environment \<Rightarrow> string \<times> int \<Rightarrow> (string \<times> int) res" where
  "int_variable env nd =
     (case env (fst nd) of None \<Rightarrow> Inr nd | Some s \<Rightarrow> bindR (int_of_str s) (\<lambda>n. Inr (fst nd, n)))"

definition flag_variable :: "environment \<Rightarrow> string \<Rightarrow> string \<Rightarrow> bool" where
  "flag_variable env name d \<longleftrightarrow> lower (getenv env name d) = ''true''"

definition app_int_variables :: "(string \<times> int) list" where
  "app_int_variables =
     [(''FINALIZATION_BATCH_MAX_REQUEST_COUNT'', 1000), (''EL_REQUESTS_BATCH_SIZE'', 500), (''TX_GAS_ADDITION'', 100000),
      (''EVENTS_SEARCH_STEP'', 7200)]"

definition fee_int_variables :: "(string \<times> int) list" where
  "fee_int_variables = [(''MIN_PRIORITY_FEE'', 10000000), (''MAX_PRIORITY_FEE'', 10000000000), (''PRIORITY_FEE_PERCENTILE'', 3)]"

definition daemon_int_variables :: "(string \<times> int) list" where
  "daemon_int_variables = [(''SUBMIT_DATA_DELAY_IN_SLOTS'', 6), (''CYCLE_SLEEP_IN_SECONDS'', 12)]"

definition http_int_variables :: "(string \<times> int) list" where
  "http_int_variables =
     [(''HTTP_REQUEST_TIMEOUT_EXECUTION'', 120), (''HTTP_REQUEST_TIMEOUT_CONSENSUS'', 300),
      (''HTTP_REQUEST_RETRY_COUNT_CONSENSUS'', 5), (''HTTP_REQUEST_SLEEP_BEFORE_RETRY_IN_SECONDS_CONSENSUS'', 5),
      (''HTTP_REQUEST_TIMEOUT_PERFORMANCE'', 60), (''HTTP_REQUEST_RETRY_COUNT_PERFORMANCE'', 3),
      (''HTTP_REQUEST_SLEEP_BEFORE_RETRY_IN_SECONDS_PERFORMANCE'', 2), (''HTTP_REQUEST_TIMEOUT_KEYS_API'', 120),
      (''HTTP_REQUEST_RETRY_COUNT_KEYS_API'', 5), (''HTTP_REQUEST_SLEEP_BEFORE_RETRY_IN_SECONDS_KEYS_API'', 5),
      (''HTTP_REQUEST_TIMEOUT_IPFS'', 15), (''HTTP_REQUEST_RETRY_COUNT_IPFS'', 3)]"

definition service_int_variables :: "(string \<times> int) list" where
  "service_int_variables =
     [(''PROMETHEUS_PORT'', 9000), (''HEALTHCHECK_SERVER_PORT'', 9010), (''PERFORMANCE_WEB_SERVER_API_PORT'', 9020),
      (''PERFORMANCE_WEB_SERVER_DB_CONNECTION_TIMEOUT'', 30), (''PERFORMANCE_WEB_SERVER_DB_STATEMENT_TIMEOUT_MS'', 10000),
      (''PERFORMANCE_WEB_SERVER_MAX_EPOCH_RANGE'', 6300), (''PERFORMANCE_WEB_SERVER_REQUEST_TIMEOUT'', 60),
      (''PERFORMANCE_WEB_SERVER_WORKERS'', 2), (''PERFORMANCE_WEB_SERVER_LIMIT_MAX_REQUESTS'', 0),
      (''PERFORMANCE_WEB_SERVER_LIMIT_CONCURRENCY'', 0), (''PERFORMANCE_COLLECTOR_MAX_CONCURRENCY'', 2),
      (''PERFORMANCE_COLLECTOR_DB_CONNECTION_TIMEOUT'', 30), (''PERFORMANCE_COLLECTOR_DB_STATEMENT_TIMEOUT_MS'', 10000),
      (''PERFORMANCE_COLLECTOR_EPOCHS_BATCH_SIZE'', 100), (''PERFORMANCE_DB_PORT'', 5432), (''PERFORMANCE_DB_POOL_SIZE'', 10),
      (''PERFORMANCE_DB_MAX_OVERFLOW'', 20), (''PERFORMANCE_DB_POOL_RECYCLE_SECONDS'', 3600),
      (''MAX_CYCLE_LIFETIME_IN_SECONDS'', 3000), (''VAULT_PAGINATION_LIMIT'', 100),
      (''VAULT_VALIDATOR_STATUSES_BATCH_SIZE'', 100), (''BLOCK_BATCH_SIZE_LIMIT'', 10),
      (''TELEMETRY_DIAGNOSTIC_INTERVAL_SECONDS'', 3600)]"

definition assertR :: "bool \<Rightarrow> unit res" where
  "assertR b = (if b then Inr () else Inl AssertionError)"

definition table_get :: "(string \<times> int) list \<Rightarrow> string \<Rightarrow> int" where
  "table_get ints name = (case map_of ints name of None \<Rightarrow> 0 | Some n \<Rightarrow> n)"

record settings =
  se_ints :: "(string \<times> int) list"
  se_daemon :: bool
  se_allow_reporting_in_bunker_mode :: bool
  se_ipfs_validate_cid :: bool
  se_max_concurrency :: int
  se_limit_max_requests :: "int option"
  se_limit_concurrency :: "int option"
  se_pinata :: "string option \<times> string option" \<comment> \<open>\<open>PINATA_JWT\<close>, \<open>PINATA_DEDICATED_GATEWAY_TOKEN\<close>\<close>
  se_account :: "hexstr option"
  se_telemetry_account :: "hexstr option"

definition setting :: "settings \<Rightarrow> string \<Rightarrow> int" where
  "setting se name = table_get (se_ints se) name"

definition account_of :: "(string \<Rightarrow> hexstr res) \<Rightarrow> string option \<Rightarrow> hexstr option \<Rightarrow> hexstr option res" where
  \<comment> \<open>\<open>Account.from_key(key) if key else default\<close>\<close>
  "account_of from_key key d =
     (case key of None \<Rightarrow> Inr d | Some k \<Rightarrow> if k = [] then Inr d else bindR (from_key k) (\<lambda>a. Inr (Some a)))"

definition or_none :: "int \<Rightarrow> int option" where
  "or_none n = (if n = 0 then None else Some n)"

definition read_variables ::
    "environment \<Rightarrow> (string \<Rightarrow> string option) \<Rightarrow> (string \<Rightarrow> hexstr res) \<Rightarrow> settings res" where
  \<comment> \<open>the import of \<open>src.variables\<close>, in its order\<close>
  "read_variables env files from_key =
     bindR (from_file_or_env env files ''PINATA_JWT'') (\<lambda>jwt.
     bindR (from_file_or_env env files ''PINATA_DEDICATED_GATEWAY_TOKEN'') (\<lambda>token.
     bindR (int_variable env (''KUBO_RPC_PORT'', 5001)) (\<lambda>kubo.
     bindR (from_file_or_env env files ''MEMBER_PRIV_KEY'') (\<lambda>member_key.
     bindR (account_of from_key member_key None) (\<lambda>account.
     bindR (from_file_or_env env files ''TELEMETRY_PRIV_KEY'') (\<lambda>telemetry_key.
     bindR (account_of from_key telemetry_key account) (\<lambda>telemetry_account.
     bindR (mapR (int_variable env) app_int_variables) (\<lambda>app.
     bindR (assertR (map_of app ''EVENTS_SEARCH_STEP'' \<noteq> Some 0)) (\<lambda>_.
     bindR (mapR (int_variable env) fee_int_variables) (\<lambda>fee.
     let daemon = flag_variable env ''DAEMON'' ''True'' in
     bindR (if daemon then mapR (int_variable env) daemon_int_variables
            else Inr [(''SUBMIT_DATA_DELAY_IN_SLOTS'', 0), (''CYCLE_SLEEP_IN_SECONDS'', 0)]) (\<lambda>delays.
     bindR (mapR (int_variable env) http_int_variables) (\<lambda>http.
     bindR (mapR (int_variable env) service_int_variables) (\<lambda>service.
       let ints = [kubo] @ app @ fee @ delays @ http @ service
       in Inr \<lparr>se_ints = ints, se_daemon = daemon,
              se_allow_reporting_in_bunker_mode =
                (if daemon then flag_variable env ''ALLOW_REPORTING_IN_BUNKER_MODE'' ''False'' else True),
              se_ipfs_validate_cid = flag_variable env ''IPFS_VALIDATE_CID'' ''True'',
              se_max_concurrency = min 32 (table_get service ''PERFORMANCE_COLLECTOR_MAX_CONCURRENCY''),
              se_limit_max_requests = or_none (table_get service ''PERFORMANCE_WEB_SERVER_LIMIT_MAX_REQUESTS''),
              se_limit_concurrency = or_none (table_get service ''PERFORMANCE_WEB_SERVER_LIMIT_CONCURRENCY''),
              se_pinata = (jwt, token), se_account = account, se_telemetry_account = telemetry_account\<rparr>)))))))))))))"

section \<open>Required variables\<close>

datatype oracle_module_name = ACCOUNTING | EJECTOR | CHECK | CSM | CM | PERFORMANCE_WEB_SERVER | PERFORMANCE_COLLECTOR

definition check_uri_required_variables :: "environment \<Rightarrow> string list" where
  "check_uri_required_variables env =
     filter (\<lambda>name. [] \<in> set (uris env name)) [''EXECUTION_CLIENT_URI'', ''CONSENSUS_CLIENT_URI'', ''KEYS_API_URI'']"

definition check_all_required_variables :: "environment \<Rightarrow> oracle_module_name \<Rightarrow> string list" where
  "check_all_required_variables env m =
     check_uri_required_variables env @
     (if m \<noteq> CSM \<and> m \<noteq> CM \<and> getenv env ''LIDO_LOCATOR_ADDRESS'' [] = [] then [''LIDO_LOCATOR_ADDRESS''] else []) @
     (if (m = CSM \<or> m = CM) \<and> getenv env ''STAKING_MODULE_ADDRESS'' [] = [] then [''STAKING_MODULE_ADDRESS''] else [])"

definition check_performance_db_required_variables :: "environment \<Rightarrow> int \<Rightarrow> string list" where
  "check_performance_db_required_variables env port =
     (if getenv env ''PERFORMANCE_DB_HOST'' ''localhost'' = [] then [''PERFORMANCE_DB_HOST is empty''] else []) @
     (if port \<le> 0 then [''PERFORMANCE_DB_PORT must be positive''] else []) @
     (if getenv env ''PERFORMANCE_DB_NAME'' ''performance'' = [] then [''PERFORMANCE_DB_NAME is empty''] else []) @
     (if getenv env ''PERFORMANCE_DB_USER'' ''performance'' = [] then [''PERFORMANCE_DB_USER is empty''] else []) @
     (if getenv env ''PERFORMANCE_DB_PASSWORD'' ''performance'' = [] then [''PERFORMANCE_DB_PASSWORD is empty''] else [])"

definition check_perf_collector_required_variables :: "environment \<Rightarrow> int \<Rightarrow> string list" where
  "check_perf_collector_required_variables env port =
     check_performance_db_required_variables env port @
     filter (\<lambda>name. [] \<in> set (uris env name)) [''CONSENSUS_CLIENT_URI'']"

definition check_perf_web_server_required_variables :: "environment \<Rightarrow> int \<Rightarrow> string list" where
  "check_perf_web_server_required_variables env port = check_performance_db_required_variables env port"

definition raise_from_errors :: "string list \<Rightarrow> unit res" where
  "raise_from_errors errors = (if errors \<noteq> [] then Inl ValueError else Inr ())"

definition main_checks :: "environment \<Rightarrow> settings \<Rightarrow> oracle_module_name \<Rightarrow> unit res" where
  \<comment> \<open>\<open>main\<close> up to the entry point of the module\<close>
  "main_checks env se m =
     raise_from_errors
       (case m of
          CHECK \<Rightarrow> check_uri_required_variables env
        | PERFORMANCE_WEB_SERVER \<Rightarrow> check_perf_web_server_required_variables env (setting se ''PERFORMANCE_DB_PORT'')
        | PERFORMANCE_COLLECTOR \<Rightarrow> check_perf_collector_required_variables env (setting se ''PERFORMANCE_DB_PORT'')
        | _ \<Rightarrow> check_all_required_variables env m)"

section \<open>Delegation\<close>

definition ZERO_ADDRESS :: hexstr where "ZERO_ADDRESS = ''0x'' @ replicate 40 CHR ''0''"

definition validate_delegation_setup :: "hexstr option \<Rightarrow> hexstr res \<Rightarrow> hexstr res \<Rightarrow> unit res" where
  "validate_delegation_setup account get_delegatee get_admin =
     (case account of
        None \<Rightarrow> Inr ()
      | Some oracle_address \<Rightarrow>
          bindR get_delegatee (\<lambda>current_delegatee.
            if current_delegatee = ZERO_ADDRESS then Inl NotConfiguredError
            else if lower current_delegatee \<noteq> lower oracle_address then Inl DelegateMismatchError
            else bindR get_admin (\<lambda>_. Inr ())))"

definition new_delegation_module :: "hexstr \<Rightarrow> hexstr option \<Rightarrow> hexstr res \<Rightarrow> hexstr res \<Rightarrow> bool res" where
  \<comment> \<open>whether delegation is enabled\<close>
  "new_delegation_module delegation_address account get_delegatee get_admin =
     (if delegation_address \<noteq> [] then bindR (validate_delegation_setup account get_delegatee get_admin) (\<lambda>_. Inr True)
      else Inr False)"

definition wrap_call_for_delegation :: "bool \<Rightarrow> hexstr \<Rightarrow> hexstr \<Rightarrow> (hexstr \<times> bytes) res" where
  \<comment> \<open>the arguments of \<open>execute\<close>, from the checksummed target and the encoded call\<close>
  "wrap_call_for_delegation enabled target_address encoded =
     (if \<not> enabled then Inl RuntimeError
      else bindR (fromhex (drop 2 encoded)) (\<lambda>calldata. Inr (target_address, calldata)))"

section \<open>Building the clients\<close>

record world =
  wo_files :: "string \<Rightarrow> string option"
  wo_from_key :: "string \<Rightarrow> hexstr res" \<comment> \<open>the address of a private key\<close>
  wo_net :: network
  wo_kapi_net :: "nat \<Rightarrow> network"
  wo_execution_chain_ids :: "int hres list"
  wo_version_ok :: "string \<Rightarrow> bool" \<comment> \<open>\<open>Version(v) \<ge> ALLOWED_KAPI_VERSION\<close>\<close>
  wo_delegatee :: "hexstr res"
  wo_admin :: "hexstr res"

record oracle_web3 =
  ow_cc :: consensus_client
  ow_kac :: kapi_client
  ow_delegation :: bool
  ow_account :: "hexstr option"
  ow_ipfs :: "string list"
  ow_performance :: "string list"

definition build_web3_base :: "environment \<Rightarrow> settings \<Rightarrow> world \<Rightarrow> oracle_web3 res" where
  "build_web3_base env se w =
     bindR (new_http_provider (uris env ''CONSENSUS_CLIENT_URI'')) (\<lambda>cc_hosts.
     bindR (new_http_provider (uris env ''KEYS_API_URI'')) (\<lambda>ka_hosts.
       let cc = \<lparr>cc_hosts = cc_hosts, cc_net = wo_net w\<rparr>;
           kac = \<lparr>ka_hosts = ka_hosts, ka_retry_count = nat (setting se ''HTTP_REQUEST_RETRY_COUNT_KEYS_API''), ka_net = wo_kapi_net w\<rparr>
       in bindR (to_res (kapi_get_status kac)) (\<lambda>status.
          if \<not> wo_version_ok w (ks_app_version status) then Inl IncompatibleException
          else
            bindR (check_providers_chain_ids (map (kapi_get_chain_id kac) ka_hosts) (map (cc_get_chain_id cc) cc_hosts)
                     (wo_execution_chain_ids w)) (\<lambda>_.
            bindR (new_delegation_module (getenv env ''DELEGATION_CONTRACT_ADDRESS'' []) (se_account se) (wo_delegatee w) (wo_admin w))
              (\<lambda>delegation. Inr \<lparr>ow_cc = cc, ow_kac = kac, ow_delegation = delegation, ow_account = se_account se,
                 ow_ipfs = [], ow_performance = []\<rparr>)))))"

definition truthy_text :: "string option \<Rightarrow> bool" where
  "truthy_text s \<longleftrightarrow> s \<noteq> None \<and> s \<noteq> Some []"

definition ipfs_providers :: "environment \<Rightarrow> settings \<Rightarrow> string list" where
  \<comment> \<open>the classes, in the order of their priority\<close>
  "ipfs_providers env se =
     (if truthy_text (env ''LIDO_IPFS_HOST'') \<and> truthy_text (env ''LIDO_IPFS_TOKEN'') then [''LidoIPFS''] else []) @
     (if truthy_text (fst (se_pinata se)) \<and> truthy_text (env ''PINATA_DEDICATED_GATEWAY_URL'') \<and> truthy_text (snd (se_pinata se))
      then [''Pinata''] else []) @
     (if truthy_text (env ''FILEBASE_IPFS_HOST'') \<and> truthy_text (env ''FILEBASE_IPFS_TOKEN'') then [''Filebase''] else []) @
     (if truthy_text (env ''KUBO_HOST'') then [''Kubo''] else [])"

definition new_ipfs :: "string list \<Rightarrow> string list res" where
  "new_ipfs providers = bindR (assertR (providers \<noteq> [])) (\<lambda>_. Inr providers)"

definition build_oracle_web3 :: "environment \<Rightarrow> settings \<Rightarrow> world \<Rightarrow> oracle_web3 res" where
  "build_oracle_web3 env se w =
     bindR (build_web3_base env se w) (\<lambda>web3.
     bindR (new_ipfs (ipfs_providers env se)) (\<lambda>ipfs. Inr (web3\<lparr>ow_ipfs := ipfs\<rparr>)))"

definition build_staking_module_web3 :: "environment \<Rightarrow> settings \<Rightarrow> world \<Rightarrow> oracle_web3 res" where
  "build_staking_module_web3 env se w =
     bindR (build_web3_base env se w) (\<lambda>web3.
       let performance_uri = uris env ''PERFORMANCE_COLLECTOR_URI''
       in if performance_uri = [] \<or> [] \<in> set performance_uri then Inl ValueError
          else
            bindR (new_http_provider performance_uri) (\<lambda>performance.
            bindR (new_ipfs (ipfs_providers env se)) (\<lambda>ipfs.
              Inr (web3\<lparr>ow_performance := performance, ow_ipfs := ipfs\<rparr>))))"

definition start_oracle :: "environment \<Rightarrow> world \<Rightarrow> oracle_module_name \<Rightarrow> oracle_web3 option res" where
  \<comment> \<open>\<open>main\<close> up to \<open>run_oracle_module\<close>; the sidecars and the checks build no oracle\<close>
  "start_oracle env w m =
     bindR (read_variables env (wo_files w) (wo_from_key w)) (\<lambda>se.
     bindR (main_checks env se m) (\<lambda>_.
       if m = ACCOUNTING \<or> m = EJECTOR then bindR (build_oracle_web3 env se w) (\<lambda>web3. Inr (Some web3))
       else if m = CSM \<or> m = CM then bindR (build_staking_module_web3 env se w) (\<lambda>web3. Inr (Some web3))
       else Inr None))"

definition run_oracle_module :: "settings \<Rightarrow> unit res \<Rightarrow> (unit \<Rightarrow> 'a res) \<Rightarrow> (unit \<Rightarrow> 'a res) \<Rightarrow> 'a res" where
  \<comment> \<open>start-up telemetry never fails\<close>
  "run_oracle_module se check_contract_configs run_as_daemon cycle_handler =
     bindR check_contract_configs (\<lambda>_. if se_daemon se then run_as_daemon () else cycle_handler ())"

section \<open>A safe start\<close>

lemma negative_search_step_accepted:
  "\<exists>se. read_variables (\<lambda>name. if name = ''EVENTS_SEARCH_STEP'' then Some ''-5'' else None) (\<lambda>_. None) (\<lambda>_. Inl ValueError) = Inr se \<and>
     setting se ''EVENTS_SEARCH_STEP'' = -5"
proof -
  have "case read_variables (\<lambda>name. if name = ''EVENTS_SEARCH_STEP'' then Some ''-5'' else None) (\<lambda>_. None) (\<lambda>_. Inl ValueError) of
      Inr se \<Rightarrow> setting se ''EVENTS_SEARCH_STEP'' = -5 | Inl _ \<Rightarrow> False" by code_simp
  then show ?thesis by (auto split: sum.splits)
qed

lemma split_commas_some: "split_commas s \<noteq> []"
  by (induction s) (auto split: list.splits)

text \<open>What the base of every oracle has established.\<close>

definition connected :: "world \<Rightarrow> oracle_web3 \<Rightarrow> bool" where
  "connected w web3 \<longleftrightarrow>
     (\<exists>c. (\<forall>host \<in> set (cc_hosts (ow_cc web3)). cc_get_chain_id (ow_cc web3) host = Inr c) \<and>
          (\<forall>host \<in> set (ka_hosts (ow_kac web3)). kapi_get_chain_id (ow_kac web3) host = Inr c) \<and>
          (\<forall>x \<in> set (wo_execution_chain_ids w). x = Inr c)) \<and>
     (\<exists>status. kapi_get_status (ow_kac web3) = Inr status \<and> wo_version_ok w (ks_app_version status)) \<and>
     (ow_delegation web3 \<longrightarrow> (\<forall>account. ow_account web3 = Some account \<longrightarrow>
        (\<exists>d. wo_delegatee w = Inr d \<and> d \<noteq> ZERO_ADDRESS \<and> lower d = lower account)))"

lemma base_connected:
  assumes "build_web3_base env se w = Inr web3" and "wo_execution_chain_ids w \<noteq> []"
  shows "connected w web3 \<and> cc_hosts (ow_cc web3) = uris env ''CONSENSUS_CLIENT_URI'' \<and>
    ka_hosts (ow_kac web3) = uris env ''KEYS_API_URI''"
proof -
  let ?cc = "\<lparr>cc_hosts = uris env ''CONSENSUS_CLIENT_URI'', cc_net = wo_net w\<rparr>"
    and ?kac = "\<lparr>ka_hosts = uris env ''KEYS_API_URI'',
      ka_retry_count = nat (setting se ''HTTP_REQUEST_RETRY_COUNT_KEYS_API''), ka_net = wo_kapi_net w\<rparr>"
  obtain status delegation where web3: "ow_cc web3 = ?cc" "ow_kac web3 = ?kac" "ow_delegation web3 = delegation"
      "ow_account web3 = se_account se"
    and status: "to_res (kapi_get_status ?kac) = Inr status" "wo_version_ok w (ks_app_version status)"
    and chains: "check_providers_chain_ids (map (kapi_get_chain_id ?kac) (ka_hosts ?kac)) (map (cc_get_chain_id ?cc) (cc_hosts ?cc))
        (wo_execution_chain_ids w) = Inr ()"
    and del: "new_delegation_module (getenv env ''DELEGATION_CONTRACT_ADDRESS'' []) (se_account se) (wo_delegatee w) (wo_admin w) =
        Inr delegation"
    using assms(1) by (auto simp: build_web3_base_def bindR_eq_Inr new_http_provider_def Let_def split: if_splits)
  have "kapi_get_status ?kac = Inr status" using status(1) by (cases "kapi_get_status ?kac") auto
  moreover obtain c where "\<forall>x \<in> set (map (kapi_get_chain_id ?kac) (ka_hosts ?kac) @
      map (cc_get_chain_id ?cc) (cc_hosts ?cc) @ wo_execution_chain_ids w). x = Inr c"
    using iffD1[OF one_chain chains] assms(2) split_commas_some by (auto simp: uris_def)
  then have "(\<forall>host \<in> set (cc_hosts ?cc). cc_get_chain_id ?cc host = Inr c) \<and>
         (\<forall>host \<in> set (ka_hosts ?kac). kapi_get_chain_id ?kac host = Inr c) \<and>
         (\<forall>x \<in> set (wo_execution_chain_ids w). x = Inr c)" by auto
  moreover have "\<exists>d. wo_delegatee w = Inr d \<and> d \<noteq> ZERO_ADDRESS \<and> lower d = lower account"
    if "delegation" "se_account se = Some account" for account
    using del that by (auto simp: new_delegation_module_def validate_delegation_setup_def bindR_eq_Inr split: if_splits)
  ultimately show ?thesis using status(2) unfolding connected_def web3 by auto
qed

lemma uris_configured:
  assumes "main_checks env se m = Inr ()" and "m \<in> {ACCOUNTING, EJECTOR, CSM, CM}"
  shows "[] \<notin> set (uris env ''CONSENSUS_CLIENT_URI'') \<and> [] \<notin> set (uris env ''KEYS_API_URI'')"
  using assms by (auto simp: main_checks_def raise_from_errors_def check_all_required_variables_def
      check_uri_required_variables_def split: if_splits)

lemma oracle_built:
  assumes "build_oracle_web3 env se w = Inr web3"
  shows "\<exists>base. build_web3_base env se w = Inr base \<and> web3 = base\<lparr>ow_ipfs := ipfs_providers env se\<rparr> \<and>
    ipfs_providers env se \<noteq> []"
  using assms by (auto simp: build_oracle_web3_def bindR_eq_Inr new_ipfs_def assertR_def split: if_splits)

lemma staking_module_built:
  assumes "build_staking_module_web3 env se w = Inr web3"
  shows "\<exists>base. build_web3_base env se w = Inr base \<and> ipfs_providers env se \<noteq> [] \<and>
    web3 = base\<lparr>ow_performance := uris env ''PERFORMANCE_COLLECTOR_URI'', ow_ipfs := ipfs_providers env se\<rparr> \<and>
    uris env ''PERFORMANCE_COLLECTOR_URI'' \<noteq> [] \<and> [] \<notin> set (uris env ''PERFORMANCE_COLLECTOR_URI'')"
  using assms unfolding build_staking_module_web3_def bindR_eq_Inr new_ipfs_def assertR_def new_http_provider_def Let_def
  by (elim exE conjE, simp split: if_splits)

text \<open>
  C38. An oracle that comes up is connected to one chain and allowed to report: its consensus and keys API
  hosts are configured, every one of them and every execution provider answers the same chain id, the keys
  API is recent enough, at least one IPFS provider is configured, a staking module oracle has the hosts of
  the performance database, and, when it reports through a delegation contract, that contract's delegatee
  is the oracle's account. One host on another chain, or one that does not answer, stops the start.
\<close>

theorem start_up_safe:
  assumes "start_oracle env w m = Inr (Some web3)" and "wo_execution_chain_ids w \<noteq> []"
  shows "connected w web3 \<and> [] \<notin> set (cc_hosts (ow_cc web3)) \<and> [] \<notin> set (ka_hosts (ow_kac web3)) \<and>
    ow_ipfs web3 \<noteq> [] \<and> (m = CSM \<or> m = CM \<longrightarrow> ow_performance web3 \<noteq> [] \<and> [] \<notin> set (ow_performance web3))"
proof -
  obtain se where checks: "main_checks env se m = Inr ()" and
    built: "(m \<in> {ACCOUNTING, EJECTOR} \<and> build_oracle_web3 env se w = Inr web3) \<or>
      (m \<in> {CSM, CM} \<and> build_staking_module_web3 env se w = Inr web3)"
    using assms(1) by (auto simp: start_oracle_def bindR_eq_Inr split: if_splits)
  have m: "m \<in> {ACCOUNTING, EJECTOR, CSM, CM}" using built by auto
  obtain base where b: "build_web3_base env se w = Inr base"
    and same: "ow_cc web3 = ow_cc base" "ow_kac web3 = ow_kac base" "ow_delegation web3 = ow_delegation base"
      "ow_account web3 = ow_account base" "ow_ipfs web3 \<noteq> []"
      "m = CSM \<or> m = CM \<longrightarrow> ow_performance web3 \<noteq> [] \<and> [] \<notin> set (ow_performance web3)"
    using built by (auto dest!: oracle_built staking_module_built)
  have "connected w web3" using base_connected[OF b assms(2)] unfolding connected_def same(1-4) by blast
  then show ?thesis using base_connected[OF b assms(2)] uris_configured[OF checks m] same by simp
qed

text \<open>A staking module oracle that reports through a delegation contract, with one host of each kind.\<close>

definition demo_env :: environment where
  "demo_env = map_of
     [(''EXECUTION_CLIENT_URI'', ''e''), (''CONSENSUS_CLIENT_URI'', ''c''), (''KEYS_API_URI'', ''k''),
      (''PERFORMANCE_COLLECTOR_URI'', ''p''), (''STAKING_MODULE_ADDRESS'', ''0x5''), (''KUBO_HOST'', ''h''),
      (''MEMBER_PRIV_KEY'', ''key''), (''DELEGATION_CONTRACT_ADDRESS'', ''0xD'')]"

definition demo_host_reply :: "json \<Rightarrow> http_response option" where
  "demo_host_reply j = Some \<lparr>hr_status = 200, hr_text = ''t'', hr_json = Some j, hr_stream = SScalar JNull\<rparr>"

definition demo_world :: world where
  "demo_world = \<lparr>wo_files = (\<lambda>_. None), wo_from_key = (\<lambda>_. Inr ''0xAb''),
     wo_net = (\<lambda>host rq. demo_host_reply (JObj [(''data'', JObj
       [(''DEPOSIT_CHAIN_ID'', JStr ''1''), (''SLOTS_PER_EPOCH'', JStr ''32''), (''DEPOSIT_CONTRACT_ADDRESS'', JStr ''0x0''),
        (''SLOTS_PER_HISTORICAL_ROOT'', JStr ''8192''), (''SECONDS_PER_SLOT'', JStr ''12'')])])),
     wo_kapi_net = (\<lambda>i host rq. demo_host_reply (JObj [(''appVersion'', JStr ''3.0.0''), (''chainId'', JInt 1)])),
     wo_execution_chain_ids = [Inr 1], wo_version_ok = (\<lambda>v. v = ''3.0.0''), wo_delegatee = Inr ''0xaB'', wo_admin = Inr ''0x9''\<rparr>"

theorem start_up_safe_witness:
  "\<exists>web3. start_oracle demo_env demo_world CSM = Inr (Some web3) \<and> ow_delegation web3 \<and> connected demo_world web3 \<and>
     ow_performance web3 \<noteq> []"
proof -
  have "case start_oracle demo_env demo_world CSM of Inr (Some web3) \<Rightarrow> ow_delegation web3 | _ \<Rightarrow> False" by code_simp
  then obtain web3 where web3: "start_oracle demo_env demo_world CSM = Inr (Some web3)" "ow_delegation web3"
    by (auto split: sum.splits option.splits)
  moreover have "wo_execution_chain_ids demo_world \<noteq> []" by (simp add: demo_world_def)
  ultimately show ?thesis using start_up_safe[of demo_env demo_world CSM web3] by blast
qed

end
