(* ===== verification/Spec2Isabelle.thy ===== *)
theory Spec2Isabelle
  imports Accounting_Module Accounting_Report Attest_Bits Block_Times Bunker Bytes Chain
    Checkpoint Collector Consensus Consensus_Client Contracts Converter Daemon Data_Encode
    Distribution Duties Duties_DB Effects Ejector Epoch_Rows Events Exit_Iterator Exit_Order
    Exit_Stats Extra_Data Frame_Duties Http Ipfs Json Keys_Client Lido_Validators Midterm
    Perf_Oracle Performance_Client Prelude Responses Rounding Safe_Border Slots Startup Sweep
    Validator_Service Vault_Fees Vault_Report Vault_Values Web_Server Withdrawal
begin

text \<open>
  Verification of the Lido oracle (\<open>src/\<close>), the off-chain daemon that reads the Ethereum consensus and
  execution layers, computes reports for the Lido protocol and submits them through the HashConsensus
  contracts. Three oracles share one frame: accounting, the ejector, and the performance oracle of the staking
  modules; a sidecar, the performance collector with its web server, keeps the duties of validators in a
  database for the last one.

  \<^bold>\<open>How the code is modelled.\<close> Every definition carries the name of the function, method or class it
  translates (a suffix or prefix where two classes share a name: \<open>cc_\<close> consensus client, \<open>kapi_\<close> keys API,
  \<open>pf_\<close> performance client, \<open>sm_\<close> staking module). Python integers are \<open>int\<close>, dataclasses are records,
  enums are datatypes, dicts are association lists in insertion order (a \<open>defaultdict\<close> is read with a
  default), bytes are lists of integers below 256. \<open>float\<close> and \<open>Decimal\<close> are exact rationals rounded to 53
  binary or 27 decimal digits after every operation (\<open>Rounding\<close>). A raised exception is a value: \<open>'a res\<close> is
  \<open>pyerr + 'a\<close>; an exception of the HTTP layer with its status and text is \<open>http_err\<close>. Code that changes the
  state of the process or of the outside world is an action (\<open>Effects\<close>): it returns a result together with
  the state reached, also when it raises, so a transaction sent before a failure stays sent. What web3
  contracts, the beacon node, the keys API, IPFS and third-party libraries (keccak, SSZ roots, BLS, Merkle
  trees, JSON text, key derivation) answer are functions in environment records, one per service
  (\<open>border_env\<close>, \<open>abnormal_env\<close>, \<open>exit_env\<close>, \<open>ejector_env\<close>, \<open>accounting_env\<close>, \<open>distribution_env\<close>,
  \<open>oracle_env\<close>, \<open>collector_env\<close>); the theorems name what they need of these answers as hypotheses, and each
  has a witness in which concrete functions meet them.

  \<^bold>\<open>Basis.\<close> \<open>Prelude\<close>: exceptions, fallible loops (\<open>foldR\<close>, \<open>mapR\<close>), dicts, batches, the inclusive
  range, and the simplification rules all components use. \<open>Effects\<close>: actions. \<open>Bytes\<close>, \<open>Json\<close>: encodings
  and their inverses. \<open>Rounding\<close>: both number formats, with monotonicity and error bounds in the locale
  \<open>sig_rounding\<close>. \<open>Chain\<close>: constants, blocks, validators, balances, churn. \<open>Converter\<close>: slots, epochs and
  frames; the locale \<open>period_clock\<close> is interpreted on all three partitions of time.

  \<^bold>\<open>Network and start-up.\<close> \<open>Http\<close>: requests with fallback over the hosts and the check that they serve one
  chain; the locale \<open>host_pool\<close> is the contract a client relies on, interpreted on GET, streamed GET, POST and
  DELETE. \<open>Responses\<close>: decoding of every response class. \<open>Consensus_Client\<close>, \<open>Keys_Client\<close>,
  \<open>Performance_Client\<close>: the three clients; their theorems compose them with what their users assume (the
  block lookup of \<open>Slots\<close>, the collector, the model of the web server). \<open>Contracts\<close>: loading of contract
  addresses and detection of moved ones. \<open>Startup\<close>: environment variables, required variables, building of
  the clients, delegation.

  \<^bold>\<open>Blocks and events.\<close> \<open>Slots\<close>: the block a missed slot resolves to. \<open>Block_Times\<close>: timestamps of many
  blocks by interpolation and batches. \<open>Events\<close>: logs in chunks and the lookback window. \<open>Sweep\<close>: the beacon
  state view and the withdrawal sweep.

  \<^bold>\<open>Shared services.\<close> \<open>Lido_Validators\<close>: keys matched with validators, front-run deposits.
  \<open>Validator_Service\<close>: exits and the prediction of rewards. \<open>Safe_Border\<close>, \<open>Midterm\<close>, \<open>Bunker\<close>: when
  withdrawals may be finalized and when bunker mode is on. \<open>Withdrawal\<close>: which requests are finalized.

  \<^bold>\<open>Oracles.\<close> \<open>Consensus\<close>: membership, report blockstamp, hash and data transactions, with everything sent in
  a log. \<open>Daemon\<close>: cycles, slot threshold, exceptions; the locale \<open>daemon_module\<close> holds what every daemon
  shares and is interpreted on the ejector, the accounting oracle, the performance oracle and the collector.
  \<open>Ejector\<close>, \<open>Exit_Order\<close>, \<open>Exit_Iterator\<close>, \<open>Exit_Stats\<close>, \<open>Data_Encode\<close>: the exit report, the order of
  exits with its invariants by rule induction over \<open>exit_trace\<close>, and the encoding. \<open>Accounting_Report\<close>,
  \<open>Accounting_Module\<close>, \<open>Extra_Data\<close>: the accounting report, its three phases as a refinement of the contract
  protocol, and the third phase. \<open>Vault_Values\<close>, \<open>Vault_Fees\<close>, \<open>Vault_Report\<close>: staking vaults.
  \<open>Duties\<close>, \<open>Frame_Duties\<close>, \<open>Distribution\<close>, \<open>Perf_Oracle\<close>: the performance oracle. \<open>Ipfs\<close>: fetching and
  publishing over several providers (locale \<open>content_store\<close>).

  \<^bold>\<open>Sidecar.\<close> \<open>Duties_DB\<close>: the tables and every query. \<open>Attest_Bits\<close>: SSZ bit fields. \<open>Checkpoint\<close>,
  \<open>Epoch_Rows\<close>: which epochs are read from which state and what is written. \<open>Collector\<close>: the daemon, and the
  invariant of the store under any interleaving with requests. \<open>Web_Server\<close>: the routes.

  \<^bold>\<open>Kinds of results.\<close> Safety of what is sent and handed out (reports, exits, finalization, deposits counted,
  start-up); functional exactness of what is computed (rewards, vault values and fees, epoch rows); invariants
  kept by every step (exit statistics, slot thresholds, the store); equivalence of optimised code with its
  reference (chunked events, interpolated timestamps, liquidity fees walked backwards, batched reads); round
  trips through encodings (exit requests, extra data, published trees and vault reports, beacon states);
  bounds (checkpoints); termination (forced exits, IPFS fetches) and progress (finalization batches).

  \<^bold>\<open>Loops, bounds and termination.\<close> A loop that may run forever is a \<open>partial_function\<close> whose \<open>None\<close> is not
  returning: \<open>events_loop\<close> (with a negative \<open>EVENTS_SEARCH_STEP\<close> it does not, lemma
  \<open>negative_step_never_returns\<close>), \<open>page_vaults\<close>, \<open>batches_loop\<close>, \<open>fetch\<close>; the theorems prove that it
  returns. Retries run over the list of attempts the configuration allows. Searches have measures: the
  interval (\<open>bisect_frames\<close>), the number of exitable validators (\<open>get_remaining_forced_validators\<close>), the slot
  (\<open>find_dependent_root\<close>), the length of a list (\<open>calculate_timestamps\<close>). Threads of the collector are a
  schedule, an arbitrary permutation of the epochs; other processes on the store are \<open>pe_outside n\<close>. The
  endless daemon loop is the relation \<open>daemon_runs\<close>. The timeout of a cycle is an exception the cycle may
  raise anywhere. Caches (\<open>lru_cache\<close>) are left out where the cached call is a function of its arguments.

  \<^bold>\<open>Not modelled.\<close> The wrappers of single contract calls under \<open>src/providers/execution/contracts\<close> (their
  answers are the environment records; only the ones that compute are translated: \<open>vault_hub.py\<close>,
  \<open>lazy_oracle.py\<close>, \<open>cs_parameters_registry.py\<close>, \<open>meta_registry.py\<close>), the request bodies of the IPFS
  providers and the computation of CIDs, logs, metrics, telemetry, health checks, the self-check suites, the
  write-only performance log, sleeping, and the session manager that counts requests: they are input and
  output around the modelled code and decide nothing.
\<close>

end
